(* ===== verification/Prelude.thy ===== *)
theory Prelude
  imports Complex_Main "HOL-Library.Product_Lexorder"
begin

text \<open>
  Shared vocabulary of the development: results with an error branch, list tables and the
  queries the services run on them, and the generic lemmas the component proofs reuse.

  A throwing TypeScript function is a function into \<open>'e + 'a\<close> (\<open>Inl\<close> the error thrown,
  \<open>Inr\<close> the value returned). A database table is a list of rows; the order of the list is the
  order in which the database happens to scan the table, so a theorem about all lists is a
  theorem about every scan order.
\<close>

section \<open>Collections of facts\<close>

named_theorems res_simps \<comment> \<open>unfolding of results\<close>
named_theorems table_simps \<comment> \<open>queries and updates on list tables\<close>

section \<open>Results\<close>

type_synonym id = nat

text \<open>Times are milliseconds since the epoch, as in JavaScript's \<open>Date.getTime()\<close>.\<close>

type_synonym time = int

definition bindR :: "'e + 'a \<Rightarrow> ('a \<Rightarrow> 'e + 'b) \<Rightarrow> 'e + 'b" where
  "bindR r f = (case r of Inl e \<Rightarrow> Inl e | Inr x \<Rightarrow> f x)"

lemma bindR_Inl [simp, res_simps]: "bindR (Inl e) f = Inl e"
  by (simp add: bindR_def)

lemma bindR_Inr [simp, res_simps]: "bindR (Inr x) f = f x"
  by (simp add: bindR_def)

lemma bindR_eq_Inr [res_simps]: "bindR r f = Inr y \<longleftrightarrow> (\<exists>x. r = Inr x \<and> f x = Inr y)"
  by (cases r) auto

lemma bindR_eq_Inl: "bindR r f = Inl e \<longleftrightarrow> r = Inl e \<or> (\<exists>x. r = Inr x \<and> f x = Inl e)"
  by (cases r) auto

lemma bindR_InrE:
  assumes "bindR r f = Inr y"
  obtains x where "r = Inr x" and "f x = Inr y"
  using assms by (cases r) auto

text \<open>A guard that throws.\<close>

definition failIf :: "bool \<Rightarrow> 'e \<Rightarrow> 'e + unit" where
  "failIf b e = (if b then Inl e else Inr ())"

lemma failIf_simps [simp, res_simps]:
  "failIf True e = Inl e" "failIf False e = Inr ()"
  by (simp_all add: failIf_def)

lemma failIf_eq_Inr [simp]: "failIf b e = Inr u \<longleftrightarrow> \<not> b"
  by (simp add: failIf_def)

text \<open>A loop body that may throw, run over a list with a state.\<close>

fun foldR :: "('s \<Rightarrow> 'a \<Rightarrow> 'e + 's) \<Rightarrow> 's \<Rightarrow> 'a list \<Rightarrow> 'e + 's" where
  "foldR f s [] = Inr s"
| "foldR f s (x # xs) = bindR (f s x) (\<lambda>s'. foldR f s' xs)"

text \<open>A list of values each of which may fail.\<close>

fun mapR :: "('a \<Rightarrow> 'e + 'b) \<Rightarrow> 'a list \<Rightarrow> 'e + 'b list" where
  "mapR f [] = Inr []"
| "mapR f (x # xs) = bindR (f x) (\<lambda>y. bindR (mapR f xs) (\<lambda>ys. Inr (y # ys)))"

lemma mapR_map:
  "(\<And>x. x \<in> set xs \<Longrightarrow> f (g x) = Inr x) \<Longrightarrow> mapR f (map g xs) = Inr xs"
  by (induction xs) auto

lemma foldR_append: "foldR f s (xs @ ys) = bindR (foldR f s xs) (\<lambda>s'. foldR f s' ys)"
  by (induction xs arbitrary: s) (auto simp: bindR_def split: sum.splits)

lemma foldR_invariant:
  assumes "foldR f s xs = Inr t" and "I s"
    and "\<And>s x s'. x \<in> set xs \<Longrightarrow> I s \<Longrightarrow> f s x = Inr s' \<Longrightarrow> I s'"
  shows "I t"
  using assms
proof (induction xs arbitrary: s)
  case Nil
  then show ?case by simp
next
  case (Cons x xs)
  from Cons.prems(1) obtain s' where s': "f s x = Inr s'" and rest: "foldR f s' xs = Inr t"
    by (auto elim: bindR_InrE)
  have "I s'" using Cons.prems(2) s' by (rule Cons.prems(3)[rotated]) simp
  show ?case
    by (rule Cons.IH [OF rest \<open>I s'\<close>]) (use Cons.prems(3) in auto)
qed

section \<open>List tables\<close>

text \<open>\<open>updateMany\<close>: every row that matches the predicate is rewritten.\<close>

definition update_where :: "('a \<Rightarrow> bool) \<Rightarrow> ('a \<Rightarrow> 'a) \<Rightarrow> 'a list \<Rightarrow> 'a list" where
  "update_where P f xs = map (\<lambda>x. if P x then f x else x) xs"

text \<open>\<open>deleteMany\<close>: every row that matches is dropped.\<close>

definition delete_where :: "('a \<Rightarrow> bool) \<Rightarrow> 'a list \<Rightarrow> 'a list" where
  "delete_where P xs = filter (\<lambda>x. \<not> P x) xs"

lemma update_where_Nil [simp, table_simps]: "update_where P f [] = []"
  by (simp add: update_where_def)

lemma update_where_Cons [simp, table_simps]:
  "update_where P f (x # xs) = (if P x then f x else x) # update_where P f xs"
  by (simp add: update_where_def)

lemma length_update_where [simp, table_simps]: "length (update_where P f xs) = length xs"
  by (simp add: update_where_def)

lemma set_update_where: "set (update_where P f xs) = (\<lambda>x. if P x then f x else x) ` set xs"
  by (simp add: update_where_def)

lemma set_update_where_one:
  assumes "x \<in> set xs" and "\<And>y. y \<in> set xs \<Longrightarrow> P y \<longleftrightarrow> y = x"
  shows "set (update_where P f xs) = insert (f x) (set xs - {x})"
proof -
  have "set xs = insert x (set xs - {x})" using assms(1) by blast
  then have "set (update_where P f xs) = (\<lambda>y. if P y then f y else y) ` insert x (set xs - {x})"
    by (simp only: set_update_where)
  also have "\<dots> = insert (f x) (set xs - {x})"
    unfolding image_insert using assms by (intro arg_cong2 [where f = insert]) (auto simp: image_iff)
  finally show ?thesis .
qed

lemma update_where_id [table_simps]:
  "(\<And>x. x \<in> set xs \<Longrightarrow> P x \<Longrightarrow> f x = x) \<Longrightarrow> update_where P f xs = xs"
  by (induction xs) auto

lemma map_update_where [table_simps]:
  "(\<And>x. P x \<Longrightarrow> g (f x) = g x) \<Longrightarrow> map g (update_where P f xs) = map g xs"
  by (simp add: update_where_def)

lemma filter_update_where_same [table_simps]:
  "(\<And>x. P x \<Longrightarrow> Q (f x) = Q x) \<Longrightarrow> filter Q (update_where P f xs) = update_where P f (filter Q xs)"
  by (induction xs) auto

lemma filter_update_where_disjoint [table_simps]:
  "(\<And>x. x \<in> set xs \<Longrightarrow> P x \<Longrightarrow> \<not> Q x \<and> \<not> Q (f x)) \<Longrightarrow>
   filter Q (update_where P f xs) = filter Q xs"
  by (induction xs) auto

lemma update_where_update_where [table_simps]:
  "(\<And>x. P x \<Longrightarrow> P (f x)) \<Longrightarrow>
   update_where P g (update_where P f xs) = update_where P (\<lambda>x. g (f x)) xs"
  by (induction xs) auto

lemma update_where_append [table_simps]:
  "update_where P f (xs @ ys) = update_where P f xs @ update_where P f ys"
  by (simp add: update_where_def)

lemma delete_where_Nil [simp, table_simps]: "delete_where P [] = []"
  by (simp add: delete_where_def)

lemma delete_where_id [table_simps]: "(\<And>x. x \<in> set xs \<Longrightarrow> \<not> P x) \<Longrightarrow> delete_where P xs = xs"
  by (induction xs) (auto simp: delete_where_def)

lemma set_delete_where [simp, table_simps]: "set (delete_where P xs) = {x \<in> set xs. \<not> P x}"
  by (auto simp: delete_where_def)

lemma filter_delete_where_disjoint [table_simps]:
  "(\<And>x. x \<in> set xs \<Longrightarrow> P x \<Longrightarrow> \<not> Q x) \<Longrightarrow> filter Q (delete_where P xs) = filter Q xs"
  by (induction xs) (auto simp: delete_where_def)

lemma find_Some_in: "find P xs = Some x \<Longrightarrow> x \<in> set xs \<and> P x"
  by (induction xs) (auto split: if_splits)

lemma find_None_all: "find P xs = None \<longleftrightarrow> (\<forall>x \<in> set xs. \<not> P x)"
  by (auto simp: find_None_iff)

lemma find_cong_filter: "find P xs = (case filter P xs of [] \<Rightarrow> None | x # _ \<Rightarrow> Some x)"
  by (induction xs) auto

lemma find_update_where_same:
  "(\<And>x. P x \<Longrightarrow> Q (f x) = Q x) \<Longrightarrow>
   find Q (update_where P f xs) = map_option (\<lambda>x. if P x then f x else x) (find Q xs)"
  by (induction xs) auto

lemma find_update_where_set:
  "(\<And>x. x \<in> set xs \<Longrightarrow> P x \<Longrightarrow> Q (f x) = Q x) \<Longrightarrow>
   find Q (update_where P f xs) = map_option (\<lambda>x. if P x then f x else x) (find Q xs)"
  by (induction xs) auto

lemma find_update_where_keep:
  "find Q xs = Some i \<Longrightarrow> \<not> P i \<Longrightarrow> (\<And>x. x \<in> set xs \<Longrightarrow> P x \<Longrightarrow> Q (f x) \<Longrightarrow> Q x) \<Longrightarrow>
   find Q (update_where P f xs) = Some i"
  by (induction xs) (auto split: if_splits)

lemma find_append: "find P (xs @ ys) = (case find P xs of None \<Rightarrow> find P ys | Some x \<Rightarrow> Some x)"
  by (induction xs) auto

text \<open>
  \<open>findFirst\<close> with an \<open>orderBy\<close>: the row whose key is least, the first such row of the
  scan where several are. A descending order on a time is the ascending order on its negation.
\<close>

fun least_by :: "('a \<Rightarrow> 'k::linorder) \<Rightarrow> 'a list \<Rightarrow> 'a option" where
  "least_by key [] = None"
| "least_by key (x # xs) =
     (case least_by key xs of
        None \<Rightarrow> Some x
      | Some y \<Rightarrow> Some (if key x \<le> key y then x else y))"

lemma least_by_None [simp]: "least_by key xs = None \<longleftrightarrow> xs = []"
  by (cases xs) (auto split: option.splits)

lemma least_by_mem: "least_by key xs = Some x \<Longrightarrow> x \<in> set xs"
  by (induction xs arbitrary: x) (auto split: option.splits if_splits)

lemma least_by_least: "least_by key xs = Some x \<Longrightarrow> y \<in> set xs \<Longrightarrow> key x \<le> key y"
  by (induction xs arbitrary: x) (fastforce split: option.splits if_splits)+

lemma least_by_ex: "xs \<noteq> [] \<Longrightarrow> \<exists>x. least_by key xs = Some x"
  using least_by_None [of key xs] by (cases "least_by key xs") auto

section \<open>Primary keys\<close>

text \<open>The ids of a table are distinct and were drawn from the counter.\<close>

definition ids_ok :: "('a \<Rightarrow> nat) \<Rightarrow> 'a list \<Rightarrow> nat \<Rightarrow> bool" where
  "ids_ok k xs n \<longleftrightarrow> distinct (map k xs) \<and> (\<forall>x \<in> set xs. k x < n)"

lemma ids_ok_alt: "ids_ok k xs n \<longleftrightarrow> distinct (map k xs) \<and> (\<forall>i \<in> set (map k xs). i < n)"
  by (simp add: ids_ok_def)

lemma ids_ok_map: "map k ys = map k xs \<Longrightarrow> ids_ok k ys n = ids_ok k xs n"
  by (simp only: ids_ok_alt)

lemma ids_ok_mono: "ids_ok k xs n \<Longrightarrow> n \<le> m \<Longrightarrow> ids_ok k xs m"
  by (auto simp: ids_ok_def intro: less_le_trans)

lemma ids_ok_snoc: "ids_ok k xs n \<Longrightarrow> k y = n \<Longrightarrow> ids_ok k (xs @ [y]) (Suc n)"
  by (fastforce simp: ids_ok_def less_Suc_eq)

lemma ids_ok_delete: "ids_ok k xs n \<Longrightarrow> ids_ok k (delete_where P xs) n"
  by (auto simp: ids_ok_def delete_where_def distinct_map_filter)

lemma ids_ok_same: "ids_ok k xs n \<Longrightarrow> x \<in> set xs \<Longrightarrow> y \<in> set xs \<Longrightarrow> k x = k y \<Longrightarrow> x = y"
  by (auto simp: ids_ok_def distinct_map inj_on_def)

lemma ids_ok_find: "ids_ok k xs n \<Longrightarrow> x \<in> set xs \<Longrightarrow> find (\<lambda>y. k y = k x) xs = Some x"
proof (cases "find (\<lambda>y. k y = k x) xs")
  case None
  moreover assume "x \<in> set xs"
  ultimately show ?thesis unfolding find_None_all by blast
next
  case (Some y)
  moreover assume "ids_ok k xs n" "x \<in> set xs"
  ultimately show ?thesis using find_Some_in [OF Some] ids_ok_same [of k xs n y x] by metis
qed

section \<open>Transition systems and their invariants\<close>

text \<open>
  The queues of the system (sync jobs, webhook events, buffer entries) are state machines that
  several processes drive. What they share is stated once: an initial condition, a step
  relation and a predicate that holds initially and that every step keeps.
\<close>

inductive reach :: "('s \<Rightarrow> bool) \<Rightarrow> ('s \<Rightarrow> 's \<Rightarrow> bool) \<Rightarrow> 's \<Rightarrow> bool"
  for init :: "'s \<Rightarrow> bool" and step :: "'s \<Rightarrow> 's \<Rightarrow> bool" where
  reach_init: "init s \<Longrightarrow> reach init step s"
| reach_step: "reach init step s \<Longrightarrow> step s t \<Longrightarrow> reach init step t"

inductive steps :: "('s \<Rightarrow> 's \<Rightarrow> bool) \<Rightarrow> 's \<Rightarrow> 's \<Rightarrow> bool"
  for step :: "'s \<Rightarrow> 's \<Rightarrow> bool" where
  steps_refl: "steps step s s"
| steps_step: "step s t \<Longrightarrow> steps step t u \<Longrightarrow> steps step s u"

lemma steps_one: "step s t \<Longrightarrow> steps step s t"
  by (rule steps_step [OF _ steps_refl])

lemma steps_trans: "steps step s t \<Longrightarrow> steps step t u \<Longrightarrow> steps step s u"
  by (induction rule: steps.induct) (auto intro: steps_step)

locale invariant_system =
  fixes init :: "'s \<Rightarrow> bool"
    and step :: "'s \<Rightarrow> 's \<Rightarrow> bool"
    and inv :: "'s \<Rightarrow> bool"
  assumes inv_init: "init s \<Longrightarrow> inv s"
    and inv_step: "inv s \<Longrightarrow> step s t \<Longrightarrow> inv t"
begin

lemma inv_reach: "reach init step s \<Longrightarrow> inv s"
  by (induction rule: reach.induct) (blast intro: inv_init inv_step)+

lemma inv_steps: "steps step s t \<Longrightarrow> inv s \<Longrightarrow> inv t"
  by (induction rule: steps.induct) (blast intro: inv_step)+

lemma reach_steps: "steps step s t \<Longrightarrow> reach init step s \<Longrightarrow> reach init step t"
  by (induction rule: steps.induct) (blast intro: reach_step)+

end

end
