(* ===== verification/Decimal_Arith.thy ===== *)
theory Decimal_Arith
  imports Prelude
begin

text \<open>
  The arithmetic of \<open>decimal.js\<close>, which every amount of the profit engine goes through. The
  library is not part of the repository: what the code uses of it is the record \<open>dec\<close>, the
  first argument of every definition that computes with amounts, and what the code relies on
  is the locale \<open>decimal_lib\<close>. The values are the rationals a \<open>Decimal\<close> denotes. Each of
  \<open>add\<close>, \<open>sub\<close>, \<open>mul\<close> and \<open>div\<close> rounds its exact result to the library's precision (20
  significant digits, the default, which the repository never changes); negation, comparison
  and \<open>Decimal.max\<close> are exact.

  The laws are interpreted on \<open>dec20\<close>, an executable instance with half-up rounding to 20
  significant digits, so that no theorem about \<open>decimal_lib\<close> is vacuous.
\<close>

section \<open>The operations the code uses\<close>

record dec =
  rnd :: "rat \<Rightarrow> rat"           \<comment> \<open>rounding of an arithmetic result\<close>
  div0 :: "rat \<Rightarrow> rat"          \<comment> \<open>what a division by zero gives (infinite or NaN in the library)\<close>
  dps :: "nat \<Rightarrow> rat \<Rightarrow> rat"    \<comment> \<open>\<open>toDecimalPlaces\<close>\<close>
  fixed :: "nat \<Rightarrow> rat \<Rightarrow> string" \<comment> \<open>\<open>toFixed\<close>\<close>
  tonum :: "rat \<Rightarrow> rat"         \<comment> \<open>\<open>toNumber\<close>: the nearest double\<close>

definition dadd :: "dec \<Rightarrow> rat \<Rightarrow> rat \<Rightarrow> rat" where "dadd D x y = rnd D (x + y)"
definition dsub :: "dec \<Rightarrow> rat \<Rightarrow> rat \<Rightarrow> rat" where "dsub D x y = rnd D (x - y)"
definition dmul :: "dec \<Rightarrow> rat \<Rightarrow> rat \<Rightarrow> rat" where "dmul D x y = rnd D (x * y)"
definition ddiv :: "dec \<Rightarrow> rat \<Rightarrow> rat \<Rightarrow> rat" where
  "ddiv D x y = (if y = 0 then div0 D x else rnd D (x / y))"

lemmas dec_ops = dadd_def dsub_def dmul_def ddiv_def

text \<open>A running sum, \<open>acc = acc.add(f x)\<close> over a list from an initial value.\<close>

definition dsum :: "dec \<Rightarrow> ('a \<Rightarrow> rat) \<Rightarrow> rat \<Rightarrow> 'a list \<Rightarrow> rat" where
  "dsum D f a xs = foldl (\<lambda>acc x. dadd D acc (f x)) a xs"

lemma dsum_Nil [simp]: "dsum D f a [] = a"
  by (simp add: dsum_def)

lemma dsum_Cons [simp]: "dsum D f a (x # xs) = dsum D f (dadd D a (f x)) xs"
  by (simp add: dsum_def)

lemma dsum_append: "dsum D f a (xs @ ys) = dsum D f (dsum D f a xs) ys"
  by (simp add: dsum_def)

section \<open>Grids\<close>

text \<open>The multiples of \<open>10 ^ -n\<close>: the amounts a column with \<open>n\<close> decimal places holds.\<close>

definition on_grid :: "nat \<Rightarrow> rat \<Rightarrow> bool" where
  "on_grid n x \<longleftrightarrow> x * 10 ^ n \<in> \<int>"

lemma on_gridI: "on_grid n (of_int k / 10 ^ n)"
  by (simp add: on_grid_def)

lemma on_gridE:
  assumes "on_grid n x"
  obtains k :: int where "x = of_int k / 10 ^ n"
proof -
  from assms obtain k :: int where "x * 10 ^ n = of_int k"
    by (auto simp: on_grid_def elim: Ints_cases)
  then have "x = of_int k / 10 ^ n" by (simp add: field_simps)
  then show thesis by (rule that)
qed

lemma on_grid_0 [simp]: "on_grid n 0"
  by (simp add: on_grid_def)

lemma on_grid_add [intro]: "on_grid n x \<Longrightarrow> on_grid n y \<Longrightarrow> on_grid n (x + y)"
  by (simp add: on_grid_def distrib_right)

lemma on_grid_diff [intro]: "on_grid n x \<Longrightarrow> on_grid n y \<Longrightarrow> on_grid n (x - y)"
  by (simp add: on_grid_def left_diff_distrib)

lemma on_grid_minus [intro]: "on_grid n x \<Longrightarrow> on_grid n (- x)"
  by (simp add: on_grid_def)

lemma on_grid_max [intro]: "on_grid n x \<Longrightarrow> on_grid n y \<Longrightarrow> on_grid n (max x y)"
  by (simp add: max_def)

lemma on_grid_of_int [simp]: "on_grid n (of_int k)"
  by (simp add: on_grid_def)

lemma on_grid_of_nat [simp]: "on_grid n (of_nat k)"
  by (simp add: on_grid_def)

lemma on_grid_mult_nat [intro]: "on_grid n x \<Longrightarrow> on_grid n (x * of_nat k)"
  using Ints_mult [of "x * 10 ^ n" "of_nat k"] by (simp add: on_grid_def mult_ac)

lemma on_grid_sum_list [intro]:
  "(\<And>x. x \<in> set xs \<Longrightarrow> on_grid n (f x)) \<Longrightarrow> on_grid n (\<Sum>x\<leftarrow>xs. f x)"
  by (induction xs) auto

section \<open>The laws\<close>

text \<open>The rounding error of one operation on amounts up to \<open>10 ^ 12\<close>.\<close>

definition dec_eps :: rat where "dec_eps = 1 / (2 * 10 ^ 8)"

locale decimal_lib =
  fixes D :: dec
  assumes rnd_grid: "\<bar>k\<bar> < 10 ^ 20 \<Longrightarrow> rnd D (of_int k / 10 ^ n) = of_int k / 10 ^ n"
    and rnd_err: "\<bar>x\<bar> \<le> 10 ^ 12 \<Longrightarrow> \<bar>rnd D x - x\<bar> \<le> dec_eps"
    and rnd_mono: "x \<le> y \<Longrightarrow> rnd D x \<le> rnd D y"
    and rnd_odd: "rnd D (- x) = - rnd D x"
    and dps_on_grid: "on_grid n (dps D n x)"
    and dps_grid: "on_grid n x \<Longrightarrow> dps D n x = x"
    and dps_err: "\<bar>dps D n x - x\<bar> \<le> 1 / (2 * 10 ^ n)"
    and dps_mono: "x \<le> y \<Longrightarrow> dps D n x \<le> dps D n y"
    and dps_odd: "dps D n (- x) = - dps D n x"
    and tonum_int: "\<bar>k\<bar> \<le> 2 ^ 53 \<Longrightarrow> tonum D (of_int k) = of_int k"
    and tonum_mono: "x \<le> y \<Longrightarrow> tonum D x \<le> tonum D y"
    and tonum_err: "\<bar>x\<bar> \<le> 10 ^ 6 \<Longrightarrow> \<bar>tonum D x - x\<bar> \<le> 1 / 10 ^ 9"
begin

lemma rnd_0 [simp]: "rnd D 0 = 0"
  using rnd_grid [of 0 0] by simp

lemma rnd_nonneg: "0 \<le> x \<Longrightarrow> 0 \<le> rnd D x"
  using rnd_mono [of 0 x] by simp

lemma rnd_nonpos: "x \<le> 0 \<Longrightarrow> rnd D x \<le> 0"
  using rnd_mono [of x 0] by simp

lemma rnd_on_grid: "on_grid n x \<Longrightarrow> \<bar>x\<bar> * 10 ^ n < 10 ^ 20 \<Longrightarrow> rnd D x = x"
proof -
  assume "on_grid n x" and small: "\<bar>x\<bar> * 10 ^ n < 10 ^ 20"
  then obtain k where k: "x = of_int k / 10 ^ n" by (elim on_gridE)
  have "\<bar>of_int k :: rat\<bar> < of_int (10 ^ 20)" using small unfolding k by (simp add: abs_divide)
  then have "\<bar>k\<bar> < 10 ^ 20" by (metis of_int_abs of_int_less_iff)
  then show "rnd D x = x" unfolding k by (rule rnd_grid)
qed

lemma dps_0 [simp]: "dps D n 0 = 0"
  by (rule dps_grid) simp

text \<open>
  Error propagation: operands within \<open>a\<close> and \<open>b\<close> of exact values give a result within
  \<open>a + b\<close> and one rounding of the exact result.
\<close>

lemma dadd_near:
  assumes "\<bar>x - x'\<bar> \<le> a" and "\<bar>y - y'\<bar> \<le> b" and "\<bar>x'\<bar> + \<bar>y'\<bar> + a + b \<le> 10 ^ 12"
  shows "\<bar>dadd D x y - (x' + y')\<bar> \<le> a + b + dec_eps"
proof -
  have "\<bar>x + y\<bar> \<le> 10 ^ 12" using assms by linarith
  from rnd_err [OF this] assms show ?thesis unfolding dadd_def by linarith
qed

lemma dsub_near:
  assumes "\<bar>x - x'\<bar> \<le> a" and "\<bar>y - y'\<bar> \<le> b" and "\<bar>x'\<bar> + \<bar>y'\<bar> + a + b \<le> 10 ^ 12"
  shows "\<bar>dsub D x y - (x' - y')\<bar> \<le> a + b + dec_eps"
proof -
  have "\<bar>x - y\<bar> \<le> 10 ^ 12" using assms by linarith
  from rnd_err [OF this] assms show ?thesis unfolding dsub_def by linarith
qed

lemma dsum_near:
  assumes "\<bar>a - a'\<bar> \<le> d"
    and "\<bar>a'\<bar> + (\<Sum>x\<leftarrow>xs. \<bar>f x\<bar>) + d + of_nat (length xs) * dec_eps \<le> 10 ^ 12"
  shows "\<bar>dsum D f a xs - (a' + (\<Sum>x\<leftarrow>xs. f x))\<bar> \<le> d + of_nat (length xs) * dec_eps"
  using assms
proof (induction xs arbitrary: a a' d)
  case (Cons x xs)
  have nn: "0 \<le> (\<Sum>x\<leftarrow>xs. \<bar>f x\<bar>)" by (intro sum_list_nonneg) auto
  have e: "0 \<le> of_nat (length xs) * dec_eps" "0 \<le> dec_eps" by (simp_all add: dec_eps_def)
  have len: "of_nat (length (x # xs)) * dec_eps = of_nat (length xs) * dec_eps + dec_eps"
    by (simp add: algebra_simps)
  have total: "\<bar>a'\<bar> + (\<bar>f x\<bar> + (\<Sum>x\<leftarrow>xs. \<bar>f x\<bar>)) + d + (of_nat (length xs) * dec_eps + dec_eps) \<le> 10 ^ 12"
    using Cons.prems(2) unfolding len by simp
  have step: "\<bar>dadd D a (f x) - (a' + f x)\<bar> \<le> d + 0 + dec_eps"
    using Cons.prems(1) total nn e by (intro dadd_near) linarith+
  have "\<bar>dsum D f (dadd D a (f x)) xs - ((a' + f x) + (\<Sum>x\<leftarrow>xs. f x))\<bar>
      \<le> (d + dec_eps) + of_nat (length xs) * dec_eps"
    using step total nn e by (intro Cons.IH) linarith+
  then show ?case unfolding len by (simp add: algebra_simps)
qed simp

text \<open>Sums and differences of amounts on a grid are exact as long as they are small.\<close>

lemma dadd_exact:
  "on_grid n x \<Longrightarrow> on_grid n y \<Longrightarrow> \<bar>x + y\<bar> * 10 ^ n < 10 ^ 20 \<Longrightarrow> dadd D x y = x + y"
  unfolding dadd_def by (intro rnd_on_grid) auto

lemma dsub_exact:
  "on_grid n x \<Longrightarrow> on_grid n y \<Longrightarrow> \<bar>x - y\<bar> * 10 ^ n < 10 ^ 20 \<Longrightarrow> dsub D x y = x - y"
  unfolding dsub_def by (intro rnd_on_grid) auto

lemma dsub_nonneg: "y \<le> x \<Longrightarrow> 0 \<le> dsub D x y"
  unfolding dsub_def by (intro rnd_nonneg) simp

lemma dadd_nonneg: "0 \<le> x \<Longrightarrow> 0 \<le> y \<Longrightarrow> 0 \<le> dadd D x y"
  unfolding dadd_def by (intro rnd_nonneg) simp

lemma dmul_nonneg: "0 \<le> x \<Longrightarrow> 0 \<le> y \<Longrightarrow> 0 \<le> dmul D x y"
  unfolding dmul_def by (intro rnd_nonneg) simp

lemma ddiv_nonneg: "0 \<le> x \<Longrightarrow> 0 < y \<Longrightarrow> 0 \<le> ddiv D x y"
  unfolding ddiv_def by (auto intro: rnd_nonneg)

lemma dsum_nonneg: "0 \<le> a \<Longrightarrow> (\<And>x. x \<in> set xs \<Longrightarrow> 0 \<le> f x) \<Longrightarrow> 0 \<le> dsum D f a xs"
  by (induction xs arbitrary: a) (auto intro: dadd_nonneg)

lemma dps_nonneg: "0 \<le> x \<Longrightarrow> 0 \<le> dps D n x"
  using dps_mono [of 0 x n] by simp

end

section \<open>An executable instance\<close>

text \<open>Rounding to the nearest integer, halves away from zero (\<open>ROUND_HALF_UP\<close>).\<close>

definition half_up :: "rat \<Rightarrow> int" where
  "half_up x = (if 0 \<le> x then \<lfloor>x + 1 / 2\<rfloor> else - \<lfloor>1 / 2 - x\<rfloor>)"

lemma half_up_of_int [simp]: "half_up (of_int k) = k"
  by (simp add: half_up_def) linarith

lemma half_up_err: "\<bar>of_int (half_up x) - x\<bar> \<le> 1 / 2"
  unfolding half_up_def by (simp add: abs_if) linarith

lemma half_up_mono: "x \<le> y \<Longrightarrow> half_up x \<le> half_up y"
  unfolding half_up_def by (auto intro: floor_mono) linarith

lemma half_up_odd: "half_up (- x) = - half_up x"
  unfolding half_up_def by (auto simp: algebra_simps) linarith

text \<open>Rounding to a multiple of \<open>1 / s\<close>.\<close>

definition round_to :: "rat \<Rightarrow> rat \<Rightarrow> rat" where
  "round_to s x = of_int (half_up (x * s)) / s"

lemma round_to_mono: "0 < s \<Longrightarrow> x \<le> y \<Longrightarrow> round_to s x \<le> round_to s y"
  unfolding round_to_def by (intro divide_right_mono) (auto intro: half_up_mono mult_right_mono)

lemma round_to_odd: "round_to s (- x) = - round_to s x"
  unfolding round_to_def by (simp add: half_up_odd)

lemma round_to_err: "0 < s \<Longrightarrow> \<bar>round_to s x - x\<bar> \<le> 1 / (2 * s)"
proof -
  assume s: "0 < s"
  have "round_to s x - x = (of_int (half_up (x * s)) - x * s) / s"
    using s by (simp add: round_to_def field_simps)
  then have "\<bar>round_to s x - x\<bar> = \<bar>of_int (half_up (x * s)) - x * s\<bar> / s"
    using s by (simp add: abs_divide)
  also have "\<dots> \<le> (1 / 2) / s" using half_up_err s by (intro divide_right_mono) auto
  finally show ?thesis by simp
qed

lemma round_to_exact: "s \<noteq> 0 \<Longrightarrow> x * s \<in> \<int> \<Longrightarrow> round_to s x = x"
  by (auto simp: round_to_def field_simps elim!: Ints_cases)

text \<open>The decimal exponent: \<open>10 ^ (mag q - 1) \<le> q < 10 ^ mag q\<close> for positive \<open>q\<close>.\<close>

function mag :: "rat \<Rightarrow> int" where
  "mag q = (if q \<le> 0 then 0
            else if 1 \<le> q then mag (q / 10) + 1
            else if q < 1 / 10 then mag (q * 10) - 1
            else 0)"
  by pat_completeness auto

definition mag_measure :: "rat \<Rightarrow> nat" where
  "mag_measure q = (if 1 \<le> q then nat \<lfloor>q\<rfloor> else if 0 < q \<and> q < 1 / 10 then nat \<lfloor>1 / q\<rfloor> else 0)"

lemma floor_tenth: "10 < (r::rat) \<Longrightarrow> \<lfloor>r / 10\<rfloor> < \<lfloor>r\<rfloor>"
  by linarith

lemma mag_measure_up: "1 \<le> q \<Longrightarrow> mag_measure (q / 10) < mag_measure q"
proof -
  assume q: "1 \<le> q"
  then have pos: "1 \<le> \<lfloor>q\<rfloor>" by simp
  show ?thesis
  proof (cases "1 \<le> q / 10")
    case True
    have "\<lfloor>q / 10\<rfloor> < \<lfloor>q\<rfloor>" using True by linarith
    with True q pos show ?thesis by (simp add: mag_measure_def)
  next
    case False
    with q pos show ?thesis by (simp add: mag_measure_def)
  qed
qed

lemma mag_measure_down:
  assumes "0 < q" and "q < 1 / 10"
  shows "mag_measure (q * 10) < mag_measure q"
proof -
  have inv: "10 < 1 / q" using assms by (simp add: field_simps)
  have "1 / (q * 10) = (1 / q) / 10" using assms by simp
  moreover have "\<lfloor>(1 / q) / 10\<rfloor> < \<lfloor>1 / q\<rfloor>" using inv by (rule floor_tenth)
  moreover have "0 < \<lfloor>1 / q\<rfloor>" using inv by linarith
  ultimately show ?thesis using assms by (auto simp: mag_measure_def)
qed

termination mag
  by (relation "measure mag_measure") (auto simp: mag_measure_up mag_measure_down)

declare mag.simps [simp del]

lemma mag_bounds: "0 < q \<Longrightarrow> 10 powi (mag q - 1) \<le> q \<and> q < 10 powi mag q"
proof (induction q rule: mag.induct)
  case (1 q)
  consider (big) "1 \<le> q" | (small) "q < 1 / 10" | (mid) "1 / 10 \<le> q" "q < 1" by linarith
  then show ?case
  proof cases
    case big
    then have m: "mag q = mag (q / 10) + 1" by (subst mag.simps) simp
    have "10 powi (mag (q / 10) - 1) \<le> q / 10 \<and> q / 10 < 10 powi mag (q / 10)"
      using 1 big by simp
    moreover have "(10::rat) powi (mag (q / 10) + 1) = 10 powi mag (q / 10) * 10"
      by (simp add: power_int_add)
    moreover have "(10::rat) powi mag (q / 10) = 10 powi (mag (q / 10) - 1) * 10"
      by (simp add: power_int_diff)
    ultimately show ?thesis unfolding m by simp
  next
    case small
    then have m: "mag q = mag (q * 10) - 1" using 1(3) by (subst mag.simps) simp
    have b: "10 powi (mag (q * 10) - 1) \<le> q * 10 \<and> q * 10 < 10 powi mag (q * 10)"
      using 1 small by simp
    have e1: "(10::rat) powi (mag (q * 10) - 1 - 1) = 10 powi (mag (q * 10) - 1) / 10"
      by (simp add: power_int_diff)
    have e2: "(10::rat) powi (mag (q * 10) - 1) = 10 powi mag (q * 10) / 10"
      by (simp add: power_int_diff)
    show ?thesis unfolding m e1 using b e2 by simp
  next
    case mid
    then have "mag q = 0" by (subst mag.simps) simp
    with mid show ?thesis by (simp add: power_int_minus)
  qed
qed

lemma mag_mono: "0 < p \<Longrightarrow> p \<le> q \<Longrightarrow> mag p \<le> mag q"
proof (rule ccontr)
  assume p: "0 < p" "p \<le> q" and "\<not> mag p \<le> mag q"
  then have "mag q \<le> mag p - 1" by simp
  then have "(10::rat) powi mag q \<le> 10 powi (mag p - 1)" by (intro power_int_increasing) auto
  with mag_bounds [of p] mag_bounds [of q] p show False by auto
qed

text \<open>Rounding to \<open>p\<close> significant digits.\<close>

definition rnd_sig :: "nat \<Rightarrow> rat \<Rightarrow> rat" where
  "rnd_sig p x = (if x = 0 then 0 else round_to (10 powi (int p - mag \<bar>x\<bar>)) x)"

lemma rnd_sig_odd: "rnd_sig p (- x) = - rnd_sig p x"
  by (simp add: rnd_sig_def round_to_odd)

lemma rnd_sig_exact:
  assumes k: "\<bar>k\<bar> < 10 ^ p"
  shows "rnd_sig p (of_int k / 10 ^ n) = of_int k / 10 ^ n"
proof (cases "k = 0")
  case False
  define x :: rat where "x = of_int k / 10 ^ n"
  have x: "0 < \<bar>x\<bar>" using False by (simp add: x_def)
  have "10 powi (mag \<bar>x\<bar> - 1) \<le> \<bar>x\<bar>" using mag_bounds x by blast
  moreover have "\<bar>x\<bar> < 10 powi (int p - int n)"
  proof -
    have "\<bar>of_int k :: rat\<bar> < 10 ^ p" using k by (metis of_int_abs of_int_less_iff of_int_numeral of_int_power)
    then show ?thesis by (simp add: x_def abs_divide power_int_diff field_simps)
  qed
  ultimately have "(10::rat) powi (mag \<bar>x\<bar> - 1) < 10 powi (int p - int n)" by simp
  then have "mag \<bar>x\<bar> - 1 < int p - int n"
    by (metis linorder_not_le one_le_numeral power_int_increasing)
  then obtain m where m: "int p - mag \<bar>x\<bar> = int n + int m"
    by (metis add.commute diff_add_cancel le_diff_eq nonneg_int_cases zle_diff1_eq
        diff_ge_0_iff_ge diff_right_commute)
  have "x * 10 powi (int p - mag \<bar>x\<bar>) = of_int (k * 10 ^ m)"
    unfolding m by (simp add: x_def power_int_add)
  then have "round_to (10 powi (int p - mag \<bar>x\<bar>)) x = x" by (intro round_to_exact) auto
  then show ?thesis using False by (simp add: rnd_sig_def x_def [symmetric])
qed (simp add: rnd_sig_def)

lemma rnd_sig_err: "\<bar>x\<bar> < 10 powi m \<Longrightarrow> \<bar>rnd_sig p x - x\<bar> \<le> 10 powi (m - int p) / 2"
proof (cases "x = 0")
  case False
  assume small: "\<bar>x\<bar> < 10 powi m"
  have x: "0 < \<bar>x\<bar>" using False by simp
  have "10 powi (mag \<bar>x\<bar> - 1) < (10::rat) powi m" using mag_bounds [OF x] small by linarith
  then have le: "mag \<bar>x\<bar> \<le> m"
    by (metis linorder_not_le one_le_numeral power_int_increasing zle_diff1_eq)
  have "\<bar>rnd_sig p x - x\<bar> \<le> 1 / (2 * 10 powi (int p - mag \<bar>x\<bar>))"
    using False by (simp add: rnd_sig_def round_to_err)
  also have "\<dots> = 10 powi (mag \<bar>x\<bar> - int p) / 2"
    by (simp add: power_int_diff field_simps)
  also have "\<dots> \<le> 10 powi (m - int p) / 2"
    using le by (intro divide_right_mono power_int_increasing) auto
  finally show ?thesis .
qed (simp add: rnd_sig_def)

lemma round_to_power_int:
  assumes "m - int p \<le> e"
  shows "round_to (10 powi (int p - m)) (10 powi e) = 10 powi e"
proof -
  from assms obtain j where j: "int p - m + e = int j"
    using nonneg_int_cases [of "int p - m + e"] by auto
  have "(10::rat) powi e * 10 powi (int p - m) = 10 powi (int p - m + e)"
    by (simp add: power_int_add)
  then have "(10::rat) powi e * 10 powi (int p - m) \<in> \<int>" unfolding j by simp
  then show ?thesis by (simp add: round_to_exact)
qed

text \<open>
  Rounding to significant digits is monotone: within a decade it rounds on one grid, and
  across decades the powers of ten in between lie on both grids.
\<close>

lemma rnd_sig_mono_pos:
  assumes p: "1 \<le> p" and xy: "0 < x" "x \<le> y"
  shows "rnd_sig p x \<le> rnd_sig p y"
proof (cases "mag x = mag y")
  case True
  with xy show ?thesis by (simp add: rnd_sig_def round_to_mono)
next
  case False
  with mag_mono [OF xy] have lt: "mag x \<le> mag y - 1" by simp
  have "rnd_sig p x \<le> round_to (10 powi (int p - mag x)) (10 powi mag x)"
    using xy mag_bounds [of x] by (simp add: rnd_sig_def round_to_mono)
  also have "\<dots> = 10 powi mag x" by (rule round_to_power_int) simp
  also have "\<dots> \<le> 10 powi (mag y - 1)" using lt by (intro power_int_increasing) auto
  also have "\<dots> = round_to (10 powi (int p - mag y)) (10 powi (mag y - 1))"
    using p by (simp add: round_to_power_int)
  also have "\<dots> \<le> rnd_sig p y"
    using xy mag_bounds [of y] by (simp add: rnd_sig_def round_to_mono)
  finally show ?thesis .
qed

lemma rnd_sig_nonneg: "0 \<le> x \<Longrightarrow> 0 \<le> rnd_sig p x"
  using round_to_mono [of "10 powi (int p - mag \<bar>x\<bar>)" 0 x]
  by (simp add: rnd_sig_def round_to_exact)

lemma rnd_sig_mono:
  assumes p: "1 \<le> p" and xy: "x \<le> y"
  shows "rnd_sig p x \<le> rnd_sig p y"
proof -
  consider "0 < x" | "x \<le> 0" "0 \<le> y" | "y < 0" by linarith
  then show ?thesis
  proof cases
    case 1
    with p xy show ?thesis by (intro rnd_sig_mono_pos) auto
  next
    case 2
    with rnd_sig_nonneg [of "- x" p] rnd_sig_nonneg [of y p] show ?thesis
      by (simp add: rnd_sig_odd)
  next
    case 3
    with rnd_sig_mono_pos [of p "- y" "- x"] p xy show ?thesis by (simp add: rnd_sig_odd)
  qed
qed

text \<open>Plain decimal notation with \<open>n\<close> places.\<close>

fun digits_aux :: "nat \<Rightarrow> nat \<Rightarrow> string \<Rightarrow> string" where
  "digits_aux 0 k acc = acc"
| "digits_aux (Suc f) k acc =
     (let acc' = char_of (48 + k mod 10) # acc in if k < 10 then acc' else digits_aux f (k div 10) acc')"

definition pad_digits :: "nat \<Rightarrow> string \<Rightarrow> string" where
  "pad_digits w s = replicate (w - length s) (CHR ''0'') @ s"

definition fixed_string :: "nat \<Rightarrow> rat \<Rightarrow> string" where
  "fixed_string n x =
     (let k = half_up (x * 10 ^ n);
          a = nat \<bar>k\<bar>;
          ip = digits_aux (Suc a) (a div 10 ^ n) [];
          fp = pad_digits n (digits_aux (Suc a) (a mod 10 ^ n) [])
      in (if x < 0 then ''-'' else []) @ ip @ (if n = 0 then [] else ''.'' @ fp))"

definition dec20 :: dec where
  "dec20 = \<lparr> rnd = rnd_sig 20, div0 = (\<lambda>x. 0), dps = (\<lambda>n. round_to (10 ^ n)), fixed = fixed_string,
     tonum = rnd_sig 16 \<rparr>"

lemma round_to_on_grid: "on_grid n (round_to (10 ^ n) x)"
  by (simp add: on_grid_def round_to_def)

interpretation dec20: decimal_lib dec20
proof
  fix k :: int and n :: nat and x y :: rat
  show "\<bar>k\<bar> < 10 ^ 20 \<Longrightarrow> rnd dec20 (of_int k / 10 ^ n) = of_int k / 10 ^ n"
    by (simp add: dec20_def rnd_sig_exact)
  show "\<bar>x\<bar> \<le> 10 ^ 12 \<Longrightarrow> \<bar>rnd dec20 x - x\<bar> \<le> dec_eps"
  proof (cases "\<bar>x\<bar> = 10 ^ 12")
    case True
    then consider "x = of_int (10 ^ 12) / 10 ^ 0" | "x = of_int (- (10 ^ 12)) / 10 ^ 0"
      by (auto simp: abs_if split: if_splits)
    then have "rnd dec20 x = x"
      using rnd_sig_exact [of "10 ^ 12" 20 0] rnd_sig_exact [of "- (10 ^ 12)" 20 0]
      by cases (simp_all add: dec20_def)
    then show ?thesis by (simp add: dec_eps_def)
  next
    case False
    assume "\<bar>x\<bar> \<le> 10 ^ 12"
    with False have "\<bar>x\<bar> < 10 powi 12" by simp
    from rnd_sig_err [OF this, of 20] show ?thesis
      by (simp add: dec20_def power_int_def power_one_over dec_eps_def)
  qed
  show "x \<le> y \<Longrightarrow> rnd dec20 x \<le> rnd dec20 y" by (simp add: dec20_def rnd_sig_mono)
  show "rnd dec20 (- x) = - rnd dec20 x" by (simp add: dec20_def rnd_sig_odd)
  show "on_grid n (dps dec20 n x)" by (simp add: dec20_def round_to_on_grid)
  show "on_grid n x \<Longrightarrow> dps dec20 n x = x" by (simp add: dec20_def on_grid_def round_to_exact)
  show "\<bar>dps dec20 n x - x\<bar> \<le> 1 / (2 * 10 ^ n)" by (simp add: dec20_def round_to_err)
  show "x \<le> y \<Longrightarrow> dps dec20 n x \<le> dps dec20 n y" by (simp add: dec20_def round_to_mono)
  show "dps dec20 n (- x) = - dps dec20 n x" by (simp add: dec20_def round_to_odd)
  show "\<bar>k\<bar> \<le> 2 ^ 53 \<Longrightarrow> tonum dec20 (of_int k) = of_int k"
    using rnd_sig_exact [of k 16 0] by (simp add: dec20_def)
  show "x \<le> y \<Longrightarrow> tonum dec20 x \<le> tonum dec20 y" by (simp add: dec20_def rnd_sig_mono)
  show "\<bar>x\<bar> \<le> 10 ^ 6 \<Longrightarrow> \<bar>tonum dec20 x - x\<bar> \<le> 1 / 10 ^ 9"
  proof -
    assume "\<bar>x\<bar> \<le> 10 ^ 6"
    then have "\<bar>x\<bar> < 10 powi 7" by simp
    from rnd_sig_err [OF this, of 16] show ?thesis
      by (simp add: dec20_def power_int_def power_one_over)
  qed
qed

text \<open>Evaluation of the instance on numerals, by the simplifier.\<close>

named_theorems dec_eval \<comment> \<open>concrete evaluation on \<open>dec20\<close>\<close>

lemma dec20_sel [simp, dec_eval]:
  "rnd dec20 = rnd_sig 20" "tonum dec20 = rnd_sig 16" "dps dec20 n = round_to (10 ^ n)" "div0 dec20 x = 0"
  by (simp_all add: dec20_def)

lemma floor_rat_numeral [dec_eval]:
  "\<lfloor>numeral a / numeral b :: rat\<rfloor> = numeral a div numeral b"
  "\<lfloor>- (numeral a / numeral b) :: rat\<rfloor> = - numeral a div numeral b"
  "\<lfloor>1 / numeral b :: rat\<rfloor> = 1 div numeral b"
  using floor_divide_of_int_eq [where ?'a = rat, of "numeral a" "numeral b"]
    floor_divide_of_int_eq [where ?'a = rat, of "- numeral a" "numeral b"]
    floor_divide_of_int_eq [where ?'a = rat, of 1 "numeral b"]
  by simp_all

lemma ceiling_rat_numeral [dec_eval]:
  "\<lceil>numeral a / numeral b :: rat\<rceil> = - (- numeral a div numeral b)"
  by (simp add: ceiling_def floor_rat_numeral)

text \<open>Conditional equations, which only fire on values the simplifier can compare.\<close>

lemma mag_eval [dec_eval]:
  "1 \<le> q \<Longrightarrow> mag q = mag (q / 10) + 1"
  "0 < q \<Longrightarrow> q < 1 / 10 \<Longrightarrow> mag q = mag (q * 10) - 1"
  "1 / 10 \<le> q \<Longrightarrow> q < 1 \<Longrightarrow> mag q = 0"
  by (simp_all add: mag.simps [of q])

lemma half_up_eval [dec_eval]:
  "0 \<le> x \<Longrightarrow> half_up x = \<lfloor>x + 1 / 2\<rfloor>"
  "x < 0 \<Longrightarrow> half_up x = - \<lfloor>1 / 2 - x\<rfloor>"
  by (simp_all add: half_up_def)

lemma rnd_sig_eval [dec_eval]:
  "rnd_sig p 0 = 0"
  "0 < x \<Longrightarrow> rnd_sig p x = round_to (10 powi (int p - mag x)) x"
  "x < 0 \<Longrightarrow> rnd_sig p x = - rnd_sig p (- x)"
  by (simp_all add: rnd_sig_def round_to_odd)

lemmas dec_eval_defs [dec_eval] = dec_ops round_to_def power_int_def

end
