(* ===== verification/Schema.thy ===== *)
theory Schema
  imports Prelude
begin

text \<open>
  The data of \<open>src/packages/db/prisma/schema.prisma\<close> that the modelled services read or write:
  the enums with the schema's constructors, one record per table with the columns the services
  use, and the database as a record of tables. A UUID is a natural number drawn from a counter, a
  nullable column an option, a \<open>Decimal\<close> column a rational (the services round to the scale of
  the column themselves; the overflow of a column's precision is not modelled) and a timestamp an
  integer of milliseconds. Relations are resolved by looking up the referenced id.
\<close>

section \<open>Enums\<close>

datatype platform = TRENDYOL | HEPSIBURADA

datatype fee_scope = FS_TRENDYOL | FS_HEPSIBURADA | FS_ALL

datatype order_status = OS_PENDING | OS_PROCESSING | OS_SHIPPED | OS_DELIVERED | OS_CANCELLED
  | OS_RETURNED

datatype order_fee_type = SHIPPING | PLATFORM_SERVICE | PLATFORM_SERVICE_FAST | STOPPAGE
  | RETURN_SHIPPING | REFUND_DEDUCTION | COMMISSION_REFUND | COST_RETURN | STOPPAGE_REFUND
  | PROVISION_ADJUSTMENT | MANUAL_REFUND | REVENUE_ADJUSTMENT | COMMISSION_ADJUSTMENT | CUSTOM
  | ADVERTISING | PENALTY_DEFECTIVE | PENALTY_WRONG_PRODUCT | PENALTY_MISSING_PRODUCT
  | PENALTY_LATE_DELIVERY | PENALTY_SUPPLY_FAILURE | NOTIFICATION_FEE | COMMISSION_INVOICE
  | INTERNATIONAL_SERVICE | OVERSEAS_RETURN_OPERATION

datatype order_fee_source = ESTIMATE | SETTLEMENT | CARGO_INVOICE | USER_OVERRIDE | MANUAL_ENTRY

datatype order_fee_direction = DEBIT | CREDIT

datatype shipping_tariff_source = TRENDYOL_CONTRACT | OWN_CONTRACT

datatype commission_rule_kind = CATEGORY | CATEGORY_BRAND

datatype reconciliation_status = NOT_SETTLED | PARTIALLY_SETTLED | FULLY_SETTLED

datatype profit_exclusion_reason = COST_DEADLINE_MISSED | LATE_UNCOSTED_ARRIVAL | LEGACY_BACKFILL

datatype buffer_status = BS_PENDING | BS_PROMOTING | BS_FAILED | BS_PERMANENT_FAILED

datatype currency = TRY | USD | EUR

datatype fx_rate_mode = FX_AUTO | FX_MANUAL

lemma not_DEBIT [simp]: "d \<noteq> DEBIT \<longleftrightarrow> d = CREDIT"
  by (cases d) auto

text \<open>A JSON column.\<close>

datatype json = JNull | JBool bool | JNum rat | JStr string | JArr "json list"
  | JObj "(string \<times> json) list"

text \<open>A property of an object; an array has none of the names looked up here.\<close>

fun json_field :: "json \<Rightarrow> string \<Rightarrow> json option" where
  "json_field (JObj kvs) k = map_of kvs k"
| "json_field _ k = None"

section \<open>Tables\<close>

record store_row =
  s_id :: id
  s_platform :: platform
  s_profitSettings :: json
  s_shippingTariffSource :: shipping_tariff_source
  s_defaultCarrierId :: "id option"
  s_organizationId :: id
  s_createdAt :: time

record carrier_row =
  ca_id :: id
  ca_code :: string
  ca_supportsBaremDestek :: bool
  ca_maxBaremDesi :: int

record own_tariff_row =
  ot_id :: id
  ot_storeId :: id
  ot_desi :: int
  ot_priceNet :: rat

record barem_tariff_row =
  bt_id :: id
  bt_carrierId :: id
  bt_minOrderAmount :: rat
  bt_maxOrderAmount :: rat
  bt_priceNet :: rat

record desi_tariff_row =
  dt_id :: id
  dt_carrierId :: id
  dt_desi :: int
  dt_priceNet :: rat

text \<open>
  The columns of a variant and of a product that only describe the listing are records of their own;
  attributes are pairs of name and value.
\<close>

record variant_listing =
  vl_stockCode :: string
  vl_vatRate :: "int option"
  vl_deliveryDuration :: "int option"
  vl_isRushDelivery :: bool
  vl_fastDeliveryOptions :: "(string \<times> string) list"
  vl_productUrl :: "string option"
  vl_locationBasedDelivery :: "string option"
  vl_onSale :: bool
  vl_archived :: bool
  vl_blacklisted :: bool
  vl_locked :: bool
  vl_size :: "string option"
  vl_attributes :: "(string \<times> string) list"

record product_listing =
  pl_productMainId :: string
  pl_title :: string
  pl_description :: "string option"
  pl_brandId :: "int option"
  pl_brandName :: "string option"
  pl_categoryId :: "int option"
  pl_categoryName :: "string option"
  pl_color :: "string option"
  pl_attributes :: "(string \<times> string) list"
  pl_platformCreatedAt :: "time option"
  pl_platformModifiedAt :: "time option"

record variant_row =
  v_id :: id
  v_organizationId :: id
  v_storeId :: id
  v_productId :: id
  v_platformVariantId :: int
  v_barcode :: string
  v_salePrice :: rat
  v_listPrice :: rat
  v_isDigital :: bool
  v_dimensionalWeight :: "rat option"
  v_syncedDimensionalWeight :: rat
  v_quantity :: int
  v_syncedCommissionRate :: "rat option"
  v_listing :: variant_listing
  v_lastSyncedAt :: time
  v_delistedAt :: "time option"

record product_row =
  p_id :: id
  p_organizationId :: id
  p_storeId :: id
  p_platformContentId :: int
  p_listing :: product_listing
  p_images :: "(string \<times> nat) list"    \<comment> \<open>the \<open>product_images\<close> rows, by position\<close>
  p_lastSyncedAt :: time
  p_totalStock :: int
  p_minSalePrice :: "rat option"
  p_maxSalePrice :: "rat option"

definition blank_variant_listing :: variant_listing where
  "blank_variant_listing = \<lparr> vl_stockCode = [], vl_vatRate = None, vl_deliveryDuration = None,
     vl_isRushDelivery = False, vl_fastDeliveryOptions = [], vl_productUrl = None, vl_locationBasedDelivery = None,
     vl_onSale = True, vl_archived = False, vl_blacklisted = False, vl_locked = False, vl_size = None,
     vl_attributes = [] \<rparr>"

definition blank_product_listing :: product_listing where
  "blank_product_listing = \<lparr> pl_productMainId = [], pl_title = [], pl_description = None, pl_brandId = None,
     pl_brandName = None, pl_categoryId = None, pl_categoryName = None, pl_color = None, pl_attributes = [],
     pl_platformCreatedAt = None, pl_platformModifiedAt = None \<rparr>"

record barcode_miss_row =
  bm_id :: id
  bm_organizationId :: id
  bm_storeId :: id
  bm_barcode :: string
  bm_vendorMissing :: bool
  bm_attempts :: nat
  bm_lastCheckedAt :: time
  bm_nextRetryAt :: "time option"

record cost_profile_row =
  cp_id :: id
  cp_organizationId :: id
  cp_storeId :: id
  cp_name :: string
  cp_amountGross :: rat
  cp_vatRate :: rat
  cp_currency :: currency
  cp_fxRateMode :: fx_rate_mode
  cp_manualFxRate :: "rat option"
  cp_archivedAt :: "time option"

record cost_link_row =
  cl_variantId :: id
  cl_profileId :: id
  cl_organizationId :: id
  cl_attachedAt :: time

record fx_rate_row =
  fx_currency :: currency
  fx_rateDate :: time
  fx_rateToTry :: rat

record fee_definition_row =
  fd_id :: id
  fd_platform :: fee_scope
  fd_feeType :: order_fee_type
  fd_displayName :: string
  fd_fixedAmountNet :: "rat option"
  fd_rateOfSale :: "rat option"
  fd_defaultVatRate :: rat
  fd_effectiveFrom :: time
  fd_effectiveTo :: "time option"

record return_tier_row =
  rt_minSaleGross :: rat
  rt_maxSaleGross :: rat
  rt_rate :: rat
  rt_effectiveFrom :: time

record commission_rate_row =
  cr_platform :: platform
  cr_ruleKind :: commission_rule_kind
  cr_categoryId :: int
  cr_brandId :: "int option"
  cr_baseRate :: rat
  cr_paymentTermDays :: int
  cr_segmentOverrides :: "(string \<times> rat) list"

record order_row =
  o_id :: id
  o_organizationId :: id
  o_storeId :: id
  o_platformOrderId :: string
  o_platformOrderNumber :: string
  o_orderDate :: time
  o_status :: order_status
  o_actualDeliveryDate :: "time option"
  o_actualShipDate :: "time option"
  o_deliveredOnTime :: "bool option"
  o_fastDelivery :: bool
  o_fastDeliveryType :: "string option"
  o_micro :: bool
  o_saleGross :: "rat option"
  o_saleVat :: "rat option"
  o_listGross :: "rat option"
  o_sellerDiscountGross :: "rat option"
  o_sellerDiscountVat :: "rat option"
  o_cargoDeci :: "rat option"
  o_cargoProviderName :: "string option"
  o_cargoTrackingNumber :: "int option"
  o_usesSellerCargoAgreement :: bool
  o_platformCreatedBy :: "string option"
  o_originShipmentDate :: "time option"
  o_estimatedNetProfit :: "rat option"
  o_estimatedNetVat :: "rat option"
  o_estimatedSaleMarginPct :: "rat option"
  o_estimatedCostMarkupPct :: "rat option"
  o_settledNetProfit :: "rat option"
  o_settledNetVat :: "rat option"
  o_settledSaleMarginPct :: "rat option"
  o_settledCostMarkupPct :: "rat option"
  o_snapshotIncludeStopaj :: "bool option"
  o_snapshotIncludeNegativeNetVat :: "bool option"
  o_profitExcludedAt :: "time option"
  o_profitExclusionReason :: "profit_exclusion_reason option"
  o_platformLastModifiedAt :: "time option"
  o_promotedFromBufferAt :: "time option"
  o_reconciliationStatus :: reconciliation_status
  o_paymentOrderId :: "int option"
  o_paymentDate :: "time option"

record item_row =
  i_id :: id
  i_orderId :: id
  i_productVariantId :: "id option"
  i_quantity :: int
  i_platformLineId :: "int option"
  i_barcode :: "string option"
  i_lineListGross :: rat
  i_lineSaleGross :: rat
  i_lineSellerDiscountGross :: rat
  i_saleVatRate :: rat
  i_commissionRate :: rat
  i_commissionGross :: rat
  i_refundedCommissionGross :: rat
  i_commissionVatRate :: rat
  i_estimatedCommissionGross :: "rat option"
  i_settledCommissionGross :: "rat option"
  i_unitCostSnapshotGross :: "rat option"
  i_unitCostSnapshotVatRate :: "rat option"
  i_snapshotCapturedAt :: "time option"
  i_settledSaleAmount :: "rat option"
  i_commissionInvoiceSerialNumber :: "string option"
  i_commissionInvoiceId :: "id option"
  i_variantResolutionAttempts :: nat
  i_nextResolutionAt :: "time option"

record fee_row =
  f_id :: id
  f_orderId :: id
  f_organizationId :: id
  f_feeDefinitionId :: "id option"
  f_feeType :: order_fee_type
  f_source :: order_fee_source
  f_direction :: order_fee_direction
  f_amountGross :: rat
  f_vatRate :: rat
  f_displayName :: "string option"
  f_confirmedAt :: "time option"
  f_confirmedBy :: "string option"
  f_trendyolTransactionId :: "string option"
  f_invoiceSerialNumber :: "string option"
  f_parcelUniqueId :: "int option"
  f_orderClaimItemId :: "id option"

text \<open>The source of an exchange rate: a rate of the central bank is named after its date.\<close>

datatype fx_source = TRY_NATIVE | MANUAL_SOURCE | TCMB time

record component_row =
  sc_itemId :: id
  sc_profileId :: id
  sc_profileName :: string
  sc_amountGross :: rat
  sc_currency :: currency
  sc_vatRate :: rat
  sc_amountInTryGross :: rat
  sc_fxRateMode :: fx_rate_mode
  sc_fxRateUsed :: rat
  sc_fxRateSource :: fx_source

text \<open>A claim and its items, one per returned unit; the order of the rows is that of their creation.\<close>

record claim_row =
  oc_id :: id
  oc_organizationId :: id
  oc_storeId :: id
  oc_orderId :: id
  oc_trendyolClaimId :: string
  oc_claimDate :: time
  oc_cargoProviderName :: "string option"
  oc_cargoTrackingNumber :: "int option"
  oc_resolved :: bool
  oc_orderShipmentPackageId :: "string option"
  oc_orderOutboundPackageId :: "string option"

record claim_item_row =
  ci_id :: id
  ci_claimId :: id
  ci_orderItemId :: "id option"
  ci_trendyolClaimItemId :: string
  ci_reasonCode :: string
  ci_reasonName :: string
  ci_status :: string
  ci_acceptedBySeller :: bool
  ci_autoApproveDate :: "time option"
  ci_resolved :: bool

text \<open>Fees of a payment period and the weekly commission invoices.\<close>

record org_period_fee_row =
  pe_id :: id
  pe_organizationId :: id
  pe_storeId :: id
  pe_paymentOrderId :: int
  pe_paymentDate :: time
  pe_feeType :: order_fee_type
  pe_source :: order_fee_source
  pe_amountGross :: rat
  pe_vatRate :: rat
  pe_invoiceSerialNumber :: "string option"
  pe_description :: "string option"
  pe_trendyolTransactionId :: "string option"

record commission_invoice_row =
  in_id :: id
  in_organizationId :: id
  in_storeId :: id
  in_trendyolSerialNumber :: string
  in_periodStart :: time
  in_periodEnd :: time
  in_totalNet :: rat
  in_totalVat :: rat
  in_paymentOrderId :: "int option"
  in_paymentDate :: "time option"

section \<open>Marketplace orders and the live performance buffer\<close>

text \<open>
  A \<open>MappedOrder\<close> of \<open>src/packages/marketplace/src/trendyol/types.ts\<close>, which also lives as JSON in
  the buffer: a date revived from there may not parse, and a field an older writer did not know
  is absent (\<open>None\<close>). Amounts are the numbers their decimal strings denote.
\<close>

datatype jsdate = JDate time | JBadDate

fun date_of :: "jsdate \<Rightarrow> time option" where
  "date_of (JDate t) = Some t"
| "date_of JBadDate = None"

record mapped_line =
  ml_barcode :: string
  ml_quantity :: int
  ml_platformLineId :: "int option"
  ml_lineListGross :: rat
  ml_lineSaleGross :: rat
  ml_lineSellerDiscountGross :: rat
  ml_saleVatRate :: rat
  ml_commissionRate :: rat
  ml_commissionGross :: rat
  ml_refundedCommissionGross :: rat
  ml_commissionVatRate :: rat
  ml_categoryId :: "int option"
  ml_commissionKnown :: "bool option"

record mapped_order =
  mo_platformOrderId :: string
  mo_platformOrderNumber :: string
  mo_orderDate :: jsdate
  mo_lastModifiedDate :: "jsdate option"
  mo_status :: order_status
  mo_dematerialized :: bool
  mo_saleGross :: rat
  mo_saleVat :: rat
  mo_listGross :: rat
  mo_sellerDiscountGross :: rat
  mo_actualDeliveryDate :: "time option"
  mo_deliveredOnTime :: "bool option"
  mo_actualShipDate :: "time option"
  mo_fastDelivery :: bool
  mo_fastDeliveryType :: "string option"
  mo_micro :: bool
  mo_cargoProviderName :: "string option"
  mo_cargoTrackingNumber :: "int option"
  mo_cargoDeci :: "rat option"
  mo_usesSellerCargoAgreement :: "bool option"
  mo_platformCreatedBy :: "string option"
  mo_originShipmentDate :: "time option"
  mo_lines :: "mapped_line list"

record buffer_row =
  b_id :: id
  b_organizationId :: id
  b_storeId :: id
  b_orderDay :: int         \<comment> \<open>the business day (a \<open>@db.Date\<close> column)\<close>
  b_platformOrderId :: string
  b_mappedOrder :: mapped_order
  b_status :: buffer_status
  b_attempts :: nat
  b_lastError :: "string option"
  b_lastFailedAt :: "time option"

section \<open>The database\<close>

record db =
  db_stores :: "store_row list"
  db_carriers :: "carrier_row list"
  db_ownTariffs :: "own_tariff_row list"
  db_baremTariffs :: "barem_tariff_row list"
  db_desiTariffs :: "desi_tariff_row list"
  db_variants :: "variant_row list"
  db_products :: "product_row list"
  db_costProfiles :: "cost_profile_row list"
  db_costLinks :: "cost_link_row list"
  db_fxRates :: "fx_rate_row list"
  db_feeDefs :: "fee_definition_row list"
  db_returnTiers :: "return_tier_row list"
  db_commissionRates :: "commission_rate_row list"
  db_orders :: "order_row list"
  db_items :: "item_row list"
  db_fees :: "fee_row list"
  db_claims :: "claim_row list"
  db_claimItems :: "claim_item_row list"
  db_orgPeriodFees :: "org_period_fee_row list"
  db_commissionInvoices :: "commission_invoice_row list"
  db_components :: "component_row list"
  db_buffer :: "buffer_row list"
  db_barcodeMisses :: "barcode_miss_row list"
  db_nextId :: id

text \<open>Lookups by primary key and the to-one relations.\<close>

definition find_order :: "id \<Rightarrow> db \<Rightarrow> order_row option" where
  "find_order oid d = find (\<lambda>r. o_id r = oid) (db_orders d)"

definition find_store :: "id \<Rightarrow> db \<Rightarrow> store_row option" where
  "find_store sid d = find (\<lambda>r. s_id r = sid) (db_stores d)"

definition find_variant :: "id \<Rightarrow> db \<Rightarrow> variant_row option" where
  "find_variant vid d = find (\<lambda>r. v_id r = vid) (db_variants d)"

definition item_variant :: "item_row \<Rightarrow> db \<Rightarrow> variant_row option" where
  "item_variant i d = (case i_productVariantId i of None \<Rightarrow> None | Some vid \<Rightarrow> find_variant vid d)"

definition order_items :: "id \<Rightarrow> db \<Rightarrow> item_row list" where
  "order_items oid d = filter (\<lambda>i. i_orderId i = oid) (db_items d)"

definition find_claim :: "id \<Rightarrow> db \<Rightarrow> claim_row option" where
  "find_claim cid d = find (\<lambda>c. oc_id c = cid) (db_claims d)"

text \<open>The filter \<open>claim: { orderId }\<close> on claim items.\<close>

definition claim_item_of :: "id \<Rightarrow> db \<Rightarrow> claim_item_row \<Rightarrow> bool" where
  "claim_item_of oid d c \<longleftrightarrow> map_option oc_orderId (find_claim (ci_claimId c) d) = Some oid"

definition order_fees :: "id \<Rightarrow> db \<Rightarrow> fee_row list" where
  "order_fees oid d = filter (\<lambda>f. f_orderId f = oid) (db_fees d)"

definition update_order :: "id \<Rightarrow> (order_row \<Rightarrow> order_row) \<Rightarrow> db \<Rightarrow> db" where
  "update_order oid g d = d \<lparr> db_orders := update_where (\<lambda>r. o_id r = oid) g (db_orders d) \<rparr>"

text \<open>The ESTIMATE row of a type, as \<open>findFirst\<close> finds it.\<close>

definition find_estimate :: "id \<Rightarrow> order_fee_type \<Rightarrow> db \<Rightarrow> fee_row option" where
  "find_estimate oid ty d =
     find (\<lambda>f. f_orderId f = oid \<and> f_feeType f = ty \<and> f_source f = ESTIMATE) (db_fees d)"

definition create_fee :: "(id \<Rightarrow> fee_row) \<Rightarrow> db \<Rightarrow> db" where
  "create_fee mk d = d \<lparr> db_fees := db_fees d @ [mk (db_nextId d)], db_nextId := Suc (db_nextId d) \<rparr>"

definition update_fee :: "id \<Rightarrow> (fee_row \<Rightarrow> fee_row) \<Rightarrow> db \<Rightarrow> db" where
  "update_fee fid g d = d \<lparr> db_fees := update_where (\<lambda>f. f_id f = fid) g (db_fees d) \<rparr>"

definition delete_fee :: "id \<Rightarrow> db \<Rightarrow> db" where
  "delete_fee fid d = d \<lparr> db_fees := delete_where (\<lambda>f. f_id f = fid) (db_fees d) \<rparr>"

end
