(* ===== verification/Profit_Formula.thy ===== *)
theory Profit_Formula
  imports Decimal_Arith Schema
begin

text \<open>
  The profit engine: \<open>src/packages/profit/src/money.ts\<close> and \<open>profit-formula.ts\<close>. The input is a
  sale, a cost and a commission as (gross, VAT) pairs, a list of fees with a direction and
  the withholding tax (stoppage); the output is the breakdown with the net profit. The loop over
  the fees keeps eight running totals; they are shown to be the totals of the fees each is
  meant for. \<open>profit_spec\<close> is the formula over exact rationals, and the accuracy theorem bounds
  the distance of the computed profit from it.
\<close>

section \<open>money.ts\<close>

definition grossToVat :: "dec \<Rightarrow> rat \<Rightarrow> rat \<Rightarrow> rat" where
  "grossToVat D gross ratePct = ddiv D (dmul D gross ratePct) (dadd D 100 ratePct)"

section \<open>profit-formula.ts: data\<close>

record money_pair =
  mp_gross :: rat
  mp_vat :: rat

datatype profit_fee_type = PF_SHIPPING | PF_PLATFORM_SERVICE | PF_INTERNATIONAL_SERVICE
  | PF_OVERSEAS_RETURN_OPERATION

record profit_fee =
  pf_type :: profit_fee_type
  pf_gross :: rat
  pf_vat :: rat
  pf_direction :: order_fee_direction

record profit_input =
  pi_sale :: money_pair
  pi_cost :: money_pair
  pi_commission :: money_pair
  pi_fees :: "profit_fee list"
  pi_stoppage :: rat
  pi_includeNegativeNetVat :: bool

record profit_breakdown =
  pb_listGross :: rat
  pb_sellerDiscountGross :: rat
  pb_saleGross :: rat
  pb_saleVat :: rat
  pb_costGross :: rat
  pb_costVat :: rat
  pb_commissionGross :: rat
  pb_commissionVat :: rat
  pb_shippingGross :: rat
  pb_shippingVat :: rat
  pb_platformServiceGross :: rat
  pb_platformServiceVat :: rat
  pb_stoppage :: rat
  pb_netVat :: rat
  pb_netProfit :: rat
  pb_saleMarginPct :: "rat option"
  pb_costMarkupPct :: "rat option"

section \<open>computeProfit\<close>

text \<open>The running totals of the loop over the fees.\<close>

record fee_totals =
  ft_shippingGross :: rat
  ft_shippingVat :: rat
  ft_platformServiceGross :: rat
  ft_platformServiceVat :: rat
  ft_debitGross :: rat
  ft_debitVat :: rat
  ft_creditGross :: rat
  ft_creditVat :: rat

definition no_fees :: fee_totals where
  "no_fees = \<lparr> ft_shippingGross = 0, ft_shippingVat = 0, ft_platformServiceGross = 0,
     ft_platformServiceVat = 0, ft_debitGross = 0, ft_debitVat = 0, ft_creditGross = 0,
     ft_creditVat = 0 \<rparr>"

definition bucket_fee :: "dec \<Rightarrow> profit_fee \<Rightarrow> fee_totals \<Rightarrow> fee_totals" where
  "bucket_fee D f t =
     (if pf_type f = PF_SHIPPING then
        t \<lparr> ft_shippingGross := dadd D (ft_shippingGross t) (pf_gross f),
            ft_shippingVat := dadd D (ft_shippingVat t) (pf_vat f) \<rparr>
      else if pf_type f = PF_PLATFORM_SERVICE then
        t \<lparr> ft_platformServiceGross := dadd D (ft_platformServiceGross t) (pf_gross f),
            ft_platformServiceVat := dadd D (ft_platformServiceVat t) (pf_vat f) \<rparr>
      else t)"

definition direct_fee :: "dec \<Rightarrow> profit_fee \<Rightarrow> fee_totals \<Rightarrow> fee_totals" where
  "direct_fee D f t =
     (if pf_direction f = DEBIT then
        t \<lparr> ft_debitGross := dadd D (ft_debitGross t) (pf_gross f),
            ft_debitVat := dadd D (ft_debitVat t) (pf_vat f) \<rparr>
      else
        t \<lparr> ft_creditGross := dadd D (ft_creditGross t) (pf_gross f),
            ft_creditVat := dadd D (ft_creditVat t) (pf_vat f) \<rparr>)"

definition add_fee :: "dec \<Rightarrow> fee_totals \<Rightarrow> profit_fee \<Rightarrow> fee_totals" where
  "add_fee D t f = direct_fee D f (bucket_fee D f t)"

definition sum_fees :: "dec \<Rightarrow> profit_fee list \<Rightarrow> fee_totals" where
  "sum_fees D fees = foldl (add_fee D) no_fees fees"

definition raw_net_vat :: "dec \<Rightarrow> profit_input \<Rightarrow> fee_totals \<Rightarrow> rat" where
  "raw_net_vat D i t =
     dadd D (dsub D (dsub D (dsub D (mp_vat (pi_sale i)) (mp_vat (pi_cost i)))
       (mp_vat (pi_commission i))) (ft_debitVat t)) (ft_creditVat t)"

definition effective_net_vat :: "profit_input \<Rightarrow> rat \<Rightarrow> rat" where
  "effective_net_vat i netVat = (if pi_includeNegativeNetVat i then netVat else max netVat 0)"

definition net_profit :: "dec \<Rightarrow> profit_input \<Rightarrow> fee_totals \<Rightarrow> rat \<Rightarrow> rat" where
  "net_profit D i t ev =
     dsub D (dsub D (dadd D (dsub D (dsub D (dsub D (mp_gross (pi_sale i)) (mp_gross (pi_cost i)))
       (mp_gross (pi_commission i))) (ft_debitGross t)) (ft_creditGross t)) (pi_stoppage i)) ev"

definition pct_of :: "dec \<Rightarrow> rat \<Rightarrow> rat \<Rightarrow> rat option" where
  "pct_of D np base = (if base = 0 then None else Some (dmul D (ddiv D np base) 100))"

definition computeProfit :: "dec \<Rightarrow> profit_input \<Rightarrow> profit_breakdown" where
  "computeProfit D i =
     (let t = sum_fees D (pi_fees i);
          ev = effective_net_vat i (raw_net_vat D i t);
          np = net_profit D i t ev
      in \<lparr> pb_listGross = mp_gross (pi_sale i), pb_sellerDiscountGross = 0,
           pb_saleGross = mp_gross (pi_sale i), pb_saleVat = mp_vat (pi_sale i),
           pb_costGross = mp_gross (pi_cost i), pb_costVat = mp_vat (pi_cost i),
           pb_commissionGross = mp_gross (pi_commission i),
           pb_commissionVat = mp_vat (pi_commission i),
           pb_shippingGross = ft_shippingGross t, pb_shippingVat = ft_shippingVat t,
           pb_platformServiceGross = ft_platformServiceGross t,
           pb_platformServiceVat = ft_platformServiceVat t,
           pb_stoppage = pi_stoppage i, pb_netVat = ev, pb_netProfit = np,
           pb_saleMarginPct = pct_of D np (mp_gross (pi_sale i)),
           pb_costMarkupPct = pct_of D np (mp_gross (pi_cost i)) \<rparr>)"

section \<open>The totals of the loop\<close>

abbreviation debits :: "profit_fee list \<Rightarrow> profit_fee list" where
  "debits fees \<equiv> filter (\<lambda>f. pf_direction f = DEBIT) fees"

abbreviation credits :: "profit_fee list \<Rightarrow> profit_fee list" where
  "credits fees \<equiv> filter (\<lambda>f. pf_direction f = CREDIT) fees"

abbreviation fees_of :: "profit_fee_type \<Rightarrow> profit_fee list \<Rightarrow> profit_fee list" where
  "fees_of ty fees \<equiv> filter (\<lambda>f. pf_type f = ty) fees"

lemma add_fee_sel [simp]:
  "ft_shippingGross (add_fee D t f) =
     (if pf_type f = PF_SHIPPING then dadd D (ft_shippingGross t) (pf_gross f) else ft_shippingGross t)"
  "ft_shippingVat (add_fee D t f) =
     (if pf_type f = PF_SHIPPING then dadd D (ft_shippingVat t) (pf_vat f) else ft_shippingVat t)"
  "ft_platformServiceGross (add_fee D t f) =
     (if pf_type f = PF_PLATFORM_SERVICE then dadd D (ft_platformServiceGross t) (pf_gross f)
      else ft_platformServiceGross t)"
  "ft_platformServiceVat (add_fee D t f) =
     (if pf_type f = PF_PLATFORM_SERVICE then dadd D (ft_platformServiceVat t) (pf_vat f)
      else ft_platformServiceVat t)"
  "ft_debitGross (add_fee D t f) =
     (if pf_direction f = DEBIT then dadd D (ft_debitGross t) (pf_gross f) else ft_debitGross t)"
  "ft_debitVat (add_fee D t f) =
     (if pf_direction f = DEBIT then dadd D (ft_debitVat t) (pf_vat f) else ft_debitVat t)"
  "ft_creditGross (add_fee D t f) =
     (if pf_direction f = CREDIT then dadd D (ft_creditGross t) (pf_gross f) else ft_creditGross t)"
  "ft_creditVat (add_fee D t f) =
     (if pf_direction f = CREDIT then dadd D (ft_creditVat t) (pf_vat f) else ft_creditVat t)"
  by (auto simp: add_fee_def bucket_fee_def direct_fee_def)

lemma fold_add_fee:
  "ft_shippingGross (foldl (add_fee D) t fees) = dsum D pf_gross (ft_shippingGross t) (fees_of PF_SHIPPING fees)"
  "ft_shippingVat (foldl (add_fee D) t fees) = dsum D pf_vat (ft_shippingVat t) (fees_of PF_SHIPPING fees)"
  "ft_platformServiceGross (foldl (add_fee D) t fees) =
     dsum D pf_gross (ft_platformServiceGross t) (fees_of PF_PLATFORM_SERVICE fees)"
  "ft_platformServiceVat (foldl (add_fee D) t fees) =
     dsum D pf_vat (ft_platformServiceVat t) (fees_of PF_PLATFORM_SERVICE fees)"
  "ft_debitGross (foldl (add_fee D) t fees) = dsum D pf_gross (ft_debitGross t) (debits fees)"
  "ft_debitVat (foldl (add_fee D) t fees) = dsum D pf_vat (ft_debitVat t) (debits fees)"
  "ft_creditGross (foldl (add_fee D) t fees) = dsum D pf_gross (ft_creditGross t) (credits fees)"
  "ft_creditVat (foldl (add_fee D) t fees) = dsum D pf_vat (ft_creditVat t) (credits fees)"
  by (induction fees arbitrary: t) simp_all

lemma sum_fees_sel:
  "ft_shippingGross (sum_fees D fees) = dsum D pf_gross 0 (fees_of PF_SHIPPING fees)"
  "ft_shippingVat (sum_fees D fees) = dsum D pf_vat 0 (fees_of PF_SHIPPING fees)"
  "ft_platformServiceGross (sum_fees D fees) = dsum D pf_gross 0 (fees_of PF_PLATFORM_SERVICE fees)"
  "ft_platformServiceVat (sum_fees D fees) = dsum D pf_vat 0 (fees_of PF_PLATFORM_SERVICE fees)"
  "ft_debitGross (sum_fees D fees) = dsum D pf_gross 0 (debits fees)"
  "ft_debitVat (sum_fees D fees) = dsum D pf_vat 0 (debits fees)"
  "ft_creditGross (sum_fees D fees) = dsum D pf_gross 0 (credits fees)"
  "ft_creditVat (sum_fees D fees) = dsum D pf_vat 0 (credits fees)"
  unfolding sum_fees_def fold_add_fee by (simp_all add: no_fees_def)

section \<open>The formula over exact rationals\<close>

definition signed_total :: "(profit_fee \<Rightarrow> rat) \<Rightarrow> profit_fee list \<Rightarrow> rat" where
  "signed_total g fees = (\<Sum>f\<leftarrow>fees. if pf_direction f = CREDIT then g f else - g f)"

definition vat_spec :: "profit_input \<Rightarrow> rat" where
  "vat_spec i = mp_vat (pi_sale i) - mp_vat (pi_cost i) - mp_vat (pi_commission i)
     + signed_total pf_vat (pi_fees i)"

definition profit_spec :: "profit_input \<Rightarrow> rat" where
  "profit_spec i = mp_gross (pi_sale i) - mp_gross (pi_cost i) - mp_gross (pi_commission i)
     + signed_total pf_gross (pi_fees i) - pi_stoppage i - effective_net_vat i (vat_spec i)"

lemma signed_total_split:
  "signed_total g fees = (\<Sum>f\<leftarrow>credits fees. g f) - (\<Sum>f\<leftarrow>debits fees. g f)"
  unfolding signed_total_def
proof (induction fees)
  case (Cons f fees)
  then show ?case by (cases "pf_direction f") simp_all
qed simp

lemma abs_total_split:
  fixes g :: "profit_fee \<Rightarrow> rat"
  shows "(\<Sum>f\<leftarrow>fees. \<bar>g f\<bar>) = (\<Sum>f\<leftarrow>credits fees. \<bar>g f\<bar>) + (\<Sum>f\<leftarrow>debits fees. \<bar>g f\<bar>)"
proof (induction fees)
  case (Cons f fees)
  then show ?case by (cases "pf_direction f") simp_all
qed simp

lemma length_split: "length fees = length (credits fees) + length (debits fees)"
proof (induction fees)
  case (Cons f fees)
  then show ?case by (cases "pf_direction f") simp_all
qed simp

text \<open>Every amount of an input is at most \<open>10 ^ 10\<close> and there are at most 40 fees.\<close>

definition bounded_input :: "profit_input \<Rightarrow> bool" where
  "bounded_input i \<longleftrightarrow>
     length (pi_fees i) \<le> 40
   \<and> (\<forall>x \<in> {mp_gross (pi_sale i), mp_vat (pi_sale i), mp_gross (pi_cost i), mp_vat (pi_cost i),
            mp_gross (pi_commission i), mp_vat (pi_commission i), pi_stoppage i}. \<bar>x\<bar> \<le> 10 ^ 10)
   \<and> list_all (\<lambda>f. \<bar>pf_gross f\<bar> \<le> 10 ^ 10 \<and> \<bar>pf_vat f\<bar> \<le> 10 ^ 10) (pi_fees i)"

lemma abs_total_bound:
  fixes g :: "'a \<Rightarrow> rat"
  assumes "\<And>x. x \<in> set xs \<Longrightarrow> \<bar>g x\<bar> \<le> c" and "length xs \<le> n" and "0 \<le> c"
  shows "(\<Sum>x\<leftarrow>xs. \<bar>g x\<bar>) \<le> of_nat n * c"
proof -
  have "(\<Sum>x\<leftarrow>xs. \<bar>g x\<bar>) \<le> of_nat (length xs) * c"
    using assms(1) by (induction xs) (auto simp: algebra_simps intro: add_mono)
  also have "\<dots> \<le> of_nat n * c" using assms(2,3) by (intro mult_right_mono) auto
  finally show ?thesis .
qed

lemma effective_net_vat_near:
  assumes "\<bar>x - y\<bar> \<le> e"
  shows "\<bar>effective_net_vat i x - effective_net_vat i y\<bar> \<le> e"
    and "\<bar>effective_net_vat i y\<bar> \<le> \<bar>y\<bar>"
proof -
  have "0 \<le> e" using assms abs_ge_zero [of "x - y"] by linarith
  with assms show "\<bar>effective_net_vat i x - effective_net_vat i y\<bar> \<le> e"
    by (auto simp: effective_net_vat_def max_def abs_if split: if_splits)
  show "\<bar>effective_net_vat i y\<bar> \<le> \<bar>y\<bar>" by (auto simp: effective_net_vat_def)
qed

context decimal_lib
begin

lemma dsum_direction_near:
  fixes g :: "profit_fee \<Rightarrow> rat"
  assumes "\<forall>f \<in> set fees. \<bar>g f\<bar> \<le> 10 ^ 10" and "length fees \<le> 40"
  shows "\<bar>dsum D g 0 (filter P fees) - (\<Sum>f\<leftarrow>filter P fees. g f)\<bar>
           \<le> of_nat (length (filter P fees)) * dec_eps"
    and "(\<Sum>f\<leftarrow>filter P fees. \<bar>g f\<bar>) \<le> 4 * 10 ^ 11"
    and "\<bar>\<Sum>f\<leftarrow>filter P fees. g f\<bar> \<le> (\<Sum>f\<leftarrow>filter P fees. \<bar>g f\<bar>)"
proof -
  have len: "length (filter P fees) \<le> 40" using assms(2) length_filter_le [of P fees] by linarith
  show total: "(\<Sum>f\<leftarrow>filter P fees. \<bar>g f\<bar>) \<le> 4 * 10 ^ 11"
    using abs_total_bound [of "filter P fees" g "10 ^ 10" 40] assms(1) len by simp
  have "of_nat (length (filter P fees)) * dec_eps \<le> 40 * dec_eps"
    using len by (intro mult_right_mono) (auto simp: dec_eps_def)
  then have "of_nat (length (filter P fees)) * dec_eps \<le> 1" by (simp add: dec_eps_def)
  with total dsum_near [of 0 0 0 g "filter P fees"]
  show "\<bar>dsum D g 0 (filter P fees) - (\<Sum>f\<leftarrow>filter P fees. g f)\<bar>
           \<le> of_nat (length (filter P fees)) * dec_eps"
    by simp
  show "\<bar>\<Sum>f\<leftarrow>filter P fees. g f\<bar> \<le> (\<Sum>f\<leftarrow>filter P fees. \<bar>g f\<bar>)"
    by (induction fees) (auto intro: order_trans [OF abs_triangle_ineq])
qed

lemma fee_total_near:
  fixes g :: "profit_fee \<Rightarrow> rat"
  assumes g: "\<forall>f \<in> set fees. \<bar>g f\<bar> \<le> 10 ^ 10" and len: "length fees \<le> 40"
    and x: "\<bar>x - x'\<bar> \<le> a" "\<bar>x'\<bar> \<le> 10 ^ 11" "a \<le> 1"
  shows "\<bar>dadd D (dsub D x (dsum D g 0 (debits fees))) (dsum D g 0 (credits fees))
            - (x' + signed_total g fees)\<bar> \<le> a + (of_nat (length fees) + 2) * dec_eps"
    and "\<bar>signed_total g fees\<bar> \<le> 4 * 10 ^ 11"
proof -
  let ?d = "\<Sum>f\<leftarrow>debits fees. g f" and ?c = "\<Sum>f\<leftarrow>credits fees. g f"
  let ?nd = "of_nat (length (debits fees)) * dec_eps"
  let ?nc = "of_nat (length (credits fees)) * dec_eps"
  note nd = dsum_direction_near [of fees g "\<lambda>f. pf_direction f = DEBIT", OF g len]
  note nc = dsum_direction_near [of fees g "\<lambda>f. pf_direction f = CREDIT", OF g len]
  have all: "(\<Sum>f\<leftarrow>fees. \<bar>g f\<bar>) \<le> 4 * 10 ^ 11"
    using abs_total_bound [of fees g "10 ^ 10" 40] g len by auto
  have n: "?nd + ?nc = of_nat (length fees) * dec_eps"
    by (subst (3) length_split) (simp add: algebra_simps)
  have small: "of_nat (length fees) * dec_eps \<le> 40 * dec_eps"
    using len by (intro mult_right_mono) (auto simp: dec_eps_def)
  have eps: "dec_eps \<le> 1 / 100" "0 \<le> dec_eps" by (simp_all add: dec_eps_def)
  have pw: "(10::rat) ^ 11 = 100000000000" "(10::rat) ^ 12 = 1000000000000" by simp_all
  have nn: "0 \<le> ?nd" "0 \<le> ?nc" by (simp_all add: dec_eps_def)
  show total: "\<bar>signed_total g fees\<bar> \<le> 4 * 10 ^ 11"
    using nd(3) nc(3) all abs_total_split [of g fees] pw unfolding signed_total_split by linarith
  have 1: "\<bar>dsub D x (dsum D g 0 (debits fees)) - (x' - ?d)\<bar> \<le> a + ?nd + dec_eps"
    using x nd n nn small eps pw by (intro dsub_near) linarith+
  have xd: "\<bar>x' - ?d\<bar> + \<bar>?c\<bar> \<le> 5 * 10 ^ 11"
    using x(2) nd(3) nc(3) all abs_total_split [of g fees] pw by linarith
  have "\<bar>dadd D (dsub D x (dsum D g 0 (debits fees))) (dsum D g 0 (credits fees)) - ((x' - ?d) + ?c)\<bar>
      \<le> (a + ?nd + dec_eps) + ?nc + dec_eps"
    using 1 nc(1) xd x(3) n nn small eps pw by (intro dadd_near) linarith+
  then show "\<bar>dadd D (dsub D x (dsum D g 0 (debits fees))) (dsum D g 0 (credits fees))
            - (x' + signed_total g fees)\<bar> \<le> a + (of_nat (length fees) + 2) * dec_eps"
    using n by (simp add: signed_total_split algebra_simps)
qed

lemma raw_net_vat_near:
  assumes b: "bounded_input i"
  shows "\<bar>raw_net_vat D i (sum_fees D (pi_fees i)) - vat_spec i\<bar>
           \<le> (of_nat (length (pi_fees i)) + 4) * dec_eps"
    and "\<bar>vat_spec i\<bar> \<le> 44 * 10 ^ 10"
proof -
  have amounts: "\<bar>mp_vat (pi_sale i)\<bar> \<le> 10 ^ 10" "\<bar>mp_vat (pi_cost i)\<bar> \<le> 10 ^ 10"
    "\<bar>mp_vat (pi_commission i)\<bar> \<le> 10 ^ 10" "length (pi_fees i) \<le> 40"
    "\<forall>f \<in> set (pi_fees i). \<bar>pf_vat f\<bar> \<le> 10 ^ 10"
    using b by (auto simp: bounded_input_def list_all_iff)
  let ?base = "mp_vat (pi_sale i) - mp_vat (pi_cost i) - mp_vat (pi_commission i)"
  let ?dbase = "dsub D (dsub D (mp_vat (pi_sale i)) (mp_vat (pi_cost i))) (mp_vat (pi_commission i))"
  have pw: "(10::rat) ^ 10 = 10000000000" "(10::rat) ^ 11 = 100000000000" "(10::rat) ^ 12 = 1000000000000"
    by simp_all
  have eps: "dec_eps \<le> 1 / 100" "0 \<le> dec_eps" by (simp_all add: dec_eps_def)
  have 1: "\<bar>dsub D (mp_vat (pi_sale i)) (mp_vat (pi_cost i)) - (mp_vat (pi_sale i) - mp_vat (pi_cost i))\<bar>
      \<le> 0 + 0 + dec_eps"
    using amounts pw by (intro dsub_near) linarith+
  have 2: "\<bar>?dbase - ?base\<bar> \<le> (0 + 0 + dec_eps) + 0 + dec_eps"
    using 1 amounts pw eps by (intro dsub_near) linarith+
  have base: "\<bar>?base\<bar> \<le> 3 * 10 ^ 10" using amounts pw by linarith
  have 3: "\<bar>?base\<bar> \<le> 10 ^ 11" "2 * dec_eps \<le> 1" "\<bar>?dbase - ?base\<bar> \<le> 2 * dec_eps"
    using base 2 pw eps by linarith+
  note near = fee_total_near [of "pi_fees i" pf_vat, OF amounts(5,4) 3(3,1,2)]
  show "\<bar>raw_net_vat D i (sum_fees D (pi_fees i)) - vat_spec i\<bar>
           \<le> (of_nat (length (pi_fees i)) + 4) * dec_eps"
    using near(1) by (simp add: raw_net_vat_def vat_spec_def sum_fees_sel algebra_simps)
  show "\<bar>vat_spec i\<bar> \<le> 44 * 10 ^ 10"
    using near(2) base pw unfolding vat_spec_def by linarith
qed

lemma net_profit_near:
  assumes b: "bounded_input i"
  defines "n \<equiv> of_nat (length (pi_fees i)) :: rat"
  shows "\<bar>pb_netProfit (computeProfit D i) - profit_spec i\<bar> \<le> (2 * n + 10) * dec_eps"
proof -
  have amounts: "\<bar>mp_gross (pi_sale i)\<bar> \<le> 10 ^ 10" "\<bar>mp_gross (pi_cost i)\<bar> \<le> 10 ^ 10"
    "\<bar>mp_gross (pi_commission i)\<bar> \<le> 10 ^ 10" "\<bar>pi_stoppage i\<bar> \<le> 10 ^ 10" "length (pi_fees i) \<le> 40"
    "\<forall>f \<in> set (pi_fees i). \<bar>pf_gross f\<bar> \<le> 10 ^ 10"
    using b by (auto simp: bounded_input_def list_all_iff)
  have pw: "(10::rat) ^ 10 = 10000000000" "(10::rat) ^ 11 = 100000000000" "(10::rat) ^ 12 = 1000000000000"
    by simp_all
  have eps: "dec_eps \<le> 1 / 10000" "0 \<le> dec_eps" by (simp_all add: dec_eps_def)
  define e where "e = (n + 4) * dec_eps"
  define g where "g = (n + 2) * dec_eps"
  have "n \<le> 40" using amounts(5) by (simp add: n_def)
  then have "e \<le> 44 * dec_eps" "g \<le> 42 * dec_eps" unfolding e_def g_def
    by (intro mult_right_mono; simp add: eps)+
  then have eg: "e \<le> 1 / 10" "g \<le> 1 / 10" using eps by linarith+
  define gross where "gross = mp_gross (pi_sale i) - mp_gross (pi_cost i) - mp_gross (pi_commission i)"
  define dgross where "dgross = dsub D (dsub D (mp_gross (pi_sale i)) (mp_gross (pi_cost i)))
    (mp_gross (pi_commission i))"
  define total where "total = gross + signed_total pf_gross (pi_fees i)"
  define dtotal where "dtotal = dadd D (dsub D dgross (dsum D pf_gross 0 (debits (pi_fees i))))
    (dsum D pf_gross 0 (credits (pi_fees i)))"
  define ev where "ev = effective_net_vat i (vat_spec i)"
  define dev where "dev = effective_net_vat i (raw_net_vat D i (sum_fees D (pi_fees i)))"
  have "\<bar>dsub D (mp_gross (pi_sale i)) (mp_gross (pi_cost i)) - (mp_gross (pi_sale i) - mp_gross (pi_cost i))\<bar>
      \<le> 0 + 0 + dec_eps"
    using amounts pw by (intro dsub_near) linarith+
  then have "\<bar>dgross - gross\<bar> \<le> (0 + 0 + dec_eps) + 0 + dec_eps"
    unfolding dgross_def gross_def using amounts pw eps by (intro dsub_near) linarith+
  then have 1: "\<bar>dgross - gross\<bar> \<le> 2 * dec_eps" by simp
  have small: "\<bar>gross\<bar> \<le> 10 ^ 11" "2 * dec_eps \<le> 1"
    using amounts pw eps unfolding gross_def by linarith+
  note ft = fee_total_near [of "pi_fees i" pf_gross, OF amounts(6,5) 1 small]
  have 2: "\<bar>dtotal - total\<bar> \<le> 2 * dec_eps + g" and total: "\<bar>total\<bar> \<le> 5 * 10 ^ 11"
    using ft small pw unfolding dtotal_def total_def g_def n_def by linarith+
  have 3: "\<bar>dsub D dtotal (pi_stoppage i) - (total - pi_stoppage i)\<bar> \<le> (2 * dec_eps + g) + 0 + dec_eps"
    using 2 total amounts(4) pw eps eg by (intro dsub_near) linarith+
  have vat: "\<bar>dev - ev\<bar> \<le> e" "\<bar>ev\<bar> \<le> 44 * 10 ^ 10"
    using raw_net_vat_near(2) [OF b] effective_net_vat_near [OF raw_net_vat_near(1) [OF b], of i]
    unfolding dev_def ev_def e_def n_def by (auto intro: order_trans)
  have "\<bar>dsub D (dsub D dtotal (pi_stoppage i)) dev - (total - pi_stoppage i - ev)\<bar>
      \<le> ((2 * dec_eps + g) + 0 + dec_eps) + e + dec_eps"
    by (rule dsub_near) (use 3 vat total amounts(4) pw eps eg in linarith)+
  moreover have "((2 * dec_eps + g) + 0 + dec_eps) + e + dec_eps = (2 * n + 10) * dec_eps"
    by (simp add: e_def g_def algebra_simps)
  moreover have "pb_netProfit (computeProfit D i) = dsub D (dsub D dtotal (pi_stoppage i)) dev"
    by (simp add: computeProfit_def Let_def net_profit_def dtotal_def dgross_def dev_def sum_fees_sel)
  moreover have "profit_spec i = total - pi_stoppage i - ev"
    by (simp add: profit_spec_def total_def gross_def ev_def)
  ultimately show ?thesis by simp
qed

end

section \<open>Properties\<close>

lemma computeProfit_sel:
  "pb_netVat (computeProfit D i) = effective_net_vat i (raw_net_vat D i (sum_fees D (pi_fees i)))"
  "pb_netProfit (computeProfit D i) =
     net_profit D i (sum_fees D (pi_fees i)) (pb_netVat (computeProfit D i))"
  "pb_saleGross (computeProfit D i) = mp_gross (pi_sale i)"
  "pb_stoppage (computeProfit D i) = pi_stoppage i"
  "pb_saleMarginPct (computeProfit D i) =
     pct_of D (pb_netProfit (computeProfit D i)) (mp_gross (pi_sale i))"
  "pb_costMarkupPct (computeProfit D i) =
     pct_of D (pb_netProfit (computeProfit D i)) (mp_gross (pi_cost i))"
  by (simp_all add: computeProfit_def Let_def)

text \<open>A sale of 120 with cost, commission, shipping, service fee and a returned fee.\<close>

definition example_input :: profit_input where
  "example_input = \<lparr> pi_sale = \<lparr> mp_gross = 120, mp_vat = 20 \<rparr>,
     pi_cost = \<lparr> mp_gross = 60, mp_vat = 10 \<rparr>, pi_commission = \<lparr> mp_gross = 18, mp_vat = 3 \<rparr>,
     pi_fees = [\<lparr> pf_type = PF_SHIPPING, pf_gross = 24, pf_vat = 4, pf_direction = DEBIT \<rparr>,
       \<lparr> pf_type = PF_PLATFORM_SERVICE, pf_gross = 6, pf_vat = 1, pf_direction = CREDIT \<rparr>],
     pi_stoppage = 1, pi_includeNegativeNetVat = False \<rparr>"

lemma example_bounded: "bounded_input example_input"
  by (simp add: bounded_input_def example_input_def)

text \<open>C1: The net profit the engine computes is the exact formula over rationals (debits deducted,
  credits added back, stoppage and the effective net VAT deducted) up to the rounding of
  \<open>2 n + 10\<close> decimal operations for \<open>n\<close> fees, and the net VAT it reports is within
  \<open>n + 4\<close> roundings of the exact one. One rounding is at most \<open>5e-9\<close>.\<close>
theorem compute_profit_accurate:
  assumes "decimal_lib D" and "bounded_input i"
  shows "\<bar>pb_netProfit (computeProfit D i) - profit_spec i\<bar>
           \<le> (2 * of_nat (length (pi_fees i)) + 10) * dec_eps
       \<and> \<bar>pb_netVat (computeProfit D i) - effective_net_vat i (vat_spec i)\<bar>
           \<le> (of_nat (length (pi_fees i)) + 4) * dec_eps"
  using decimal_lib.net_profit_near [OF assms]
    effective_net_vat_near(1) [OF decimal_lib.raw_net_vat_near(1) [OF assms]]
  by (simp add: computeProfit_sel(1))

lemma compute_profit_accurate_witness:
  "\<bar>pb_netProfit (computeProfit dec20 example_input) - 19\<bar> \<le> 1 / 10 ^ 6"
  using compute_profit_accurate [OF dec20.decimal_lib_axioms example_bounded]
  by (simp add: example_input_def profit_spec_def vat_spec_def signed_total_def
      effective_net_vat_def dec_eps_def)

text \<open>With the negative net VAT option off, the reported net VAT is never negative, the profit is
  never above the profit with the option on, and both agree whenever the net VAT is not negative:
  a VAT receivable never inflates the profit and a VAT liability is always deducted.\<close>
theorem net_vat_clamp:
  assumes "decimal_lib D"
  defines "off \<equiv> \<lambda>i. computeProfit D (i \<lparr> pi_includeNegativeNetVat := False \<rparr>)"
    and "on \<equiv> \<lambda>i. computeProfit D (i \<lparr> pi_includeNegativeNetVat := True \<rparr>)"
  shows "0 \<le> pb_netVat (off i)
       \<and> pb_netProfit (off i) \<le> pb_netProfit (on i)
       \<and> (0 \<le> pb_netVat (on i) \<longrightarrow> pb_netProfit (off i) = pb_netProfit (on i))"
proof -
  let ?v = "raw_net_vat D i (sum_fees D (pi_fees i))"
  have flag [simp]: "raw_net_vat D (i \<lparr> pi_includeNegativeNetVat := b \<rparr>) t = raw_net_vat D i t"
    "net_profit D (i \<lparr> pi_includeNegativeNetVat := b \<rparr>) t v = net_profit D i t v" for b t v
    by (simp_all add: raw_net_vat_def net_profit_def)
  have vat: "pb_netVat (off i) = max ?v 0" "pb_netVat (on i) = ?v"
    by (simp_all add: off_def on_def computeProfit_sel(1) effective_net_vat_def)
  have "net_profit D i t (max ?v 0) \<le> net_profit D i t ?v" for t
    using decimal_lib.rnd_mono [OF assms(1)] by (simp add: net_profit_def dsub_def)
  then show ?thesis using vat by (simp add: computeProfit_sel(2) off_def on_def)
qed

lemma net_vat_clamp_witness:
  "pb_netProfit (computeProfit dec20 (example_input \<lparr> pi_includeNegativeNetVat := False \<rparr>))
     \<le> pb_netProfit (computeProfit dec20 (example_input \<lparr> pi_includeNegativeNetVat := True \<rparr>))"
  using net_vat_clamp [OF dec20.decimal_lib_axioms, of example_input] by simp

text \<open>A margin is reported exactly when its base is not zero, and it is then the percentage of
  the net profit in the base, up to the rounding of a division and a multiplication.\<close>
theorem margins_defined:
  assumes D: "decimal_lib D"
    and bounded: "\<bar>pb_netProfit (computeProfit D i)\<bar> \<le> 10 ^ 9 * \<bar>mp_gross (pi_sale i)\<bar>"
  shows "(pb_saleMarginPct (computeProfit D i) = None \<longleftrightarrow> mp_gross (pi_sale i) = 0)
       \<and> (pb_costMarkupPct (computeProfit D i) = None \<longleftrightarrow> mp_gross (pi_cost i) = 0)
       \<and> (\<forall>m. pb_saleMarginPct (computeProfit D i) = Some m \<longrightarrow>
            \<bar>m - 100 * pb_netProfit (computeProfit D i) / mp_gross (pi_sale i)\<bar> \<le> 101 * dec_eps)"
proof (intro conjI allI impI)
  fix m assume m: "pb_saleMarginPct (computeProfit D i) = Some m"
  let ?np = "pb_netProfit (computeProfit D i)" and ?s = "mp_gross (pi_sale i)"
  from m have s: "?s \<noteq> 0" and m': "m = rnd D (rnd D (?np / ?s) * 100)"
    by (auto simp: computeProfit_sel pct_of_def dec_ops split: if_splits)
  have q: "\<bar>?np / ?s\<bar> \<le> 10 ^ 9" using bounded s by (simp add: abs_divide field_simps)
  have eps: "dec_eps \<le> 1" by (simp add: dec_eps_def)
  have pw: "(10::rat) ^ 9 = 1000000000" "(10::rat) ^ 12 = 1000000000000" by simp_all
  have 1: "\<bar>rnd D (?np / ?s) - ?np / ?s\<bar> \<le> dec_eps"
    using q pw by (intro decimal_lib.rnd_err [OF D]) linarith
  have "\<bar>rnd D (?np / ?s) * 100\<bar> \<le> 10 ^ 12" using 1 q eps pw by linarith
  from decimal_lib.rnd_err [OF D this] 1 m'
  show "\<bar>m - 100 * ?np / ?s\<bar> \<le> 101 * dec_eps" by linarith
qed (simp_all add: computeProfit_sel pct_of_def)

lemma margins_defined_witness:
  "pb_saleMarginPct (computeProfit dec20 example_input) \<noteq> None"
proof -
  have "pb_netProfit (computeProfit dec20 example_input) = 19"
    by (simp add: computeProfit_def Let_def example_input_def sum_fees_def add_fee_def bucket_fee_def
        direct_fee_def no_fees_def raw_net_vat_def net_profit_def effective_net_vat_def dec_eval)
  then show ?thesis
    using margins_defined [OF dec20.decimal_lib_axioms, of example_input]
    by (simp add: example_input_def)
qed

end
