(* ===== verification/Unit_Pricing.thy ===== *)
theory Unit_Pricing
  imports Profit_Formula
begin

text \<open>
  The price solver, \<open>src/packages/profit/src/unit-pricing.ts\<close>: the economics of one unit
  independent of its price, the profit at a price, and the price that reaches a target profit,
  margin or markup. The solver samples the engine at the prices 0 and 100, takes the net profit to
  be affine in the price and solves for the target.
\<close>

section \<open>Definitions\<close>

record unit_economics =
  ue_saleVatRate :: rat
  ue_cost :: money_pair
  ue_commissionRate :: rat
  ue_commissionVatRate :: rat
  ue_stoppageRate :: rat
  ue_fixedFees :: "profit_fee list"

definition buildUnitProfitInput :: "dec \<Rightarrow> unit_economics \<Rightarrow> rat \<Rightarrow> profit_input" where
  "buildUnitProfitInput D econ price =
     (let saleVat = grossToVat D price (ue_saleVatRate econ);
          commissionGross = ddiv D (dmul D price (ue_commissionRate econ)) 100;
          commissionVat = grossToVat D commissionGross (ue_commissionVatRate econ);
          saleNet = dsub D price saleVat;
          stoppageGross = dmul D saleNet (ue_stoppageRate econ)
      in \<lparr> pi_sale = \<lparr> mp_gross = price, mp_vat = saleVat \<rparr>,
           pi_cost = ue_cost econ,
           pi_commission = \<lparr> mp_gross = commissionGross, mp_vat = commissionVat \<rparr>,
           pi_fees = ue_fixedFees econ,
           pi_stoppage = stoppageGross,
           pi_includeNegativeNetVat = True \<rparr>)"

definition computeUnitProfit :: "dec \<Rightarrow> unit_economics \<Rightarrow> rat \<Rightarrow> profit_breakdown" where
  "computeUnitProfit D econ price = computeProfit D (buildUnitProfitInput D econ price)"

datatype price_target = Margin rat | Markup rat | Profit rat

datatype solve_reason = NOT_PRICE_SENSITIVE | UNREACHABLE_TARGET | NO_COST

definition SAMPLE_PRICE_LO :: rat where "SAMPLE_PRICE_LO = 0"
definition SAMPLE_PRICE_HI :: rat where "SAMPLE_PRICE_HI = 100"

definition sampled_intercept :: "dec \<Rightarrow> unit_economics \<Rightarrow> rat" where
  "sampled_intercept D econ = pb_netProfit (computeUnitProfit D econ SAMPLE_PRICE_LO)"

definition sampled_slope :: "dec \<Rightarrow> unit_economics \<Rightarrow> rat" where
  "sampled_slope D econ =
     ddiv D (dsub D (pb_netProfit (computeUnitProfit D econ SAMPLE_PRICE_HI)) (sampled_intercept D econ))
       SAMPLE_PRICE_HI"

text \<open>The switch over the target: the unrounded price or the reason there is none.\<close>

definition raw_price :: "dec \<Rightarrow> unit_economics \<Rightarrow> rat \<Rightarrow> rat \<Rightarrow> price_target \<Rightarrow> solve_reason + rat" where
  "raw_price D econ a b target =
     (case target of
        Profit v \<Rightarrow> Inr (ddiv D (dsub D v b) a)
      | Margin v \<Rightarrow>
          (let denom = dsub D (ddiv D v 100) a
           in if 0 \<le> denom then Inl UNREACHABLE_TARGET else Inr (ddiv D b denom))
      | Markup v \<Rightarrow>
          (if mp_gross (ue_cost econ) = 0 then Inl NO_COST
           else Inr (ddiv D (dsub D (dmul D (ddiv D v 100) (mp_gross (ue_cost econ))) b) a)))"

definition solvePriceForTarget ::
  "dec \<Rightarrow> unit_economics \<Rightarrow> price_target \<Rightarrow> solve_reason + rat \<times> profit_breakdown" where
  "solvePriceForTarget D econ target =
     (let a = sampled_slope D econ; b = sampled_intercept D econ
      in if a \<le> 0 then Inl NOT_PRICE_SENSITIVE
         else bindR (raw_price D econ a b target) (\<lambda>price.
           let rounded = dps D 2 price
           in if rounded \<le> 0 then Inl UNREACHABLE_TARGET
              else Inr (rounded, computeUnitProfit D econ rounded)))"

section \<open>The exact profit of a unit\<close>

text \<open>Slope and intercept of the net profit over exact rationals.\<close>

definition vat_share :: "rat \<Rightarrow> rat" where "vat_share r = r / (100 + r)"

definition exact_slope :: "unit_economics \<Rightarrow> rat" where
  "exact_slope e = 1 - ue_commissionRate e / 100
     - ue_stoppageRate e * (1 - vat_share (ue_saleVatRate e))
     - vat_share (ue_saleVatRate e)
     + ue_commissionRate e / 100 * vat_share (ue_commissionVatRate e)"

definition exact_intercept :: "unit_economics \<Rightarrow> rat" where
  "exact_intercept e = mp_vat (ue_cost e) - mp_gross (ue_cost e)
     + signed_total pf_gross (ue_fixedFees e) - signed_total pf_vat (ue_fixedFees e)"

definition target_profit :: "unit_economics \<Rightarrow> price_target \<Rightarrow> rat \<Rightarrow> rat" where
  "target_profit e target price =
     (case target of Profit v \<Rightarrow> v | Margin v \<Rightarrow> v / 100 * price
      | Markup v \<Rightarrow> v / 100 * mp_gross (ue_cost e))"

text \<open>Rates between 0 and 100 percent (VAT rates in hundredths), amounts up to a million and at most ten fees.\<close>

definition bounded_economics :: "unit_economics \<Rightarrow> bool" where
  "bounded_economics e \<longleftrightarrow>
     on_grid 2 (ue_saleVatRate e) \<and> 0 \<le> ue_saleVatRate e \<and> ue_saleVatRate e \<le> 100
   \<and> 0 \<le> ue_commissionRate e \<and> ue_commissionRate e \<le> 100
   \<and> on_grid 2 (ue_commissionVatRate e) \<and> 0 \<le> ue_commissionVatRate e \<and> ue_commissionVatRate e \<le> 100
   \<and> 0 \<le> ue_stoppageRate e \<and> ue_stoppageRate e \<le> 1
   \<and> \<bar>mp_gross (ue_cost e)\<bar> \<le> 10 ^ 6 \<and> \<bar>mp_vat (ue_cost e)\<bar> \<le> 10 ^ 6
   \<and> length (ue_fixedFees e) \<le> 10
   \<and> list_all (\<lambda>f. \<bar>pf_gross f\<bar> \<le> 10 ^ 6 \<and> \<bar>pf_vat f\<bar> \<le> 10 ^ 6) (ue_fixedFees e)"

definition bounded_target :: "price_target \<Rightarrow> bool" where
  "bounded_target target \<longleftrightarrow>
     (case target of Profit v \<Rightarrow> \<bar>v\<bar> \<le> 10 ^ 6
      | Margin v \<Rightarrow> on_grid 2 v \<and> 0 \<le> v \<and> v \<le> 100
      | Markup v \<Rightarrow> on_grid 2 v \<and> 0 \<le> v \<and> v \<le> 1000)"

lemma solve_Inr_iff:
  "solvePriceForTarget D econ target = Inr (p, b) \<longleftrightarrow>
     0 < sampled_slope D econ
   \<and> (\<exists>q. raw_price D econ (sampled_slope D econ) (sampled_intercept D econ) target = Inr q
        \<and> p = dps D 2 q \<and> 0 < p) \<and> b = computeUnitProfit D econ p"
  by (cases "raw_price D econ (sampled_slope D econ) (sampled_intercept D econ) target")
    (auto simp: solvePriceForTarget_def Let_def)

section \<open>Accuracy of the forward computation\<close>

lemma abs_diff_scale:
  fixes x y s e :: rat
  assumes "\<bar>x - y\<bar> \<le> e" and "0 \<le> s" and "s \<le> c"
  shows "\<bar>x * s - y * s\<bar> \<le> e * c"
proof -
  have "0 \<le> e" using assms(1) abs_ge_zero [of "x - y"] by linarith
  then have "\<bar>x - y\<bar> * s \<le> e * c" using assms by (intro mult_mono) auto
  then show ?thesis using assms(2) abs_mult [of "x - y" s] by (simp add: left_diff_distrib)
qed

context decimal_lib
begin

lemma rnd_near: "\<bar>x - y\<bar> \<le> e \<Longrightarrow> \<bar>x\<bar> \<le> 10 ^ 12 \<Longrightarrow> \<bar>rnd D x - y\<bar> \<le> e + dec_eps"
  using rnd_err [of x] by linarith

lemma grossToVat_near:
  assumes r: "on_grid 2 r" "0 \<le> r" "r \<le> 100" and g: "\<bar>g - g'\<bar> \<le> a" "\<bar>g'\<bar> \<le> 10 ^ 8" "a \<le> 1"
  shows "\<bar>grossToVat D g r - g' * vat_share r\<bar> \<le> a + 2 * dec_eps"
proof -
  have eps: "0 \<le> dec_eps" "dec_eps \<le> 1" by (simp_all add: dec_eps_def)
  have denom: "dadd D 100 r = 100 + r"
    using r on_grid_of_int [of 2 100] by (intro dadd_exact [of 2]) auto
  have gr: "\<bar>g * r - g' * r\<bar> \<le> 100 * a"
    using abs_diff_scale [OF g(1) r(2,3)] by simp
  have g'r: "\<bar>g' * r\<bar> \<le> 10 ^ 10"
    using mult_mono [OF g(2), of "\<bar>r\<bar>" 100] r by (simp add: abs_mult)
  have small: "\<bar>g * r\<bar> \<le> 10 ^ 12" using gr g'r g(3) by simp
  have "\<bar>dmul D g r - g' * r\<bar> \<le> 100 * a + dec_eps"
    unfolding dmul_def by (rule rnd_near [OF gr small])
  then have "\<bar>(dmul D g r - g' * r) / (100 + r)\<bar> \<le> (100 * a + dec_eps) / 100"
    using r unfolding abs_divide by (intro frac_le) auto
  then have 1: "\<bar>dmul D g r / (100 + r) - g' * vat_share r\<bar> \<le> a + dec_eps / 100"
    by (simp add: vat_share_def diff_divide_distrib add_divide_distrib)
  have "0 \<le> vat_share r" "vat_share r \<le> 1" using r by (simp_all add: vat_share_def)
  then have "\<bar>g' * vat_share r\<bar> \<le> 10 ^ 8 * 1"
    unfolding abs_mult using g by (intro mult_mono) auto
  moreover have "(10::rat) ^ 8 = 100000000" "(10::rat) ^ 12 = 1000000000000" by simp_all
  ultimately have "\<bar>dmul D g r / (100 + r)\<bar> \<le> 10 ^ 12" using 1 g eps by linarith
  from rnd_near [OF 1 this] eps show ?thesis
    using r by (simp add: grossToVat_def denom ddiv_def)
qed

lemma pct_near:
  assumes "0 \<le> x" "x \<le> 10 ^ 8" "0 \<le> c" "c \<le> 100"
  shows "\<bar>ddiv D (dmul D x c) 100 - x * (c / 100)\<bar> \<le> 2 * dec_eps"
proof -
  have eps: "0 \<le> dec_eps" "dec_eps \<le> 1" by (simp_all add: dec_eps_def)
  have xc: "0 \<le> x * c" "x * c \<le> 10 ^ 8 * 100"
    using assms mult_mono [of x "10 ^ 8" c 100] by simp_all
  then have "\<bar>dmul D x c - x * c\<bar> \<le> dec_eps" unfolding dmul_def by (intro rnd_err) simp
  then have 1: "\<bar>dmul D x c / 100 - x * (c / 100)\<bar> \<le> dec_eps / 100" by linarith
  moreover have "(10::rat) ^ 8 = 100000000" "(10::rat) ^ 12 = 1000000000000" by simp_all
  ultimately have "\<bar>dmul D x c / 100\<bar> \<le> 10 ^ 12" using xc eps by linarith
  from rnd_near [OF 1 this] eps show ?thesis by (simp add: ddiv_def)
qed

lemma unit_profit_near:
  assumes e: "bounded_economics e" and p: "0 \<le> p" "p \<le> 10 ^ 6"
  shows "\<bar>pb_netProfit (computeUnitProfit D e p) - (exact_slope e * p + exact_intercept e)\<bar>
           \<le> 50 * dec_eps"
proof -
  have eps: "0 \<le> dec_eps" "dec_eps \<le> 1 / 1000" by (simp_all add: dec_eps_def)
  have rates: "on_grid 2 (ue_saleVatRate e)" "0 \<le> ue_saleVatRate e" "ue_saleVatRate e \<le> 100"
    "0 \<le> ue_commissionRate e" "ue_commissionRate e \<le> 100"
    "on_grid 2 (ue_commissionVatRate e)" "0 \<le> ue_commissionVatRate e" "ue_commissionVatRate e \<le> 100"
    "0 \<le> ue_stoppageRate e" "ue_stoppageRate e \<le> 1"
    using e by (auto simp: bounded_economics_def)
  let ?v = "vat_share (ue_saleVatRate e)" and ?cv = "vat_share (ue_commissionVatRate e)"
  let ?c = "ue_commissionRate e / 100" and ?st = "ue_stoppageRate e"
  define i where "i = buildUnitProfitInput D e p"
  have share: "0 \<le> ?v" "?v \<le> 1" "0 \<le> ?cv" "?cv \<le> 1"
    using rates by (simp_all add: vat_share_def)
  have pv: "0 \<le> p * ?v" "p * ?v \<le> p" "0 \<le> p * ?c" "p * ?c \<le> p"
    using p share rates mult_left_mono [of ?v 1 p] mult_left_mono [of ?c 1 p] by simp_all
  have sv: "\<bar>mp_vat (pi_sale i) - p * ?v\<bar> \<le> 2 * dec_eps"
    using grossToVat_near [OF rates(1-3), of p p 0] p
    by (simp add: i_def buildUnitProfitInput_def Let_def)
  have cg: "\<bar>mp_gross (pi_commission i) - p * ?c\<bar> \<le> 2 * dec_eps"
    using pct_near [OF p(1) _ rates(4,5)] p by (simp add: i_def buildUnitProfitInput_def Let_def)
  have "\<bar>grossToVat D (mp_gross (pi_commission i)) (ue_commissionVatRate e) - p * ?c * ?cv\<bar>
      \<le> 2 * dec_eps + 2 * dec_eps"
    using pv p eps by (intro grossToVat_near [OF rates(6-8) cg]) auto
  then have cv: "\<bar>mp_vat (pi_commission i) - p * ?c * ?cv\<bar> \<le> 4 * dec_eps"
    by (simp add: i_def buildUnitProfitInput_def Let_def)
  have net: "\<bar>(p - mp_vat (pi_sale i)) - (p - p * ?v)\<bar> \<le> 2 * dec_eps" using sv by linarith
  have net_small: "\<bar>p - mp_vat (pi_sale i)\<bar> \<le> 10 ^ 7" using net pv p eps by simp
  have sn: "\<bar>dsub D p (mp_vat (pi_sale i)) - (p - p * ?v)\<bar> \<le> 3 * dec_eps"
    using rnd_near [OF net] net_small by (simp add: dsub_def)
  have "\<bar>dsub D p (mp_vat (pi_sale i)) * ?st - (p - p * ?v) * ?st\<bar> \<le> 3 * dec_eps"
    using abs_diff_scale [OF sn, of ?st 1] rates by simp
  moreover have "0 \<le> (p - p * ?v) * ?st" "(p - p * ?v) * ?st \<le> p"
    using pv p rates mult_mono [of "p - p * ?v" p ?st 1] by auto
  ultimately have st: "\<bar>pi_stoppage i - (p - p * ?v) * ?st\<bar> \<le> 4 * dec_eps" and
    st_small: "\<bar>(p - p * ?v) * ?st\<bar> \<le> 10 ^ 6"
    using rnd_near [of "dsub D p (mp_vat (pi_sale i)) * ?st" "(p - p * ?v) * ?st" "3 * dec_eps"] p eps
    by (simp_all add: i_def buildUnitProfitInput_def Let_def dmul_def)
  have rest: "mp_gross (pi_sale i) = p" "pi_cost i = ue_cost e" "pi_fees i = ue_fixedFees e"
    "pi_includeNegativeNetVat i"
    by (simp_all add: i_def buildUnitProfitInput_def Let_def)
  have "\<bar>p * ?c * ?cv\<bar> \<le> p" using pv share mult_mono [of "p * ?c" p ?cv 1] p by simp
  moreover have pw: "(10::rat) ^ 6 = 1000000" "(10::rat) ^ 10 = 10000000000" by simp_all
  ultimately have amounts: "\<bar>mp_vat (pi_sale i)\<bar> \<le> 10 ^ 10" "\<bar>mp_gross (pi_commission i)\<bar> \<le> 10 ^ 10"
    "\<bar>mp_vat (pi_commission i)\<bar> \<le> 10 ^ 10" "\<bar>pi_stoppage i\<bar> \<le> 10 ^ 10" "\<bar>p\<bar> \<le> 10 ^ 10"
    using p sv cg cv st pv st_small eps by linarith+
  have cost: "\<bar>mp_gross (ue_cost e)\<bar> \<le> 10 ^ 10" "\<bar>mp_vat (ue_cost e)\<bar> \<le> 10 ^ 10"
    "length (ue_fixedFees e) \<le> 40"
    "list_all (\<lambda>f. \<bar>pf_gross f\<bar> \<le> 10 ^ 10 \<and> \<bar>pf_vat f\<bar> \<le> 10 ^ 10) (ue_fixedFees e)"
    using e by (auto simp: bounded_economics_def list_all_iff)
  have b: "bounded_input i"
    using amounts cost by (simp add: bounded_input_def rest)
  have len: "of_nat (length (pi_fees i)) \<le> (10::rat)"
    using e by (simp add: rest bounded_economics_def)
  have "(2 * of_nat (length (pi_fees i)) + 10) * dec_eps \<le> 30 * dec_eps"
    using len eps by (intro mult_right_mono) auto
  then have 1: "\<bar>pb_netProfit (computeUnitProfit D e p) - profit_spec i\<bar> \<le> 30 * dec_eps"
    using net_profit_near [OF b] by (simp add: computeUnitProfit_def i_def)
  have "profit_spec i - (exact_slope e * p + exact_intercept e) =
      (p * ?c - mp_gross (pi_commission i)) + ((p - p * ?v) * ?st - pi_stoppage i)
      + (p * ?v - mp_vat (pi_sale i)) + (mp_vat (pi_commission i) - p * ?c * ?cv)"
    by (simp add: profit_spec_def vat_spec_def effective_net_vat_def rest exact_slope_def
        exact_intercept_def algebra_simps)
  then show ?thesis using 1 sv cg cv st by linarith
qed

section \<open>Accuracy of the solver\<close>

lemma pct_exact: "on_grid 2 v \<Longrightarrow> \<bar>v\<bar> \<le> 10 ^ 8 \<Longrightarrow> ddiv D v 100 = v / 100"
proof -
  assume v: "on_grid 2 v" and small: "\<bar>v\<bar> \<le> 10 ^ 8"
  have "on_grid 4 (v / 100)" using v by (simp add: on_grid_def mult.commute)
  moreover have "\<bar>v / 100\<bar> * 10 ^ 4 < 10 ^ 20" using small by simp
  ultimately show ?thesis unfolding ddiv_def using rnd_on_grid by simp
qed

lemma rnd_small_arg: "\<bar>rnd D x\<bar> < 10 ^ 12 \<Longrightarrow> \<bar>x\<bar> \<le> 10 ^ 12"
proof (rule ccontr)
  assume small: "\<bar>rnd D x\<bar> < 10 ^ 12" and "\<not> \<bar>x\<bar> \<le> 10 ^ 12"
  then consider "10 ^ 12 \<le> x" | "x \<le> - (10 ^ 12)" by linarith
  then show False
  proof cases
    case 1
    with rnd_mono [OF 1] rnd_grid [of "10 ^ 12" 0] small show False by simp
  next
    case 2
    with rnd_mono [OF 2] rnd_odd [of "10 ^ 12"] rnd_grid [of "10 ^ 12" 0] small show False by simp
  qed
qed

lemma quotient_near:
  assumes "y \<noteq> 0" and p: "p = dps D 2 (ddiv D x y)" "\<bar>p\<bar> \<le> 10 ^ 6"
  shows "\<bar>y * p - x\<bar> \<le> \<bar>y\<bar> * (1 / 200 + dec_eps)"
proof -
  define q where "q = rnd D (x / y)"
  have pq: "\<bar>p - q\<bar> \<le> 1 / 200"
    using dps_err [of 2 q] assms(1) by (simp add: p ddiv_def q_def)
  moreover have "(10::rat) ^ 6 = 1000000" "(10::rat) ^ 12 = 1000000000000" by simp_all
  ultimately have "\<bar>q\<bar> < 10 ^ 12" using p(2) by linarith
  then have "\<bar>q - x / y\<bar> \<le> dec_eps" unfolding q_def by (intro rnd_err rnd_small_arg)
  then have "\<bar>p - x / y\<bar> \<le> 1 / 200 + dec_eps" using pq by linarith
  then have "\<bar>y\<bar> * \<bar>p - x / y\<bar> \<le> \<bar>y\<bar> * (1 / 200 + dec_eps)" by (intro mult_left_mono) auto
  moreover have "y * p - x = y * (p - x / y)" using assms(1) by (simp add: right_diff_distrib)
  ultimately show ?thesis by (simp add: abs_mult)
qed

lemma slope_bounds:
  assumes e: "bounded_economics e"
  shows "\<bar>exact_slope e\<bar> \<le> 10" and "exact_slope e \<le> 1"
proof -
  define v w c t where "v = vat_share (ue_saleVatRate e)" and "w = vat_share (ue_commissionVatRate e)"
    and "c = ue_commissionRate e / 100" and "t = ue_stoppageRate e"
  have "0 \<le> v" "v \<le> 1" "0 \<le> w" "w \<le> 1" "0 \<le> c" "c \<le> 1" "0 \<le> t" "t \<le> 1"
    using e by (simp_all add: bounded_economics_def vat_share_def v_def w_def c_def t_def)
  moreover from this have "0 \<le> t * (1 - v)" "t * (1 - v) \<le> 1 * 1" "0 \<le> c * w" "c * w \<le> c * 1"
    by (auto intro!: mult_mono mult_left_mono mult_nonneg_nonneg simp del: mult_1_right mult_1_left)
  moreover have "exact_slope e = 1 - c - t * (1 - v) - v + c * w"
    by (simp add: exact_slope_def v_def w_def c_def t_def)
  ultimately show "\<bar>exact_slope e\<bar> \<le> 10" and "exact_slope e \<le> 1" by linarith+
qed

lemma bounded_totals:
  assumes "bounded_economics e"
  shows "\<bar>exact_intercept e\<bar> \<le> 3 * 10 ^ 7"
proof -
  have pw: "(10::rat) ^ 6 = 1000000" "(10::rat) ^ 7 = 10000000" by simp_all
  have total: "\<bar>signed_total g (ue_fixedFees e)\<bar> \<le> 10 ^ 7"
    if g: "\<And>f. f \<in> set (ue_fixedFees e) \<Longrightarrow> \<bar>g f\<bar> \<le> 10 ^ 6" for g
  proof -
    have "\<bar>signed_total g xs\<bar> \<le> (\<Sum>f\<leftarrow>xs. \<bar>g f\<bar>)" for xs
      unfolding signed_total_def by (induction xs) auto
    moreover have "(\<Sum>f\<leftarrow>ue_fixedFees e. \<bar>g f\<bar>) \<le> of_nat 10 * 10 ^ 6"
      using assms g by (intro abs_total_bound) (auto simp: bounded_economics_def)
    ultimately show ?thesis by (rule order_trans [OF _ order_trans]) simp
  qed
  have "\<bar>signed_total pf_gross (ue_fixedFees e)\<bar> \<le> 10 ^ 7" "\<bar>signed_total pf_vat (ue_fixedFees e)\<bar> \<le> 10 ^ 7"
    "\<bar>mp_gross (ue_cost e)\<bar> \<le> 10 ^ 6" "\<bar>mp_vat (ue_cost e)\<bar> \<le> 10 ^ 6"
    using total [of pf_gross] total [of pf_vat] assms
    by (simp_all add: bounded_economics_def list_all_iff)
  then show "\<bar>exact_intercept e\<bar> \<le> 3 * 10 ^ 7" unfolding exact_intercept_def using pw by linarith
qed

lemma sampled_near:
  assumes e: "bounded_economics e"
  shows "\<bar>sampled_intercept D e - exact_intercept e\<bar> \<le> 50 * dec_eps"
    and "\<bar>sampled_slope D e - exact_slope e\<bar> \<le> 3 * dec_eps"
proof -
  have eps: "0 \<le> dec_eps" "dec_eps \<le> 1 / 1000" by (simp_all add: dec_eps_def)
  have pw: "(10::rat) ^ 7 = 10000000" "(10::rat) ^ 12 = 1000000000000" by simp_all
  show b: "\<bar>sampled_intercept D e - exact_intercept e\<bar> \<le> 50 * dec_eps"
    using unit_profit_near [OF e, of 0] by (simp add: sampled_intercept_def SAMPLE_PRICE_LO_def)
  let ?h = "pb_netProfit (computeUnitProfit D e 100)"
  have h: "\<bar>?h - (exact_slope e * 100 + exact_intercept e)\<bar> \<le> 50 * dec_eps"
    using unit_profit_near [OF e, of 100] by simp
  have diff: "\<bar>(?h - sampled_intercept D e) - exact_slope e * 100\<bar> \<le> 100 * dec_eps"
    using h b by linarith
  have slope: "\<bar>exact_slope e\<bar> \<le> 10" by (rule slope_bounds(1) [OF e])
  then have "\<bar>?h - sampled_intercept D e\<bar> \<le> 10 ^ 12" using diff eps pw by linarith
  from rnd_near [OF diff this]
  have num: "\<bar>dsub D ?h (sampled_intercept D e) / 100 - exact_slope e\<bar> \<le> 101 * dec_eps / 100"
    unfolding dsub_def by linarith
  then have "\<bar>dsub D ?h (sampled_intercept D e) / 100\<bar> \<le> 10 ^ 12"
    using slope eps pw by linarith
  from rnd_near [OF num this] eps show "\<bar>sampled_slope D e - exact_slope e\<bar> \<le> 3 * dec_eps"
    by (simp add: sampled_slope_def ddiv_def SAMPLE_PRICE_HI_def)
qed

lemma solved_affine:
  assumes e: "bounded_economics e" and t: "bounded_target target"
    and solve: "raw_price D e (sampled_slope D e) (sampled_intercept D e) target = Inr q"
    and pos: "0 < sampled_slope D e" and p: "p = dps D 2 q" "0 < p" "p \<le> 10 ^ 5"
  shows "\<bar>exact_slope e * p + exact_intercept e - target_profit e target p\<bar> \<le> 9 / 1000"
proof -
  define a b A B where "a = sampled_slope D e" and "b = sampled_intercept D e"
    and "A = exact_slope e" and "B = exact_intercept e"
  have eps: "dec_eps = 1 / 200000000" by (simp add: dec_eps_def)
  have pw: "(10::rat) ^ 5 = 100000" "(10::rat) ^ 6 = 1000000" "(10::rat) ^ 7 = 10000000"
    "(10::rat) ^ 12 = 1000000000000" by simp_all
  have ab: "\<bar>a - A\<bar> \<le> 3 * dec_eps" "\<bar>b - B\<bar> \<le> 50 * dec_eps" "0 < a" "A \<le> 1" "\<bar>B\<bar> \<le> 3 * 10 ^ 7"
    using sampled_near [OF e] pos slope_bounds [OF e] bounded_totals [OF e]
    by (simp_all add: a_def b_def A_def B_def)
  have drift: "\<bar>x * p - y * p\<bar> \<le> 1 / 400" if "\<bar>x - y\<bar> \<le> 5 * dec_eps" for x y
    using abs_diff_scale [OF that, of p "10 ^ 5"] p eps by simp
  have over: "\<bar>a * p - x\<bar> \<le> a * (1 / 200 + dec_eps)" if "q = ddiv D x a" for x
    using quotient_near [of a p x] p pw ab(3) that by simp
  have slack: "x * (1 / 200 + dec_eps) \<le> 1 / 190" if "x \<le> 1 + 4 * dec_eps" for x
    using that unfolding eps by (simp add: field_simps)
  have Ap: "\<bar>a * p - A * p\<bar> \<le> 1 / 400" using ab(1) eps by (intro drift) simp
  have close: "\<bar>A * p + B - v\<bar> \<le> 9 / 1000"
    if v: "\<bar>x' - v\<bar> \<le> dec_eps" "\<bar>v\<bar> \<le> 2 * 10 ^ 7" and q: "q = ddiv D (dsub D x' b) a" for v x'
  proof -
    have 1: "\<bar>(x' - b) - (v - B)\<bar> \<le> 51 * dec_eps" using v ab(2) by linarith
    have "\<bar>x' - b\<bar> \<le> 10 ^ 12" using 1 v(2) ab(5) pw eps by linarith
    from rnd_near [OF 1 this] have "\<bar>dsub D x' b - (v - B)\<bar> \<le> 52 * dec_eps"
      by (simp add: dsub_def)
    with over [OF q] slack [of a] ab Ap eps show ?thesis by linarith
  qed
  show ?thesis
  proof (cases target)
    case (Profit v)
    then have "q = ddiv D (dsub D v b) a" "\<bar>v\<bar> \<le> 2 * 10 ^ 7" "target_profit e target p = v"
      using solve t by (simp_all add: raw_price_def a_def b_def target_profit_def bounded_target_def)
    with close [of v v] eps show ?thesis by (simp add: A_def B_def)
  next
    case (Markup v)
    let ?c = "mp_gross (ue_cost e)"
    have v: "0 \<le> v" "v \<le> 1000" "ddiv D v 100 = v / 100"
      using t Markup by (simp_all add: bounded_target_def pct_exact)
    have c: "\<bar>?c\<bar> \<le> 10 ^ 6" using e by (simp add: bounded_economics_def)
    have small: "\<bar>v / 100 * ?c\<bar> \<le> 10 * 10 ^ 6"
      using v c unfolding abs_mult by (intro mult_mono) auto
    then have "\<bar>dmul D (v / 100) ?c - v / 100 * ?c\<bar> \<le> dec_eps"
      unfolding dmul_def by (intro rnd_err) simp
    moreover have "q = ddiv D (dsub D (dmul D (ddiv D v 100) ?c) b) a"
      using solve Markup by (auto simp: raw_price_def a_def b_def split: if_splits)
    then have "q = ddiv D (dsub D (dmul D (v / 100) ?c) b) a" unfolding v(3) .
    moreover have "\<bar>v / 100 * ?c\<bar> \<le> 2 * 10 ^ 7" using small pw by linarith
    ultimately have "\<bar>A * p + B - v / 100 * ?c\<bar> \<le> 9 / 1000" by (intro close)
    then show ?thesis using Markup by (simp add: target_profit_def A_def B_def)
  next
    case (Margin v)
    define d where "d = dsub D (v / 100) a"
    have v: "0 \<le> v" "v \<le> 100" "ddiv D v 100 = v / 100"
      using t Margin by (simp_all add: bounded_target_def pct_exact)
    have neg: "d < 0" and q: "q = ddiv D b d"
      using solve Margin v(3) by (auto simp: raw_price_def a_def b_def d_def Let_def split: if_splits)
    have 1: "\<bar>(v / 100 - a) - (v / 100 - A)\<bar> \<le> 3 * dec_eps" using ab(1) by linarith
    have "\<bar>v / 100 - a\<bar> \<le> 10 ^ 12" using v ab eps pw by linarith
    from rnd_near [OF 1 this] have d: "\<bar>d - (v / 100 - A)\<bar> \<le> 4 * dec_eps"
      by (simp add: d_def dsub_def)
    have "\<bar>d * p - b\<bar> \<le> \<bar>d\<bar> * (1 / 200 + dec_eps)"
      using quotient_near [of d p b] neg p pw by (simp add: q)
    moreover have "\<bar>d\<bar> * (1 / 200 + dec_eps) \<le> 1 / 190"
      using d neg v ab by (intro slack) linarith
    moreover have "\<bar>d * p - (v / 100 - A) * p\<bar> \<le> 1 / 400" using d eps by (intro drift) simp
    ultimately have "\<bar>A * p + B - v / 100 * p\<bar> \<le> 9 / 1000"
      using ab(2) eps unfolding left_diff_distrib by linarith
    then show ?thesis using Margin by (simp add: target_profit_def A_def B_def)
  qed
qed

end

section \<open>Properties\<close>

text \<open>C2: When the solver finds a price, the profit of selling at that price is within one kurus of what
  the target asks for (an amount, a margin on the price or a markup on the cost), for targets and
  economics in the stated bounds and prices up to 100,000: inverting the engine from two
  samples, with every intermediate result rounded, lands on the target.\<close>
theorem solver_hits_target:
  assumes D: "decimal_lib D" and e: "bounded_economics e" and t: "bounded_target target"
    and solve: "solvePriceForTarget D e target = Inr (p, bd)" and p: "p \<le> 10 ^ 5"
  shows "\<bar>pb_netProfit bd - target_profit e target p\<bar> \<le> 1 / 100"
proof -
  from solve obtain q where q: "raw_price D e (sampled_slope D e) (sampled_intercept D e) target = Inr q"
      "p = dps D 2 q" "0 < p" and pos: "0 < sampled_slope D e" and bd: "bd = computeUnitProfit D e p"
    by (auto simp: solve_Inr_iff)
  have "\<bar>exact_slope e * p + exact_intercept e - target_profit e target p\<bar> \<le> 9 / 1000"
    by (rule decimal_lib.solved_affine [OF D e t q(1) pos q(2,3) p])
  moreover have "\<bar>pb_netProfit bd - (exact_slope e * p + exact_intercept e)\<bar> \<le> 50 * dec_eps"
    unfolding bd using q(3) p by (intro decimal_lib.unit_profit_near [OF D e]) auto
  moreover have "dec_eps = 1 / 200000000" by (simp add: dec_eps_def)
  ultimately show ?thesis by linarith
qed

text \<open>A unit with 25 percent VAT, a cost of 60, a commission of 20 percent and a shipping fee of 12.\<close>

definition example_unit :: unit_economics where
  "example_unit = \<lparr> ue_saleVatRate = 25, ue_cost = \<lparr> mp_gross = 60, mp_vat = 10 \<rparr>,
     ue_commissionRate = 20, ue_commissionVatRate = 25, ue_stoppageRate = 1 / 100,
     ue_fixedFees = [\<lparr> pf_type = PF_SHIPPING, pf_gross = 12, pf_vat = 2, pf_direction = DEBIT \<rparr>] \<rparr>"

lemmas unit_eval = solvePriceForTarget_def raw_price_def sampled_slope_def sampled_intercept_def
  SAMPLE_PRICE_LO_def SAMPLE_PRICE_HI_def computeUnitProfit_def buildUnitProfitInput_def
  computeProfit_def Let_def sum_fees_def add_fee_def bucket_fee_def direct_fee_def no_fees_def
  raw_net_vat_def net_profit_def effective_net_vat_def grossToVat_def example_unit_def pct_of_def

lemma example_unit_solved:
  "\<exists>bd. solvePriceForTarget dec20 example_unit (Profit 20) = Inr (126.58, bd)"
  by (simp add: unit_eval dec_eval)

lemma solver_hits_target_witness:
  "\<exists>bd. solvePriceForTarget dec20 example_unit (Profit 20) = Inr (126.58, bd)
      \<and> \<bar>pb_netProfit bd - 20\<bar> \<le> 1 / 100"
proof -
  obtain bd where s: "solvePriceForTarget dec20 example_unit (Profit 20) = Inr (126.58, bd)"
    using example_unit_solved by blast
  have "bounded_economics example_unit"
    using on_grid_of_int [of 2 25]
    by (simp add: bounded_economics_def example_unit_def)
  from solver_hits_target [OF dec20.decimal_lib_axioms this _ s] s show ?thesis
    by (simp add: bounded_target_def target_profit_def)
qed

text \<open>A price the solver returns is positive and in whole kurus and comes with the breakdown at
  exactly that price; it gives up exactly because the profit does not grow with the price, because
  a margin of at least the slope cannot be reached, because a markup has no cost to stand on, or
  because the solution rounds to zero or below.\<close>
theorem solver_result:
  assumes "decimal_lib D"
  shows "case solvePriceForTarget D e target of
      Inr (p, bd) \<Rightarrow> 0 < p \<and> on_grid 2 p \<and> bd = computeUnitProfit D e p \<and> 0 < sampled_slope D e
    | Inl NOT_PRICE_SENSITIVE \<Rightarrow> sampled_slope D e \<le> 0
    | Inl NO_COST \<Rightarrow> (\<exists>v. target = Markup v) \<and> mp_gross (ue_cost e) = 0
    | Inl UNREACHABLE_TARGET \<Rightarrow>
        (\<exists>v. target = Margin v \<and> 0 \<le> dsub D (ddiv D v 100) (sampled_slope D e)) \<or>
        (\<exists>q. raw_price D e (sampled_slope D e) (sampled_intercept D e) target = Inr q \<and> dps D 2 q \<le> 0)"
  using decimal_lib.dps_on_grid [OF assms]
  by (cases target) (auto simp: solvePriceForTarget_def raw_price_def Let_def)

lemma solver_result_witness:
  "\<exists>p bd. solvePriceForTarget dec20 example_unit (Profit 20) = Inr (p, bd) \<and> 0 < p \<and> on_grid 2 p"
  using solver_result [OF dec20.decimal_lib_axioms, of example_unit "Profit 20"] example_unit_solved
  by auto

end
