(* ===== verification/Permissions.thy ===== *)
theory Permissions
  imports Prelude
begin

text \<open>
  Roles and capabilities, \<open>src/packages/utils/src/permissions.ts\<close>. The roles are instantiated as a
  linear order in the library's class, from the viewer to the owner, so that the hierarchy
  claim is monotonicity.
\<close>

datatype member_role = OWNER | ADMIN | MEMBER | VIEWER

datatype capability = DATA_READ | DATA_WRITE | SYNC_TRIGGER | STORES_CONNECT | STORES_DISCONNECT
  | STORES_CONFIGURE | MEMBERS_READ | MEMBERS_MANAGE_ACCESS | MEMBERS_MANAGE_ROLES
  | ORG_MANAGE_SETTINGS | ORG_DELETE

definition VIEWER_CAPABILITIES :: "capability list" where
  "VIEWER_CAPABILITIES = [DATA_READ]"

definition MEMBER_CAPABILITIES :: "capability list" where
  "MEMBER_CAPABILITIES = VIEWER_CAPABILITIES @ [DATA_WRITE, SYNC_TRIGGER]"

definition ADMIN_CAPABILITIES :: "capability list" where
  "ADMIN_CAPABILITIES = MEMBER_CAPABILITIES @ [STORES_CONNECT, STORES_DISCONNECT, STORES_CONFIGURE,
     MEMBERS_READ, MEMBERS_MANAGE_ACCESS, ORG_MANAGE_SETTINGS]"

definition OWNER_CAPABILITIES :: "capability list" where
  "OWNER_CAPABILITIES = ADMIN_CAPABILITIES @ [MEMBERS_MANAGE_ROLES, ORG_DELETE]"

fun ROLE_CAPABILITIES :: "member_role \<Rightarrow> capability list" where
  "ROLE_CAPABILITIES VIEWER = VIEWER_CAPABILITIES"
| "ROLE_CAPABILITIES MEMBER = MEMBER_CAPABILITIES"
| "ROLE_CAPABILITIES ADMIN = ADMIN_CAPABILITIES"
| "ROLE_CAPABILITIES OWNER = OWNER_CAPABILITIES"

definition can :: "member_role \<Rightarrow> capability \<Rightarrow> bool" where
  "can role capability \<longleftrightarrow> capability \<in> set (ROLE_CAPABILITIES role)"

text \<open>The spread of a \<open>Set\<close>: every capability once, in the order of insertion.\<close>

definition capabilitiesFor :: "member_role \<Rightarrow> capability list" where
  "capabilitiesFor role = rev (remdups (rev (ROLE_CAPABILITIES role)))"

fun rank :: "member_role \<Rightarrow> nat" where
  "rank VIEWER = 0"
| "rank MEMBER = 1"
| "rank ADMIN = 2"
| "rank OWNER = 3"

lemma rank_inj: "rank r = rank s \<longleftrightarrow> r = s"
  by (cases r; cases s) simp_all

instantiation member_role :: linorder
begin

definition less_eq_member_role :: "member_role \<Rightarrow> member_role \<Rightarrow> bool" where
  "less_eq_member_role r s \<longleftrightarrow> rank r \<le> rank s"

definition less_member_role :: "member_role \<Rightarrow> member_role \<Rightarrow> bool" where
  "less_member_role r s \<longleftrightarrow> rank r < rank s"

instance
  by intro_classes (auto simp: less_eq_member_role_def less_member_role_def rank_inj)

end

lemmas capability_lists = OWNER_CAPABILITIES_def ADMIN_CAPABILITIES_def MEMBER_CAPABILITIES_def
  VIEWER_CAPABILITIES_def

text \<open>The roles form a strict hierarchy: a higher role can do everything a lower one can and
  something more, and deleting the organization and managing roles are for the owner alone.\<close>
theorem capabilities_monotone:
  "(r \<le> s \<longleftrightarrow> (\<forall>c. can r c \<longrightarrow> can s c))
   \<and> (can r ORG_DELETE \<longleftrightarrow> r = OWNER) \<and> (can r MEMBERS_MANAGE_ROLES \<longleftrightarrow> r = OWNER)
   \<and> set (capabilitiesFor r) = {c. can r c} \<and> distinct (capabilitiesFor r)"
proof -
  have "(\<forall>c. can r c \<longrightarrow> can s c) \<longleftrightarrow> set (ROLE_CAPABILITIES r) \<subseteq> set (ROLE_CAPABILITIES s)"
    by (auto simp: can_def)
  moreover have "r \<le> s \<longleftrightarrow> set (ROLE_CAPABILITIES r) \<subseteq> set (ROLE_CAPABILITIES s)"
    by (cases r; cases s) (simp_all add: less_eq_member_role_def capability_lists)
  moreover have "can r ORG_DELETE \<longleftrightarrow> r = OWNER" "can r MEMBERS_MANAGE_ROLES \<longleftrightarrow> r = OWNER"
    by (cases r; simp add: can_def capability_lists)+
  moreover have "set (capabilitiesFor r) = {c. can r c}" "distinct (capabilitiesFor r)"
    by (simp_all add: can_def capabilitiesFor_def)
  ultimately show ?thesis by blast
qed

lemma capabilities_monotone_witness: "can ADMIN SYNC_TRIGGER \<and> \<not> can MEMBER STORES_CONNECT"
  using capabilities_monotone [of MEMBER ADMIN]
  by (simp add: can_def capability_lists)

end
