(* ===== verification/Return_Legs.thy ===== *)
theory Return_Legs
  imports Profit_Formula
begin

text \<open>
  Returns in the profit: \<open>src/packages/profit/src/fold-return-legs.ts\<close>. A return is five legs
  (refund, commission back, cost back, return shipping, stoppage back); each is resolved on its
  own from the fee rows, the actual rows where there are any and the estimates otherwise, and
  the legs are folded into the input of the engine. The rows carry the schema's enums, as at run
  time: the cast to the narrower unions in the callers does not check anything.
\<close>

record return_fee_row =
  rf_feeType :: order_fee_type
  rf_source :: order_fee_source
  rf_amountGross :: rat
  rf_vatRate :: rat

record return_legs =
  rl_refundDeduction :: money_pair
  rl_commissionRefund :: money_pair
  rl_costReturn :: money_pair
  rl_returnShipping :: money_pair
  rl_stoppageRefund :: money_pair

definition RETURN_FEE_TYPES :: "order_fee_type list" where
  "RETURN_FEE_TYPES =
     [REFUND_DEDUCTION, COMMISSION_REFUND, COST_RETURN, RETURN_SHIPPING, STOPPAGE_REFUND]"

definition actual_source :: "order_fee_source \<Rightarrow> bool" where
  "actual_source s \<longleftrightarrow> s \<in> {SETTLEMENT, CARGO_INVOICE}"

definition chosen_rows :: "order_fee_type \<Rightarrow> return_fee_row list \<Rightarrow> return_fee_row list" where
  "chosen_rows ty rows =
     (let ofType = filter (\<lambda>r. rf_feeType r = ty) rows;
          hasActual = list_ex (\<lambda>r. actual_source (rf_source r)) ofType
      in filter (\<lambda>r. if hasActual then actual_source (rf_source r) else rf_source r = ESTIMATE) ofType)"

definition resolve_leg :: "dec \<Rightarrow> return_fee_row list \<Rightarrow> order_fee_type \<Rightarrow> money_pair" where
  "resolve_leg D rows ty =
     (let chosen = chosen_rows ty rows
      in \<lparr> mp_gross = dsum D rf_amountGross 0 chosen,
           mp_vat = dsum D (\<lambda>r. grossToVat D (rf_amountGross r) (rf_vatRate r)) 0 chosen \<rparr>)"

definition resolveReturnLegs :: "dec \<Rightarrow> return_fee_row list \<Rightarrow> return_legs" where
  "resolveReturnLegs D rows =
     \<lparr> rl_refundDeduction = resolve_leg D rows REFUND_DEDUCTION,
       rl_commissionRefund = resolve_leg D rows COMMISSION_REFUND,
       rl_costReturn = resolve_leg D rows COST_RETURN,
       rl_returnShipping = resolve_leg D rows RETURN_SHIPPING,
       rl_stoppageRefund = resolve_leg D rows STOPPAGE_REFUND \<rparr>"

text \<open>The refund rows as \<open>computeNetSaleGross\<close> gets them: a source, an amount and a rate.\<close>

record refund_row =
  rr_source :: order_fee_source
  rr_amountGross :: rat
  rr_vatRate :: rat

definition as_refund_leg :: "refund_row \<Rightarrow> return_fee_row" where
  "as_refund_leg f =
     \<lparr> rf_feeType = REFUND_DEDUCTION,
       rf_source = (if rr_source f = SETTLEMENT \<or> rr_source f = CARGO_INVOICE then rr_source f
                    else ESTIMATE),
       rf_amountGross = rr_amountGross f, rf_vatRate = rr_vatRate f \<rparr>"

definition computeNetSaleGross :: "dec \<Rightarrow> rat \<Rightarrow> refund_row list \<Rightarrow> rat" where
  "computeNetSaleGross D saleGross refunds =
     dsub D saleGross (mp_gross (rl_refundDeduction (resolveReturnLegs D (map as_refund_leg refunds))))"

definition sub_pair :: "dec \<Rightarrow> money_pair \<Rightarrow> money_pair \<Rightarrow> money_pair" where
  "sub_pair D a b =
     \<lparr> mp_gross = dsub D (mp_gross a) (mp_gross b), mp_vat = dsub D (mp_vat a) (mp_vat b) \<rparr>"

definition return_shipping_fee :: "return_legs \<Rightarrow> profit_fee" where
  "return_shipping_fee legs =
     \<lparr> pf_type = PF_SHIPPING, pf_gross = mp_gross (rl_returnShipping legs),
       pf_vat = mp_vat (rl_returnShipping legs), pf_direction = DEBIT \<rparr>"

definition foldReturnLegs :: "dec \<Rightarrow> profit_input \<Rightarrow> return_legs \<Rightarrow> profit_input" where
  "foldReturnLegs D base legs =
     (let fees = (if mp_gross (rl_returnShipping legs) = 0 then pi_fees base
                  else pi_fees base @ [return_shipping_fee legs]);
          foldedStoppage = max 0 (dsub D (pi_stoppage base) (mp_gross (rl_stoppageRefund legs)))
      in \<lparr> pi_sale = sub_pair D (pi_sale base) (rl_refundDeduction legs),
           pi_cost = sub_pair D (pi_cost base) (rl_costReturn legs),
           pi_commission = sub_pair D (pi_commission base) (rl_commissionRefund legs),
           pi_fees = fees, pi_stoppage = foldedStoppage,
           pi_includeNegativeNetVat = pi_includeNegativeNetVat base \<rparr>)"

section \<open>Lemmas\<close>

lemma chosen_rows_filter_type:
  "chosen_rows ty (filter (\<lambda>r. rf_feeType r = ty) rows) = chosen_rows ty rows"
  by (simp add: chosen_rows_def)

lemma chosen_rows_actual:
  assumes "\<exists>r \<in> set rows. rf_feeType r = ty \<and> actual_source (rf_source r)"
  shows "chosen_rows ty rows = filter (\<lambda>r. rf_feeType r = ty \<and> actual_source (rf_source r)) rows"
  using assms by (auto simp: chosen_rows_def Let_def list_ex_iff intro: filter_cong)

lemma chosen_rows_estimate:
  assumes "\<not> (\<exists>r \<in> set rows. rf_feeType r = ty \<and> actual_source (rf_source r))"
  shows "chosen_rows ty rows = filter (\<lambda>r. rf_feeType r = ty \<and> rf_source r = ESTIMATE) rows"
  using assms by (auto simp: chosen_rows_def Let_def list_ex_iff intro: filter_cong)

lemma chosen_rows_subset: "set (chosen_rows ty rows) \<subseteq> set rows"
  by (auto simp: chosen_rows_def)

lemma foldReturnLegs_sel [simp]:
  "pi_sale (foldReturnLegs D base legs) = sub_pair D (pi_sale base) (rl_refundDeduction legs)"
  "pi_cost (foldReturnLegs D base legs) = sub_pair D (pi_cost base) (rl_costReturn legs)"
  "pi_commission (foldReturnLegs D base legs) = sub_pair D (pi_commission base) (rl_commissionRefund legs)"
  "pi_fees (foldReturnLegs D base legs) =
     pi_fees base @ (if mp_gross (rl_returnShipping legs) = 0 then [] else [return_shipping_fee legs])"
  "pi_stoppage (foldReturnLegs D base legs) =
     max 0 (dsub D (pi_stoppage base) (mp_gross (rl_stoppageRefund legs)))"
  "pi_includeNegativeNetVat (foldReturnLegs D base legs) = pi_includeNegativeNetVat base"
  by (simp_all add: foldReturnLegs_def Let_def)

lemma no_return_rows:
  assumes "\<forall>r \<in> set rows. rf_feeType r \<notin> set RETURN_FEE_TYPES"
  shows "chosen_rows ty rows = [] \<or> ty \<notin> set RETURN_FEE_TYPES"
  using assms by (auto simp: chosen_rows_def filter_empty_conv)

lemma chosen_rows_skip:
  assumes "\<exists>r \<in> set (xs @ ys). rf_feeType r = rf_feeType e \<and> actual_source (rf_source r)"
    and "\<not> actual_source (rf_source e)"
  shows "chosen_rows ty (xs @ e # ys) = chosen_rows ty (xs @ ys)"
proof (cases "ty = rf_feeType e")
  case True
  have "\<exists>r \<in> set (xs @ e # ys). rf_feeType r = ty \<and> actual_source (rf_source r)"
    using assms(1) True by auto
  with assms True show ?thesis by (simp add: chosen_rows_actual)
next
  case False
  then show ?thesis by (simp add: chosen_rows_def)
qed

lemma chosen_rows_as_refund:
  assumes "\<forall>f \<in> set fs. rr_source f \<in> {ESTIMATE, SETTLEMENT, CARGO_INVOICE}"
  shows "map as_refund_leg fs =
    map (\<lambda>f. \<lparr> rf_feeType = REFUND_DEDUCTION, rf_source = rr_source f,
               rf_amountGross = rr_amountGross f, rf_vatRate = rr_vatRate f \<rparr>) fs"
  using assms by (auto simp: as_refund_leg_def)

context decimal_lib
begin

lemma sub_pair_self: "sub_pair D a a = \<lparr> mp_gross = 0, mp_vat = 0 \<rparr>"
  by (simp add: sub_pair_def dsub_def)

lemma full_return:
  assumes legs: "rl_refundDeduction legs = pi_sale base" "rl_costReturn legs = pi_cost base"
      "rl_commissionRefund legs = pi_commission base"
      "pi_stoppage base \<le> mp_gross (rl_stoppageRefund legs)"
    and fees: "\<forall>f \<in> set (pi_fees base). pf_direction f = DEBIT \<and> 0 \<le> pf_gross f \<and> 0 \<le> pf_vat f"
      "0 \<le> mp_gross (rl_returnShipping legs)" "0 \<le> mp_vat (rl_returnShipping legs)"
    and flag: "\<not> pi_includeNegativeNetVat base"
  shows "pb_netProfit (computeProfit D (foldReturnLegs D base legs)) \<le> 0
       \<and> pb_netVat (computeProfit D (foldReturnLegs D base legs)) = 0
       \<and> pb_saleMarginPct (computeProfit D (foldReturnLegs D base legs)) = None"
proof -
  let ?i = "foldReturnLegs D base legs"
  have zero: "sub_pair D a a = \<lparr> mp_gross = 0, mp_vat = 0 \<rparr>" for a by (rule sub_pair_self)
  have stoppage: "pi_stoppage ?i = 0"
    using legs(4) rnd_nonpos [of "pi_stoppage base - mp_gross (rl_stoppageRefund legs)"]
    by (simp add: dsub_def)
  have all: "\<forall>f \<in> set (pi_fees ?i). pf_direction f = DEBIT \<and> 0 \<le> pf_gross f \<and> 0 \<le> pf_vat f"
    using fees by (auto simp: return_shipping_fee_def)
  then have no_credit: "credits (pi_fees ?i) = []" by (auto simp: filter_empty_conv)
  have vat: "raw_net_vat D ?i (sum_fees D (pi_fees ?i)) \<le> 0"
    using all dsum_nonneg [of 0 "debits (pi_fees ?i)" pf_vat] no_credit
    by (simp add: raw_net_vat_def sum_fees_sel legs zero dec_ops rnd_nonpos)
  have ev: "pb_netVat (computeProfit D ?i) = 0"
    using vat flag by (simp add: computeProfit_sel effective_net_vat_def)
  have "0 \<le> dsum D pf_gross 0 (debits (pi_fees ?i))"
    using all by (intro dsum_nonneg) auto
  then have "pb_netProfit (computeProfit D ?i) \<le> 0"
    unfolding computeProfit_sel(2) ev net_profit_def sum_fees_sel no_credit
    using stoppage by (simp add: legs zero dec_ops rnd_nonpos)
  with ev show ?thesis by (simp add: computeProfit_sel pct_of_def legs zero)
qed

end

section \<open>Properties\<close>

text \<open>A leg that has an actual row (settlement or cargo invoice) ignores its estimates: adding or
  removing an estimated row of that type changes none of the resolved legs.\<close>
theorem actual_overrides_estimate:
  assumes "\<exists>r \<in> set (xs @ ys). rf_feeType r = rf_feeType e \<and> actual_source (rf_source r)"
    and "rf_source e = ESTIMATE"
  shows "resolveReturnLegs D (xs @ e # ys) = resolveReturnLegs D (xs @ ys)"
  using chosen_rows_skip [OF assms(1)] assms(2)
  by (simp add: resolveReturnLegs_def resolve_leg_def Let_def actual_source_def)

text \<open>A settled refund of 100 beside an estimate of 90.\<close>

definition example_rows :: "return_fee_row list" where
  "example_rows =
     [\<lparr> rf_feeType = REFUND_DEDUCTION, rf_source = ESTIMATE, rf_amountGross = 90, rf_vatRate = 20 \<rparr>,
      \<lparr> rf_feeType = REFUND_DEDUCTION, rf_source = SETTLEMENT, rf_amountGross = 100, rf_vatRate = 20 \<rparr>]"

lemma actual_overrides_estimate_witness:
  "resolveReturnLegs dec20 example_rows = resolveReturnLegs dec20 (tl example_rows)"
  using actual_overrides_estimate [of "[]" "tl example_rows" "hd example_rows" dec20]
  by (simp add: example_rows_def actual_source_def)

text \<open>A fully returned order (every leg takes back the whole amount) keeps only its fees: the folded
  sale, cost, commission and stoppage are zero, so with the VAT receivable excluded and no
  credited fee the profit is not positive, the net VAT is zero and there is no sale margin.\<close>
theorem full_return_keeps_only_fees:
  assumes D: "decimal_lib D"
    and legs: "rl_refundDeduction legs = pi_sale base" "rl_costReturn legs = pi_cost base"
      "rl_commissionRefund legs = pi_commission base"
      "pi_stoppage base \<le> mp_gross (rl_stoppageRefund legs)"
    and fees: "\<forall>f \<in> set (pi_fees base). pf_direction f = DEBIT \<and> 0 \<le> pf_gross f \<and> 0 \<le> pf_vat f"
      "0 \<le> mp_gross (rl_returnShipping legs)" "0 \<le> mp_vat (rl_returnShipping legs)"
    and flag: "\<not> pi_includeNegativeNetVat base"
  shows "pb_netProfit (computeProfit D (foldReturnLegs D base legs)) \<le> 0
       \<and> pb_netVat (computeProfit D (foldReturnLegs D base legs)) = 0
       \<and> pb_saleMarginPct (computeProfit D (foldReturnLegs D base legs)) = None"
  by (rule decimal_lib.full_return [OF D legs fees flag])

text \<open>A sale of 120 that comes back whole; the shipping both ways stays with the seller.\<close>

definition example_sold :: profit_input where
  "example_sold = \<lparr> pi_sale = \<lparr> mp_gross = 120, mp_vat = 20 \<rparr>,
     pi_cost = \<lparr> mp_gross = 60, mp_vat = 10 \<rparr>, pi_commission = \<lparr> mp_gross = 18, mp_vat = 3 \<rparr>,
     pi_fees = [\<lparr> pf_type = PF_SHIPPING, pf_gross = 24, pf_vat = 4, pf_direction = DEBIT \<rparr>],
     pi_stoppage = 1, pi_includeNegativeNetVat = False \<rparr>"

definition example_full_return :: return_legs where
  "example_full_return = \<lparr> rl_refundDeduction = \<lparr> mp_gross = 120, mp_vat = 20 \<rparr>,
     rl_commissionRefund = \<lparr> mp_gross = 18, mp_vat = 3 \<rparr>,
     rl_costReturn = \<lparr> mp_gross = 60, mp_vat = 10 \<rparr>,
     rl_returnShipping = \<lparr> mp_gross = 30, mp_vat = 5 \<rparr>,
     rl_stoppageRefund = \<lparr> mp_gross = 1, mp_vat = 0 \<rparr> \<rparr>"

lemma full_return_keeps_only_fees_witness:
  "pb_netProfit (computeProfit dec20 (foldReturnLegs dec20 example_sold example_full_return)) \<le> 0"
  using full_return_keeps_only_fees [OF dec20.decimal_lib_axioms,
      of example_full_return example_sold]
  by (simp add: example_sold_def example_full_return_def)

text \<open>The net sale that the order list and the revenue summary show is the sale the engine computes
  with: folding the resolved legs of the same rows reduces the sale by the same amount, provided
  the rows come from the three sources that write refunds.\<close>
theorem net_sale_consistent:
  assumes "\<forall>f \<in> set refunds. rr_source f \<in> {ESTIMATE, SETTLEMENT, CARGO_INVOICE}"
    and "filter (\<lambda>r. rf_feeType r = REFUND_DEDUCTION) rows =
      map (\<lambda>f. \<lparr> rf_feeType = REFUND_DEDUCTION, rf_source = rr_source f,
                 rf_amountGross = rr_amountGross f, rf_vatRate = rr_vatRate f \<rparr>) refunds"
  shows "mp_gross (pi_sale (foldReturnLegs D base (resolveReturnLegs D rows))) =
         computeNetSaleGross D (mp_gross (pi_sale base)) refunds"
  using chosen_rows_filter_type [of REFUND_DEDUCTION rows]
  by (simp add: computeNetSaleGross_def sub_pair_def resolveReturnLegs_def resolve_leg_def Let_def
      chosen_rows_as_refund [OF assms(1)] assms(2))

lemma net_sale_consistent_witness:
  "mp_gross (pi_sale (foldReturnLegs dec20 example_sold (resolveReturnLegs dec20 example_rows))) = 20"
  using net_sale_consistent [of "[\<lparr> rr_source = ESTIMATE, rr_amountGross = 90, rr_vatRate = 20 \<rparr>,
      \<lparr> rr_source = SETTLEMENT, rr_amountGross = 100, rr_vatRate = 20 \<rparr>]" example_rows dec20 example_sold]
  by (simp add: example_rows_def example_sold_def computeNetSaleGross_def resolveReturnLegs_def
      resolve_leg_def chosen_rows_def as_refund_leg_def actual_source_def dec_eval grossToVat_def)

end
