(* ===== verification/Profit_Settings.thy ===== *)
theory Profit_Settings
  imports Schema
begin

text \<open>
  The profit settings of a store and their snapshot on an order,
  \<open>src/packages/utils/src/profit-settings.ts\<close>, and the business day,
  \<open>src/packages/utils/src/timezone.ts\<close>. The zone database of the runtime is not part of the
  repository: the offset \<open>off\<close> of the business zone at an instant is a parameter, and a business
  date is the number of the local day, whose order is the order of its \<open>YYYY-MM-DD\<close> string.
  The code derives the offset from the formatted wall clock, which stops at seconds.
\<close>

section \<open>Settings\<close>

record profit_settings =
  ps_includeStopaj :: bool
  ps_includeNegativeNetVat :: bool

definition DEFAULT_PROFIT_SETTINGS :: profit_settings where
  "DEFAULT_PROFIT_SETTINGS = \<lparr> ps_includeStopaj = True, ps_includeNegativeNetVat = False \<rparr>"

fun isRecord :: "json \<Rightarrow> bool" where
  "isRecord (JArr xs) = True"
| "isRecord (JObj kvs) = True"
| "isRecord _ = False"

definition bool_or :: "bool \<Rightarrow> json option \<Rightarrow> bool" where
  "bool_or dflt v = (case v of Some (JBool b) \<Rightarrow> b | _ \<Rightarrow> dflt)"

definition resolveProfitSettings :: "json \<Rightarrow> profit_settings" where
  "resolveProfitSettings raw =
     (if \<not> isRecord raw then DEFAULT_PROFIT_SETTINGS
      else \<lparr> ps_includeStopaj =
                bool_or (ps_includeStopaj DEFAULT_PROFIT_SETTINGS) (json_field raw ''includeStopaj''),
             ps_includeNegativeNetVat =
                bool_or (ps_includeNegativeNetVat DEFAULT_PROFIT_SETTINGS)
                  (json_field raw ''includeNegativeNetVat'') \<rparr>)"

definition resolveSnapshotProfitSettings :: "bool option \<Rightarrow> bool option \<Rightarrow> profit_settings" where
  "resolveSnapshotProfitSettings stopaj negVat =
     \<lparr> ps_includeStopaj =
         (case stopaj of None \<Rightarrow> ps_includeStopaj DEFAULT_PROFIT_SETTINGS | Some b \<Rightarrow> b),
       ps_includeNegativeNetVat =
         (case negVat of None \<Rightarrow> ps_includeNegativeNetVat DEFAULT_PROFIT_SETTINGS | Some b \<Rightarrow> b) \<rparr>"

lemma resolveSnapshot_sel [simp]:
  "ps_includeStopaj (resolveSnapshotProfitSettings (Some a) v) = a"
  "ps_includeNegativeNetVat (resolveSnapshotProfitSettings s (Some b)) = b"
  by (simp_all add: resolveSnapshotProfitSettings_def)

text \<open>Writing resolved settings to a snapshot and resolving the snapshot gives them back.\<close>

lemma snapshot_roundtrip:
  "resolveSnapshotProfitSettings (Some (ps_includeStopaj ps)) (Some (ps_includeNegativeNetVat ps)) = ps"
  by (simp add: resolveSnapshotProfitSettings_def)

section \<open>The business day\<close>

definition day_ms :: int where "day_ms = 86400000"

definition getBusinessDate :: "(time \<Rightarrow> int) \<Rightarrow> time \<Rightarrow> int" where
  "getBusinessDate off t = (t + off t) div day_ms"

text \<open>The offset read back from the formatted parts of the wall clock (year to second).\<close>

definition appTimeZoneOffsetMs :: "(time \<Rightarrow> int) \<Rightarrow> time \<Rightarrow> int" where
  "appTimeZoneOffsetMs off t = (let asUtc = (t + off t) div 1000 * 1000 in asUtc - t)"

definition getBusinessDateAnchor :: "(time \<Rightarrow> int) \<Rightarrow> time \<Rightarrow> time" where
  "getBusinessDateAnchor off t = getBusinessDate off t * day_ms"

definition getBusinessHour :: "(time \<Rightarrow> int) \<Rightarrow> time \<Rightarrow> int" where
  "getBusinessHour off t = (t + off t) mod day_ms div 3600000"

text \<open>The real instant at which the business day of an instant begins.\<close>

definition startOfBusinessDayUtc :: "(time \<Rightarrow> int) \<Rightarrow> time \<Rightarrow> time" where
  "startOfBusinessDayUtc off t =
     (let localMidnightAsUtc = getBusinessDate off t * day_ms
      in localMidnightAsUtc - appTimeZoneOffsetMs off localMidnightAsUtc)"

definition getBusinessDayRange :: "(time \<Rightarrow> int) \<Rightarrow> time \<Rightarrow> time \<times> time" where
  "getBusinessDayRange off t =
     (let start = startOfBusinessDayUtc off t
      in (start, startOfBusinessDayUtc off (start + 26 * 60 * 60 * 1000)))"

definition businessZoneEpochToInstant :: "(time \<Rightarrow> int) \<Rightarrow> time \<Rightarrow> time" where
  "businessZoneEpochToInstant off epochMs = epochMs - appTimeZoneOffsetMs off epochMs"

lemma floor_day_iff: "x div day_ms = d \<longleftrightarrow> d * day_ms \<le> x \<and> x < (d + 1) * day_ms"
proof
  have pos: "0 < day_ms" by (simp add: day_ms_def)
  assume "x div day_ms = d"
  then have "d * day_ms + x mod day_ms = x" using div_mult_mod_eq [of x day_ms] by simp
  moreover have "0 \<le> x mod day_ms" "x mod day_ms < day_ms" using pos by simp_all
  ultimately show "d * day_ms \<le> x \<and> x < (d + 1) * day_ms"
    unfolding distrib_right mult_1 by linarith
next
  assume "d * day_ms \<le> x \<and> x < (d + 1) * day_ms"
  then show "x div day_ms = d"
    by (intro int_div_pos_eq [of x day_ms d "x - d * day_ms"]) (auto simp: algebra_simps)
qed

lemma getBusinessDate_const:
  "getBusinessDate (\<lambda>_. c) t = (t + c) div day_ms"
  by (simp add: getBusinessDate_def)

text \<open>The zone offsets are whole seconds.\<close>

lemma offset_whole:
  assumes "1000 dvd c"
  shows "appTimeZoneOffsetMs (\<lambda>_. c) t = c - t mod 1000"
proof -
  have "(t + c) div 1000 * 1000 = t div 1000 * 1000 + c" using assms by (auto simp: dvd_def)
  then show ?thesis by (simp add: appTimeZoneOffsetMs_def Let_def minus_mod_eq_div_mult [symmetric])
qed

lemma offset_midnight:
  assumes "1000 dvd c"
  shows "appTimeZoneOffsetMs (\<lambda>_. c) (n * day_ms) = c"
proof -
  have "n * day_ms mod 1000 = 0" by (simp add: day_ms_def)
  then show ?thesis using offset_whole [OF assms] by simp
qed

lemma day_range_const:
  assumes "off = (\<lambda>_. c)" and "1000 dvd c"
  shows "getBusinessDayRange off t =
    (getBusinessDate off t * day_ms - c, (getBusinessDate off t + 1) * day_ms - c)"
proof -
  have start: "startOfBusinessDayUtc off u = getBusinessDate off u * day_ms - c" for u
    unfolding startOfBusinessDayUtc_def Let_def assms(1) offset_midnight [OF assms(2)] ..
  let ?d = "getBusinessDate off t"
  have "(?d * day_ms + 93600000) div day_ms = ?d + 1"
    by (simp add: day_ms_def)
  then have "getBusinessDate off (?d * day_ms - c + 93600000) = ?d + 1"
    by (simp add: assms(1) getBusinessDate_def)
  then show ?thesis by (simp add: getBusinessDayRange_def Let_def start)
qed

text \<open>With a constant zone offset of whole seconds (the business zone has had none but this since 2016),
  an instant lies in the half-open window of a business day exactly when it has that business
  date: the windows the services filter by are the days the engine compares, without gap or
  overlap.\<close>
theorem business_day_window:
  assumes "off = (\<lambda>_. c)" and "1000 dvd c" and "getBusinessDayRange off t = (start, stop)"
  shows "start \<le> u \<and> u < stop \<longleftrightarrow> getBusinessDate off u = getBusinessDate off t"
proof -
  define d where "d = getBusinessDate off t"
  have "start = d * day_ms - c" "stop = (d + 1) * day_ms - c"
    using assms(3) unfolding day_range_const [OF assms(1,2)] d_def by simp_all
  then have "start \<le> u \<and> u < stop \<longleftrightarrow> d * day_ms \<le> u + c \<and> u + c < (d + 1) * day_ms"
    by linarith
  also have "\<dots> \<longleftrightarrow> (u + c) div day_ms = d" by (rule floor_day_iff [symmetric])
  also have "(u + c) div day_ms = getBusinessDate off u"
    unfolding assms(1) by (rule getBusinessDate_const [symmetric])
  finally show ?thesis unfolding d_def .
qed

lemma business_day_window_witness:
  "getBusinessDate (\<lambda>_. 10800000) 75600000 = 1 \<and> getBusinessDate (\<lambda>_. 10800000) 75599999 = 0"
  using business_day_window [of "\<lambda>_. 10800000" 10800000 80000000 75600000 162000000 75600000]
    business_day_window [of "\<lambda>_. 10800000" 10800000 0 "-10800000" 75600000 75599999]
  by (simp add: getBusinessDayRange_def startOfBusinessDayUtc_def appTimeZoneOffsetMs_def Let_def
      getBusinessDate_def day_ms_def)

text \<open>Reinterpreting a local wall-clock epoch as an instant subtracts the zone offset only for whole
  seconds: the milliseconds of the epoch are counted twice in the result, which is late by them
  (at most 999 ms). The business date and hour of an instant agree with its local clock.\<close>
theorem wall_clock_epoch:
  assumes "off = (\<lambda>_. c)" and "1000 dvd c"
  shows "businessZoneEpochToInstant off e = (e - c) + e mod 1000
    \<and> 0 \<le> getBusinessHour off t \<and> getBusinessHour off t < 24
    \<and> getBusinessDateAnchor off t + getBusinessHour off t * 3600000 \<le> t + c
    \<and> t + c < getBusinessDateAnchor off t + (getBusinessHour off t + 1) * 3600000"
proof -
  have "businessZoneEpochToInstant off e = (e - c) + e mod 1000"
    unfolding businessZoneEpochToInstant_def assms(1) offset_whole [OF assms(2)] by simp
  moreover define m where "m = (t + c) mod day_ms"
  have m: "0 \<le> m" "m < day_ms" "t + c = (t + c) div day_ms * day_ms + m"
    by (simp_all add: m_def day_ms_def)
  have h: "m div 3600000 * 3600000 \<le> m" "m < (m div 3600000 + 1) * 3600000"
    by presburger+
  have "0 \<le> m div 3600000" "m div 3600000 < 24"
    using m by (simp_all add: day_ms_def pos_imp_zdiv_nonneg_iff)
  ultimately show ?thesis
    using m h by (simp add: assms(1) getBusinessHour_def getBusinessDateAnchor_def getBusinessDate_def m_def [symmetric])
qed

lemma wall_clock_epoch_witness:
  "businessZoneEpochToInstant (\<lambda>_. 10800000) 1700000000250 = 1699989200500"
  using wall_clock_epoch [of "\<lambda>_. 10800000" 10800000 1700000000250 0] by simp

end
