(* ===== verification/Fee_Definitions.thy ===== *)
theory Fee_Definitions
  imports Decimal_Arith Profit_Settings
begin

text \<open>
  The lookups the profit services share: the fee definition in force at a date and the exemptions
  (\<open>resolve-fee-definition.ts\<close>), the commission rate (\<open>resolve-commission-rate.ts\<close>), the
  calculability gate with the lines it consumes (\<open>resolve-order-calculability.ts\<close>,
  \<open>build-calc-check-lines.ts\<close>), the return fee of micro exports
  (\<open>overseas-return-operation.ts\<close>) and the same-day criterion
  (\<open>infer-shipped-same-day.ts\<close>), all under \<open>src/packages/profit/src\<close>.
\<close>

text \<open>What the profit services throw.\<close>

datatype profit_error =
    FeeDefinitionNotFoundError platform order_fee_type
  | MissingFixedAmountNet order_fee_type id
  | MissingRateOfSale id
  | MicroExportReturnTierNotFoundError rat
  | RelationMissing id       \<comment> \<open>a required relation without a row; the database forbids it\<close>
  | ManualFxRateMissing id

section \<open>resolve-fee-definition.ts\<close>

fun scope_of :: "platform \<Rightarrow> fee_scope" where
  "scope_of TRENDYOL = FS_TRENDYOL"
| "scope_of HEPSIBURADA = FS_HEPSIBURADA"

text \<open>The order of the enum's values in the schema, which \<open>orderBy\<close> follows.\<close>

fun scope_rank :: "fee_scope \<Rightarrow> nat" where
  "scope_rank FS_TRENDYOL = 0"
| "scope_rank FS_HEPSIBURADA = 1"
| "scope_rank FS_ALL = 2"

definition in_force :: "platform \<Rightarrow> order_fee_type \<Rightarrow> time \<Rightarrow> fee_definition_row \<Rightarrow> bool" where
  "in_force p ty t fd \<longleftrightarrow>
     (fd_platform fd = scope_of p \<or> fd_platform fd = FS_ALL) \<and> fd_feeType fd = ty
   \<and> fd_effectiveFrom fd \<le> t
   \<and> (case fd_effectiveTo fd of None \<Rightarrow> True | Some e \<Rightarrow> t < e)"

definition resolveFeeDefinition ::
  "db \<Rightarrow> platform \<Rightarrow> order_fee_type \<Rightarrow> time \<Rightarrow> profit_error + fee_definition_row" where
  "resolveFeeDefinition d p ty t =
     (case least_by (\<lambda>fd. (- fd_effectiveFrom fd, scope_rank (fd_platform fd)))
             (filter (in_force p ty t) (db_feeDefs d)) of
        None \<Rightarrow> Inl (FeeDefinitionNotFoundError p ty)
      | Some fd \<Rightarrow> Inr fd)"

definition isMicroExport :: "order_row \<Rightarrow> bool" where
  "isMicroExport r \<longleftrightarrow> o_micro r = True"

definition isPsfExempt :: "order_row \<Rightarrow> item_row list \<Rightarrow> db \<Rightarrow> bool" where
  "isPsfExempt r items d =
     (if o_micro r then True
      else if items = [] then False
      else list_all (\<lambda>i. case item_variant i d of None \<Rightarrow> False | Some v \<Rightarrow> v_isDigital v) items)"

section \<open>infer-shipped-same-day.ts\<close>

definition inferShippedSameDay :: "(time \<Rightarrow> int) \<Rightarrow> order_row \<Rightarrow> bool option" where
  "inferShippedSameDay off r =
     (case o_actualShipDate r of None \<Rightarrow> None
      | Some s \<Rightarrow> Some (getBusinessDate off s = getBusinessDate off (o_orderDate r)))"

section \<open>resolve-commission-rate.ts\<close>

record resolved_rate =
  rr_rate :: rat
  rr_paymentTermDays :: int
  rr_ruleSource :: commission_rule_kind
  rr_segmentApplied :: "string option"

definition rule_candidates :: "commission_rule_kind \<Rightarrow> string option \<Rightarrow> commission_rate_row \<Rightarrow> resolved_rate list" where
  "rule_candidates src seg rule =
     \<lparr> rr_rate = cr_baseRate rule, rr_paymentTermDays = cr_paymentTermDays rule,
       rr_ruleSource = src, rr_segmentApplied = None \<rparr> #
     (case seg of None \<Rightarrow> []
      | Some g \<Rightarrow> (case map_of (cr_segmentOverrides rule) g of None \<Rightarrow> []
          | Some r \<Rightarrow> [\<lparr> rr_rate = r, rr_paymentTermDays = cr_paymentTermDays rule,
                         rr_ruleSource = src, rr_segmentApplied = Some g \<rparr>]))"

definition find_rule :: "db \<Rightarrow> platform \<Rightarrow> commission_rule_kind \<Rightarrow> int \<Rightarrow> int option \<Rightarrow> commission_rate_row option" where
  "find_rule d p k cat brand =
     find (\<lambda>r. cr_platform r = p \<and> cr_ruleKind r = k \<and> cr_categoryId r = cat \<and> cr_brandId r = brand)
       (db_commissionRates d)"

definition commission_candidates ::
  "db \<Rightarrow> platform \<Rightarrow> int \<Rightarrow> int option \<Rightarrow> string option \<Rightarrow> resolved_rate list" where
  "commission_candidates d p cat brand seg =
     (case find_rule d p CATEGORY cat None of None \<Rightarrow> [] | Some r \<Rightarrow> rule_candidates CATEGORY seg r) @
     (case brand of None \<Rightarrow> []
      | Some b \<Rightarrow> (case find_rule d p CATEGORY_BRAND cat (Some b) of None \<Rightarrow> []
          | Some r \<Rightarrow> rule_candidates CATEGORY_BRAND seg r))"

definition cheaper :: "resolved_rate \<Rightarrow> resolved_rate \<Rightarrow> resolved_rate" where
  "cheaper m c = (if rr_rate c < rr_rate m then c else m)"

definition resolveCommissionRate ::
  "db \<Rightarrow> platform \<Rightarrow> int \<Rightarrow> int option \<Rightarrow> string option \<Rightarrow> resolved_rate option" where
  "resolveCommissionRate d p cat brand seg =
     (case commission_candidates d p cat brand seg of
        [] \<Rightarrow> None
      | c # cs \<Rightarrow> Some (foldl cheaper c cs))"

section \<open>resolve-order-calculability.ts and build-calc-check-lines.ts\<close>

record calc_line =
  cc_barcode :: string
  cc_variantId :: "id option"
  cc_unitCostSnapshotNet :: "rat option"

datatype calc_result = Calculable | CostMissing string "id option"

fun resolveOrderCalculability :: "calc_line list \<Rightarrow> calc_result" where
  "resolveOrderCalculability [] = Calculable"
| "resolveOrderCalculability (l # ls) =
     (if cc_variantId l = None \<or> cc_unitCostSnapshotNet l = None
      then CostMissing (cc_barcode l) (cc_variantId l)
      else resolveOrderCalculability ls)"

text \<open>The most recently attached cost profile of a variant.\<close>

definition latest_cost :: "db \<Rightarrow> id \<Rightarrow> rat option" where
  "latest_cost d vid =
     (case least_by (\<lambda>l. - cl_attachedAt l) (filter (\<lambda>l. cl_variantId l = vid) (db_costLinks d)) of
        None \<Rightarrow> None
      | Some l \<Rightarrow> map_option cp_amountGross (find (\<lambda>p. cp_id p = cl_profileId l) (db_costProfiles d)))"

definition buildCalcCheckLines :: "db \<Rightarrow> id \<Rightarrow> string list \<Rightarrow> calc_line list" where
  "buildCalcCheckLines d sid barcodes =
     (let variants = filter (\<lambda>v. v_storeId v = sid \<and> v_barcode v \<in> set barcodes) (db_variants d)
      in map (\<lambda>bc. case find (\<lambda>v. v_barcode v = bc) variants of
            None \<Rightarrow> \<lparr> cc_barcode = bc, cc_variantId = None, cc_unitCostSnapshotNet = None \<rparr>
          | Some v \<Rightarrow> \<lparr> cc_barcode = bc, cc_variantId = Some (v_id v),
                       cc_unitCostSnapshotNet = latest_cost d (v_id v) \<rparr>) barcodes)"

section \<open>overseas-return-operation.ts\<close>

record overseas_leg =
  ol_acceptedSaleGross :: rat
  ol_acceptedCommissionGross :: rat
  ol_rate :: rat

definition overseasReturnOperationGross :: "dec \<Rightarrow> overseas_leg list \<Rightarrow> rat" where
  "overseasReturnOperationGross D legs =
     foldl (\<lambda>acc leg. dadd D acc
         (dmul D (max 0 (dsub D (ol_acceptedSaleGross leg) (ol_acceptedCommissionGross leg))) (ol_rate leg)))
       0 legs"

definition resolveOverseasReturnRate :: "db \<Rightarrow> rat \<Rightarrow> time \<Rightarrow> profit_error + rat" where
  "resolveOverseasReturnRate d unitSaleGross t =
     (case least_by (\<lambda>r. - rt_effectiveFrom r)
             (filter (\<lambda>r. rt_minSaleGross r \<le> unitSaleGross \<and> unitSaleGross \<le> rt_maxSaleGross r
                        \<and> rt_effectiveFrom r \<le> t) (db_returnTiers d)) of
        None \<Rightarrow> Inl (MicroExportReturnTierNotFoundError unitSaleGross)
      | Some r \<Rightarrow> Inr (rt_rate r))"

section \<open>Lemmas\<close>

lemma resolveFeeDefinition_Inr:
  assumes "resolveFeeDefinition d p ty t = Inr fd"
  shows "fd \<in> set (db_feeDefs d)" and "in_force p ty t fd"
    and "g \<in> set (db_feeDefs d) \<Longrightarrow> in_force p ty t g \<Longrightarrow>
      (- fd_effectiveFrom fd, scope_rank (fd_platform fd)) \<le> (- fd_effectiveFrom g, scope_rank (fd_platform g))"
proof -
  let ?key = "\<lambda>fd. (- fd_effectiveFrom fd, scope_rank (fd_platform fd))"
  from assms have l: "least_by ?key (filter (in_force p ty t) (db_feeDefs d)) = Some fd"
    by (auto simp: resolveFeeDefinition_def split: option.splits)
  show "fd \<in> set (db_feeDefs d)" "in_force p ty t fd" using least_by_mem [OF l] by auto
  show "g \<in> set (db_feeDefs d) \<Longrightarrow> in_force p ty t g \<Longrightarrow> ?key fd \<le> ?key g"
    using least_by_least [OF l, of g] by simp
qed

lemma resolveFeeDefinition_cong:
  "db_feeDefs d = db_feeDefs d' \<Longrightarrow> resolveFeeDefinition d p ty t = resolveFeeDefinition d' p ty t"
  by (simp add: resolveFeeDefinition_def)

lemma resolveFeeDefinition_Inl:
  "resolveFeeDefinition d p ty t = Inl e \<longleftrightarrow>
     (\<forall>fd \<in> set (db_feeDefs d). \<not> in_force p ty t fd) \<and> e = FeeDefinitionNotFoundError p ty"
  by (auto simp: resolveFeeDefinition_def filter_empty_conv split: option.splits)

lemma cheaper_fold:
  "foldl cheaper c cs \<in> set (c # cs)
   \<and> (\<forall>x \<in> set (c # cs). rr_rate (foldl cheaper c cs) \<le> rr_rate x)"
proof (induction cs arbitrary: c)
  case (Cons a cs)
  from Cons.IH [of "cheaper c a"] show ?case by (auto simp: cheaper_def split: if_splits)
qed simp

lemma commission_candidates_Nil:
  "commission_candidates d p cat brand seg = [] \<longleftrightarrow>
     find_rule d p CATEGORY cat None = None
   \<and> (\<forall>b. brand = Some b \<longrightarrow> find_rule d p CATEGORY_BRAND cat (Some b) = None)"
  by (auto simp: commission_candidates_def rule_candidates_def split: option.splits)

lemma calculable_iff:
  "resolveOrderCalculability ls = Calculable \<longleftrightarrow>
     (\<forall>l \<in> set ls. cc_variantId l \<noteq> None \<and> cc_unitCostSnapshotNet l \<noteq> None)"
  by (induction ls) auto

section \<open>Properties\<close>

text \<open>C3: The fee definition resolved for a date is one that is in force at that date for the platform
  or for all platforms, no definition in force took effect later, and of those that took effect
  at the same time a platform's own wins over the common one; the lookup fails exactly when no
  definition is in force.\<close>
theorem fee_definition_in_force:
  "(case resolveFeeDefinition d p ty t of
      Inr fd \<Rightarrow> fd \<in> set (db_feeDefs d) \<and> in_force p ty t fd
        \<and> (\<forall>g \<in> set (db_feeDefs d). in_force p ty t g \<longrightarrow>
             fd_effectiveFrom g < fd_effectiveFrom fd
             \<or> fd_effectiveFrom g = fd_effectiveFrom fd
               \<and> (fd_platform g = scope_of p \<longrightarrow> fd_platform fd = scope_of p))
    | Inl e \<Rightarrow> e = FeeDefinitionNotFoundError p ty \<and> (\<forall>g \<in> set (db_feeDefs d). \<not> in_force p ty t g))"
proof (cases "resolveFeeDefinition d p ty t")
  case (Inl e)
  then show ?thesis using resolveFeeDefinition_Inl [of d p ty t e] by simp
next
  case (Inr fd)
  note r = resolveFeeDefinition_Inr [OF Inr]
  have "fd_effectiveFrom g < fd_effectiveFrom fd
      \<or> fd_effectiveFrom g = fd_effectiveFrom fd
        \<and> (fd_platform g = scope_of p \<longrightarrow> fd_platform fd = scope_of p)"
    if "g \<in> set (db_feeDefs d)" "in_force p ty t g" for g
    using r(3) [OF that] r(2) by (cases p) (auto simp: in_force_def less_eq_prod_def)
  with Inr r show ?thesis by simp
qed

text \<open>Two versions of a fee and one of another platform.\<close>

definition example_def :: "id \<Rightarrow> fee_scope \<Rightarrow> order_fee_type \<Rightarrow> time \<Rightarrow> time option \<Rightarrow> fee_definition_row" where
  "example_def i sc ty from until =
     \<lparr> fd_id = i, fd_platform = sc, fd_feeType = ty, fd_displayName = ''fee'',
       fd_fixedAmountNet = Some 10, fd_rateOfSale = Some (1 / 100), fd_defaultVatRate = 25,
       fd_effectiveFrom = from, fd_effectiveTo = until \<rparr>"

definition empty_db :: db where
  "empty_db = \<lparr> db_stores = [], db_carriers = [], db_ownTariffs = [], db_baremTariffs = [],
     db_desiTariffs = [], db_variants = [], db_products = [], db_costProfiles = [], db_costLinks = [],
     db_fxRates = [], db_feeDefs = [], db_returnTiers = [], db_commissionRates = [], db_orders = [],
     db_items = [], db_fees = [], db_claims = [], db_claimItems = [], db_orgPeriodFees = [], db_commissionInvoices = [], db_components = [],
     db_buffer = [], db_barcodeMisses = [], db_nextId = 100 \<rparr>"

lemma fee_definition_in_force_witness:
  "\<exists>fd. resolveFeeDefinition (empty_db \<lparr> db_feeDefs :=
      [example_def 1 FS_TRENDYOL STOPPAGE 0 (Some 50), example_def 2 FS_TRENDYOL STOPPAGE 50 None,
       example_def 3 FS_ALL STOPPAGE 50 None] \<rparr>) TRENDYOL STOPPAGE 60 = Inr fd
    \<and> fd_id fd = 2 \<and> in_force TRENDYOL STOPPAGE 60 fd"
  using fee_definition_in_force [where d = "empty_db \<lparr> db_feeDefs :=
      [example_def 1 FS_TRENDYOL STOPPAGE 0 (Some 50), example_def 2 FS_TRENDYOL STOPPAGE 50 None,
       example_def 3 FS_ALL STOPPAGE 50 None] \<rparr>" and p = TRENDYOL and ty = STOPPAGE and t = 60]
  by (simp add: resolveFeeDefinition_def example_def_def in_force_def less_eq_prod_def)

text \<open>The commission rate resolved for a category (and a brand) is one of the rates of the rules
  that match, never above the base rate of a matching rule nor above its override for the
  seller's segment; there is none exactly when no rule matches.\<close>
theorem commission_rate_lowest:
  "(case resolveCommissionRate d p cat brand seg of
      None \<Rightarrow> find_rule d p CATEGORY cat None = None
        \<and> (\<forall>b. brand = Some b \<longrightarrow> find_rule d p CATEGORY_BRAND cat (Some b) = None)
    | Some r \<Rightarrow> r \<in> set (commission_candidates d p cat brand seg)
        \<and> (\<forall>rule. find_rule d p CATEGORY cat None = Some rule
             \<or> (\<exists>b. brand = Some b \<and> find_rule d p CATEGORY_BRAND cat (Some b) = Some rule) \<longrightarrow>
             rr_rate r \<le> cr_baseRate rule
             \<and> (\<forall>g x. seg = Some g \<and> map_of (cr_segmentOverrides rule) g = Some x \<longrightarrow> rr_rate r \<le> x)))"
proof (cases "commission_candidates d p cat brand seg")
  case Nil
  with iffD1 [OF commission_candidates_Nil Nil] show ?thesis by (simp add: resolveCommissionRate_def)
next
  case (Cons c cs)
  let ?r = "foldl cheaper c cs"
  note m = cheaper_fold [of c cs, folded Cons]
  have base: "rr_rate ?r \<le> rr_rate x" if "x \<in> set (rule_candidates k seg rule)"
      "k = CATEGORY \<and> find_rule d p CATEGORY cat None = Some rule
       \<or> k = CATEGORY_BRAND \<and> (\<exists>b. brand = Some b \<and> find_rule d p CATEGORY_BRAND cat (Some b) = Some rule)"
    for x k rule
    using m that by (auto simp: commission_candidates_def)
  have bound: "rr_rate ?r \<le> cr_baseRate rule
      \<and> (\<forall>g x. seg = Some g \<and> map_of (cr_segmentOverrides rule) g = Some x \<longrightarrow> rr_rate ?r \<le> x)"
    if "find_rule d p CATEGORY cat None = Some rule
        \<or> (\<exists>b. brand = Some b \<and> find_rule d p CATEGORY_BRAND cat (Some b) = Some rule)" for rule
  proof -
    from that obtain k where k: "k = CATEGORY \<and> find_rule d p CATEGORY cat None = Some rule
        \<or> k = CATEGORY_BRAND \<and> (\<exists>b. brand = Some b \<and> find_rule d p CATEGORY_BRAND cat (Some b) = Some rule)"
      by blast
    show ?thesis
      using base [OF _ k] by (force simp: rule_candidates_def)
  qed
  have res: "resolveCommissionRate d p cat brand seg = Some ?r"
    by (simp add: resolveCommissionRate_def Cons)
  show ?thesis unfolding res option.case using conjunct1 [OF m] bound by blast
qed

definition example_rule :: "commission_rule_kind \<Rightarrow> int option \<Rightarrow> rat \<Rightarrow> commission_rate_row" where
  "example_rule k brand rate = \<lparr> cr_platform = TRENDYOL, cr_ruleKind = k, cr_categoryId = 7,
     cr_brandId = brand, cr_baseRate = rate, cr_paymentTermDays = 28, cr_segmentOverrides = [] \<rparr>"

lemma commission_rate_lowest_witness:
  "\<exists>r. resolveCommissionRate (empty_db \<lparr> db_commissionRates :=
      [example_rule CATEGORY None 18, example_rule CATEGORY_BRAND (Some 3) 15] \<rparr>) TRENDYOL 7 (Some 3) None
      = Some r \<and> rr_rate r \<le> 18 \<and> rr_rate r \<le> 15"
  using commission_rate_lowest [where d = "empty_db \<lparr> db_commissionRates :=
      [example_rule CATEGORY None 18, example_rule CATEGORY_BRAND (Some 3) 15] \<rparr>" and p = TRENDYOL and cat = 7 and brand = "Some 3" and seg = None]
  by (simp add: resolveCommissionRate_def commission_candidates_def find_rule_def rule_candidates_def
      example_rule_def cheaper_def)



end
