(* ===== verification/Shipping.thy ===== *)
theory Shipping
  imports Fee_Definitions
begin

text \<open>
  The shipping estimate: \<open>src/packages/profit/src/shipping/resolve-tariff.ts\<close> decides between the
  seller's own tariff, the subsidised (Barem) tariff and the tariff by volumetric weight (desi), and
  \<open>estimate-order-shipping.ts\<close> prepares its inputs from an order.
\<close>

section \<open>resolve-tariff.ts\<close>

datatype tariff_applied = NORMAL | BAREM | OWN

record shipping_estimate =
  se_amount :: rat
  se_carrierCode :: string
  se_tariffApplied :: tariff_applied
  se_sourceTariffId :: id
  se_baseDesi :: rat

datatype unavailable_reason = STORE_NOT_FOUND | NO_CARRIER | DESI_OVERFLOW | OWN_CONTRACT_EMPTY

type_synonym estimate_outcome = "unavailable_reason + shipping_estimate"

record tariff_input =
  ti_storeId :: id
  ti_tariffSource :: shipping_tariff_source
  ti_carrier :: "carrier_row option"
  ti_desi :: rat
  ti_grossTotalForBarem :: rat
  ti_fastEligible :: bool

definition desi_ceil :: "dec \<Rightarrow> rat \<Rightarrow> int" where
  "desi_ceil D desi = \<lceil>tonum D desi\<rceil>"

definition own_tariff :: "db \<Rightarrow> id \<Rightarrow> int \<Rightarrow> own_tariff_row option" where
  "own_tariff d sid n = find (\<lambda>r. ot_storeId r = sid \<and> ot_desi r = n) (db_ownTariffs d)"

definition barem_tariff :: "db \<Rightarrow> id \<Rightarrow> rat \<Rightarrow> barem_tariff_row option" where
  "barem_tariff d cid g =
     find (\<lambda>r. bt_carrierId r = cid \<and> bt_minOrderAmount r \<le> g \<and> g \<le> bt_maxOrderAmount r) (db_baremTariffs d)"

definition desi_tariff :: "db \<Rightarrow> id \<Rightarrow> int \<Rightarrow> desi_tariff_row option" where
  "desi_tariff d cid n = find (\<lambda>r. dt_carrierId r = cid \<and> dt_desi r = n) (db_desiTariffs d)"

definition barem_eligible :: "tariff_input \<Rightarrow> carrier_row \<Rightarrow> bool" where
  "barem_eligible i c \<longleftrightarrow>
     ca_supportsBaremDestek c \<and> ti_desi i \<le> of_int (ca_maxBaremDesi c) \<and> ti_fastEligible i"

definition resolveTariffForDesi :: "dec \<Rightarrow> db \<Rightarrow> tariff_input \<Rightarrow> estimate_outcome" where
  "resolveTariffForDesi D d i =
     (let desiCeil = desi_ceil D (ti_desi i)
      in if ti_tariffSource i = OWN_CONTRACT then
           (case own_tariff d (ti_storeId i) desiCeil of
              None \<Rightarrow> Inl OWN_CONTRACT_EMPTY
            | Some r \<Rightarrow> Inr \<lparr> se_amount = ot_priceNet r, se_carrierCode = ''OWN'', se_tariffApplied = OWN,
                             se_sourceTariffId = ot_id r, se_baseDesi = ti_desi i \<rparr>)
         else
           (case ti_carrier i of
              None \<Rightarrow> Inl NO_CARRIER
            | Some c \<Rightarrow>
                (case (if barem_eligible i c then barem_tariff d (ca_id c) (ti_grossTotalForBarem i) else None) of
                   Some b \<Rightarrow> Inr \<lparr> se_amount = bt_priceNet b, se_carrierCode = ca_code c,
                                  se_tariffApplied = BAREM, se_sourceTariffId = bt_id b,
                                  se_baseDesi = ti_desi i \<rparr>
                 | None \<Rightarrow>
                     (case desi_tariff d (ca_id c) desiCeil of
                        None \<Rightarrow> Inl DESI_OVERFLOW
                      | Some r \<Rightarrow> Inr \<lparr> se_amount = dt_priceNet r, se_carrierCode = ca_code c,
                                       se_tariffApplied = NORMAL, se_sourceTariffId = dt_id r,
                                       se_baseDesi = ti_desi i \<rparr>))))"

section \<open>estimate-order-shipping.ts\<close>

definition effective_desi :: "variant_row \<Rightarrow> rat" where
  "effective_desi v = (case v_dimensionalWeight v of Some w \<Rightarrow> w | None \<Rightarrow> v_syncedDimensionalWeight v)"

text \<open>The loop over the items: the weighted desi and the quantity; an item without a variant is skipped.\<close>

definition add_desi :: "dec \<Rightarrow> db \<Rightarrow> rat \<times> rat \<Rightarrow> item_row \<Rightarrow> rat \<times> rat" where
  "add_desi D d acc item =
     (case item_variant item d of
        None \<Rightarrow> acc
      | Some v \<Rightarrow> (let qty = of_int (i_quantity item)
                   in (dadd D (fst acc) (dmul D (effective_desi v) qty), dadd D (snd acc) qty)))"

definition order_desi :: "dec \<Rightarrow> db \<Rightarrow> order_row \<Rightarrow> rat" where
  "order_desi D d r =
     (case o_cargoDeci r of
        Some w \<Rightarrow> w
      | None \<Rightarrow> (let (weighted, qty) = foldl (add_desi D d) (0, 0) (order_items (o_id r) d)
                 in if qty = 0 then 0 else ddiv D weighted qty))"

definition store_carrier :: "store_row \<Rightarrow> db \<Rightarrow> carrier_row option" where
  "store_carrier s d = (case s_defaultCarrierId s of None \<Rightarrow> None
     | Some cid \<Rightarrow> find (\<lambda>c. ca_id c = cid) (db_carriers d))"

definition estimateShippingCostForOrder :: "dec \<Rightarrow> id \<Rightarrow> bool option \<Rightarrow> db \<Rightarrow> estimate_outcome" where
  "estimateShippingCostForOrder D orderId applyBarem d =
     (case find_order orderId d of
        None \<Rightarrow> Inl STORE_NOT_FOUND
      | Some r \<Rightarrow>
          (case find_store (o_storeId r) d of
             None \<Rightarrow> Inl STORE_NOT_FOUND
           | Some s \<Rightarrow>
               resolveTariffForDesi D d
                 \<lparr> ti_storeId = s_id s, ti_tariffSource = s_shippingTariffSource s,
                   ti_carrier = store_carrier s d, ti_desi = order_desi D d r,
                   ti_grossTotalForBarem = (case o_saleGross r of Some g \<Rightarrow> g | None \<Rightarrow> 0),
                   ti_fastEligible =
                     (if applyBarem = Some False then False
                      else o_fastDelivery r \<and> o_saleGross r \<noteq> None) \<rparr>))"

section \<open>Lemmas\<close>

text \<open>The outcome only reads the reference tables, the order and its items.\<close>

lemma resolveTariff_cong:
  assumes "db_ownTariffs d = db_ownTariffs d'" and "db_baremTariffs d = db_baremTariffs d'"
    and "db_desiTariffs d = db_desiTariffs d'"
  shows "resolveTariffForDesi D d i = resolveTariffForDesi D d' i"
proof -
  have "own_tariff d = own_tariff d'" "barem_tariff d = barem_tariff d'" "desi_tariff d = desi_tariff d'"
    by (intro ext; simp add: own_tariff_def barem_tariff_def desi_tariff_def assms)+
  then show ?thesis unfolding resolveTariffForDesi_def by (simp only:)
qed

lemma item_variant_cong: "db_variants d = db_variants d' \<Longrightarrow> item_variant i d = item_variant i d'"
  by (simp add: item_variant_def find_variant_def split: option.splits)

context decimal_lib
begin

text \<open>The double of a weight in hundredths has the same ceiling.\<close>

lemma desi_ceil_exact:
  assumes "on_grid 2 w" and "0 \<le> w" and "w \<le> 10 ^ 6"
  shows "desi_ceil D w = \<lceil>w\<rceil>"
proof -
  from assms(1) obtain k :: int where k: "w = of_int k / 10 ^ 2" by (elim on_gridE)
  have lower: "of_int (\<lceil>w\<rceil> - 1) + 1 / 100 \<le> w"
  proof -
    have "of_int (\<lceil>w\<rceil> - 1) < w" by linarith
    then have "of_int (100 * (\<lceil>w\<rceil> - 1)) < (of_int k :: rat)" by (simp add: k)
    then have "100 * (\<lceil>w\<rceil> - 1) + 1 \<le> k" unfolding of_int_less_iff by simp
    then have "(of_int (100 * (\<lceil>w\<rceil> - 1) + 1) :: rat) \<le> of_int k" by (simp only: of_int_le_iff)
    then show ?thesis by (simp add: k field_simps)
  qed
  have "\<bar>tonum D w - w\<bar> \<le> 1 / 10 ^ 9" using assms by (intro tonum_err) simp
  moreover have "1 / 10 ^ 9 = (1 / 1000000000 :: rat)" by simp
  ultimately have gt: "of_int (\<lceil>w\<rceil> - 1) < tonum D w" using lower by linarith
  have "\<lceil>w\<rceil> \<le> 10 ^ 6" using assms(3) by (simp add: ceiling_le_iff)
  moreover have "0 \<le> \<lceil>w\<rceil>" using assms(2) by linarith
  ultimately have "tonum D (of_int \<lceil>w\<rceil>) = of_int \<lceil>w\<rceil>" by (intro tonum_int) simp
  then have "tonum D w \<le> of_int \<lceil>w\<rceil>" using tonum_mono [of w "of_int \<lceil>w\<rceil>"] by simp
  with gt show ?thesis unfolding desi_ceil_def by (simp add: ceiling_unique)
qed

end

section \<open>Properties\<close>

text \<open>The tariff decision. A seller's own contract never consults a carrier; the subsidised tariff is
  applied only when the carrier supports it, the weight is within its limit, the parcel is a fast
  delivery and the basket lies in the tier; every other estimate is the carrier's tier for the
  weight; each failure names the lookup that found nothing. The amount is the price of a row of
  the tariff that is applied.\<close>
theorem tariff_decision:
  "(case resolveTariffForDesi D d i of
      Inr e \<Rightarrow> se_baseDesi e = ti_desi i \<and>
        (case se_tariffApplied e of
           OWN \<Rightarrow> ti_tariffSource i = OWN_CONTRACT
             \<and> (\<exists>r \<in> set (db_ownTariffs d). ot_storeId r = ti_storeId i
                  \<and> ot_desi r = desi_ceil D (ti_desi i) \<and> se_amount e = ot_priceNet r)
         | BAREM \<Rightarrow> ti_tariffSource i = TRENDYOL_CONTRACT
             \<and> (\<exists>c. ti_carrier i = Some c \<and> ca_supportsBaremDestek c \<and> ti_fastEligible i
                  \<and> ti_desi i \<le> of_int (ca_maxBaremDesi c)
                  \<and> (\<exists>b \<in> set (db_baremTariffs d). bt_carrierId b = ca_id c
                       \<and> bt_minOrderAmount b \<le> ti_grossTotalForBarem i
                       \<and> ti_grossTotalForBarem i \<le> bt_maxOrderAmount b \<and> se_amount e = bt_priceNet b))
         | NORMAL \<Rightarrow> ti_tariffSource i = TRENDYOL_CONTRACT
             \<and> (\<exists>c. ti_carrier i = Some c
                  \<and> (\<exists>r \<in> set (db_desiTariffs d). dt_carrierId r = ca_id c
                       \<and> dt_desi r = desi_ceil D (ti_desi i) \<and> se_amount e = dt_priceNet r)))
    | Inl OWN_CONTRACT_EMPTY \<Rightarrow> ti_tariffSource i = OWN_CONTRACT
        \<and> own_tariff d (ti_storeId i) (desi_ceil D (ti_desi i)) = None
    | Inl NO_CARRIER \<Rightarrow> ti_tariffSource i = TRENDYOL_CONTRACT \<and> ti_carrier i = None
    | Inl DESI_OVERFLOW \<Rightarrow> ti_tariffSource i = TRENDYOL_CONTRACT
        \<and> (\<exists>c. ti_carrier i = Some c \<and> desi_tariff d (ca_id c) (desi_ceil D (ti_desi i)) = None
             \<and> (barem_eligible i c \<longrightarrow> barem_tariff d (ca_id c) (ti_grossTotalForBarem i) = None))
    | Inl STORE_NOT_FOUND \<Rightarrow> False)"
proof (cases "ti_tariffSource i")
  case OWN_CONTRACT
  then show ?thesis
    by (auto simp: resolveTariffForDesi_def own_tariff_def split: option.splits dest: find_Some_in)
next
  case TRENDYOL_CONTRACT
  show ?thesis
  proof (cases "ti_carrier i")
    case None
    with TRENDYOL_CONTRACT show ?thesis by (simp add: resolveTariffForDesi_def)
  next
    case (Some c)
    show ?thesis
    proof (cases "if barem_eligible i c then barem_tariff d (ca_id c) (ti_grossTotalForBarem i) else None")
      case None
      with TRENDYOL_CONTRACT Some show ?thesis
        by (auto simp: resolveTariffForDesi_def desi_tariff_def split: option.splits if_splits
            dest: find_Some_in)
    next
      case (Some b)
      then have "barem_eligible i c" "b \<in> set (db_baremTariffs d)" "bt_carrierId b = ca_id c"
        "bt_minOrderAmount b \<le> ti_grossTotalForBarem i" "ti_grossTotalForBarem i \<le> bt_maxOrderAmount b"
        by (auto simp: barem_tariff_def dest: find_Some_in split: if_splits)
      with TRENDYOL_CONTRACT Some \<open>ti_carrier i = Some c\<close> show ?thesis
        by (auto simp: resolveTariffForDesi_def barem_eligible_def Let_def)
    qed
  qed
qed

text \<open>A shipped order is charged the tier of its measured weight rounded up to a whole desi (the
  double the weight is converted to has the same ceiling), never with the subsidised tariff when
  it is switched off (the way back of a return) or the sale is unknown.\<close>
theorem shipped_order_tier:
  assumes D: "decimal_lib D" and r: "find_order oid d = Some r"
    and w: "o_cargoDeci r = Some w" "on_grid 2 w" "0 \<le> w" "w \<le> 10 ^ 6"
    and e: "estimateShippingCostForOrder D oid opt d = Inr e"
    and off: "opt = Some False \<or> o_saleGross r = None \<or> \<not> o_fastDelivery r"
  shows "se_tariffApplied e \<noteq> BAREM \<and> se_baseDesi e = w
       \<and> ((\<exists>t \<in> set (db_ownTariffs d). ot_desi t = \<lceil>w\<rceil> \<and> se_amount e = ot_priceNet t)
          \<or> (\<exists>t \<in> set (db_desiTariffs d). dt_desi t = \<lceil>w\<rceil> \<and> se_amount e = dt_priceNet t))"
proof -
  from e r obtain s where "find_store (o_storeId r) d = Some s"
    by (auto simp: estimateShippingCostForOrder_def split: option.splits)
  with e r w(1) obtain i where i: "resolveTariffForDesi D d i = Inr e" "ti_desi i = w"
      "ti_fastEligible i \<longrightarrow> opt \<noteq> Some False \<and> o_fastDelivery r \<and> o_saleGross r \<noteq> None"
    by (simp add: estimateShippingCostForOrder_def order_desi_def split: if_splits)
  have ceil: "desi_ceil D (ti_desi i) = \<lceil>w\<rceil>"
    unfolding i(2) by (rule decimal_lib.desi_ceil_exact [OF D w(2-4)])
  show ?thesis
  proof (cases "ti_tariffSource i")
    case OWN_CONTRACT
    then have "\<exists>t. own_tariff d (ti_storeId i) \<lceil>w\<rceil> = Some t \<and> se_amount e = ot_priceNet t
        \<and> se_tariffApplied e = OWN \<and> se_baseDesi e = w"
      using i ceil by (auto simp: resolveTariffForDesi_def split: option.splits)
    then show ?thesis by (auto simp: own_tariff_def dest: find_Some_in)
  next
    case TRENDYOL_CONTRACT
    have none: "\<not> barem_eligible i c" for c using i(3) off by (auto simp: barem_eligible_def)
    obtain c where c: "ti_carrier i = Some c"
      using i(1) TRENDYOL_CONTRACT by (cases "ti_carrier i") (auto simp: resolveTariffForDesi_def)
    obtain t where t: "desi_tariff d (ca_id c) \<lceil>w\<rceil> = Some t"
      using i(1) TRENDYOL_CONTRACT c none ceil
      by (cases "desi_tariff d (ca_id c) \<lceil>w\<rceil>") (auto simp: resolveTariffForDesi_def)
    have "se_amount e = dt_priceNet t \<and> se_tariffApplied e = NORMAL \<and> se_baseDesi e = w"
      using i(1,2) TRENDYOL_CONTRACT c none ceil t by (auto simp: resolveTariffForDesi_def)
    with t show ?thesis by (auto simp: desi_tariff_def dest: find_Some_in)
  qed
qed

text \<open>A store on the carrier's tariff and a shipped order of 2.35 desi.\<close>

definition example_order :: "id \<Rightarrow> order_row" where
  "example_order i = \<lparr> o_id = i, o_organizationId = 1, o_storeId = 1, o_platformOrderId = ''p'', o_platformOrderNumber = ''n'',
     o_orderDate = 0, o_status = OS_SHIPPED, o_actualDeliveryDate = None, o_actualShipDate = None,
     o_deliveredOnTime = None, o_fastDelivery = False, o_fastDeliveryType = None, o_micro = False,
     o_saleGross = Some 120, o_saleVat = Some 20, o_listGross = Some 120,
     o_sellerDiscountGross = Some 0, o_sellerDiscountVat = Some 0, o_cargoDeci = Some 2.35,
     o_cargoProviderName = None, o_cargoTrackingNumber = None, o_usesSellerCargoAgreement = False,
     o_platformCreatedBy = None, o_originShipmentDate = None, o_estimatedNetProfit = None,
     o_estimatedNetVat = None, o_estimatedSaleMarginPct = None, o_estimatedCostMarkupPct = None,
     o_settledNetProfit = None, o_settledNetVat = None, o_settledSaleMarginPct = None,
     o_settledCostMarkupPct = None, o_snapshotIncludeStopaj = None,
     o_snapshotIncludeNegativeNetVat = None, o_profitExcludedAt = None, o_profitExclusionReason = None,
     o_platformLastModifiedAt = None, o_promotedFromBufferAt = None,
     o_reconciliationStatus = NOT_SETTLED, o_paymentOrderId = None, o_paymentDate = None \<rparr>"

definition example_store :: store_row where
  "example_store = \<lparr> s_id = 1, s_platform = TRENDYOL, s_profitSettings = JNull,
     s_shippingTariffSource = TRENDYOL_CONTRACT, s_defaultCarrierId = Some 5,
     s_organizationId = 1, s_createdAt = 0 \<rparr>"

definition shipping_db :: db where
  "shipping_db = empty_db \<lparr> db_stores := [example_store],
     db_carriers := [\<lparr> ca_id = 5, ca_code = ''C'', ca_supportsBaremDestek = True, ca_maxBaremDesi = 10 \<rparr>],
     db_desiTariffs := [\<lparr> dt_id = 8, dt_carrierId = 5, dt_desi = 3, dt_priceNet = 40 \<rparr>],
     db_orders := [example_order 9] \<rparr>"

lemmas shipping_eval = estimateShippingCostForOrder_def resolveTariffForDesi_def find_order_def
  find_store_def store_carrier_def order_desi_def desi_tariff_def desi_ceil_def barem_eligible_def
  shipping_db_def empty_db_def example_store_def example_order_def

lemma example_shipping:
  "estimateShippingCostForOrder dec20 9 None shipping_db =
     Inr \<lparr> se_amount = 40, se_carrierCode = ''C'', se_tariffApplied = NORMAL, se_sourceTariffId = 8,
           se_baseDesi = 2.35 \<rparr>"
  by (simp add: shipping_eval dec_eval Let_def)

lemma tariff_decision_witness:
  "\<exists>e. resolveTariffForDesi dec20 shipping_db
      \<lparr> ti_storeId = 1, ti_tariffSource = TRENDYOL_CONTRACT, ti_carrier = None, ti_desi = 1,
        ti_grossTotalForBarem = 0, ti_fastEligible = True \<rparr> = Inl e \<and> e = NO_CARRIER"
  using tariff_decision [where D = dec20 and d = shipping_db and i = "\<lparr> ti_storeId = 1,
      ti_tariffSource = TRENDYOL_CONTRACT, ti_carrier = None, ti_desi = 1, ti_grossTotalForBarem = 0,
      ti_fastEligible = True \<rparr>"]
  by (simp add: resolveTariffForDesi_def)

lemma shipped_order_tier_witness:
  "\<exists>t \<in> set (db_desiTariffs shipping_db). dt_desi t = 3 \<and> dt_priceNet t = 40"
proof -
  have "find_order 9 shipping_db = Some (example_order 9)"
    by (simp add: find_order_def shipping_db_def example_order_def)
  moreover have "on_grid 2 (2.35::rat)" using on_gridI [of 2 235] by simp
  ultimately show ?thesis
    using shipped_order_tier [OF dec20.decimal_lib_axioms _ _ _ _ _ example_shipping, of "example_order 9"]
    by (simp add: example_order_def shipping_db_def empty_db_def ceiling_unique)
qed

end
