(* ===== verification/Estimate.thy ===== *)
theory Estimate
  imports Return_Legs Shipping
begin

text \<open>
  The profit estimate of an order, \<open>applyEstimateOnOrderCreate\<close> of
  \<open>src/packages/profit/src/estimate-on-order-create.ts\<close>, stage by stage in the order of the
  function: the snapshot of the store's settings, the platform service fee, the stoppage, the
  shipping, the international service fee of a micro export, and the profit. Each stage is a
  function on the database that may throw; the order, its items and its store are the rows read at
  the start, as in the code.
\<close>

section \<open>Writing an ESTIMATE row\<close>

definition upsert_estimate ::
  "id \<Rightarrow> order_fee_type \<Rightarrow> (fee_row \<Rightarrow> fee_row) \<Rightarrow> (id \<Rightarrow> fee_row) \<Rightarrow> db \<Rightarrow> db" where
  "upsert_estimate oid ty upd mk d =
     (case find_estimate oid ty d of
        Some f \<Rightarrow> update_fee (f_id f) upd d
      | None \<Rightarrow> create_fee mk d)"

definition new_estimate ::
  "id \<Rightarrow> id \<Rightarrow> order_fee_type \<Rightarrow> order_fee_direction \<Rightarrow> id option \<Rightarrow> rat \<Rightarrow> rat \<Rightarrow> string \<Rightarrow> id \<Rightarrow> fee_row" where
  "new_estimate oid org ty dir defn gross vat name i =
     \<lparr> f_id = i, f_orderId = oid, f_organizationId = org, f_feeDefinitionId = defn, f_feeType = ty,
       f_source = ESTIMATE, f_direction = dir, f_amountGross = gross, f_vatRate = vat,
       f_displayName = Some name, f_confirmedAt = None, f_confirmedBy = None,
       f_trendyolTransactionId = None, f_invoiceSerialNumber = None, f_parcelUniqueId = None,
       f_orderClaimItemId = None \<rparr>"

definition set_fee_data :: "id option \<Rightarrow> rat \<Rightarrow> rat \<Rightarrow> string \<Rightarrow> fee_row \<Rightarrow> fee_row" where
  "set_fee_data defn gross vat name f =
     f \<lparr> f_feeDefinitionId := defn, f_amountGross := gross, f_vatRate := vat, f_displayName := Some name \<rparr>"

text \<open>\<open>net * (100 + vatRate) / 100\<close>, the gross of a net reference price.\<close>

definition net_to_gross :: "dec \<Rightarrow> rat \<Rightarrow> rat \<Rightarrow> rat" where
  "net_to_gross D net vatRate = ddiv D (dmul D net (dadd D 100 vatRate)) 100"

section \<open>The stages\<close>

definition settings_stage :: "order_row \<Rightarrow> store_row \<Rightarrow> db \<Rightarrow> db \<times> profit_settings" where
  "settings_stage r s d =
     (if o_snapshotIncludeStopaj r = None \<or> o_snapshotIncludeNegativeNetVat r = None then
        (let live = resolveProfitSettings (s_profitSettings s);
             ps = \<lparr> ps_includeStopaj = ps_includeStopaj live,
                    ps_includeNegativeNetVat =
                      (if isMicroExport r then True else ps_includeNegativeNetVat live) \<rparr>
         in (update_order (o_id r)
               (\<lambda>o'. o' \<lparr> o_snapshotIncludeStopaj := Some (ps_includeStopaj ps),
                          o_snapshotIncludeNegativeNetVat := Some (ps_includeNegativeNetVat ps) \<rparr>) d, ps))
      else (d, resolveSnapshotProfitSettings (o_snapshotIncludeStopaj r) (o_snapshotIncludeNegativeNetVat r)))"

definition psf_fee_type :: "(time \<Rightarrow> int) \<Rightarrow> order_row \<Rightarrow> order_fee_type" where
  "psf_fee_type off r =
     (if o_fastDeliveryType r = Some ''SameDayShipping'' \<and> inferShippedSameDay off r \<noteq> Some False
      then PLATFORM_SERVICE_FAST else PLATFORM_SERVICE)"

definition psf_stage :: "dec \<Rightarrow> (time \<Rightarrow> int) \<Rightarrow> order_row \<Rightarrow> item_row list \<Rightarrow> store_row \<Rightarrow> db \<Rightarrow> profit_error + db" where
  "psf_stage D off r items s d =
     (if isPsfExempt r items d then Inr d
      else bindR (resolveFeeDefinition d (s_platform s) (psf_fee_type off r) (o_orderDate r)) (\<lambda>fd.
        case fd_fixedAmountNet fd of
          None \<Rightarrow> Inl (MissingFixedAmountNet (fd_feeType fd) (fd_id fd))
        | Some net \<Rightarrow>
            (let gross = dps D 2 (net_to_gross D net (fd_defaultVatRate fd))
             in Inr (upsert_estimate (o_id r) PLATFORM_SERVICE
                  (set_fee_data (Some (fd_id fd)) gross (fd_defaultVatRate fd) (fd_displayName fd))
                  (new_estimate (o_id r) (o_organizationId r) PLATFORM_SERVICE DEBIT (Some (fd_id fd))
                     gross (fd_defaultVatRate fd) (fd_displayName fd)) d))))"

definition stoppage_stage ::
  "dec \<Rightarrow> order_row \<Rightarrow> store_row \<Rightarrow> profit_settings \<Rightarrow> order_fee_type set \<Rightarrow> db \<Rightarrow> profit_error + db" where
  "stoppage_stage D r s ps existing d =
     (case (o_saleGross r, o_saleVat r) of
        (Some g, Some v) \<Rightarrow>
          (if \<not> isMicroExport r \<and> ps_includeStopaj ps \<and> STOPPAGE \<notin> existing then
             bindR (resolveFeeDefinition d (s_platform s) STOPPAGE (o_orderDate r)) (\<lambda>fd.
               case fd_rateOfSale fd of
                 None \<Rightarrow> Inl (MissingRateOfSale (fd_id fd))
               | Some rate \<Rightarrow>
                   Inr (create_fee (new_estimate (o_id r) (o_organizationId r) STOPPAGE DEBIT
                          (Some (fd_id fd)) (dps D 2 (dmul D (dsub D g v) rate)) 0 (fd_displayName fd)) d))
           else Inr d)
      | _ \<Rightarrow> Inr d)"

definition shipping_stage :: "dec \<Rightarrow> order_row \<Rightarrow> store_row \<Rightarrow> db \<Rightarrow> profit_error + db" where
  "shipping_stage D r s d =
     (case estimateShippingCostForOrder D (o_id r) None d of
        Inl reason \<Rightarrow> Inr d
      | Inr e \<Rightarrow>
          bindR (resolveFeeDefinition d (s_platform s) SHIPPING (o_orderDate r)) (\<lambda>fd.
            let gross = dps D 2 (net_to_gross D (se_amount e) (fd_defaultVatRate fd))
            in Inr (upsert_estimate (o_id r) SHIPPING
                 (\<lambda>f. f \<lparr> f_amountGross := gross, f_vatRate := fd_defaultVatRate fd \<rparr>)
                 (new_estimate (o_id r) (o_organizationId r) SHIPPING DEBIT (Some (fd_id fd)) gross
                    (fd_defaultVatRate fd) (fd_displayName fd)) d)))"

definition or_zero :: "rat option \<Rightarrow> rat" where
  "or_zero v = (case v of Some x \<Rightarrow> x | None \<Rightarrow> 0)"

definition intl_stage :: "dec \<Rightarrow> order_row \<Rightarrow> store_row \<Rightarrow> db \<Rightarrow> profit_error + db" where
  "intl_stage D r s d =
     (if isMicroExport r \<and> o_saleGross r \<noteq> None then
        (if o_status r = OS_CANCELLED then
           (case find_estimate (o_id r) INTERNATIONAL_SERVICE d of
              Some f \<Rightarrow> Inr (delete_fee (f_id f) d)
            | None \<Rightarrow> Inr d)
         else
           bindR (resolveFeeDefinition d (s_platform s) INTERNATIONAL_SERVICE (o_orderDate r)) (\<lambda>fd.
             case fd_rateOfSale fd of
               None \<Rightarrow> Inl (MissingRateOfSale (fd_id fd))
             | Some rate \<Rightarrow>
                 (let base = dsub D (or_zero (o_listGross r)) (or_zero (o_sellerDiscountGross r));
                      gross = dps D 2 (dmul D base rate)
                  in Inr (upsert_estimate (o_id r) INTERNATIONAL_SERVICE
                       (set_fee_data (Some (fd_id fd)) gross (fd_defaultVatRate fd) (fd_displayName fd))
                       (new_estimate (o_id r) (o_organizationId r) INTERNATIONAL_SERVICE DEBIT
                          (Some (fd_id fd)) gross (fd_defaultVatRate fd) (fd_displayName fd)) d))))
      else Inr d)"

text \<open>The loop over the items: cost and commission with their VAT, each at full precision.\<close>

record item_totals =
  it_costGross :: rat
  it_costVat :: rat
  it_commissionGross :: rat
  it_commissionVat :: rat

definition add_item :: "dec \<Rightarrow> (item_row \<Rightarrow> rat) \<Rightarrow> item_totals \<Rightarrow> item_row \<Rightarrow> item_totals" where
  "add_item D effComm t i =
     (let lineCost = dmul D (or_zero (i_unitCostSnapshotGross i)) (of_int (i_quantity i))
      in \<lparr> it_costGross = dadd D (it_costGross t) lineCost,
           it_costVat = dadd D (it_costVat t) (grossToVat D lineCost (or_zero (i_unitCostSnapshotVatRate i))),
           it_commissionGross = dadd D (it_commissionGross t) (effComm i),
           it_commissionVat = dadd D (it_commissionVat t) (grossToVat D (effComm i) (i_commissionVatRate i)) \<rparr>)"

definition sum_items :: "dec \<Rightarrow> (item_row \<Rightarrow> rat) \<Rightarrow> item_row list \<Rightarrow> item_totals" where
  "sum_items D effComm items =
     foldl (add_item D effComm)
       \<lparr> it_costGross = 0, it_costVat = 0, it_commissionGross = 0, it_commissionVat = 0 \<rparr> items"

definition estimated_commission :: "dec \<Rightarrow> item_row \<Rightarrow> rat" where
  "estimated_commission D i = dsub D (i_commissionGross i) (i_refundedCommissionGross i)"

definition PROFIT_FEE_TYPES :: "order_fee_type list" where
  "PROFIT_FEE_TYPES = [SHIPPING, PLATFORM_SERVICE, INTERNATIONAL_SERVICE, OVERSEAS_RETURN_OPERATION]"

definition to_profit_fee :: "dec \<Rightarrow> fee_row \<Rightarrow> profit_fee" where
  "to_profit_fee D f =
     \<lparr> pf_type = (if f_feeType f = SHIPPING then PF_SHIPPING
                  else if f_feeType f = INTERNATIONAL_SERVICE then PF_INTERNATIONAL_SERVICE
                  else if f_feeType f = OVERSEAS_RETURN_OPERATION then PF_OVERSEAS_RETURN_OPERATION
                  else PF_PLATFORM_SERVICE),
       pf_gross = f_amountGross f, pf_vat = grossToVat D (f_amountGross f) (f_vatRate f),
       pf_direction = f_direction f \<rparr>"

definition to_return_row :: "fee_row \<Rightarrow> return_fee_row" where
  "to_return_row f =
     \<lparr> rf_feeType = f_feeType f, rf_source = f_source f, rf_amountGross = f_amountGross f,
       rf_vatRate = f_vatRate f \<rparr>"

definition estimate_fee_rows :: "id \<Rightarrow> db \<Rightarrow> fee_row list" where
  "estimate_fee_rows oid d =
     filter (\<lambda>f. f_orderId f = oid \<and> f_source f = ESTIMATE \<and> f_feeType f \<in> set PROFIT_FEE_TYPES) (db_fees d)"

definition estimate_return_rows :: "id \<Rightarrow> db \<Rightarrow> fee_row list" where
  "estimate_return_rows oid d =
     filter (\<lambda>f. f_orderId f = oid \<and> f_feeType f \<in> set RETURN_FEE_TYPES) (db_fees d)"

definition estimate_input ::
  "dec \<Rightarrow> order_row \<Rightarrow> rat \<Rightarrow> rat \<Rightarrow> item_row list \<Rightarrow> profit_settings \<Rightarrow> db \<Rightarrow> profit_input" where
  "estimate_input D r saleGross saleVat items ps d =
     (let t = sum_items D (estimated_commission D) items
      in \<lparr> pi_sale = \<lparr> mp_gross = saleGross, mp_vat = saleVat \<rparr>,
           pi_cost = \<lparr> mp_gross = it_costGross t, mp_vat = it_costVat t \<rparr>,
           pi_commission = \<lparr> mp_gross = it_commissionGross t, mp_vat = it_commissionVat t \<rparr>,
           pi_fees = map (to_profit_fee D) (estimate_fee_rows (o_id r) d),
           pi_stoppage = (case find_estimate (o_id r) STOPPAGE d of Some f \<Rightarrow> f_amountGross f | None \<Rightarrow> 0),
           pi_includeNegativeNetVat = ps_includeNegativeNetVat ps \<rparr>)"

definition all_costs_known :: "item_row list \<Rightarrow> bool" where
  "all_costs_known items \<longleftrightarrow>
     list_all (\<lambda>i. i_unitCostSnapshotGross i \<noteq> None \<and> i_unitCostSnapshotVatRate i \<noteq> None) items"

definition set_estimate :: "dec \<Rightarrow> profit_breakdown \<Rightarrow> order_row \<Rightarrow> order_row" where
  "set_estimate D b r =
     r \<lparr> o_estimatedNetProfit := Some (dps D 2 (pb_netProfit b)),
         o_estimatedNetVat := Some (dps D 2 (pb_netVat b)),
         o_estimatedSaleMarginPct := map_option (dps D 4) (pb_saleMarginPct b),
         o_estimatedCostMarkupPct := map_option (dps D 4) (pb_costMarkupPct b) \<rparr>"

definition folded_estimate ::
  "dec \<Rightarrow> order_row \<Rightarrow> rat \<Rightarrow> rat \<Rightarrow> item_row list \<Rightarrow> profit_settings \<Rightarrow> db \<Rightarrow> profit_input" where
  "folded_estimate D r saleGross saleVat items ps d =
     foldReturnLegs D (estimate_input D r saleGross saleVat items ps d)
       (resolveReturnLegs D (map to_return_row (estimate_return_rows (o_id r) d)))"

definition profit_stage :: "dec \<Rightarrow> order_row \<Rightarrow> item_row list \<Rightarrow> profit_settings \<Rightarrow> db \<Rightarrow> db" where
  "profit_stage D r items ps d =
     (case (o_saleGross r, o_saleVat r) of
        (Some g, Some v) \<Rightarrow>
          (if all_costs_known items then
             update_order (o_id r) (set_estimate D (computeProfit D (folded_estimate D r g v items ps d))) d
           else d)
      | _ \<Rightarrow> d)"

definition estimate_types :: "id \<Rightarrow> db \<Rightarrow> order_fee_type set" where
  "estimate_types oid d =
     set (map f_feeType (filter (\<lambda>f. f_orderId f = oid \<and> f_source f = ESTIMATE) (db_fees d)))"

definition applyEstimateOnOrderCreate :: "dec \<Rightarrow> (time \<Rightarrow> int) \<Rightarrow> id \<Rightarrow> db \<Rightarrow> profit_error + db" where
  "applyEstimateOnOrderCreate D off oid d =
     (case find_order oid d of
        None \<Rightarrow> Inr d
      | Some r \<Rightarrow>
          (case find_store (o_storeId r) d of
             None \<Rightarrow> Inl (RelationMissing (o_storeId r))
           | Some s \<Rightarrow>
               (if o_profitExcludedAt r \<noteq> None then Inr d
                else
                  (let items = order_items oid d;
                       (d1, ps) = settings_stage r s d;
                       existing = estimate_types oid d1
                   in bindR (psf_stage D off r items s d1) (\<lambda>d2.
                      bindR (stoppage_stage D r s ps existing d2) (\<lambda>d3.
                      bindR (shipping_stage D r s d3) (\<lambda>d4.
                      bindR (intl_stage D r s d4) (\<lambda>d5.
                      Inr (profit_stage D r items ps d5)))))))))"

end
