(* ===== verification/Fee_Table.thy ===== *)
theory Fee_Table
  imports Estimate
begin

text \<open>
  The fee table under the writes of the profit services: ids are distinct and below the counter,
  there is at most one ESTIMATE row of a type for an order (the partial unique index
  \<open>order_fees_estimate_fee_type_uniq\<close>), and a write for an order leaves every other row alone.
  \<open>keeps\<close> is what the locale \<open>estimate_writer\<close> of \<open>Estimate_Props\<close> promises of every writer.
\<close>

definition wf_fees :: "db \<Rightarrow> bool" where
  "wf_fees d \<longleftrightarrow> distinct (map f_id (db_fees d)) \<and> (\<forall>f \<in> set (db_fees d). f_id f < db_nextId d)"

abbreviation is_estimate :: "fee_row \<Rightarrow> bool" where
  "is_estimate f \<equiv> f_source f = ESTIMATE"

definition one_estimate :: "db \<Rightarrow> bool" where
  "one_estimate d \<longleftrightarrow>
     distinct (map (\<lambda>f. (f_orderId f, f_feeType f)) (filter is_estimate (db_fees d)))"

definition other_fees :: "id \<Rightarrow> db \<Rightarrow> fee_row list" where
  "other_fees oid d = filter (\<lambda>f. \<not> (f_orderId f = oid \<and> is_estimate f)) (db_fees d)"

definition other_orders :: "id \<Rightarrow> db \<Rightarrow> order_row list" where
  "other_orders oid d = filter (\<lambda>r. o_id r \<noteq> oid) (db_orders d)"

text \<open>Only the orders, the fees and the id counter differ.\<close>

definition ref_eq :: "db \<Rightarrow> db \<Rightarrow> bool" where
  "ref_eq d d' \<longleftrightarrow>
     db_stores d' = db_stores d \<and> db_carriers d' = db_carriers d \<and> db_ownTariffs d' = db_ownTariffs d
   \<and> db_baremTariffs d' = db_baremTariffs d \<and> db_desiTariffs d' = db_desiTariffs d
   \<and> db_variants d' = db_variants d \<and> db_products d' = db_products d
   \<and> db_costProfiles d' = db_costProfiles d \<and> db_costLinks d' = db_costLinks d
   \<and> db_fxRates d' = db_fxRates d \<and> db_feeDefs d' = db_feeDefs d
   \<and> db_returnTiers d' = db_returnTiers d \<and> db_commissionRates d' = db_commissionRates d
   \<and> db_items d' = db_items d \<and> db_claims d' = db_claims d \<and> db_claimItems d' = db_claimItems d
   \<and> db_orgPeriodFees d' = db_orgPeriodFees d \<and> db_commissionInvoices d' = db_commissionInvoices d \<and> db_buffer d' = db_buffer d
   \<and> db_components d' = db_components d"

definition keeps :: "id \<Rightarrow> db \<Rightarrow> db \<Rightarrow> bool" where
  "keeps oid d d' \<longleftrightarrow> ref_eq d d' \<and> other_orders oid d' = other_orders oid d
     \<and> map o_id (db_orders d') = map o_id (db_orders d)
     \<and> (wf_fees d \<longrightarrow> wf_fees d' \<and> other_fees oid d' = other_fees oid d
          \<and> (one_estimate d \<longrightarrow> one_estimate d'))"

section \<open>Reference tables\<close>

lemma ref_eq_refl [simp]: "ref_eq d d"
  by (simp add: ref_eq_def)

lemma ref_eq_trans: "ref_eq a b \<Longrightarrow> ref_eq b c \<Longrightarrow> ref_eq a c"
  by (simp add: ref_eq_def)

lemma ref_eq_sel:
  assumes "ref_eq d d'"
  shows "db_stores d' = db_stores d" "db_carriers d' = db_carriers d" "db_ownTariffs d' = db_ownTariffs d"
    "db_baremTariffs d' = db_baremTariffs d" "db_desiTariffs d' = db_desiTariffs d"
    "db_variants d' = db_variants d" "db_feeDefs d' = db_feeDefs d" "db_items d' = db_items d"
    "db_claimItems d' = db_claimItems d" "db_returnTiers d' = db_returnTiers d"
    "db_products d' = db_products d" "db_buffer d' = db_buffer d"
    "db_costProfiles d' = db_costProfiles d" "db_costLinks d' = db_costLinks d"
    "db_components d' = db_components d" "db_claims d' = db_claims d"
  using assms by (simp_all add: ref_eq_def)

lemma keeps_refl [simp]: "keeps oid d d"
  by (simp add: keeps_def)

lemma keeps_trans: "keeps oid a b \<Longrightarrow> keeps oid b c \<Longrightarrow> keeps oid a c"
  by (auto simp: keeps_def intro: ref_eq_trans)

lemma keepsD:
  assumes "keeps oid d d'"
  shows "ref_eq d d'" "wf_fees d \<Longrightarrow> wf_fees d'" "wf_fees d \<Longrightarrow> one_estimate d \<Longrightarrow> one_estimate d'"
  using assms by (auto simp: keeps_def)

section \<open>The primitive writes\<close>

definition keeps_key :: "(fee_row \<Rightarrow> fee_row) \<Rightarrow> bool" where
  "keeps_key upd \<longleftrightarrow> (\<forall>f. f_id (upd f) = f_id f \<and> f_orderId (upd f) = f_orderId f
     \<and> f_feeType (upd f) = f_feeType f \<and> f_source (upd f) = f_source f)"

definition makes :: "id \<Rightarrow> order_fee_type \<Rightarrow> (id \<Rightarrow> fee_row) \<Rightarrow> bool" where
  "makes oid ty mk \<longleftrightarrow> (\<forall>i. f_id (mk i) = i \<and> f_orderId (mk i) = oid \<and> f_feeType (mk i) = ty
     \<and> is_estimate (mk i))"

lemma keeps_key_simps [simp]:
  "keeps_key (set_fee_data a b c e)"
  "keeps_key (\<lambda>f. f \<lparr> f_amountGross := b, f_vatRate := c \<rparr>)"
  by (simp_all add: keeps_key_def set_fee_data_def)

lemma makes_new_estimate [simp]: "makes oid ty (new_estimate oid org ty dir defn g v n)"
  by (simp add: makes_def new_estimate_def)

lemma find_estimate_Some:
  "find_estimate oid ty d = Some f \<Longrightarrow>
     f \<in> set (db_fees d) \<and> f_orderId f = oid \<and> f_feeType f = ty \<and> is_estimate f"
  by (auto simp: find_estimate_def dest: find_Some_in)

lemma find_estimate_None:
  "find_estimate oid ty d = None \<longleftrightarrow>
     (\<forall>f \<in> set (db_fees d). \<not> (f_orderId f = oid \<and> f_feeType f = ty \<and> is_estimate f))"
  by (simp add: find_estimate_def find_None_all)

lemma same_id:
  assumes "wf_fees d" "f \<in> set (db_fees d)" "g \<in> set (db_fees d)" "f_id f = f_id g"
  shows "f = g"
  using assms by (auto simp: wf_fees_def distinct_map inj_on_def)

lemma find_estimate_update:
  assumes wf: "wf_fees d" and f: "find_estimate oid ty d = Some f" and k: "keeps_key upd"
  shows "find_estimate oid' ty' (update_fee (f_id f) upd d) =
    (if oid' = oid \<and> ty' = ty then Some (upd f) else find_estimate oid' ty' d)"
proof -
  let ?Q = "\<lambda>g. f_orderId g = oid' \<and> f_feeType g = ty' \<and> is_estimate g"
  have "find_estimate oid' ty' (update_fee (f_id f) upd d) =
      map_option (\<lambda>g. if f_id g = f_id f then upd g else g) (find ?Q (db_fees d))"
    unfolding find_estimate_def update_fee_def using k
    by (simp add: find_update_where_same keeps_key_def)
  also have "\<dots> = (if oid' = oid \<and> ty' = ty then Some (upd f) else find_estimate oid' ty' d)"
  proof (cases "find ?Q (db_fees d)")
    case None
    with f show ?thesis by (auto simp: find_estimate_def)
  next
    case (Some g)
    then have "g \<in> set (db_fees d)" "?Q g" by (auto dest: find_Some_in)
    note g = this
    have f': "f \<in> set (db_fees d)" "f_orderId f = oid" "f_feeType f = ty"
      using find_estimate_Some [OF f] by simp_all
    show ?thesis
    proof (cases "oid' = oid \<and> ty' = ty")
      case True
      with f Some have "g = f" by (simp add: find_estimate_def)
      with True Some show ?thesis by simp
    next
      case False
      with g f' have "f_id g \<noteq> f_id f" using same_id [OF wf g(1) f'(1)] by auto
      with False Some show ?thesis by (auto simp: find_estimate_def)
    qed
  qed
  finally show ?thesis .
qed

lemma find_estimate_create:
  assumes "makes oid ty mk"
  shows "find_estimate oid' ty' (create_fee mk d) =
    (case find_estimate oid' ty' d of Some f \<Rightarrow> Some f
     | None \<Rightarrow> if oid' = oid \<and> ty' = ty then Some (mk (db_nextId d)) else None)"
  using assms by (auto simp: find_estimate_def create_fee_def find_append makes_def split: option.splits)

lemma update_fee_keeps:
  assumes f: "find_estimate oid ty d = Some f" and k: "keeps_key upd"
  shows "keeps oid d (update_fee (f_id f) upd d)"
proof -
  have ids: "map f_id (update_where (\<lambda>g. f_id g = f_id f) upd (db_fees d)) = map f_id (db_fees d)"
    using k by (simp add: map_update_where keeps_key_def)
  have "wf_fees (update_fee (f_id f) upd d)" if "wf_fees d"
    using that ids k unfolding wf_fees_def update_fee_def
    by (auto simp: set_update_where keeps_key_def)
  moreover have "other_fees oid (update_fee (f_id f) upd d) = other_fees oid d" if wf: "wf_fees d"
  proof -
    have "f_orderId g = oid \<and> is_estimate g" if "g \<in> set (db_fees d)" "f_id g = f_id f" for g
      using same_id [OF wf, of g f] that find_estimate_Some [OF f] by auto
    then show ?thesis
      using k unfolding other_fees_def update_fee_def
      by (simp add: filter_update_where_disjoint keeps_key_def)
  qed
  moreover have "one_estimate (update_fee (f_id f) upd d)" if "one_estimate d"
    using that k by (simp add: one_estimate_def update_fee_def filter_update_where_same map_update_where
        keeps_key_def)
  ultimately show ?thesis by (simp add: keeps_def ref_eq_def update_fee_def other_orders_def)
qed

lemma create_fee_keeps:
  assumes m: "makes oid ty mk" and none: "find_estimate oid ty d = None"
  shows "keeps oid d (create_fee mk d)"
proof -
  have "wf_fees (create_fee mk d)" if "wf_fees d"
    using that m by (fastforce simp: wf_fees_def create_fee_def makes_def less_Suc_eq)
  moreover have "other_fees oid (create_fee mk d) = other_fees oid d"
    using m by (simp add: other_fees_def create_fee_def makes_def)
  moreover have "one_estimate (create_fee mk d)" if "one_estimate d"
    using that m none by (auto simp: one_estimate_def create_fee_def makes_def find_estimate_None)
  ultimately show ?thesis by (simp add: keeps_def ref_eq_def create_fee_def other_orders_def)
qed

lemma delete_fee_keeps:
  assumes f: "find_estimate oid ty d = Some f"
  shows "keeps oid d (delete_fee (f_id f) d)"
proof -
  have "wf_fees (delete_fee (f_id f) d)" if "wf_fees d"
    using that by (auto simp: wf_fees_def delete_fee_def delete_where_def distinct_map_filter)
  moreover have "other_fees oid (delete_fee (f_id f) d) = other_fees oid d" if wf: "wf_fees d"
  proof -
    have "f_orderId g = oid \<and> is_estimate g" if "g \<in> set (db_fees d)" "f_id g = f_id f" for g
      using same_id [OF wf, of g f] that find_estimate_Some [OF f] by auto
    then show ?thesis by (simp add: other_fees_def delete_fee_def filter_delete_where_disjoint)
  qed
  moreover have "one_estimate (delete_fee (f_id f) d)" if "one_estimate d"
  proof -
    have eq: "filter is_estimate (db_fees (delete_fee (f_id f) d)) =
        filter (\<lambda>g. f_id g \<noteq> f_id f) (filter is_estimate (db_fees d))"
      by (simp add: delete_fee_def delete_where_def conj_commute)
    from that show ?thesis unfolding one_estimate_def eq by (rule distinct_map_filter)
  qed
  ultimately show ?thesis by (simp add: keeps_def ref_eq_def delete_fee_def other_orders_def)
qed

lemma update_order_keeps:
  "(\<And>r. o_id (g r) = o_id r) \<Longrightarrow> keeps oid d (update_order oid g d)"
  by (simp add: keeps_def ref_eq_def update_order_def other_orders_def wf_fees_def other_fees_def
      one_estimate_def filter_update_where_disjoint map_update_where)

lemma upsert_keeps:
  assumes "keeps_key upd" and "makes oid ty mk"
  shows "keeps oid d (upsert_estimate oid ty upd mk d)"
  using update_fee_keeps [OF _ assms(1)] create_fee_keeps [OF assms(2)]
  by (auto simp: upsert_estimate_def split: option.splits)

lemma find_estimate_upsert:
  assumes "wf_fees d" and "keeps_key upd" and "makes oid ty mk"
  shows "find_estimate oid' ty' (upsert_estimate oid ty upd mk d) =
    (if oid' = oid \<and> ty' = ty
     then Some (case find_estimate oid ty d of Some f \<Rightarrow> upd f | None \<Rightarrow> mk (db_nextId d))
     else find_estimate oid' ty' d)"
proof (cases "find_estimate oid ty d")
  case None
  then show ?thesis
    using find_estimate_create [OF assms(3), of oid' ty' d]
    by (cases "find_estimate oid' ty' d") (auto simp: upsert_estimate_def)
next
  case (Some f)
  then show ?thesis
    using find_estimate_update [OF assms(1) Some assms(2), of oid' ty']
    by (simp add: upsert_estimate_def)
qed

lemma find_estimate_delete:
  assumes wf: "wf_fees d" and f: "find_estimate oid ty d = Some f"
  shows "\<not> (oid' = oid \<and> ty' = ty) \<Longrightarrow>
      find_estimate oid' ty' (delete_fee (f_id f) d) = find_estimate oid' ty' d"
    and "one_estimate d \<Longrightarrow> find_estimate oid ty (delete_fee (f_id f) d) = None"
proof -
  assume other: "\<not> (oid' = oid \<and> ty' = ty)"
  let ?Q = "\<lambda>g. f_orderId g = oid' \<and> f_feeType g = ty' \<and> is_estimate g"
  have "f_id g = f_id f \<Longrightarrow> \<not> ?Q g" if "g \<in> set (db_fees d)" for g
    using same_id [OF wf that, of f] find_estimate_Some [OF f] other by auto
  then have "filter ?Q (delete_where (\<lambda>g. f_id g = f_id f) (db_fees d)) = filter ?Q (db_fees d)"
    by (intro filter_delete_where_disjoint) auto
  then show "find_estimate oid' ty' (delete_fee (f_id f) d) = find_estimate oid' ty' d"
    by (simp add: find_estimate_def find_cong_filter delete_fee_def)
next
  assume one: "one_estimate d"
  have "g = f" if "g \<in> set (db_fees d)" "f_orderId g = oid" "f_feeType g = ty" "is_estimate g" for g
    using one that find_estimate_Some [OF f]
    by (auto simp: one_estimate_def distinct_map inj_on_def)
  then show "find_estimate oid ty (delete_fee (f_id f) d) = None"
    by (auto simp: find_estimate_None delete_fee_def)
qed

text \<open>An upsert whose data is already there changes nothing.\<close>

lemma upsert_fix:
  assumes wf: "wf_fees d" and f: "find_estimate oid ty d = Some f" and same: "upd f = f"
  shows "upsert_estimate oid ty upd mk d = d"
proof -
  have "upd g = g" if "g \<in> set (db_fees d)" "f_id g = f_id f" for g
    using same_id [OF wf, of g f] that find_estimate_Some [OF f] same by auto
  then show ?thesis by (simp add: upsert_estimate_def f update_fee_def update_where_id)
qed

end
