(* ===== verification/Estimate_Props.thy ===== *)
theory Estimate_Props
  imports Fee_Table
begin

text \<open>
  What the estimate guarantees. The four stages that write fee rows satisfy one contract, the
  locale \<open>estimate_writer\<close>: a stage writes at most its own row of its own order and, run again
  where its row and what it reads have not changed, changes nothing. From the contract follow the frame
  of the whole function and that running it again changes nothing.
\<close>

section \<open>The contract of a stage\<close>

text \<open>What the shipping estimate reads of the order.\<close>

definition ship_view :: "id \<Rightarrow> db \<Rightarrow> (id \<times> id \<times> rat option \<times> rat option \<times> bool) option" where
  "ship_view oid d =
     map_option (\<lambda>r. (o_id r, o_storeId r, o_cargoDeci r, o_saleGross r, o_fastDelivery r)) (find_order oid d)"

definition fee_stage :: "id \<Rightarrow> order_fee_type \<Rightarrow> db \<Rightarrow> db \<Rightarrow> bool" where
  "fee_stage oid ty d d' \<longleftrightarrow> keeps oid d d' \<and> db_orders d' = db_orders d
     \<and> (wf_fees d \<longrightarrow> (\<forall>oid' ty'. \<not> (oid' = oid \<and> ty' = ty) \<longrightarrow>
          find_estimate oid' ty' d' = find_estimate oid' ty' d))"

locale estimate_writer =
  fixes oid :: id and ty :: order_fee_type and stage :: "db \<Rightarrow> profit_error + db"
  assumes frame: "stage d = Inr d' \<Longrightarrow> fee_stage oid ty d d'"
    and stable: "stage d = Inr d' \<Longrightarrow> wf_fees d \<Longrightarrow> one_estimate d \<Longrightarrow> wf_fees e \<Longrightarrow>
      ref_eq d e \<Longrightarrow> ship_view oid e = ship_view oid d \<Longrightarrow>
      find_estimate oid ty e = find_estimate oid ty d' \<Longrightarrow> stage e = Inr e"
begin

lemma frame_keeps: "stage d = Inr d' \<Longrightarrow> keeps oid d d'"
  using frame by (simp add: fee_stage_def)

lemma frame_orders: "stage d = Inr d' \<Longrightarrow> db_orders d' = db_orders d"
  using frame by (simp add: fee_stage_def)

lemma frame_find:
  "stage d = Inr d' \<Longrightarrow> wf_fees d \<Longrightarrow> \<not> (oid' = oid \<and> ty' = ty) \<Longrightarrow>
   find_estimate oid' ty' d' = find_estimate oid' ty' d"
  using frame by (simp add: fee_stage_def)

lemma frame_ref: "stage d = Inr d' \<Longrightarrow> ref_eq d d'"
  using frame_keeps keepsD(1) by blast

lemma frame_wf: "stage d = Inr d' \<Longrightarrow> wf_fees d \<Longrightarrow> wf_fees d'"
  using frame_keeps keepsD(2) by blast

lemma frame_one: "stage d = Inr d' \<Longrightarrow> wf_fees d \<Longrightarrow> one_estimate d \<Longrightarrow> one_estimate d'"
  using frame_keeps keepsD(3) by blast

lemma twice:
  assumes "stage d = Inr d'" and "wf_fees d" and "one_estimate d"
  shows "stage d' = Inr d'"
proof (rule stable [OF assms frame_wf frame_ref])
  show "ship_view oid d' = ship_view oid d"
    using frame_orders [OF assms(1)] by (simp add: ship_view_def find_order_def)
qed (use assms in auto)

end

section \<open>The stages keep the contract\<close>

lemma upsert_fee_stage:
  assumes "keeps_key upd" and "makes oid ty mk"
  shows "fee_stage oid ty d (upsert_estimate oid ty upd mk d)"
  using upsert_keeps [OF assms] find_estimate_upsert [OF _ assms]
  by (auto simp: fee_stage_def upsert_estimate_def update_fee_def create_fee_def split: option.splits)

lemma fee_stage_refl [simp]: "fee_stage oid ty d d"
  by (simp add: fee_stage_def)

text \<open>After an upsert whose data is idempotent, the row carries the data.\<close>

lemma upsert_stable:
  assumes d: "wf_fees d" and k: "keeps_key upd" "makes oid ty mk"
    and idem: "\<And>f. upd (upd f) = upd f" "\<And>i. upd (mk i) = mk i"
    and e: "wf_fees e" "find_estimate oid ty e = find_estimate oid ty (upsert_estimate oid ty upd mk d)"
  shows "upsert_estimate oid ty upd mk e = e"
proof -
  let ?f = "case find_estimate oid ty d of Some f \<Rightarrow> upd f | None \<Rightarrow> mk (db_nextId d)"
  have "find_estimate oid ty e = Some ?f" using e(2) find_estimate_upsert [OF d k] by simp
  moreover have "upd ?f = ?f" by (auto simp: idem split: option.splits)
  ultimately show ?thesis by (rule upsert_fix [OF e(1)])
qed

lemma set_fee_data_idem [simp]:
  "set_fee_data a b c n (set_fee_data a b c n f) = set_fee_data a b c n f"
  "set_fee_data a b c n (new_estimate oid org ty dir a b c n i) = new_estimate oid org ty dir a b c n i"
  by (simp_all add: set_fee_data_def new_estimate_def)

lemma isPsfExempt_ref: "ref_eq d e \<Longrightarrow> isPsfExempt r items e = isPsfExempt r items d"
  using item_variant_cong [of e d] by (simp add: isPsfExempt_def ref_eq_sel)

lemma resolve_ref: "ref_eq d e \<Longrightarrow> resolveFeeDefinition e p ty t = resolveFeeDefinition d p ty t"
  by (rule resolveFeeDefinition_cong) (simp add: ref_eq_sel)

text \<open>
  A stage that decides what to write from what it reads (nothing, or the data of one row) and
  upserts it.
\<close>

type_synonym row_plan = "(fee_row \<Rightarrow> fee_row) \<times> (id \<Rightarrow> fee_row)"

definition run_plan :: "id \<Rightarrow> order_fee_type \<Rightarrow> (db \<Rightarrow> profit_error + row_plan option) \<Rightarrow> db \<Rightarrow> profit_error + db" where
  "run_plan oid ty plan d =
     bindR (plan d) (\<lambda>p. Inr (case p of None \<Rightarrow> d | Some (upd, mk) \<Rightarrow> upsert_estimate oid ty upd mk d))"

definition good_plan :: "id \<Rightarrow> order_fee_type \<Rightarrow> row_plan \<Rightarrow> bool" where
  "good_plan oid ty p \<longleftrightarrow> (case p of (upd, mk) \<Rightarrow>
     keeps_key upd \<and> makes oid ty mk \<and> (\<forall>f. upd (upd f) = upd f) \<and> (\<forall>i. upd (mk i) = mk i))"

lemma run_plan_writer:
  assumes good: "\<And>d p. plan d = Inr (Some p) \<Longrightarrow> good_plan oid ty p"
    and reads: "\<And>d e. ref_eq d e \<Longrightarrow> ship_view oid e = ship_view oid d \<Longrightarrow> plan e = plan d"
  shows "estimate_writer oid ty (run_plan oid ty plan)"
proof
  fix d d' assume "run_plan oid ty plan d = Inr d'"
  then show "fee_stage oid ty d d'"
    using good [of d] upsert_fee_stage
    by (auto simp: run_plan_def bindR_eq_Inr good_plan_def split: option.splits)
next
  fix d d' e
  assume s: "run_plan oid ty plan d = Inr d'" "wf_fees d" "wf_fees e" "ref_eq d e"
      "ship_view oid e = ship_view oid d" "find_estimate oid ty e = find_estimate oid ty d'"
  from s(1) obtain p where p: "plan d = Inr p"
      "d' = (case p of None \<Rightarrow> d | Some (upd, mk) \<Rightarrow> upsert_estimate oid ty upd mk d)"
    by (auto simp: run_plan_def bindR_eq_Inr)
  have pe: "plan e = Inr p" using reads [OF s(4,5)] p(1) by simp
  show "run_plan oid ty plan e = Inr e"
  proof (cases p)
    case None
    then show ?thesis using pe by (simp add: run_plan_def)
  next
    case (Some q)
    obtain upd mk where q: "q = (upd, mk)" by (cases q)
    have g: "keeps_key upd" "makes oid ty mk" "\<And>f. upd (upd f) = upd f" "\<And>i. upd (mk i) = mk i"
      using good [of d q] p(1) Some q by (auto simp: good_plan_def)
    have "upsert_estimate oid ty upd mk e = e"
      using s(6) p(2) Some q by (intro upsert_stable [OF s(2) g s(3)]) simp
    then show ?thesis using pe Some q by (simp add: run_plan_def)
  qed
qed

definition psf_plan ::
  "dec \<Rightarrow> (time \<Rightarrow> int) \<Rightarrow> order_row \<Rightarrow> item_row list \<Rightarrow> store_row \<Rightarrow> db \<Rightarrow> profit_error + row_plan option" where
  "psf_plan D off r items s d =
     (if isPsfExempt r items d then Inr None
      else bindR (resolveFeeDefinition d (s_platform s) (psf_fee_type off r) (o_orderDate r)) (\<lambda>fd.
        case fd_fixedAmountNet fd of
          None \<Rightarrow> Inl (MissingFixedAmountNet (fd_feeType fd) (fd_id fd))
        | Some net \<Rightarrow>
            (let gross = dps D 2 (net_to_gross D net (fd_defaultVatRate fd))
             in Inr (Some (set_fee_data (Some (fd_id fd)) gross (fd_defaultVatRate fd) (fd_displayName fd),
                  new_estimate (o_id r) (o_organizationId r) PLATFORM_SERVICE DEBIT (Some (fd_id fd))
                     gross (fd_defaultVatRate fd) (fd_displayName fd))))))"

lemma psf_stage_plan: "psf_stage D off r items s = run_plan (o_id r) PLATFORM_SERVICE (psf_plan D off r items s)"
  by (rule ext) (simp add: psf_stage_def psf_plan_def run_plan_def bindR_def Let_def
      split: sum.splits option.splits)

interpretation psf: estimate_writer "o_id r" PLATFORM_SERVICE "psf_stage D off r items s"
  for D off r items s
  unfolding psf_stage_plan
proof (rule run_plan_writer)
  fix d p assume "psf_plan D off r items s d = Inr (Some p)"
  then show "good_plan (o_id r) PLATFORM_SERVICE p"
    by (auto simp: psf_plan_def bindR_eq_Inr good_plan_def Let_def split: if_splits option.splits)
qed (simp add: psf_plan_def isPsfExempt_ref resolve_ref)

lemma find_order_ref_store: "ref_eq d e \<Longrightarrow> find_store sid e = find_store sid d"
  by (simp add: find_store_def ref_eq_sel)

lemma order_desi_cong:
  assumes "ref_eq d e" and "o_id r = o_id r'" and "o_cargoDeci r = o_cargoDeci r'"
  shows "order_desi D e r = order_desi D d r'"
proof -
  have "item_variant i e = item_variant i d" for i
    by (rule item_variant_cong) (simp add: assms(1) ref_eq_sel)
  then have desi: "add_desi D e = add_desi D d" by (intro ext) (simp add: add_desi_def)
  have items: "order_items oid e = order_items oid d" for oid
    using assms(1) by (simp add: order_items_def ref_eq_sel)
  show ?thesis unfolding order_desi_def desi items assms(2,3) ..
qed

lemma estimate_shipping_reads:
  assumes ref: "ref_eq d e" and view: "ship_view oid e = ship_view oid d"
  shows "estimateShippingCostForOrder D oid opt e = estimateShippingCostForOrder D oid opt d"
proof (cases "find_order oid d")
  case None
  with view show ?thesis by (simp add: ship_view_def estimateShippingCostForOrder_def)
next
  case (Some r)
  with view obtain r' where r': "find_order oid e = Some r'" "o_id r' = o_id r" "o_storeId r' = o_storeId r"
      "o_cargoDeci r' = o_cargoDeci r" "o_saleGross r' = o_saleGross r" "o_fastDelivery r' = o_fastDelivery r"
    by (auto simp: ship_view_def)
  have desi: "order_desi D e r' = order_desi D d r" by (rule order_desi_cong [OF ref r'(2,4)])
  have carrier: "store_carrier s e = store_carrier s d" for s
    using ref by (simp add: store_carrier_def ref_eq_sel split: option.split)
  have tariff: "resolveTariffForDesi D e i = resolveTariffForDesi D d i" for i
    by (rule resolveTariff_cong) (simp_all add: ref ref_eq_sel)
  show ?thesis
    unfolding estimateShippingCostForOrder_def Some r'(1) option.case r'(3,5,6)
      find_order_ref_store [OF ref] desi carrier tariff ..
qed

definition shipping_plan :: "dec \<Rightarrow> order_row \<Rightarrow> store_row \<Rightarrow> db \<Rightarrow> profit_error + row_plan option" where
  "shipping_plan D r s d =
     (case estimateShippingCostForOrder D (o_id r) None d of
        Inl reason \<Rightarrow> Inr None
      | Inr e \<Rightarrow>
          bindR (resolveFeeDefinition d (s_platform s) SHIPPING (o_orderDate r)) (\<lambda>fd.
            let gross = dps D 2 (net_to_gross D (se_amount e) (fd_defaultVatRate fd))
            in Inr (Some (\<lambda>f. f \<lparr> f_amountGross := gross, f_vatRate := fd_defaultVatRate fd \<rparr>,
                 new_estimate (o_id r) (o_organizationId r) SHIPPING DEBIT (Some (fd_id fd)) gross
                    (fd_defaultVatRate fd) (fd_displayName fd)))))"

lemma shipping_stage_plan: "shipping_stage D r s = run_plan (o_id r) SHIPPING (shipping_plan D r s)"
  by (rule ext) (simp add: shipping_stage_def shipping_plan_def run_plan_def bindR_def Let_def
      split: sum.splits)

interpretation shipping: estimate_writer "o_id r" SHIPPING "shipping_stage D r s" for D r s
  unfolding shipping_stage_plan
proof (rule run_plan_writer)
  fix d p assume "shipping_plan D r s d = Inr (Some p)"
  then show "good_plan (o_id r) SHIPPING p"
    by (auto simp: shipping_plan_def bindR_eq_Inr good_plan_def Let_def new_estimate_def split: sum.splits)
next
  fix d e assume reads: "ref_eq d e" "ship_view (o_id r) e = ship_view (o_id r) d"
  show "shipping_plan D r s e = shipping_plan D r s d"
    unfolding shipping_plan_def estimate_shipping_reads [OF reads] resolve_ref [OF reads(1)] ..
qed

text \<open>The stoppage is created once and never rewritten.\<close>

lemma estimate_types_find: "ty \<in> estimate_types oid d \<longleftrightarrow> find_estimate oid ty d \<noteq> None"
  by (auto simp: estimate_types_def find_estimate_None)

definition stoppage_step :: "dec \<Rightarrow> order_row \<Rightarrow> store_row \<Rightarrow> profit_settings \<Rightarrow> db \<Rightarrow> profit_error + db" where
  "stoppage_step D r s ps d = stoppage_stage D r s ps (estimate_types (o_id r) d) d"

lemma stoppage_stage_cong:
  "(STOPPAGE \<in> A) = (STOPPAGE \<in> B) \<Longrightarrow> stoppage_stage D r s ps A d = stoppage_stage D r s ps B d"
  by (simp add: stoppage_stage_def split: option.splits)

lemma stoppage_step_cases:
  assumes "stoppage_step D r s ps d = Inr d'"
  shows "d' = d \<and> (find_estimate (o_id r) STOPPAGE d = None \<longrightarrow>
            (\<forall>e A. stoppage_stage D r s ps A e = Inr e))
    \<or> find_estimate (o_id r) STOPPAGE d = None
      \<and> (\<exists>mk. makes (o_id r) STOPPAGE mk \<and> d' = create_fee mk d)"
proof (cases "o_saleGross r \<noteq> None \<and> o_saleVat r \<noteq> None \<and> \<not> isMicroExport r \<and> ps_includeStopaj ps")
  case False
  then have "stoppage_stage D r s ps A e = Inr e" for A e
    by (auto simp: stoppage_stage_def split: option.splits)
  with assms show ?thesis by (simp add: stoppage_step_def)
next
  case True
  then obtain g v where gv: "o_saleGross r = Some g" "o_saleVat r = Some v" by auto
  show ?thesis
  proof (cases "find_estimate (o_id r) STOPPAGE d = None")
    case False
    with assms gv show ?thesis
      by (auto simp: stoppage_step_def stoppage_stage_def estimate_types_find)
  next
    case none: True
    have "bindR (resolveFeeDefinition d (s_platform s) STOPPAGE (o_orderDate r)) (\<lambda>fd.
        case fd_rateOfSale fd of
          None \<Rightarrow> Inl (MissingRateOfSale (fd_id fd))
        | Some rate \<Rightarrow> Inr (create_fee (new_estimate (o_id r) (o_organizationId r) STOPPAGE DEBIT
            (Some (fd_id fd)) (dps D 2 (dmul D (dsub D g v) rate)) 0 (fd_displayName fd)) d)) = Inr d'"
      using assms True gv none by (simp add: stoppage_step_def stoppage_stage_def estimate_types_find)
    then obtain fd :: fee_definition_row where "(case fd_rateOfSale fd of
          None \<Rightarrow> Inl (MissingRateOfSale (fd_id fd))
        | Some rate \<Rightarrow> Inr (create_fee (new_estimate (o_id r) (o_organizationId r) STOPPAGE DEBIT
            (Some (fd_id fd)) (dps D 2 (dmul D (dsub D g v) rate)) 0 (fd_displayName fd)) d)) = Inr d'"
      by (elim bindR_InrE)
    then obtain rate where "d' = create_fee (new_estimate (o_id r) (o_organizationId r) STOPPAGE DEBIT
        (Some (fd_id fd)) (dps D 2 (dmul D (dsub D g v) rate)) 0 (fd_displayName fd)) d"
      by (cases "fd_rateOfSale fd") auto
    with none show ?thesis using makes_new_estimate by blast
  qed
qed

interpretation stoppage: estimate_writer "o_id r" STOPPAGE "stoppage_step D r s ps" for D r s ps
proof
  fix d d' assume "stoppage_step D r s ps d = Inr d'"
  then consider "d' = d" | mk where "find_estimate (o_id r) STOPPAGE d = None"
      "makes (o_id r) STOPPAGE mk" "d' = create_fee mk d"
    using stoppage_step_cases by blast
  then show "fee_stage (o_id r) STOPPAGE d d'"
  proof cases
    case (2 mk)
    then show ?thesis
      using create_fee_keeps [OF 2(2,1)] find_estimate_create [OF 2(2)]
      by (auto simp: fee_stage_def create_fee_def split: option.splits)
  qed simp
next
  fix d d' e
  assume s: "stoppage_step D r s ps d = Inr d'"
    and f: "find_estimate (o_id r) STOPPAGE e = find_estimate (o_id r) STOPPAGE d'"
  show "stoppage_step D r s ps e = Inr e"
  proof (cases "find_estimate (o_id r) STOPPAGE e = None")
    case True
    with f stoppage_step_cases [OF s] find_estimate_create
    have "\<forall>e A. stoppage_stage D r s ps A e = Inr e" by fastforce
    then show ?thesis by (simp add: stoppage_step_def)
  next
    case False
    then show ?thesis
      by (auto simp: stoppage_step_def stoppage_stage_def estimate_types_find split: option.splits)
  qed
qed

definition intl_plan :: "dec \<Rightarrow> order_row \<Rightarrow> store_row \<Rightarrow> db \<Rightarrow> profit_error + row_plan option" where
  "intl_plan D r s d =
     bindR (resolveFeeDefinition d (s_platform s) INTERNATIONAL_SERVICE (o_orderDate r)) (\<lambda>fd.
       case fd_rateOfSale fd of
         None \<Rightarrow> Inl (MissingRateOfSale (fd_id fd))
       | Some rate \<Rightarrow>
           (let base = dsub D (or_zero (o_listGross r)) (or_zero (o_sellerDiscountGross r));
                gross = dps D 2 (dmul D base rate)
            in Inr (Some (set_fee_data (Some (fd_id fd)) gross (fd_defaultVatRate fd) (fd_displayName fd),
                 new_estimate (o_id r) (o_organizationId r) INTERNATIONAL_SERVICE DEBIT
                    (Some (fd_id fd)) gross (fd_defaultVatRate fd) (fd_displayName fd)))))"

lemma intl_plan_stage:
  "isMicroExport r \<Longrightarrow> o_saleGross r \<noteq> None \<Longrightarrow> o_status r \<noteq> OS_CANCELLED \<Longrightarrow>
   intl_stage D r s = run_plan (o_id r) INTERNATIONAL_SERVICE (intl_plan D r s)"
  by (rule ext) (simp add: intl_stage_def intl_plan_def run_plan_def bindR_def Let_def
      split: sum.splits option.splits)

lemma intl_plan_writer: "estimate_writer (o_id r) INTERNATIONAL_SERVICE
    (run_plan (o_id r) INTERNATIONAL_SERVICE (intl_plan D r s))"
proof (rule run_plan_writer)
  fix d p assume "intl_plan D r s d = Inr (Some p)"
  then show "good_plan (o_id r) INTERNATIONAL_SERVICE p"
    by (auto simp: intl_plan_def bindR_eq_Inr good_plan_def Let_def split: option.splits)
qed (simp add: intl_plan_def resolve_ref)

lemma nop_writer: "estimate_writer oid ty (\<lambda>d. Inr d)"
  by unfold_locales simp_all

lemma delete_writer:
  "estimate_writer oid ty
     (\<lambda>d. case find_estimate oid ty d of Some f \<Rightarrow> Inr (delete_fee (f_id f) d) | None \<Rightarrow> Inr d)"
proof
  fix d d' assume "(case find_estimate oid ty d of Some f \<Rightarrow> Inr (delete_fee (f_id f) d) | None \<Rightarrow> Inr d) = Inr d'"
  then show "fee_stage oid ty d d'"
    using delete_fee_keeps find_estimate_delete(1)
    by (auto simp: fee_stage_def delete_fee_def split: option.splits)
next
  fix d d' e
  assume s: "(case find_estimate oid ty d of Some f \<Rightarrow> Inr (delete_fee (f_id f) d) | None \<Rightarrow> Inr d) = Inr d'"
    and wf: "wf_fees d" "one_estimate d" and f: "find_estimate oid ty e = find_estimate oid ty d'"
  have "find_estimate oid ty d' = None"
    using s find_estimate_delete(2) [OF wf(1) _ wf(2)] by (auto split: option.splits)
  then show "(case find_estimate oid ty e of Some f \<Rightarrow> Inr (delete_fee (f_id f) e) | None \<Rightarrow> Inr e) = Inr e"
    using f by simp
qed

interpretation intl: estimate_writer "o_id r" INTERNATIONAL_SERVICE "intl_stage D r s" for D r s
proof -
  consider "\<not> (isMicroExport r \<and> o_saleGross r \<noteq> None)"
    | "isMicroExport r" "o_saleGross r \<noteq> None" "o_status r = OS_CANCELLED"
    | "isMicroExport r" "o_saleGross r \<noteq> None" "o_status r \<noteq> OS_CANCELLED" by blast
  then show "estimate_writer (o_id r) INTERNATIONAL_SERVICE (intl_stage D r s)"
  proof cases
    case 1
    then have "intl_stage D r s = Inr" by (intro ext) (auto simp: intl_stage_def)
    then show ?thesis using nop_writer by simp
  next
    case 2
    then have "intl_stage D r s = (\<lambda>d. case find_estimate (o_id r) INTERNATIONAL_SERVICE d of
        Some f \<Rightarrow> Inr (delete_fee (f_id f) d) | None \<Rightarrow> Inr d)"
      by (intro ext) (auto simp: intl_stage_def)
    then show ?thesis using delete_writer by simp
  next
    case 3
    then show ?thesis using intl_plan_stage intl_plan_writer by simp
  qed
qed

section \<open>The whole function\<close>

lemma find_order_id: "find_order oid d = Some r \<Longrightarrow> o_id r = oid \<and> r \<in> set (db_orders d)"
  by (auto simp: find_order_def dest: find_Some_in)

lemma find_order_update:
  "(\<And>r. o_id (g r) = o_id r) \<Longrightarrow>
   find_order oid' (update_order oid g d) =
     map_option (\<lambda>r. if o_id r = oid then g r else r) (find_order oid' d)"
  by (simp add: find_order_def update_order_def find_update_where_same)

lemma find_estimate_update_order [simp]: "find_estimate oid ty (update_order oid' g d) = find_estimate oid ty d"
  by (simp add: find_estimate_def update_order_def)

lemma settings_stage_keeps: "keeps oid d (fst (settings_stage r s d))" if "o_id r = oid"
  using that update_order_keeps [of "\<lambda>o'. o' \<lparr> o_snapshotIncludeStopaj := a, o_snapshotIncludeNegativeNetVat := b \<rparr>" oid d for a b]
  by (simp add: settings_stage_def Let_def)

lemma settings_stage_fees: "db_fees (fst (settings_stage r s d)) = db_fees d"
  by (simp add: settings_stage_def Let_def update_order_def)

lemma apply_InrE:
  assumes a: "applyEstimateOnOrderCreate D off oid d = Inr d'" and r: "find_order oid d = Some r"
    and ne: "o_profitExcludedAt r = None" and wf: "wf_fees d"
  obtains s d1 ps d2 d3 d4 d5 where "find_store (o_storeId r) d = Some s"
    "settings_stage r s d = (d1, ps)" "psf_stage D off r (order_items oid d) s d1 = Inr d2"
    "stoppage_step D r s ps d2 = Inr d3" "shipping_stage D r s d3 = Inr d4" "intl_stage D r s d4 = Inr d5"
    "d' = profit_stage D r (order_items oid d) ps d5"
proof -
  have oid: "o_id r = oid" using find_order_id [OF r] by simp
  obtain s where s: "find_store (o_storeId r) d = Some s"
    using a r by (auto simp: applyEstimateOnOrderCreate_def split: option.splits)
  obtain d1 ps where d1: "settings_stage r s d = (d1, ps)" by (cases "settings_stage r s d")
  obtain d2 d3 d4 d5 where st: "psf_stage D off r (order_items oid d) s d1 = Inr d2"
    "stoppage_stage D r s ps (estimate_types oid d1) d2 = Inr d3" "shipping_stage D r s d3 = Inr d4"
    "intl_stage D r s d4 = Inr d5" "d' = profit_stage D r (order_items oid d) ps d5"
    using a r s d1 ne by (auto simp: applyEstimateOnOrderCreate_def bindR_eq_Inr Let_def)
  have "wf_fees d1"
    using settings_stage_keeps [OF oid, of d s] d1 keepsD(2) wf by (metis fst_conv)
  then have "find_estimate oid STOPPAGE d2 = find_estimate oid STOPPAGE d1"
    using psf.frame_find [OF st(1), of oid STOPPAGE] oid by simp
  then have "stoppage_step D r s ps d2 = Inr d3"
    using st(2) oid stoppage_stage_cong [of "estimate_types oid d2" "estimate_types oid d1" D r s ps d2]
    by (simp add: stoppage_step_def estimate_types_find)
  with s d1 st show thesis by (intro that)
qed

lemma set_estimate_id [simp]: "o_id (set_estimate D b r) = o_id r"
  by (simp add: set_estimate_def)

lemma profit_stage_cases:
  "profit_stage D r items ps d = d \<or> (\<exists>b. profit_stage D r items ps d = update_order (o_id r) (set_estimate D b) d)"
  by (auto simp: profit_stage_def split: option.splits)

lemma profit_stage_keeps: "keeps oid d (profit_stage D r items ps d)" if "o_id r = oid"
  using that profit_stage_cases [of D r items ps d] update_order_keeps [of "set_estimate D b" oid d for b]
  by force

lemma profit_stage_fees [simp]: "db_fees (profit_stage D r items ps d) = db_fees d"
  using profit_stage_cases [of D r items ps d] by (auto simp: update_order_def)

lemma apply_keeps:
  assumes a: "applyEstimateOnOrderCreate D off oid d = Inr d'" and wf: "wf_fees d"
  shows "keeps oid d d'"
proof (cases "find_order oid d")
  case None
  then show ?thesis using a by (simp add: applyEstimateOnOrderCreate_def)
next
  case (Some r)
  show ?thesis
  proof (cases "o_profitExcludedAt r")
    case None
    obtain s d1 ps d2 d3 d4 d5 where st: "settings_stage r s d = (d1, ps)"
      "psf_stage D off r (order_items oid d) s d1 = Inr d2" "stoppage_step D r s ps d2 = Inr d3"
      "shipping_stage D r s d3 = Inr d4" "intl_stage D r s d4 = Inr d5"
      "d' = profit_stage D r (order_items oid d) ps d5"
      using apply_InrE [OF a Some None wf] by metis
    have oid: "o_id r = oid" using find_order_id [OF Some] by simp
    have "keeps oid d d1" using settings_stage_keeps [OF oid, of d s] st(1) by (metis fst_conv)
    moreover have "keeps oid d1 d2" "keeps oid d2 d3" "keeps oid d3 d4" "keeps oid d4 d5"
      using psf.frame_keeps [OF st(2)] stoppage.frame_keeps [OF st(3)] shipping.frame_keeps [OF st(4)]
        intl.frame_keeps [OF st(5)] oid by simp_all
    moreover have "keeps oid d5 d'" unfolding st(6) by (rule profit_stage_keeps [OF oid])
    ultimately show ?thesis by (meson keeps_trans)
  next
    case excluded: (Some t)
    with a Some show ?thesis by (auto simp: applyEstimateOnOrderCreate_def split: option.splits)
  qed
qed

text \<open>The fields of an order that the estimate does not write.\<close>

definition static :: "order_row \<Rightarrow> order_row \<Rightarrow> bool" where
  "static r r' \<longleftrightarrow> o_id r' = o_id r \<and> o_organizationId r' = o_organizationId r
     \<and> o_storeId r' = o_storeId r \<and> o_orderDate r' = o_orderDate r \<and> o_status r' = o_status r
     \<and> o_actualShipDate r' = o_actualShipDate r \<and> o_fastDelivery r' = o_fastDelivery r
     \<and> o_fastDeliveryType r' = o_fastDeliveryType r \<and> o_micro r' = o_micro r
     \<and> o_saleGross r' = o_saleGross r \<and> o_saleVat r' = o_saleVat r \<and> o_listGross r' = o_listGross r
     \<and> o_sellerDiscountGross r' = o_sellerDiscountGross r \<and> o_cargoDeci r' = o_cargoDeci r
     \<and> o_profitExcludedAt r' = o_profitExcludedAt r"

lemma static_stages:
  assumes "static r r'"
  shows "psf_stage D off r' items s = psf_stage D off r items s"
    and "stoppage_stage D r' s ps A = stoppage_stage D r s ps A"
    and "shipping_stage D r' s = shipping_stage D r s"
    and "intl_stage D r' s = intl_stage D r s"
    and "profit_stage D r' items ps = profit_stage D r items ps"
    and "o_id r' = o_id r" "o_storeId r' = o_storeId r" "o_profitExcludedAt r' = o_profitExcludedAt r"
proof -
  from assms have eqs: "o_id r' = o_id r" "o_organizationId r' = o_organizationId r"
    "o_storeId r' = o_storeId r" "o_orderDate r' = o_orderDate r" "o_status r' = o_status r"
    "o_actualShipDate r' = o_actualShipDate r" "o_fastDelivery r' = o_fastDelivery r"
    "o_fastDeliveryType r' = o_fastDeliveryType r" "o_micro r' = o_micro r"
    "o_saleGross r' = o_saleGross r" "o_saleVat r' = o_saleVat r" "o_listGross r' = o_listGross r"
    "o_sellerDiscountGross r' = o_sellerDiscountGross r" "o_cargoDeci r' = o_cargoDeci r"
    "o_profitExcludedAt r' = o_profitExcludedAt r"
    by (simp_all add: static_def)
  show "psf_stage D off r' items s = psf_stage D off r items s"
    by (rule ext) (unfold psf_stage_def isPsfExempt_def psf_fee_type_def inferShippedSameDay_def eqs, rule refl)
  show "stoppage_stage D r' s ps A = stoppage_stage D r s ps A"
    by (rule ext) (unfold stoppage_stage_def isMicroExport_def eqs, rule refl)
  show "shipping_stage D r' s = shipping_stage D r s"
    by (rule ext) (unfold shipping_stage_def eqs, rule refl)
  show "intl_stage D r' s = intl_stage D r s"
    by (rule ext) (unfold intl_stage_def isMicroExport_def eqs, rule refl)
  show "profit_stage D r' items ps = profit_stage D r items ps"
    by (rule ext) (unfold profit_stage_def folded_estimate_def estimate_input_def eqs, rule refl)
  show "o_id r' = o_id r" "o_storeId r' = o_storeId r" "o_profitExcludedAt r' = o_profitExcludedAt r"
    by (fact eqs)+
qed

lemma static_simps [simp]:
  "static r r"
  "static r (r1 \<lparr> o_snapshotIncludeStopaj := f, o_snapshotIncludeNegativeNetVat := g \<rparr>) = static r r1"
  "static r (set_estimate D b r1) = static r r1"
  by (simp_all add: static_def set_estimate_def)

lemma settings_stage_row:
  assumes "settings_stage r s d = (d1, ps)" and "find_order oid d = Some r"
  obtains r1 where "find_order oid d1 = Some r1" "static r r1"
    "o_snapshotIncludeStopaj r1 \<noteq> None" "o_snapshotIncludeNegativeNetVat r1 \<noteq> None"
    "resolveSnapshotProfitSettings (o_snapshotIncludeStopaj r1) (o_snapshotIncludeNegativeNetVat r1) = ps"
proof (cases "o_snapshotIncludeStopaj r = None \<or> o_snapshotIncludeNegativeNetVat r = None")
  case False
  with assms that [of r] show thesis by (auto simp: settings_stage_def)
next
  case True
  let ?g = "\<lambda>o'. o' \<lparr> o_snapshotIncludeStopaj := Some (ps_includeStopaj ps),
    o_snapshotIncludeNegativeNetVat := Some (ps_includeNegativeNetVat ps) \<rparr>"
  have "d1 = update_order (o_id r) ?g d"
    using assms(1) True by (auto simp: settings_stage_def Let_def)
  then have "find_order oid d1 = Some (?g r)"
    using assms(2) find_order_id [OF assms(2)] by (simp add: find_order_update)
  then show thesis by (rule that) (simp_all add: snapshot_roundtrip)
qed

lemma profit_stage_twice:
  "profit_stage D r items ps (profit_stage D r items ps d) = profit_stage D r items ps d"
proof -
  have input: "folded_estimate D r g v items ps e = folded_estimate D r g v items ps d"
    if "db_fees e = db_fees d" for g v and e :: db
    using that by (simp add: folded_estimate_def estimate_input_def estimate_fee_rows_def
        estimate_return_rows_def find_estimate_def)
  have idem: "update_order oid (set_estimate D b) (update_order oid (set_estimate D b) e) =
      update_order oid (set_estimate D b) e" for oid b and e :: db
  proof -
    have "set_estimate D b (set_estimate D b x) = set_estimate D b x" for x
      by (simp add: set_estimate_def)
    then show ?thesis by (simp add: update_order_def update_where_update_where)
  qed
  show ?thesis
  proof (cases "o_saleGross r = None \<or> o_saleVat r = None \<or> \<not> all_costs_known items")
    case True
    then have "profit_stage D r items ps e = e" for e
      by (auto simp: profit_stage_def split: option.splits)
    then show ?thesis by simp
  next
    case False
    then obtain g v where "o_saleGross r = Some g" "o_saleVat r = Some v" by auto
    with False have run: "profit_stage D r items ps e =
        update_order (o_id r) (set_estimate D (computeProfit D (folded_estimate D r g v items ps e))) e" for e
      by (simp add: profit_stage_def)
    have "folded_estimate D r g v items ps (profit_stage D r items ps d) = folded_estimate D r g v items ps d"
      by (rule input) simp
    then show ?thesis unfolding run [of "profit_stage D r items ps d"] by (simp only: run [of d] idem)
  qed
qed

lemma ship_view_orders: "db_orders e = db_orders d \<Longrightarrow> ship_view oid e = ship_view oid d"
  by (simp add: ship_view_def find_order_def)

lemma ship_view_profit: "ship_view oid (profit_stage D r items ps d) = ship_view oid d"
proof -
  have "(case if o_id x = a then set_estimate D b x else x of r \<Rightarrow>
      (o_id r, o_storeId r, o_cargoDeci r, o_saleGross r, o_fastDelivery r)) =
      (o_id x, o_storeId x, o_cargoDeci x, o_saleGross x, o_fastDelivery x)" for x a b
    by (simp add: set_estimate_def)
  then have "ship_view oid (update_order a (set_estimate D b) d) = ship_view oid d" for a b
    unfolding ship_view_def by (cases "find_order oid d") (simp_all add: find_order_update)
  with profit_stage_cases [of D r items ps d] show ?thesis by auto
qed

lemma profit_stage_row:
  assumes "find_order oid d = Some r1"
  obtains r2 where "find_order oid (profit_stage D r items ps d) = Some r2"
    "\<And>r0. static r0 r2 = static r0 r1" "o_snapshotIncludeStopaj r2 = o_snapshotIncludeStopaj r1"
    "o_snapshotIncludeNegativeNetVat r2 = o_snapshotIncludeNegativeNetVat r1"
proof -
  from profit_stage_cases [of D r items ps d] show thesis
  proof
    assume "profit_stage D r items ps d = d"
    with assms that [of r1] show thesis by simp
  next
    assume "\<exists>b. profit_stage D r items ps d = update_order (o_id r) (set_estimate D b) d"
    then obtain b where "profit_stage D r items ps d = update_order (o_id r) (set_estimate D b) d" ..
    then have "find_order oid (profit_stage D r items ps d) =
        Some (if o_id r1 = o_id r then set_estimate D b r1 else r1)"
      using assms by (simp add: find_order_update)
    then show thesis by (rule that) (simp_all, simp_all add: set_estimate_def)
  qed
qed

lemma apply_twice:
  assumes a: "applyEstimateOnOrderCreate D off oid d = Inr d'"
    and wf: "wf_fees d" and one: "one_estimate d"
  shows "applyEstimateOnOrderCreate D off oid d' = Inr d'"
proof (cases "find_order oid d")
  case None
  with a show ?thesis by (simp add: applyEstimateOnOrderCreate_def)
next
  case (Some r)
  show ?thesis
  proof (cases "o_profitExcludedAt r")
    case excluded: (Some t)
    with a Some have "d' = d" by (auto simp: applyEstimateOnOrderCreate_def split: option.splits)
    with a show ?thesis by simp
  next
    case None
    obtain s d1 ps d2 d3 d4 d5 where s: "find_store (o_storeId r) d = Some s" and
      st: "settings_stage r s d = (d1, ps)"
      "psf_stage D off r (order_items oid d) s d1 = Inr d2" "stoppage_step D r s ps d2 = Inr d3"
      "shipping_stage D r s d3 = Inr d4" "intl_stage D r s d4 = Inr d5"
      "d' = profit_stage D r (order_items oid d) ps d5"
      using apply_InrE [OF a Some None wf] by metis
    have oid: "o_id r = oid" using find_order_id [OF Some] by simp
    let ?items = "order_items oid d"
    have k1: "keeps oid d d1" using settings_stage_keeps [OF oid, of d s] st(1) by (metis fst_conv)
    have k: "keeps oid d1 d2" "keeps oid d2 d3" "keeps oid d3 d4" "keeps oid d4 d5" "keeps oid d5 d'"
      using psf.frame_keeps [OF st(2)] stoppage.frame_keeps [OF st(3)] shipping.frame_keeps [OF st(4)]
        intl.frame_keeps [OF st(5)] profit_stage_keeps [OF oid] oid st(6) by simp_all
    have w: "wf_fees d1" "wf_fees d2" "wf_fees d3" "wf_fees d4" "wf_fees d5" "wf_fees d'"
      using keepsD(2) [OF k1] keepsD(2) [OF k(1)] keepsD(2) [OF k(2)] keepsD(2) [OF k(3)]
        keepsD(2) [OF k(4)] keepsD(2) [OF k(5)] wf by simp_all
    note o1 = keepsD(3) [OF k1 wf one]
    note o2 = keepsD(3) [OF k(1) w(1) o1]
    note o3 = keepsD(3) [OF k(2) w(2) o2]
    note o4 = keepsD(3) [OF k(3) w(3) o3]
    have ref5: "ref_eq d5 d'" "ref_eq d4 d'" "ref_eq d3 d'" "ref_eq d2 d'" "ref_eq d1 d'" "ref_eq d d'"
      using keepsD(1) [OF k1] keepsD(1) [OF k(1)] keepsD(1) [OF k(2)] keepsD(1) [OF k(3)]
        keepsD(1) [OF k(4)] keepsD(1) [OF k(5)] by (simp_all add: ref_eq_def)
    have ord: "db_orders d2 = db_orders d1" "db_orders d3 = db_orders d1" "db_orders d4 = db_orders d1"
      "db_orders d5 = db_orders d1"
      using psf.frame_orders [OF st(2)] stoppage.frame_orders [OF st(3)]
        shipping.frame_orders [OF st(4)] intl.frame_orders [OF st(5)] by simp_all
    have view: "ship_view oid d' = ship_view oid d1" "ship_view oid d' = ship_view oid d2"
      "ship_view oid d' = ship_view oid d3" "ship_view oid d' = ship_view oid d4"
      using ship_view_orders [of d5 d1] ship_view_orders [of d5 d2] ship_view_orders [of d5 d3]
        ship_view_orders [of d5 d4] ord unfolding st(6) ship_view_profit by simp_all
    have find': "find_estimate oid ty d' = find_estimate oid ty d5" for ty
      unfolding st(6) by (simp add: find_estimate_def)
    have find_psf: "find_estimate oid PLATFORM_SERVICE d' = find_estimate oid PLATFORM_SERVICE d2"
      and find_stop: "find_estimate oid STOPPAGE d' = find_estimate oid STOPPAGE d3"
      and find_ship: "find_estimate oid SHIPPING d' = find_estimate oid SHIPPING d4"
      unfolding find'
      using stoppage.frame_find [OF st(3) w(2)] shipping.frame_find [OF st(4) w(3)]
        intl.frame_find [OF st(5) w(4)] by simp_all
    have again: "psf_stage D off r ?items s d' = Inr d'" "stoppage_step D r s ps d' = Inr d'"
      "shipping_stage D r s d' = Inr d'" "intl_stage D r s d' = Inr d'"
      using psf.stable [OF st(2) w(1) o1 w(6) ref5(5)] stoppage.stable [OF st(3) w(2) o2 w(6) ref5(4)]
        shipping.stable [OF st(4) w(3) o3 w(6) ref5(3)] intl.stable [OF st(5) w(4) o4 w(6) ref5(2)]
        view find_psf find_stop find_ship find' oid by simp_all
    obtain r1 where r1: "find_order oid d1 = Some r1" "static r r1" "o_snapshotIncludeStopaj r1 \<noteq> None"
      "o_snapshotIncludeNegativeNetVat r1 \<noteq> None"
      "resolveSnapshotProfitSettings (o_snapshotIncludeStopaj r1) (o_snapshotIncludeNegativeNetVat r1) = ps"
      using settings_stage_row [OF st(1) Some] by blast
    have "find_order oid d5 = Some r1" using r1(1) ord by (simp add: find_order_def)
    then obtain r2 where r2: "find_order oid d' = Some r2" "static r r2"
      "o_snapshotIncludeStopaj r2 = o_snapshotIncludeStopaj r1"
      "o_snapshotIncludeNegativeNetVat r2 = o_snapshotIncludeNegativeNetVat r1"
      using profit_stage_row [of oid d5 r1 D r ?items ps] r1(2) st(6) by metis
    note eqs = static_stages [OF r2(2)]
    have settings: "settings_stage r2 s d' = (d', ps)"
      using r1(3-5) r2(3,4) by (auto simp: settings_stage_def)
    have items: "order_items oid d' = ?items"
      using ref5(6) by (simp add: order_items_def ref_eq_sel)
    have store: "find_store (o_storeId r2) d' = Some s"
      using s find_order_ref_store [OF ref5(6)] eqs(7) by simp
    have excl: "o_profitExcludedAt r2 = None" using None eqs(8) by simp
    have stop: "stoppage_stage D r s ps (estimate_types oid d') d' = Inr d'"
      using again(2) oid by (simp add: stoppage_step_def)
    have profit: "profit_stage D r ?items ps d' = d'" unfolding st(6) by (rule profit_stage_twice)
    show ?thesis
      unfolding applyEstimateOnOrderCreate_def r2(1) option.case store excl items settings Let_def
        prod.case eqs(1-5) again(1) stop again(3,4) bindR_Inr profit by simp
  qed
qed

section \<open>Properties\<close>

text \<open>C5: Running the estimate again on an order whose inputs have not changed changes nothing: the fee
  rows are updated in place or skipped, the settings snapshot is kept and the same profit is
  written.\<close>
theorem estimate_idempotent:
  assumes "applyEstimateOnOrderCreate D off oid d = Inr d'" and "wf_fees d" and "one_estimate d"
  shows "applyEstimateOnOrderCreate D off oid d' = Inr d'"
  by (rule apply_twice [OF assms])

text \<open>An estimate stays within its order: no other order changes, no item, no fee of another order
  and no fee of this order that is not an estimate (a settlement, a cargo invoice, a manual entry)
  is written, and there is still at most one estimated row of each type for each order, so no fee
  is counted twice.\<close>
theorem estimate_frame:
  assumes "applyEstimateOnOrderCreate D off oid d = Inr d'" and "wf_fees d" and "one_estimate d"
  shows "other_orders oid d' = other_orders oid d \<and> db_items d' = db_items d
       \<and> other_fees oid d' = other_fees oid d \<and> one_estimate d' \<and> wf_fees d'"
  using apply_keeps [OF assms(1,2)] assms(2,3) by (auto simp: keeps_def ref_eq_def)

text \<open>A store with fee definitions in force and one order of two items at 60 each, without shipping
  (the store has no carrier).\<close>

definition example_item :: item_row where
  "example_item = \<lparr> i_id = 1, i_orderId = 9, i_productVariantId = None, i_quantity = 2,
     i_platformLineId = None, i_barcode = None, i_lineListGross = 120, i_lineSaleGross = 120,
     i_lineSellerDiscountGross = 0, i_saleVatRate = 20, i_commissionRate = 15, i_commissionGross = 18,
     i_refundedCommissionGross = 0, i_commissionVatRate = 20, i_estimatedCommissionGross = None,
     i_settledCommissionGross = None, i_unitCostSnapshotGross = Some 30,
     i_unitCostSnapshotVatRate = Some 20, i_snapshotCapturedAt = None,
       i_settledSaleAmount = None, i_commissionInvoiceSerialNumber = None, i_commissionInvoiceId = None,
       i_variantResolutionAttempts = 0, i_nextResolutionAt = None \<rparr>"

definition estimate_db :: db where
  "estimate_db = empty_db \<lparr> db_stores := [example_store \<lparr> s_defaultCarrierId := None \<rparr>],
     db_orders := [example_order 9], db_items := [example_item],
     db_feeDefs := [example_def 1 FS_TRENDYOL PLATFORM_SERVICE 0 None, example_def 2 FS_ALL STOPPAGE 0 None] \<rparr>"

lemmas estimate_db_eval = estimate_db_def empty_db_def example_store_def example_order_def
  example_item_def example_def_def

text \<open>The estimate of the example, stage by stage: a profit of 24 on a sale of 120.\<close>

definition estimate_d1 :: db where
  "estimate_d1 = estimate_db \<lparr> db_orders := [example_order 9 \<lparr> o_snapshotIncludeStopaj := Some True,
     o_snapshotIncludeNegativeNetVat := Some False \<rparr>] \<rparr>"

definition estimate_d3 :: db where
  "estimate_d3 = estimate_d1 \<lparr> db_fees :=
     [new_estimate 9 1 PLATFORM_SERVICE DEBIT (Some 1) 12.5 25 ''fee'' 100,
      new_estimate 9 1 STOPPAGE DEBIT (Some 2) 1 0 ''fee'' 101], db_nextId := 102 \<rparr>"

definition estimate_out :: db where
  "estimate_out = estimate_d3 \<lparr> db_orders := [example_order 9 \<lparr> o_snapshotIncludeStopaj := Some True,
     o_snapshotIncludeNegativeNetVat := Some False, o_estimatedNetProfit := Some 24,
     o_estimatedNetVat := Some 4.5, o_estimatedSaleMarginPct := Some 20,
     o_estimatedCostMarkupPct := Some 40 \<rparr>] \<rparr>"

abbreviation no_carrier_store :: store_row where
  "no_carrier_store \<equiv> example_store \<lparr> s_defaultCarrierId := None \<rparr>"

abbreviation example_settings :: profit_settings where
  "example_settings \<equiv> \<lparr> ps_includeStopaj = True, ps_includeNegativeNetVat = False \<rparr>"

lemma example_settings_stage:
  "settings_stage (example_order 9) no_carrier_store estimate_db = (estimate_d1, example_settings)"
  by (simp del: One_nat_def add: settings_stage_def resolveProfitSettings_def DEFAULT_PROFIT_SETTINGS_def isMicroExport_def
      update_order_def estimate_d1_def estimate_db_eval)

lemma example_psf_stage:
  "psf_stage dec20 (\<lambda>_. 0) (example_order 9) [example_item] no_carrier_store estimate_d1 =
     Inr (create_fee (new_estimate 9 1 PLATFORM_SERVICE DEBIT (Some 1) (25 / 2) 25 ''fee'') estimate_d1)"
  by (simp del: One_nat_def add: psf_stage_def isPsfExempt_def item_variant_def resolveFeeDefinition_def in_force_def
      psf_fee_type_def upsert_estimate_def find_estimate_def net_to_gross_def estimate_d1_def
      estimate_db_eval dec_eval)

lemma example_stoppage_stage:
  "stoppage_stage dec20 (example_order 9) no_carrier_store example_settings
     (estimate_types 9 estimate_d1)
     (create_fee (new_estimate 9 1 PLATFORM_SERVICE DEBIT (Some 1) (25 / 2) 25 ''fee'') estimate_d1) =
   Inr estimate_d3"
  by (simp del: One_nat_def add: stoppage_stage_def isMicroExport_def estimate_types_def resolveFeeDefinition_def
      in_force_def create_fee_def estimate_d3_def estimate_d1_def new_estimate_def estimate_db_eval dec_eval)

lemma example_shipping_stage: "shipping_stage dec20 (example_order 9) no_carrier_store estimate_d3 = Inr estimate_d3"
  by (simp add: shipping_stage_def estimateShippingCostForOrder_def find_order_def find_store_def
      resolveTariffForDesi_def store_carrier_def estimate_d3_def estimate_d1_def estimate_db_eval)

lemma example_intl_stage: "intl_stage dec20 (example_order 9) no_carrier_store estimate_d3 = Inr estimate_d3"
  by (simp add: intl_stage_def isMicroExport_def example_order_def)

lemma example_input_of:
  "folded_estimate dec20 (example_order 9) 120 20 [example_item] ps estimate_d3 =
     \<lparr> pi_sale = \<lparr> mp_gross = 120, mp_vat = 20 \<rparr>, pi_cost = \<lparr> mp_gross = 60, mp_vat = 10 \<rparr>,
       pi_commission = \<lparr> mp_gross = 18, mp_vat = 3 \<rparr>,
       pi_fees = [\<lparr> pf_type = PF_PLATFORM_SERVICE, pf_gross = 12.5, pf_vat = 2.5, pf_direction = DEBIT \<rparr>],
       pi_stoppage = 1, pi_includeNegativeNetVat = ps_includeNegativeNetVat ps \<rparr>"
  by (simp add: folded_estimate_def estimate_input_def sum_items_def add_item_def
      estimated_commission_def estimate_fee_rows_def estimate_return_rows_def to_profit_fee_def
      PROFIT_FEE_TYPES_def RETURN_FEE_TYPES_def or_zero_def foldReturnLegs_def resolveReturnLegs_def
      resolve_leg_def chosen_rows_def sub_pair_def grossToVat_def find_estimate_def new_estimate_def
      example_item_def example_order_def estimate_d3_def dec_eval)

lemma example_profit_stage:
  "profit_stage dec20 (example_order 9) [example_item] example_settings estimate_d3 = estimate_out"
proof -
  have "computeProfit dec20 (folded_estimate dec20 (example_order 9) 120 20 [example_item] example_settings estimate_d3) =
      \<lparr> pb_listGross = 120, pb_sellerDiscountGross = 0, pb_saleGross = 120, pb_saleVat = 20,
        pb_costGross = 60, pb_costVat = 10, pb_commissionGross = 18, pb_commissionVat = 3,
        pb_shippingGross = 0, pb_shippingVat = 0, pb_platformServiceGross = 12.5,
        pb_platformServiceVat = 2.5, pb_stoppage = 1, pb_netVat = 4.5, pb_netProfit = 24,
        pb_saleMarginPct = Some 20, pb_costMarkupPct = Some 40 \<rparr>"
    unfolding example_input_of
    by (simp add: computeProfit_def Let_def sum_fees_def add_fee_def bucket_fee_def direct_fee_def
        no_fees_def raw_net_vat_def effective_net_vat_def net_profit_def pct_of_def dec_eval)
  moreover have "o_saleGross (example_order 9) = Some 120" "o_saleVat (example_order 9) = Some 20"
    "o_id (example_order 9) = 9" "all_costs_known [example_item]"
    by (simp add: example_order_def, simp add: example_order_def, simp add: example_order_def,
        simp add: example_item_def all_costs_known_def)
  ultimately show ?thesis
    by (simp del: One_nat_def add: profit_stage_def update_order_def set_estimate_def estimate_out_def estimate_d3_def
        estimate_d1_def estimate_db_eval dec_eval)
qed

lemma example_estimate:
  "applyEstimateOnOrderCreate dec20 (\<lambda>_. 0) 9 estimate_db = Inr estimate_out"
proof -
  have "find_order 9 estimate_db = Some (example_order 9)" "o_storeId (example_order 9) = 1"
    "find_store 1 estimate_db = Some no_carrier_store" "o_profitExcludedAt (example_order 9) = None"
    "order_items 9 estimate_db = [example_item]"
    by (simp_all del: One_nat_def add: find_order_def find_store_def order_items_def estimate_db_eval)
  then show ?thesis
    unfolding applyEstimateOnOrderCreate_def
    by (simp del: One_nat_def add: example_settings_stage example_psf_stage
        example_stoppage_stage example_shipping_stage example_intl_stage example_profit_stage)
qed

lemma example_wf: "wf_fees estimate_db" "one_estimate estimate_db"
  by (simp_all add: wf_fees_def one_estimate_def estimate_db_def empty_db_def)

lemma estimate_idempotent_witness:
  "applyEstimateOnOrderCreate dec20 (\<lambda>_. 0) 9 estimate_out = Inr estimate_out"
  by (rule estimate_idempotent [OF example_estimate example_wf])

lemma estimate_frame_witness:
  "map f_feeType (db_fees estimate_out) = [PLATFORM_SERVICE, STOPPAGE] \<and> one_estimate estimate_out"
  using estimate_frame [OF example_estimate example_wf]
  by (simp add: estimate_out_def estimate_d3_def new_estimate_def)

end
