(* ===== verification/Estimate_Values.thy ===== *)
theory Estimate_Values
  imports Estimate_Props
begin

text \<open>
  What the estimate writes on the order: the profit stored is the exact profit of the stored rows up
  to the rounding to cents, an excluded or uncosted order keeps the profit it has, the settings are
  captured once, and a micro export gets the fees of an export and none of a domestic sale.
\<close>

section \<open>Lemmas\<close>

lemma dps_near: "decimal_lib D \<Longrightarrow> \<bar>dps D 2 x - x\<bar> \<le> 1 / 200"
  using decimal_lib.dps_err [of D 2 x] by simp

text \<open>A value stored with two decimals after the engine.\<close>

lemma stored_profit_near:
  assumes "decimal_lib D" and "bounded_input i"
  shows "\<bar>dps D 2 (pb_netProfit (computeProfit D i)) - profit_spec i\<bar>
           \<le> 1 / 200 + (2 * of_nat (length (pi_fees i)) + 10) * dec_eps"
proof -
  have near: "\<bar>x - z\<bar> \<le> a + b" if "\<bar>x - y\<bar> \<le> a" "\<bar>y - z\<bar> \<le> b" for x y z a b :: rat
    using that by linarith
  show ?thesis
    using near [OF dps_near [OF assms(1)] decimal_lib.net_profit_near [OF assms]] by simp
qed

lemma estimate_excluded:
  assumes "find_order oid d = Some r" and "o_profitExcludedAt r \<noteq> None"
    and "applyEstimateOnOrderCreate D off oid d = Inr d'"
  shows "d' = d"
  using assms by (auto simp: applyEstimateOnOrderCreate_def split: option.splits)

lemma folded_estimate_fees:
  "db_fees e = db_fees d \<Longrightarrow> folded_estimate D r g v items ps e = folded_estimate D r g v items ps d"
  by (simp add: folded_estimate_def estimate_input_def estimate_fee_rows_def estimate_return_rows_def
      find_estimate_def)

lemma folded_estimate_id:
  "o_id r' = o_id r \<Longrightarrow> folded_estimate D r' g v items ps d = folded_estimate D r g v items ps d"
  by (simp add: folded_estimate_def estimate_input_def)

text \<open>The order after the estimate: the settings row, and the profit written on it.\<close>

lemma apply_row:
  assumes a: "applyEstimateOnOrderCreate D off oid d = Inr d'" and r: "find_order oid d = Some r"
    and ne: "o_profitExcludedAt r = None" and wf: "wf_fees d"
  obtains s d1 ps r1 where "find_store (o_storeId r) d = Some s" "settings_stage r s d = (d1, ps)"
    "find_order oid d1 = Some r1" "static r r1"
    "resolveSnapshotProfitSettings (o_snapshotIncludeStopaj r1) (o_snapshotIncludeNegativeNetVat r1) = ps"
    "\<And>g v. o_saleGross r = Some g \<Longrightarrow> o_saleVat r = Some v \<Longrightarrow> all_costs_known (order_items oid d) \<Longrightarrow>
       find_order oid d' = Some (set_estimate D
         (computeProfit D (folded_estimate D r g v (order_items oid d) ps d')) r1)"
    "\<not> all_costs_known (order_items oid d) \<or> o_saleGross r = None \<or> o_saleVat r = None \<Longrightarrow>
       find_order oid d' = Some r1"
proof -
  obtain s d1 ps d2 d3 d4 d5 where s: "find_store (o_storeId r) d = Some s" and
    st: "settings_stage r s d = (d1, ps)"
    "psf_stage D off r (order_items oid d) s d1 = Inr d2" "stoppage_step D r s ps d2 = Inr d3"
    "shipping_stage D r s d3 = Inr d4" "intl_stage D r s d4 = Inr d5"
    "d' = profit_stage D r (order_items oid d) ps d5"
    using apply_InrE [OF a r ne wf] by metis
  obtain r1 where r1: "find_order oid d1 = Some r1" "static r r1"
    "resolveSnapshotProfitSettings (o_snapshotIncludeStopaj r1) (o_snapshotIncludeNegativeNetVat r1) = ps"
    using settings_stage_row [OF st(1) r] by blast
  have oid: "o_id r = oid" "o_id r1 = oid" using find_order_id [OF r] find_order_id [OF r1(1)] by simp_all
  have five: "find_order oid d5 = Some r1"
    using r1(1) psf.frame_orders [OF st(2)] stoppage.frame_orders [OF st(3)]
      shipping.frame_orders [OF st(4)] intl.frame_orders [OF st(5)] by (simp add: find_order_def)
  have fees: "folded_estimate D r g v items ps d' = folded_estimate D r g v items ps d5" for g v items
    by (rule folded_estimate_fees) (simp add: st(6))
  have known: "find_order oid d' = Some (set_estimate D
      (computeProfit D (folded_estimate D r g v (order_items oid d) ps d')) r1)"
    if "o_saleGross r = Some g" "o_saleVat r = Some v" "all_costs_known (order_items oid d)" for g v
    unfolding fees unfolding st(6) using that five oid by (simp add: profit_stage_def find_order_update)
  have unknown: "find_order oid d' = Some r1"
    if "\<not> all_costs_known (order_items oid d) \<or> o_saleGross r = None \<or> o_saleVat r = None"
    unfolding st(6) using that five by (auto simp: profit_stage_def split: option.split)
  show thesis by (rule that [OF s st(1) r1 known unknown])
qed

text \<open>A micro export: the fees of a domestic sale are skipped, that of an export is written.\<close>

lemma micro_skips:
  assumes "o_micro r"
  shows "psf_stage D off r items s d = Inr d" "stoppage_step D r s ps d = Inr d"
  using assms by (auto simp: psf_stage_def isPsfExempt_def stoppage_step_def stoppage_stage_def
      isMicroExport_def split: option.split)

lemma intl_stage_writes:
  assumes "intl_stage D r s d = Inr d'" and "o_micro r" and "o_saleGross r \<noteq> None"
    and "o_status r \<noteq> OS_CANCELLED" and wf: "wf_fees d"
  obtains fd rate f where
    "resolveFeeDefinition d (s_platform s) INTERNATIONAL_SERVICE (o_orderDate r) = Inr fd"
    "fd_rateOfSale fd = Some rate" "find_estimate (o_id r) INTERNATIONAL_SERVICE d' = Some f"
    "f_amountGross f = dps D 2 (dmul D (dsub D (or_zero (o_listGross r)) (or_zero (o_sellerDiscountGross r))) rate)"
    "f_vatRate f = fd_defaultVatRate fd"
proof -
  obtain fd :: fee_definition_row and rate where
    fd: "resolveFeeDefinition d (s_platform s) INTERNATIONAL_SERVICE (o_orderDate r) = Inr fd"
      "fd_rateOfSale fd = Some rate"
    using assms(1-4) by (auto simp: intl_stage_def isMicroExport_def bindR_eq_Inr split: option.splits)
  let ?gross = "dps D 2 (dmul D (dsub D (or_zero (o_listGross r)) (or_zero (o_sellerDiscountGross r))) rate)"
  have d': "d' = upsert_estimate (o_id r) INTERNATIONAL_SERVICE
      (set_fee_data (Some (fd_id fd)) ?gross (fd_defaultVatRate fd) (fd_displayName fd))
      (new_estimate (o_id r) (o_organizationId r) INTERNATIONAL_SERVICE DEBIT (Some (fd_id fd)) ?gross
         (fd_defaultVatRate fd) (fd_displayName fd)) d"
    using assms(1-4) fd by (simp add: intl_stage_def isMicroExport_def Let_def)
  show thesis
    by (rule that [OF fd, of "case find_estimate (o_id r) INTERNATIONAL_SERVICE d of
          Some f \<Rightarrow> set_fee_data (Some (fd_id fd)) ?gross (fd_defaultVatRate fd) (fd_displayName fd) f
        | None \<Rightarrow> new_estimate (o_id r) (o_organizationId r) INTERNATIONAL_SERVICE DEBIT (Some (fd_id fd)) ?gross
            (fd_defaultVatRate fd) (fd_displayName fd) (db_nextId d)"])
      (auto simp: d' find_estimate_upsert [OF wf] set_fee_data_def new_estimate_def split: option.split)
qed

lemma micro_rows:
  assumes a: "applyEstimateOnOrderCreate D off oid d = Inr d'" and wf: "wf_fees d"
    and r: "find_order oid d = Some r" "o_profitExcludedAt r = None" "o_micro r"
  obtains s d1 d4 d5 where "find_store (o_storeId r) d = Some s" "ref_eq d d4" "wf_fees d4"
    "one_estimate d \<Longrightarrow> one_estimate d4" "intl_stage D r s d4 = Inr d5"
    "\<And>ty. find_estimate oid ty d' = find_estimate oid ty d5"
    "\<And>ty. ty \<noteq> SHIPPING \<Longrightarrow> find_estimate oid ty d4 = find_estimate oid ty d"
proof -
  obtain s d1 ps d2 d3 d4 d5 where s: "find_store (o_storeId r) d = Some s" and
    st: "settings_stage r s d = (d1, ps)"
    "psf_stage D off r (order_items oid d) s d1 = Inr d2" "stoppage_step D r s ps d2 = Inr d3"
    "shipping_stage D r s d3 = Inr d4" "intl_stage D r s d4 = Inr d5"
    "d' = profit_stage D r (order_items oid d) ps d5"
    using apply_InrE [OF a r(1,2) wf] by metis
  have oid: "o_id r = oid" using find_order_id [OF r(1)] by simp
  have same: "d2 = d1" "d3 = d2" using st(2,3) micro_skips [OF r(3)] by simp_all
  have k1: "keeps oid d d1" using settings_stage_keeps [OF oid, of d s] st(1) by (metis fst_conv)
  have w1: "wf_fees d1" using keepsD(2) [OF k1 wf] .
  have k4: "keeps oid d1 d4" using shipping.frame_keeps [OF st(4)] oid same by simp
  have "find_estimate oid ty d4 = find_estimate oid ty d" if "ty \<noteq> SHIPPING" for ty
  proof -
    have "db_fees d1 = db_fees d" using settings_stage_fees [of r s d] st(1) by simp
    then show ?thesis
      using shipping.frame_find [OF st(4), of oid ty] w1 that same by (simp add: find_estimate_def)
  qed
  moreover have "find_estimate oid ty d' = find_estimate oid ty d5" for ty
    by (simp add: st(6) find_estimate_def)
  moreover have "ref_eq d d4" using keeps_trans [OF k1 k4] keepsD(1) by blast
  ultimately show thesis
    using that [OF s _ _ _ st(5)] keepsD(2) [OF k4 w1] keepsD(3) [OF k4 w1] keepsD(3) [OF k1 wf] by blast
qed

text \<open>The fee definitions of a platform cover an order date.\<close>

definition fees_cover :: "db \<Rightarrow> platform \<Rightarrow> time \<Rightarrow> bool" where
  "fees_cover d p t \<longleftrightarrow>
     list_all (\<lambda>ty. case resolveFeeDefinition d p ty t of Inr fd \<Rightarrow> fd_fixedAmountNet fd \<noteq> None | Inl _ \<Rightarrow> False)
       [PLATFORM_SERVICE, PLATFORM_SERVICE_FAST]
   \<and> list_all (\<lambda>ty. case resolveFeeDefinition d p ty t of Inr fd \<Rightarrow> fd_rateOfSale fd \<noteq> None | Inl _ \<Rightarrow> False)
       [STOPPAGE, INTERNATIONAL_SERVICE]
   \<and> (case resolveFeeDefinition d p SHIPPING t of Inr _ \<Rightarrow> True | Inl _ \<Rightarrow> False)"

lemma fees_coverD:
  assumes "fees_cover d p t"
  shows "\<exists>fd x. resolveFeeDefinition d p PLATFORM_SERVICE t = Inr fd \<and> fd_fixedAmountNet fd = Some x"
    and "\<exists>fd x. resolveFeeDefinition d p PLATFORM_SERVICE_FAST t = Inr fd \<and> fd_fixedAmountNet fd = Some x"
    and "\<exists>fd x. resolveFeeDefinition d p STOPPAGE t = Inr fd \<and> fd_rateOfSale fd = Some x"
    and "\<exists>fd x. resolveFeeDefinition d p INTERNATIONAL_SERVICE t = Inr fd \<and> fd_rateOfSale fd = Some x"
    and "\<exists>fd. resolveFeeDefinition d p SHIPPING t = Inr fd"
  using assms by (auto simp: fees_cover_def split: sum.splits)

lemma fees_cover_ref: "ref_eq d e \<Longrightarrow> fees_cover e p t = fees_cover d p t"
  by (simp add: fees_cover_def resolve_ref)

lemma stages_total:
  assumes "fees_cover d (s_platform s) (o_orderDate r)"
  shows "\<exists>d'. psf_stage D off r items s d = Inr d'" "\<exists>d'. stoppage_stage D r s ps A d = Inr d'"
    "\<exists>d'. shipping_stage D r s d = Inr d'" "\<exists>d'. intl_stage D r s d = Inr d'"
proof -
  note c = fees_coverD [OF assms]
  show "\<exists>d'. psf_stage D off r items s d = Inr d'"
    using c(1,2) by (auto simp: psf_stage_def psf_fee_type_def Let_def)
  show "\<exists>d'. stoppage_stage D r s ps A d = Inr d'"
    using c(3) by (auto simp: stoppage_stage_def split: option.split)
  show "\<exists>d'. shipping_stage D r s d = Inr d'"
    using c(5) by (auto simp: shipping_stage_def Let_def split: sum.split)
  show "\<exists>d'. intl_stage D r s d = Inr d'"
    using c(4) by (auto simp: intl_stage_def Let_def split: option.split)
qed

lemma ref_eq_settings: "ref_eq d (fst (settings_stage r s d))"
  by (simp add: settings_stage_def Let_def ref_eq_def update_order_def)

lemma apply_total:
  assumes cover: "\<And>r s. find_order oid d = Some r \<Longrightarrow> find_store (o_storeId r) d = Some s \<Longrightarrow>
      fees_cover d (s_platform s) (o_orderDate r)"
    and store: "\<And>r. find_order oid d = Some r \<Longrightarrow> find_store (o_storeId r) d \<noteq> None"
  shows "\<exists>d'. applyEstimateOnOrderCreate D off oid d = Inr d'"
proof (cases "find_order oid d")
  case None
  then show ?thesis by (simp add: applyEstimateOnOrderCreate_def)
next
  case (Some r)
  obtain s where s: "find_store (o_storeId r) d = Some s" using store [OF Some] by auto
  obtain d1 ps where d1: "settings_stage r s d = (d1, ps)" by (cases "settings_stage r s d")
  note cov = cover [OF Some s]
  have r1: "ref_eq d d1" using ref_eq_settings [of d r s] d1 by simp
  then have c1: "fees_cover d1 (s_platform s) (o_orderDate r)" using cov by (simp add: fees_cover_ref)
  obtain d2 where d2: "psf_stage D off r (order_items oid d) s d1 = Inr d2" using stages_total(1) [OF c1] by blast
  have c2: "fees_cover d2 (s_platform s) (o_orderDate r)"
    using c1 psf.frame_ref [OF d2] by (simp add: fees_cover_ref)
  obtain d3 where d3: "stoppage_stage D r s ps (estimate_types oid d1) d2 = Inr d3"
    using stages_total(2) [OF c2] by blast
  have "ref_eq d2 d3"
    using d3 by (auto simp: stoppage_stage_def bindR_eq_Inr create_fee_def ref_eq_def split: option.splits if_splits)
  then have c3: "fees_cover d3 (s_platform s) (o_orderDate r)" using c2 by (simp add: fees_cover_ref)
  obtain d4 where d4: "shipping_stage D r s d3 = Inr d4" using stages_total(3) [OF c3] by blast
  have c4: "fees_cover d4 (s_platform s) (o_orderDate r)"
    using c3 shipping.frame_ref [OF d4] by (simp add: fees_cover_ref)
  obtain d5 where d5: "intl_stage D r s d4 = Inr d5" using stages_total(4) [OF c4] by blast
  show ?thesis
    by (simp add: applyEstimateOnOrderCreate_def Some s d1 d2 d3 d4 d5 Let_def)
qed

section \<open>Properties\<close>



text \<open>The estimate of an order that is excluded from profit changes nothing, and that of an order
  with an item of unknown cost keeps the stored profit, net VAT and percentages as they are.\<close>
theorem estimate_needs_costs:
  assumes "applyEstimateOnOrderCreate D off oid d = Inr d'" and "wf_fees d" and "find_order oid d = Some r"
  shows "(o_profitExcludedAt r \<noteq> None \<longrightarrow> d' = d)
     \<and> (\<not> all_costs_known (order_items oid d) \<longrightarrow>
          (\<exists>r'. find_order oid d' = Some r'
             \<and> o_estimatedNetProfit r' = o_estimatedNetProfit r \<and> o_estimatedNetVat r' = o_estimatedNetVat r
             \<and> o_estimatedSaleMarginPct r' = o_estimatedSaleMarginPct r
             \<and> o_estimatedCostMarkupPct r' = o_estimatedCostMarkupPct r))"
proof (cases "o_profitExcludedAt r = None")
  case False
  with estimate_excluded [OF assms(3) False assms(1)] assms(3) show ?thesis by auto
next
  case True
  show ?thesis
  proof (rule apply_row [OF assms(1,3) True assms(2)])
    fix s d1 ps r1
    assume st: "settings_stage r s d = (d1, ps)" "find_order oid d1 = Some r1"
      and out: "\<not> all_costs_known (order_items oid d) \<or> o_saleGross r = None \<or> o_saleVat r = None \<Longrightarrow>
        find_order oid d' = Some r1"
    have "o_estimatedNetProfit r1 = o_estimatedNetProfit r \<and> o_estimatedNetVat r1 = o_estimatedNetVat r
        \<and> o_estimatedSaleMarginPct r1 = o_estimatedSaleMarginPct r
        \<and> o_estimatedCostMarkupPct r1 = o_estimatedCostMarkupPct r"
      using st assms(3) find_order_id [OF assms(3)]
      by (auto simp: settings_stage_def Let_def find_order_update split: if_splits)
    with out True show ?thesis by auto
  qed
qed

text \<open>A micro export without a sale amount yet and with an item of unknown cost.\<close>

definition uncosted_order :: order_row where
  "uncosted_order = (example_order 9) \<lparr> o_micro := True, o_saleGross := None, o_estimatedNetProfit := Some 7,
     o_snapshotIncludeStopaj := Some True, o_snapshotIncludeNegativeNetVat := Some True \<rparr>"

definition uncosted_db :: db where
  "uncosted_db = estimate_db \<lparr> db_orders := [uncosted_order],
     db_items := [example_item \<lparr> i_unitCostSnapshotGross := None \<rparr>] \<rparr>"

lemma uncosted_run: "applyEstimateOnOrderCreate dec20 (\<lambda>_. 0) 9 uncosted_db = Inr uncosted_db"
  by (simp add: applyEstimateOnOrderCreate_def find_order_def find_store_def settings_stage_def
      psf_stage_def isPsfExempt_def stoppage_stage_def shipping_stage_def estimateShippingCostForOrder_def
      resolveTariffForDesi_def store_carrier_def intl_stage_def profit_stage_def order_items_def
      uncosted_db_def uncosted_order_def estimate_db_eval)

lemma estimate_needs_costs_witness:
  "\<exists>r'. find_order 9 uncosted_db = Some r' \<and> o_estimatedNetProfit r' = Some 7"
proof -
  have "find_order 9 uncosted_db = Some uncosted_order" "wf_fees uncosted_db"
    "\<not> all_costs_known (order_items 9 uncosted_db)"
    by (simp_all add: find_order_def wf_fees_def order_items_def all_costs_known_def uncosted_db_def
        uncosted_order_def estimate_db_eval)
  with estimate_needs_costs [OF uncosted_run] show ?thesis by (auto simp: uncosted_order_def)
qed

text \<open>The estimate always returns on an order whose store exists and whose order date is covered
  by the fee definitions of the store's platform: no stage throws.\<close>
theorem estimate_total:
  assumes "find_order oid d = Some r" and "find_store (o_storeId r) d = Some s"
    and "fees_cover d (s_platform s) (o_orderDate r)"
  shows "\<exists>d'. applyEstimateOnOrderCreate D off oid d = Inr d'"
  using assms by (intro apply_total) auto

definition cover_db :: db where
  "cover_db = estimate_db \<lparr> db_feeDefs := [example_def 1 FS_TRENDYOL PLATFORM_SERVICE 0 None,
     example_def 2 FS_ALL STOPPAGE 0 None, example_def 3 FS_ALL PLATFORM_SERVICE_FAST 0 None,
     example_def 4 FS_ALL INTERNATIONAL_SERVICE 0 None, example_def 5 FS_ALL SHIPPING 0 None] \<rparr>"

lemma cover_db_covers: "fees_cover cover_db TRENDYOL 0"
  by (simp add: fees_cover_def resolveFeeDefinition_def in_force_def cover_db_def estimate_db_eval)

lemma cover_db_rows:
  "find_order 9 cover_db = Some (example_order 9)" "find_store 1 cover_db = Some no_carrier_store"
  "o_storeId (example_order 9) = 1" "o_orderDate (example_order 9) = 0" "s_platform no_carrier_store = TRENDYOL"
  by (simp_all add: find_order_def find_store_def cover_db_def estimate_db_eval)

lemma estimate_total_witness: "\<exists>d'. applyEstimateOnOrderCreate dec20 (\<lambda>_. 0) 9 cover_db = Inr d'"
  using estimate_total [of 9 cover_db "example_order 9" no_carrier_store] cover_db_rows cover_db_covers by simp

text \<open>The profit settings are captured on the order once: an order that has its snapshot keeps it
  whatever the store's settings are by then, and one that has none takes the store's, except that
  a micro export always includes the negative net VAT.\<close>
theorem settings_captured_once:
  assumes "applyEstimateOnOrderCreate D off oid d = Inr d'" and "wf_fees d" and "find_order oid d = Some r"
    and "o_profitExcludedAt r = None" and "find_store (o_storeId r) d = Some s"
  shows "\<exists>r'. find_order oid d' = Some r' \<and>
     (o_snapshotIncludeStopaj r', o_snapshotIncludeNegativeNetVat r') =
       (if o_snapshotIncludeStopaj r \<noteq> None \<and> o_snapshotIncludeNegativeNetVat r \<noteq> None
        then (o_snapshotIncludeStopaj r, o_snapshotIncludeNegativeNetVat r)
        else (Some (ps_includeStopaj (resolveProfitSettings (s_profitSettings s))),
              Some (o_micro r \<or> ps_includeNegativeNetVat (resolveProfitSettings (s_profitSettings s)))))"
proof (rule apply_row [OF assms(1,3,4,2)])
  fix s' d1 ps r1
  assume st: "find_store (o_storeId r) d = Some s'" "settings_stage r s' d = (d1, ps)"
      "find_order oid d1 = Some r1"
    and known: "\<And>g v. o_saleGross r = Some g \<Longrightarrow> o_saleVat r = Some v \<Longrightarrow>
      all_costs_known (order_items oid d) \<Longrightarrow> find_order oid d' = Some (set_estimate D
         (computeProfit D (folded_estimate D r g v (order_items oid d) ps d')) r1)"
    and unknown: "\<not> all_costs_known (order_items oid d) \<or> o_saleGross r = None \<or> o_saleVat r = None \<Longrightarrow>
       find_order oid d' = Some r1"
  have "\<exists>r'. find_order oid d' = Some r' \<and> o_snapshotIncludeStopaj r' = o_snapshotIncludeStopaj r1
      \<and> o_snapshotIncludeNegativeNetVat r' = o_snapshotIncludeNegativeNetVat r1"
  proof (cases "\<not> all_costs_known (order_items oid d) \<or> o_saleGross r = None \<or> o_saleVat r = None")
    case True
    then show ?thesis using unknown by blast
  next
    case False
    then obtain g v where "o_saleGross r = Some g" "o_saleVat r = Some v" "all_costs_known (order_items oid d)"
      by auto
    from known [OF this] show ?thesis by (intro exI conjI) (assumption, simp_all add: set_estimate_def)
  qed
  moreover have "s' = s" using st(1) assms(5) by simp
  ultimately show ?thesis
    using st(2,3) assms(3) find_order_id [OF assms(3)]
    by (auto simp: settings_stage_def Let_def find_order_update isMicroExport_def split: if_splits)
qed

lemma settings_captured_once_witness:
  "\<exists>r'. find_order 9 estimate_out = Some r' \<and> o_snapshotIncludeStopaj r' = Some True
     \<and> o_snapshotIncludeNegativeNetVat r' = Some False"
proof -
  have "find_order 9 estimate_db = Some (example_order 9)" "find_store 1 estimate_db = Some no_carrier_store"
    by (simp_all add: find_order_def find_store_def estimate_db_eval)
  moreover have "o_storeId (example_order 9) = 1" "o_profitExcludedAt (example_order 9) = None"
    "o_snapshotIncludeStopaj (example_order 9) = None" "\<not> o_micro (example_order 9)"
    "resolveProfitSettings (s_profitSettings no_carrier_store) = example_settings"
    by (simp_all add: example_order_def example_store_def resolveProfitSettings_def DEFAULT_PROFIT_SETTINGS_def)
  ultimately show ?thesis
    using settings_captured_once [OF example_estimate example_wf(1), of "example_order 9" no_carrier_store]
    by simp
qed

text \<open>The estimate of a micro export writes neither a platform service fee nor stoppage. While the
  order is live it carries the international service fee, the rate in force on the order date of
  the list price less the seller discount; once cancelled it carries none.\<close>
theorem micro_export_fees:
  assumes "applyEstimateOnOrderCreate D off oid d = Inr d'" and "wf_fees d" and "one_estimate d"
    and "find_order oid d = Some r" and "o_profitExcludedAt r = None" and "o_micro r"
    and "find_store (o_storeId r) d = Some s" and "o_saleGross r \<noteq> None"
  shows "find_estimate oid PLATFORM_SERVICE d' = find_estimate oid PLATFORM_SERVICE d
     \<and> find_estimate oid STOPPAGE d' = find_estimate oid STOPPAGE d
     \<and> (if o_status r = OS_CANCELLED then find_estimate oid INTERNATIONAL_SERVICE d' = None
        else \<exists>fd rate f. resolveFeeDefinition d (s_platform s) INTERNATIONAL_SERVICE (o_orderDate r) = Inr fd
          \<and> fd_rateOfSale fd = Some rate \<and> find_estimate oid INTERNATIONAL_SERVICE d' = Some f
          \<and> f_amountGross f = dps D 2 (dmul D (dsub D (or_zero (o_listGross r))
              (or_zero (o_sellerDiscountGross r))) rate)
          \<and> f_vatRate f = fd_defaultVatRate fd)"
proof (rule micro_rows [OF assms(1,2,4-6)])
  fix s' d4 d5
  assume st: "find_store (o_storeId r) d = Some s'" "ref_eq d d4" "wf_fees d4"
      "one_estimate d \<Longrightarrow> one_estimate d4" "intl_stage D r s' d4 = Inr d5"
    and out: "\<And>ty. find_estimate oid ty d' = find_estimate oid ty d5"
    and rest: "\<And>ty. ty \<noteq> SHIPPING \<Longrightarrow> find_estimate oid ty d4 = find_estimate oid ty d"
  have oid: "o_id r = oid" using find_order_id [OF assms(4)] by simp
  have s: "s' = s" using st(1) assms(7) by simp
  have keep: "find_estimate oid ty d' = find_estimate oid ty d"
    if "ty \<noteq> SHIPPING" "ty \<noteq> INTERNATIONAL_SERVICE" for ty
    using intl.frame_find [OF st(5,3), of oid ty] that out rest by simp
  have cancelled: "find_estimate oid INTERNATIONAL_SERVICE d' = None" if "o_status r = OS_CANCELLED"
    using that st(5) assms(6,8) oid find_estimate_delete(2) [OF st(3) _ st(4) [OF assms(3)]]
    by (auto simp: intl_stage_def isMicroExport_def out split: option.splits)
  have live: "\<exists>fd rate f. resolveFeeDefinition d (s_platform s) INTERNATIONAL_SERVICE (o_orderDate r) = Inr fd
          \<and> fd_rateOfSale fd = Some rate \<and> find_estimate oid INTERNATIONAL_SERVICE d' = Some f
          \<and> f_amountGross f = dps D 2 (dmul D (dsub D (or_zero (o_listGross r))
              (or_zero (o_sellerDiscountGross r))) rate)
          \<and> f_vatRate f = fd_defaultVatRate fd" if "o_status r \<noteq> OS_CANCELLED"
  proof (rule intl_stage_writes [OF st(5) assms(6,8) that st(3)])
    fix fd rate f
    assume "resolveFeeDefinition d4 (s_platform s') INTERNATIONAL_SERVICE (o_orderDate r) = Inr fd"
      "fd_rateOfSale fd = Some rate" "find_estimate (o_id r) INTERNATIONAL_SERVICE d5 = Some f"
      "f_amountGross f = dps D 2 (dmul D (dsub D (or_zero (o_listGross r)) (or_zero (o_sellerDiscountGross r))) rate)"
      "f_vatRate f = fd_defaultVatRate fd"
    then show ?thesis unfolding resolve_ref [OF st(2)] s oid out by blast
  qed
  show ?thesis using keep cancelled live by auto
qed

text \<open>The example order as a micro export of 120 with a service fee of one percent.\<close>

definition micro_db :: db where
  "micro_db = estimate_db \<lparr> db_orders := [(example_order 9) \<lparr> o_micro := True,
       o_snapshotIncludeStopaj := Some True, o_snapshotIncludeNegativeNetVat := Some True \<rparr>],
     db_feeDefs := [example_def 3 FS_ALL INTERNATIONAL_SERVICE 0 None] \<rparr>"

lemma micro_run: "\<exists>d'. applyEstimateOnOrderCreate dec20 (\<lambda>_. 0) 9 micro_db = Inr d'"
  by (simp add: applyEstimateOnOrderCreate_def find_order_def find_store_def settings_stage_def
      psf_stage_def isPsfExempt_def isMicroExport_def stoppage_stage_def shipping_stage_def
      estimateShippingCostForOrder_def resolveTariffForDesi_def store_carrier_def intl_stage_def
      resolveFeeDefinition_def in_force_def Let_def micro_db_def estimate_db_eval)

lemma micro_export_fees_witness:
  "\<exists>d' f. applyEstimateOnOrderCreate dec20 (\<lambda>_. 0) 9 micro_db = Inr d'
     \<and> find_estimate 9 PLATFORM_SERVICE d' = None \<and> find_estimate 9 STOPPAGE d' = None
     \<and> find_estimate 9 INTERNATIONAL_SERVICE d' = Some f \<and> f_amountGross f = 1.2"
proof -
  obtain d' where run: "applyEstimateOnOrderCreate dec20 (\<lambda>_. 0) 9 micro_db = Inr d'" using micro_run by blast
  let ?r = "(example_order 9) \<lparr> o_micro := True,
       o_snapshotIncludeStopaj := Some True, o_snapshotIncludeNegativeNetVat := Some True \<rparr>"
  have db: "wf_fees micro_db" "one_estimate micro_db" "find_order 9 micro_db = Some ?r"
    "find_store 1 micro_db = Some no_carrier_store" "find_estimate 9 ty micro_db = None" for ty
    by (simp_all add: wf_fees_def one_estimate_def find_order_def find_store_def find_estimate_def micro_db_def
        estimate_db_eval)
  have r: "o_profitExcludedAt ?r = None" "o_micro ?r" "o_storeId ?r = 1" "o_saleGross ?r = Some 120"
    "o_status ?r = OS_SHIPPED" "o_listGross ?r = Some 120" "o_sellerDiscountGross ?r = Some 0" "o_orderDate ?r = 0"
    by (simp_all add: example_order_def)
  have fd: "resolveFeeDefinition micro_db (s_platform no_carrier_store) INTERNATIONAL_SERVICE 0 =
      Inr (example_def 3 FS_ALL INTERNATIONAL_SERVICE 0 None)"
    by (simp add: resolveFeeDefinition_def in_force_def micro_db_def estimate_db_eval)
  have gross: "dps dec20 2 (dmul dec20 (dsub dec20 (or_zero (Some 120)) (or_zero (Some 0))) (1 / 100)) = 1.2"
    by (simp add: or_zero_def dec_eval)
  note claim = micro_export_fees [OF run db(1-3) r(1,2), of no_carrier_store, unfolded r(3-8) db(4,5) fd]
  have "find_estimate 9 PLATFORM_SERVICE d' = None" "find_estimate 9 STOPPAGE d' = None"
    using claim by simp_all
  moreover obtain f rate where f: "find_estimate 9 INTERNATIONAL_SERVICE d' = Some f"
    "f_amountGross f = dps dec20 2 (dmul dec20 (dsub dec20 (or_zero (Some 120)) (or_zero (Some 0))) rate)"
    "fd_rateOfSale (example_def 3 FS_ALL INTERNATIONAL_SERVICE 0 None) = Some rate"
    using claim by auto
  moreover have "rate = 1 / 100" using f(3) by (simp add: example_def_def)
  ultimately show ?thesis using run gross by auto
qed

end
