(* ===== verification/Settled.thy ===== *)
theory Settled
  imports Estimate_Values
begin

text \<open>
  The settled profit of an order, \<open>src/packages/profit/src/recompute-settled-profit.ts\<close>: the same
  engine over the confirmed rows. The result is the value the function returns (the reason of a
  skip, or the profit written) with the database after it. The properties: what is written for each
  state of the order, that only confirmed rows count, what is never written, and that the settled
  profit is the estimated one where the marketplace confirms every estimate as it is.
\<close>

datatype settle_skip = OrderNotFound | ProfitExcluded | MissingSaleAggregate | IncompleteCostSnapshots

text \<open>The rows the queries accept: actual ones, and estimates that a payment order confirmed.\<close>

definition confirmed_fee :: "fee_row \<Rightarrow> bool" where
  "confirmed_fee f \<longleftrightarrow>
     f_source f \<in> {SETTLEMENT, CARGO_INVOICE} \<or> f_source f = ESTIMATE \<and> f_confirmedAt f \<noteq> None"

definition settled_fee_rows :: "id \<Rightarrow> db \<Rightarrow> fee_row list" where
  "settled_fee_rows oid d =
     filter (\<lambda>f. f_orderId f = oid \<and> f_feeType f \<in> set PROFIT_FEE_TYPES \<and> confirmed_fee f) (db_fees d)"

definition settled_return_rows :: "id \<Rightarrow> db \<Rightarrow> fee_row list" where
  "settled_return_rows oid d =
     filter (\<lambda>f. f_orderId f = oid \<and> f_feeType f \<in> set RETURN_FEE_TYPES \<and> confirmed_fee f) (db_fees d)"

definition settled_stoppage :: "id \<Rightarrow> db \<Rightarrow> fee_row option" where
  "settled_stoppage oid d =
     find (\<lambda>f. f_orderId f = oid \<and> f_feeType f = STOPPAGE \<and> f_source f = ESTIMATE
             \<and> f_confirmedAt f \<noteq> None) (db_fees d)"

definition settled_commission :: "dec \<Rightarrow> item_row \<Rightarrow> rat" where
  "settled_commission D i =
     dsub D (or_zero (case i_settledCommissionGross i of
                        Some c \<Rightarrow> Some c
                      | None \<Rightarrow> i_estimatedCommissionGross i)) (i_refundedCommissionGross i)"

definition settled_input :: "dec \<Rightarrow> order_row \<Rightarrow> rat \<Rightarrow> rat \<Rightarrow> item_row list \<Rightarrow> db \<Rightarrow> profit_input" where
  "settled_input D r saleGross saleVat items d =
     (let t = sum_items D (settled_commission D) items
      in foldReturnLegs D
           \<lparr> pi_sale = \<lparr> mp_gross = saleGross, mp_vat = saleVat \<rparr>,
             pi_cost = \<lparr> mp_gross = it_costGross t, mp_vat = it_costVat t \<rparr>,
             pi_commission = \<lparr> mp_gross = it_commissionGross t, mp_vat = it_commissionVat t \<rparr>,
             pi_fees = map (to_profit_fee D) (settled_fee_rows (o_id r) d),
             pi_stoppage = (case settled_stoppage (o_id r) d of Some f \<Rightarrow> f_amountGross f | None \<Rightarrow> 0),
             pi_includeNegativeNetVat = ps_includeNegativeNetVat
               (resolveSnapshotProfitSettings (o_snapshotIncludeStopaj r) (o_snapshotIncludeNegativeNetVat r)) \<rparr>
           (resolveReturnLegs D (map to_return_row (settled_return_rows (o_id r) d))))"

definition set_settled :: "dec \<Rightarrow> profit_breakdown \<Rightarrow> order_row \<Rightarrow> order_row" where
  "set_settled D b r =
     r \<lparr> o_settledNetProfit := Some (dps D 2 (pb_netProfit b)),
         o_settledNetVat := Some (dps D 2 (pb_netVat b)),
         o_settledSaleMarginPct := map_option (dps D 4) (pb_saleMarginPct b),
         o_settledCostMarkupPct := map_option (dps D 4) (pb_costMarkupPct b) \<rparr>"

definition recomputeSettledProfit :: "dec \<Rightarrow> id \<Rightarrow> db \<Rightarrow> (settle_skip + rat) \<times> db" where
  "recomputeSettledProfit D oid d =
     (case find_order oid d of
        None \<Rightarrow> (Inl OrderNotFound, d)
      | Some r \<Rightarrow>
          if o_profitExcludedAt r \<noteq> None then (Inl ProfitExcluded, d)
          else (case (o_saleGross r, o_saleVat r) of
            (Some g, Some v) \<Rightarrow>
              (let items = order_items oid d
               in if \<not> all_costs_known items then (Inl IncompleteCostSnapshots, d)
                  else (let b = computeProfit D (settled_input D r g v items d)
                        in (Inr (dps D 2 (pb_netProfit b)), update_order oid (set_settled D b) d)))
          | _ \<Rightarrow> (Inl MissingSaleAggregate, d)))"

section \<open>Lemmas\<close>

lemma recompute_db_cases:
  "snd (recomputeSettledProfit D oid d) = d \<or>
   (\<exists>b. snd (recomputeSettledProfit D oid d) = update_order oid (set_settled D b) d)"
  by (auto simp: recomputeSettledProfit_def Let_def split: option.splits)

lemma recompute_settles:
  assumes "find_order oid d = Some r" and "o_profitExcludedAt r = None"
    and "o_saleGross r = Some g" "o_saleVat r = Some v" and "all_costs_known (order_items oid d)"
  shows "recomputeSettledProfit D oid d =
     (let b = computeProfit D (settled_input D r g v (order_items oid d) d)
      in (Inr (dps D 2 (pb_netProfit b)), update_order oid (set_settled D b) d))"
  using assms by (simp add: recomputeSettledProfit_def Let_def)

text \<open>What the function reads of the fee table.\<close>

lemma settled_input_reads:
  assumes "filter (\<lambda>f. f_orderId f = o_id r \<and> confirmed_fee f) (db_fees e) =
           filter (\<lambda>f. f_orderId f = o_id r \<and> confirmed_fee f) (db_fees d)"
  shows "settled_input D r g v items e = settled_input D r g v items d"
proof -
  let ?F = "\<lambda>x. filter (\<lambda>f. f_orderId f = o_id r \<and> confirmed_fee f) (db_fees x)"
  have "settled_fee_rows (o_id r) x = filter (\<lambda>f. f_feeType f \<in> set PROFIT_FEE_TYPES) (?F x)" for x
    by (auto simp: settled_fee_rows_def intro: filter_cong)
  moreover have "settled_return_rows (o_id r) x = filter (\<lambda>f. f_feeType f \<in> set RETURN_FEE_TYPES) (?F x)" for x
    by (auto simp: settled_return_rows_def intro: filter_cong)
  moreover have "settled_stoppage (o_id r) x = find (\<lambda>f. f_feeType f = STOPPAGE \<and> f_source f = ESTIMATE) (?F x)" for x
    by (auto simp: settled_stoppage_def find_cong_filter confirmed_fee_def intro!: arg_cong [where f = "case_list _ _"] filter_cong)
  ultimately have "settled_fee_rows (o_id r) e = settled_fee_rows (o_id r) d"
    "settled_return_rows (o_id r) e = settled_return_rows (o_id r) d"
    "settled_stoppage (o_id r) e = settled_stoppage (o_id r) d"
    by (simp_all only: assms)
  then show ?thesis by (simp add: settled_input_def)
qed

lemma set_settled_reads:
  "o_id (set_settled D b r) = o_id r" "o_profitExcludedAt (set_settled D b r) = o_profitExcludedAt r"
  "o_saleGross (set_settled D b r) = o_saleGross r" "o_saleVat (set_settled D b r) = o_saleVat r"
  "settled_input D (set_settled D b r) g v items d = settled_input D r g v items d"
  by (simp_all add: set_settled_def settled_input_def)

lemma settled_input_update [simp]:
  "settled_input D r g v items (update_order oid f d) = settled_input D r g v items d"
  "order_items oid' (update_order oid f d) = order_items oid' d"
  by (simp_all add: settled_input_def settled_fee_rows_def settled_return_rows_def settled_stoppage_def
      update_order_def order_items_def)

lemma recompute_reads:
  assumes "db_orders e = db_orders d" and "db_items e = db_items d"
    and "filter (\<lambda>f. f_orderId f = oid \<and> confirmed_fee f) (db_fees e) =
         filter (\<lambda>f. f_orderId f = oid \<and> confirmed_fee f) (db_fees d)"
  shows "fst (recomputeSettledProfit D oid e) = fst (recomputeSettledProfit D oid d)
       \<and> db_orders (snd (recomputeSettledProfit D oid e)) = db_orders (snd (recomputeSettledProfit D oid d))"
proof (cases "find_order oid d")
  case None
  with assms(1) show ?thesis by (simp add: recomputeSettledProfit_def find_order_def)
next
  case (Some r)
  then have "settled_input D r g v items e = settled_input D r g v items d" for g v items
    using settled_input_reads [of r e d] assms(3) find_order_id [OF Some] by simp
  moreover have "find_order oid e = Some r" "order_items oid e = order_items oid d"
    using Some assms by (simp_all add: find_order_def order_items_def)
  ultimately show ?thesis
    using Some assms(1) by (simp add: recomputeSettledProfit_def update_order_def Let_def split: option.split)
qed

lemma recompute_again:
  "recomputeSettledProfit D oid (snd (recomputeSettledProfit D oid d)) = recomputeSettledProfit D oid d"
proof (cases "\<exists>p. fst (recomputeSettledProfit D oid d) = Inr p")
  case False
  then have "snd (recomputeSettledProfit D oid d) = d"
    by (auto simp: recomputeSettledProfit_def Let_def split: option.splits if_splits)
  then show ?thesis by simp
next
  case True
  then obtain r g v where r: "find_order oid d = Some r" "o_profitExcludedAt r = None"
    "o_saleGross r = Some g" "o_saleVat r = Some v" "all_costs_known (order_items oid d)"
    by (auto simp: recomputeSettledProfit_def Let_def split: option.splits if_splits)
  define b where "b = computeProfit D (settled_input D r g v (order_items oid d) d)"
  define d' where "d' = update_order oid (set_settled D b) d"
  have run: "recomputeSettledProfit D oid d = (Inr (dps D 2 (pb_netProfit b)), d')"
    using recompute_settles [OF r] by (simp add: b_def d'_def Let_def)
  have r': "find_order oid d' = Some (set_settled D b r)"
    using r(1) find_order_id [OF r(1)] by (simp add: d'_def find_order_update set_settled_reads)
  have "recomputeSettledProfit D oid d' =
      (Inr (dps D 2 (pb_netProfit b)), update_order oid (set_settled D b) d')"
    using recompute_settles [OF r', of g v] r by (simp add: set_settled_reads b_def d'_def Let_def)
  also have "update_order oid (set_settled D b) d' = d'"
  proof -
    have "set_settled D b (set_settled D b x) = set_settled D b x" for x by (simp add: set_settled_def)
    then show ?thesis
      by (simp add: d'_def update_order_def update_where_update_where set_settled_reads)
  qed
  finally show ?thesis by (simp add: run)
qed

text \<open>Every fee row of the order is a confirmed estimate, and no line was settled differently.\<close>

definition all_confirmed :: "id \<Rightarrow> db \<Rightarrow> bool" where
  "all_confirmed oid d \<longleftrightarrow> list_all (\<lambda>f. f_orderId f = oid \<longrightarrow> is_estimate f \<and> f_confirmedAt f \<noteq> None) (db_fees d)"

definition as_estimated :: "item_row list \<Rightarrow> bool" where
  "as_estimated items \<longleftrightarrow> list_all (\<lambda>i. i_estimatedCommissionGross i = Some (i_commissionGross i)
     \<and> i_settledCommissionGross i \<in> {None, Some (i_commissionGross i)}) items"

lemma settled_input_estimate:
  assumes fees: "all_confirmed (o_id r) d" and items: "as_estimated items"
  shows "settled_input D r g v items d =
    folded_estimate D r g v items
      (resolveSnapshotProfitSettings (o_snapshotIncludeStopaj r) (o_snapshotIncludeNegativeNetVat r)) d"
proof -
  have conf: "f \<in> set (db_fees d) \<Longrightarrow> f_orderId f = o_id r \<Longrightarrow> is_estimate f \<and> f_confirmedAt f \<noteq> None" for f
    using fees by (auto simp: all_confirmed_def list_all_iff)
  have comm: "i \<in> set items \<Longrightarrow> settled_commission D i = estimated_commission D i" for i
    using items by (auto simp: as_estimated_def list_all_iff settled_commission_def
        estimated_commission_def or_zero_def split: option.split)
  have "foldl (add_item D (settled_commission D)) t items = foldl (add_item D (estimated_commission D)) t items" for t
    using comm by (intro foldl_cong) (auto simp: add_item_def)
  then have "sum_items D (settled_commission D) items = sum_items D (estimated_commission D) items"
    by (simp add: sum_items_def)
  moreover have "settled_fee_rows (o_id r) d = estimate_fee_rows (o_id r) d"
    unfolding settled_fee_rows_def estimate_fee_rows_def
    by (rule filter_cong [OF refl]) (use conf in \<open>auto simp: confirmed_fee_def\<close>)
  moreover have "settled_return_rows (o_id r) d = estimate_return_rows (o_id r) d"
    unfolding settled_return_rows_def estimate_return_rows_def
    by (rule filter_cong [OF refl]) (use conf in \<open>auto simp: confirmed_fee_def\<close>)
  moreover have "settled_stoppage (o_id r) d = find_estimate (o_id r) STOPPAGE d"
    unfolding settled_stoppage_def find_estimate_def
    by (rule find_cong [OF refl]) (use conf in auto)
  ultimately show ?thesis by (simp add: settled_input_def folded_estimate_def estimate_input_def Let_def)
qed

text \<open>The example order with every estimate confirmed.\<close>

definition settled_db :: db where
  "settled_db = estimate_out \<lparr> db_fees := map (\<lambda>f. f \<lparr> f_confirmedAt := Some 77 \<rparr>) (db_fees estimate_out),
     db_items := [example_item \<lparr> i_estimatedCommissionGross := Some 18 \<rparr>] \<rparr>"

definition settled_order :: order_row where
  "settled_order = (example_order 9) \<lparr> o_snapshotIncludeStopaj := Some True,
     o_snapshotIncludeNegativeNetVat := Some False, o_estimatedNetProfit := Some 24,
     o_estimatedNetVat := Some 4.5, o_estimatedSaleMarginPct := Some 20, o_estimatedCostMarkupPct := Some 40 \<rparr>"

abbreviation settled_item :: item_row where
  "settled_item \<equiv> example_item \<lparr> i_estimatedCommissionGross := Some 18 \<rparr>"

lemma settled_db_rows:
  "find_order 9 settled_db = Some settled_order" "order_items 9 settled_db = [settled_item]"
  "o_profitExcludedAt settled_order = None" "o_saleGross settled_order = Some 120"
  "o_saleVat settled_order = Some 20" "o_id settled_order = 9" "all_costs_known [settled_item]"
  "all_confirmed 9 settled_db" "as_estimated [settled_item]"
  by (simp_all add: find_order_def order_items_def settled_db_def settled_order_def estimate_out_def
      example_order_def example_item_def all_costs_known_def all_confirmed_def as_estimated_def
      estimate_d3_def new_estimate_def del: One_nat_def)

lemma settled_example_input:
  "settled_input dec20 settled_order 120 20 [settled_item] settled_db =
     \<lparr> pi_sale = \<lparr> mp_gross = 120, mp_vat = 20 \<rparr>, pi_cost = \<lparr> mp_gross = 60, mp_vat = 10 \<rparr>,
       pi_commission = \<lparr> mp_gross = 18, mp_vat = 3 \<rparr>,
       pi_fees = [\<lparr> pf_type = PF_PLATFORM_SERVICE, pf_gross = 12.5, pf_vat = 2.5, pf_direction = DEBIT \<rparr>],
       pi_stoppage = 1, pi_includeNegativeNetVat = False \<rparr>"
  by (simp add: settled_input_def sum_items_def add_item_def settled_commission_def settled_fee_rows_def
      settled_return_rows_def settled_stoppage_def confirmed_fee_def to_profit_fee_def
      PROFIT_FEE_TYPES_def RETURN_FEE_TYPES_def or_zero_def foldReturnLegs_def resolveReturnLegs_def
      resolve_leg_def chosen_rows_def sub_pair_def grossToVat_def new_estimate_def
      resolveSnapshotProfitSettings_def settled_db_def settled_order_def
      example_item_def example_order_def estimate_out_def estimate_d3_def dec_eval)

section \<open>Properties\<close>



text \<open>C9: Only confirmed rows settle: an estimate the marketplace has not confirmed and a manual entry have
  no effect on the result or on the order written, whatever their type and amount.\<close>
theorem settled_from_confirmed_only:
  assumes "filter (\<lambda>f. f_orderId f = oid \<and> confirmed_fee f) fees =
           filter (\<lambda>f. f_orderId f = oid \<and> confirmed_fee f) (db_fees d)"
  shows "fst (recomputeSettledProfit D oid (d \<lparr> db_fees := fees \<rparr>)) = fst (recomputeSettledProfit D oid d)
       \<and> db_orders (snd (recomputeSettledProfit D oid (d \<lparr> db_fees := fees \<rparr>)))
         = db_orders (snd (recomputeSettledProfit D oid d))"
  using recompute_reads [of "d \<lparr> db_fees := fees \<rparr>" d oid D] assms by simp

lemma settled_from_confirmed_only_witness:
  "fst (recomputeSettledProfit dec20 9 (settled_db \<lparr> db_fees :=
       new_estimate 9 1 SHIPPING DEBIT None 500 20 ''x'' 300 # db_fees settled_db \<rparr>))
   = fst (recomputeSettledProfit dec20 9 settled_db)"
  using settled_from_confirmed_only [of 9 "new_estimate 9 1 SHIPPING DEBIT None 500 20 ''x'' 300 # db_fees settled_db" settled_db dec20]
  by (simp add: confirmed_fee_def new_estimate_def)

text \<open>Settling writes nothing but the four settled columns of its order: the estimate, the status,
  the settings snapshot and every other column of the order, all other orders, the items and the
  fees stay, and settling again gives the same result.\<close>
theorem settled_frame:
  "ref_eq d (snd (recomputeSettledProfit D oid d))
   \<and> db_fees (snd (recomputeSettledProfit D oid d)) = db_fees d
   \<and> other_orders oid (snd (recomputeSettledProfit D oid d)) = other_orders oid d
   \<and> map (\<lambda>r. r \<lparr> o_settledNetProfit := None, o_settledNetVat := None, o_settledSaleMarginPct := None,
            o_settledCostMarkupPct := None \<rparr>) (db_orders (snd (recomputeSettledProfit D oid d)))
     = map (\<lambda>r. r \<lparr> o_settledNetProfit := None, o_settledNetVat := None, o_settledSaleMarginPct := None,
            o_settledCostMarkupPct := None \<rparr>) (db_orders d)
   \<and> recomputeSettledProfit D oid (snd (recomputeSettledProfit D oid d)) = recomputeSettledProfit D oid d"
proof -
  have "ref_eq d (update_order oid (set_settled D b) d)
      \<and> db_fees (update_order oid (set_settled D b) d) = db_fees d
      \<and> other_orders oid (update_order oid (set_settled D b) d) = other_orders oid d
      \<and> map (\<lambda>r. r \<lparr> o_settledNetProfit := None, o_settledNetVat := None, o_settledSaleMarginPct := None,
            o_settledCostMarkupPct := None \<rparr>) (db_orders (update_order oid (set_settled D b) d))
        = map (\<lambda>r. r \<lparr> o_settledNetProfit := None, o_settledNetVat := None, o_settledSaleMarginPct := None,
            o_settledCostMarkupPct := None \<rparr>) (db_orders d)" for b
    by (simp add: ref_eq_def update_order_def other_orders_def filter_update_where_disjoint
        map_update_where set_settled_def)
  then show ?thesis using recompute_db_cases [of D oid d] recompute_again [of D oid d] by auto
qed

text \<open>C10: Where the marketplace confirms every estimate of the order as it is (all rows are confirmed
  estimates and each line's commission is the estimated one), the settled profit and net VAT are
  those the estimate computes from the same rows: the two paths apply the same formula.\<close>
theorem settled_equals_estimate:
  assumes "find_order oid d = Some r" and "o_profitExcludedAt r = None"
    and "o_saleGross r = Some g" and "o_saleVat r = Some v"
    and "all_costs_known (order_items oid d)" and "as_estimated (order_items oid d)"
    and "all_confirmed oid d"
    and "ps = resolveSnapshotProfitSettings (o_snapshotIncludeStopaj r) (o_snapshotIncludeNegativeNetVat r)"
  shows "\<exists>settled estimated.
     find_order oid (snd (recomputeSettledProfit D oid d)) = Some settled
   \<and> find_order oid (profit_stage D r (order_items oid d) ps d) = Some estimated
   \<and> o_settledNetProfit settled = o_estimatedNetProfit estimated
   \<and> o_settledNetVat settled = o_estimatedNetVat estimated
   \<and> o_settledSaleMarginPct settled = o_estimatedSaleMarginPct estimated
   \<and> o_settledCostMarkupPct settled = o_estimatedCostMarkupPct estimated
   \<and> o_settledNetProfit settled \<noteq> None"
proof -
  have oid: "o_id r = oid" using find_order_id [OF assms(1)] by simp
  have "settled_input D r g v (order_items oid d) d = folded_estimate D r g v (order_items oid d) ps d"
    using settled_input_estimate [of r d] assms(6-8) oid by simp
  then show ?thesis
    using recompute_settles [OF assms(1-5)] assms(1,3-5) oid
    by (simp add: Let_def profit_stage_def find_order_update set_settled_reads)
      (simp add: set_settled_def set_estimate_def)
qed

lemma settled_equals_estimate_witness:
  "\<exists>r. find_order 9 (snd (recomputeSettledProfit dec20 9 settled_db)) = Some r \<and> o_settledNetProfit r \<noteq> None"
  using settled_equals_estimate [OF settled_db_rows(1,3-5) _ _ settled_db_rows(8) refl, of dec20]
    settled_db_rows(2,7,9) by auto

end
