(* ===== verification/Claim_Return.thy ===== *)
theory Claim_Return
  imports Estimate_Values
begin

text \<open>
  The early estimate of an accepted return, \<open>src/packages/profit/src/estimate-return-on-claim.ts\<close>:
  the accepted units per item, the legs of a domestic return or the single operation fee of a
  micro export, each one ESTIMATE row, and then the estimate of the order again. The stages that
  write rows satisfy the contract \<open>estimate_writer\<close> of the estimate, so a return can be estimated
  again without effect.
\<close>

section \<open>Rows\<close>

text \<open>The display names are UTF-8: the Turkish letters are written as their two bytes.\<close>

definition I_dot :: string where
  "I_dot = [CHR 0xC4, CHR 0xB0]"

definition OVERSEAS_DISPLAY_NAME :: string where
  "OVERSEAS_DISPLAY_NAME = ''Yurt D'' @ [CHR 0xC4, CHR 0xB1, CHR 0xC5, CHR 0x9F, CHR 0xC4, CHR 0xB1]
     @ '' '' @ I_dot @ ''ade Operasyon Bedeli''"

fun RETURN_LEG_DISPLAY_NAMES :: "order_fee_type \<Rightarrow> string" where
  "RETURN_LEG_DISPLAY_NAMES REFUND_DEDUCTION = I_dot @ ''ade kesintisi''"
| "RETURN_LEG_DISPLAY_NAMES COMMISSION_REFUND = ''Komisyon iadesi''"
| "RETURN_LEG_DISPLAY_NAMES COST_RETURN = ''Maliyet iadesi''"
| "RETURN_LEG_DISPLAY_NAMES RETURN_SHIPPING = I_dot @ ''ade kargosu''"
| "RETURN_LEG_DISPLAY_NAMES STOPPAGE_REFUND = ''Stopaj iadesi''"
| "RETURN_LEG_DISPLAY_NAMES _ = ''''"

fun RETURN_LEG_DIRECTIONS :: "order_fee_type \<Rightarrow> order_fee_direction" where
  "RETURN_LEG_DIRECTIONS REFUND_DEDUCTION = DEBIT"
| "RETURN_LEG_DIRECTIONS COMMISSION_REFUND = CREDIT"
| "RETURN_LEG_DIRECTIONS COST_RETURN = CREDIT"
| "RETURN_LEG_DIRECTIONS RETURN_SHIPPING = DEBIT"
| "RETURN_LEG_DIRECTIONS STOPPAGE_REFUND = CREDIT"
| "RETURN_LEG_DIRECTIONS _ = DEBIT"

record leg_args =
  la_feeType :: order_fee_type
  la_amountGross :: rat
  la_vatRate :: "rat option"          \<comment> \<open>absent: the column keeps its value, 0 in a new row\<close>
  la_feeDefinitionId :: "id option"

definition set_leg :: "dec \<Rightarrow> leg_args \<Rightarrow> fee_row \<Rightarrow> fee_row" where
  "set_leg D a f =
     f \<lparr> f_amountGross := dps D 2 (la_amountGross a),
         f_vatRate := (case la_vatRate a of Some v \<Rightarrow> v | None \<Rightarrow> f_vatRate f),
         f_direction := RETURN_LEG_DIRECTIONS (la_feeType a),
         f_displayName := Some (RETURN_LEG_DISPLAY_NAMES (la_feeType a)),
         f_feeDefinitionId := la_feeDefinitionId a \<rparr>"

definition new_leg :: "dec \<Rightarrow> order_row \<Rightarrow> leg_args \<Rightarrow> id \<Rightarrow> fee_row" where
  "new_leg D r a =
     new_estimate (o_id r) (o_organizationId r) (la_feeType a) (RETURN_LEG_DIRECTIONS (la_feeType a))
       (la_feeDefinitionId a) (dps D 2 (la_amountGross a))
       (case la_vatRate a of Some v \<Rightarrow> v | None \<Rightarrow> 0) (RETURN_LEG_DISPLAY_NAMES (la_feeType a))"

definition upsertReturnEstimateFee :: "dec \<Rightarrow> order_row \<Rightarrow> leg_args \<Rightarrow> db \<Rightarrow> db" where
  "upsertReturnEstimateFee D r a d =
     upsert_estimate (o_id r) (la_feeType a) (set_leg D a) (new_leg D r a) d"

text \<open>\<open>LegAccumulator\<close>.\<close>

record leg_acc =
  lg_gross :: rat
  lg_vatRate :: "rat option"

definition writeLegIfPositive :: "dec \<Rightarrow> order_row \<Rightarrow> order_fee_type \<Rightarrow> leg_acc \<Rightarrow> db \<Rightarrow> db" where
  "writeLegIfPositive D r ty leg d =
     (if \<not> 0 < lg_gross leg then d
      else upsertReturnEstimateFee D r
             \<lparr> la_feeType = ty, la_amountGross = lg_gross leg, la_vatRate = lg_vatRate leg,
               la_feeDefinitionId = None \<rparr> d)"

section \<open>Accepted units\<close>

text \<open>The ids of the accepted claim items (one per unit) in scan order, and the map from item to
  count in the order of insertion.\<close>

definition accepted_items :: "id \<Rightarrow> db \<Rightarrow> id list" where
  "accepted_items oid d =
     List.map_filter ci_orderItemId
       (filter (\<lambda>c. claim_item_of oid d c \<and> ci_status c = ''Accepted'') (db_claimItems d))"

fun bump :: "id \<Rightarrow> (id \<times> nat) list \<Rightarrow> (id \<times> nat) list" where
  "bump i [] = [(i, 1)]"
| "bump i ((j, n) # m) = (if i = j then (j, n + 1) # m else (j, n) # bump i m)"

definition accepted_qty :: "id list \<Rightarrow> (id \<times> nat) list" where
  "accepted_qty ids = foldl (\<lambda>m i. bump i m) [] ids"

definition item_by_id :: "item_row list \<Rightarrow> id \<Rightarrow> item_row option" where
  "item_by_id items i = find (\<lambda>x. i_id x = i) items"

section \<open>The micro export branch\<close>

definition overseas_legs ::
  "dec \<Rightarrow> order_row \<Rightarrow> item_row list \<Rightarrow> db \<Rightarrow> (id \<times> nat) list \<Rightarrow> profit_error + overseas_leg list" where
  "overseas_legs D r items d qty =
     foldR (\<lambda>legs (i, n).
        case item_by_id items i of
          None \<Rightarrow> Inr legs
        | Some it \<Rightarrow>
            (if i_quantity it = 0 then Inr legs
             else
               (let quantity = of_int (i_quantity it);
                    acceptedRatio = ddiv D (of_nat n) quantity;
                    unitSaleGross = ddiv D (i_lineSaleGross it) quantity
                in bindR (resolveOverseasReturnRate d unitSaleGross (o_orderDate r)) (\<lambda>rate.
                     let effectiveCommission = dsub D (i_commissionGross it) (i_refundedCommissionGross it)
                     in Inr (legs @ [\<lparr> ol_acceptedSaleGross = dmul D (i_lineSaleGross it) acceptedRatio,
                                       ol_acceptedCommissionGross = dmul D effectiveCommission acceptedRatio,
                                       ol_rate = rate \<rparr>])))))
       [] qty"

definition set_op :: "rat \<Rightarrow> fee_row \<Rightarrow> fee_row" where
  "set_op gross f =
     f \<lparr> f_amountGross := gross, f_direction := DEBIT, f_displayName := Some OVERSEAS_DISPLAY_NAME \<rparr>"

definition write_op :: "order_row \<Rightarrow> rat \<Rightarrow> db \<Rightarrow> db" where
  "write_op r gross d =
     (if 0 < gross then
        upsert_estimate (o_id r) OVERSEAS_RETURN_OPERATION (set_op gross)
          (new_estimate (o_id r) (o_organizationId r) OVERSEAS_RETURN_OPERATION DEBIT None gross 0
             OVERSEAS_DISPLAY_NAME) d
      else (case find_estimate (o_id r) OVERSEAS_RETURN_OPERATION d of
              Some f \<Rightarrow> delete_fee (f_id f) d
            | None \<Rightarrow> d))"

definition micro_return :: "dec \<Rightarrow> order_row \<Rightarrow> item_row list \<Rightarrow> (id \<times> nat) list \<Rightarrow> db \<Rightarrow> profit_error + db" where
  "micro_return D r items qty d =
     bindR (overseas_legs D r items d qty) (\<lambda>legs.
       Inr (write_op r (dps D 2 (overseasReturnOperationGross D legs)) d))"

section \<open>The domestic branch\<close>

record leg_sums =
  ls_refund :: leg_acc
  ls_commission :: leg_acc
  ls_cost :: leg_acc

definition add_leg :: "dec \<Rightarrow> leg_acc \<Rightarrow> rat \<Rightarrow> rat \<Rightarrow> leg_acc" where
  "add_leg D leg x vatRate = \<lparr> lg_gross = dadd D (lg_gross leg) x, lg_vatRate = Some vatRate \<rparr>"

definition return_item :: "dec \<Rightarrow> item_row list \<Rightarrow> leg_sums \<Rightarrow> id \<times> nat \<Rightarrow> leg_sums" where
  "return_item D items s q =
     (case item_by_id items (fst q) of
        None \<Rightarrow> s
      | Some it \<Rightarrow>
          (let quantity = of_int (i_quantity it);
               acceptedRatio = (if quantity = 0 then 0 else ddiv D (of_nat (snd q)) quantity)
           in \<lparr> ls_refund = add_leg D (ls_refund s) (dmul D (i_lineSaleGross it) acceptedRatio) (i_saleVatRate it),
                ls_commission = add_leg D (ls_commission s) (dmul D (i_commissionGross it) acceptedRatio)
                  (i_commissionVatRate it),
                ls_cost = (case i_unitCostSnapshotGross it of
                    None \<Rightarrow> ls_cost s
                  | Some c \<Rightarrow> add_leg D (ls_cost s) (dmul D c (of_nat (snd q)))
                      (or_zero (i_unitCostSnapshotVatRate it))) \<rparr>))"

definition leg_sums_of :: "dec \<Rightarrow> item_row list \<Rightarrow> (id \<times> nat) list \<Rightarrow> leg_sums" where
  "leg_sums_of D items qty =
     (let zero = \<lparr> lg_gross = 0, lg_vatRate = Some 0 \<rparr>
      in foldl (return_item D items) \<lparr> ls_refund = zero, ls_commission = zero, ls_cost = zero \<rparr> qty)"

definition stoppage_refund_stage :: "dec \<Rightarrow> order_row \<Rightarrow> store_row \<Rightarrow> leg_acc \<Rightarrow> db \<Rightarrow> profit_error + db" where
  "stoppage_refund_stage D r s refund d =
     (if 0 < lg_gross refund then
        bindR (resolveFeeDefinition d (s_platform s) STOPPAGE (o_orderDate r)) (\<lambda>fd.
          let stopajRate = or_zero (fd_rateOfSale fd);
              refundVatRate = or_zero (lg_vatRate refund);
              refundSaleNet = (if refundVatRate = 0 then lg_gross refund
                               else ddiv D (dmul D (lg_gross refund) 100) (dadd D 100 refundVatRate))
          in Inr (writeLegIfPositive D r STOPPAGE_REFUND
                    \<lparr> lg_gross = dmul D refundSaleNet stopajRate, lg_vatRate = None \<rparr> d))
      else Inr d)"

definition return_shipping_stage :: "dec \<Rightarrow> order_row \<Rightarrow> store_row \<Rightarrow> db \<Rightarrow> profit_error + db" where
  "return_shipping_stage D r s d =
     (case estimateShippingCostForOrder D (o_id r) (Some False) d of
        Inl reason \<Rightarrow> Inr d
      | Inr e \<Rightarrow>
          bindR (resolveFeeDefinition d (s_platform s) RETURN_SHIPPING (o_orderDate r)) (\<lambda>fd.
            let vatRate = fd_defaultVatRate fd;
                grossShipping = ddiv D (dmul D (se_amount e) (dadd D 100 vatRate)) 100
            in Inr (if 0 < grossShipping then
                      upsertReturnEstimateFee D r
                        \<lparr> la_feeType = RETURN_SHIPPING, la_amountGross = grossShipping,
                          la_vatRate = Some vatRate, la_feeDefinitionId = Some (fd_id fd) \<rparr> d
                    else d)))"

definition domestic_return ::
  "dec \<Rightarrow> order_row \<Rightarrow> item_row list \<Rightarrow> store_row \<Rightarrow> (id \<times> nat) list \<Rightarrow> db \<Rightarrow> profit_error + db" where
  "domestic_return D r items s qty d =
     (let legs = leg_sums_of D items qty;
          d1 = writeLegIfPositive D r REFUND_DEDUCTION (ls_refund legs) d;
          d2 = writeLegIfPositive D r COMMISSION_REFUND (ls_commission legs) d1;
          d3 = writeLegIfPositive D r COST_RETURN (ls_cost legs) d2
      in bindR (stoppage_refund_stage D r s (ls_refund legs) d3) (\<lambda>d4.
           return_shipping_stage D r s d4))"

definition estimateReturnOnClaim :: "dec \<Rightarrow> (time \<Rightarrow> int) \<Rightarrow> id \<Rightarrow> db \<Rightarrow> profit_error + db" where
  "estimateReturnOnClaim D off oid d =
     (case find_order oid d of
        None \<Rightarrow> Inr d
      | Some r \<Rightarrow>
          (case find_store (o_storeId r) d of
             None \<Rightarrow> Inl (RelationMissing (o_storeId r))
           | Some s \<Rightarrow>
               (if o_profitExcludedAt r \<noteq> None then Inr d
                else
                  (let items = order_items oid d; ids = accepted_items oid d
                   in if ids = [] then Inr d
                      else (let qty = accepted_qty ids
                            in bindR (if isMicroExport r then micro_return D r items qty d
                                      else domestic_return D r items s qty d)
                                 (applyEstimateOnOrderCreate D off oid))))))"

section \<open>Stages that write several rows\<close>

text \<open>The contract of a stage that writes the rows of a set of types. A stage that writes one row is
  such a stage, and stages with different rows compose.\<close>

locale rows_writer =
  fixes oid :: id and T :: "order_fee_type set" and stage :: "db \<Rightarrow> profit_error + db"
  assumes rows_frame: "stage d = Inr d' \<Longrightarrow> keeps oid d d' \<and> db_orders d' = db_orders d"
    and rows_find: "stage d = Inr d' \<Longrightarrow> wf_fees d \<Longrightarrow> ty \<notin> T \<Longrightarrow>
      find_estimate oid ty d' = find_estimate oid ty d"
    and rows_stable: "stage d = Inr d' \<Longrightarrow> wf_fees d \<Longrightarrow> one_estimate d \<Longrightarrow> wf_fees e \<Longrightarrow>
      ref_eq d e \<Longrightarrow> ship_view oid e = ship_view oid d \<Longrightarrow>
      (\<forall>ty \<in> T. find_estimate oid ty e = find_estimate oid ty d') \<Longrightarrow> stage e = Inr e"
begin

lemma rows_keeps: "stage d = Inr d' \<Longrightarrow> keeps oid d d'"
  using rows_frame by blast

lemma rows_orders: "stage d = Inr d' \<Longrightarrow> db_orders d' = db_orders d"
  using rows_frame by blast

end

sublocale estimate_writer \<subseteq> rows_writer oid "{ty}" stage
proof
  show "keeps oid d d' \<and> db_orders d' = db_orders d" if "stage d = Inr d'" for d d'
    using frame_keeps [OF that] frame_orders [OF that] by simp
  show "find_estimate oid ty' d' = find_estimate oid ty' d"
    if "stage d = Inr d'" "wf_fees d" "ty' \<notin> {ty}" for d d' ty'
    using frame_find [OF that(1,2), of oid ty'] that(3) by simp
  show "stage e = Inr e"
    if "stage d = Inr d'" "wf_fees d" "one_estimate d" "wf_fees e" "ref_eq d e"
      "ship_view oid e = ship_view oid d" "\<forall>ty' \<in> {ty}. find_estimate oid ty' e = find_estimate oid ty' d'" for d d' e
    using stable [OF that(1-6)] that(7) by simp
qed

lemma rows_writer_seq:
  assumes "rows_writer oid T1 s1" and "rows_writer oid T2 s2" and disj: "T1 \<inter> T2 = {}"
  shows "rows_writer oid (T1 \<union> T2) (\<lambda>d. bindR (s1 d) s2)"
proof -
  note a = rows_writer.rows_keeps [OF assms(1)] rows_writer.rows_orders [OF assms(1)]
    rows_writer.rows_find [OF assms(1)] rows_writer.rows_stable [OF assms(1)]
  note b = rows_writer.rows_keeps [OF assms(2)] rows_writer.rows_orders [OF assms(2)]
    rows_writer.rows_find [OF assms(2)] rows_writer.rows_stable [OF assms(2)]
  show ?thesis
  proof
    fix d d' assume "bindR (s1 d) s2 = Inr d'"
    then obtain d1 where d1: "s1 d = Inr d1" "s2 d1 = Inr d'" by (auto simp: bindR_eq_Inr)
    show "keeps oid d d' \<and> db_orders d' = db_orders d"
      using keeps_trans [OF a(1) [OF d1(1)] b(1) [OF d1(2)]] a(2) [OF d1(1)] b(2) [OF d1(2)] by simp
  next
    fix d d' ty assume run: "bindR (s1 d) s2 = Inr d'" "wf_fees d" "ty \<notin> T1 \<union> T2"
    then obtain d1 where d1: "s1 d = Inr d1" "s2 d1 = Inr d'" by (auto simp: bindR_eq_Inr)
    show "find_estimate oid ty d' = find_estimate oid ty d"
      using a(3) [OF d1(1) run(2)] b(3) [OF d1(2) keepsD(2) [OF a(1) [OF d1(1)] run(2)]] run(3) by simp
  next
    fix d d' e
    assume run: "bindR (s1 d) s2 = Inr d'" and d: "wf_fees d" "one_estimate d" and e: "wf_fees e"
      "ref_eq d e" "ship_view oid e = ship_view oid d"
      and rows: "\<forall>ty \<in> T1 \<union> T2. find_estimate oid ty e = find_estimate oid ty d'"
    from run obtain d1 where d1: "s1 d = Inr d1" "s2 d1 = Inr d'" by (auto simp: bindR_eq_Inr)
    note k = keepsD [OF a(1) [OF d1(1)]]
    have "ref_eq d1 e" using k(1) e(2) by (simp add: ref_eq_def)
    moreover have "ship_view oid e = ship_view oid d1"
      using e(3) ship_view_orders [OF a(2) [OF d1(1)]] by simp
    moreover have "\<forall>ty \<in> T1. find_estimate oid ty e = find_estimate oid ty d1"
      using rows b(3) [OF d1(2) k(2) [OF d(1)]] disj by (metis UnI1 disjoint_iff)
    ultimately show "bindR (s1 e) s2 = Inr e"
      using a(4) [OF d1(1) d e] b(4) [OF d1(2) k(2) [OF d(1)] k(3) [OF d] e(1)] rows by auto
  qed
qed

lemma reads_writer:
  assumes "\<And>x. estimate_writer oid ty (g x)"
    and "\<And>d e. ref_eq d e \<Longrightarrow> ship_view oid e = ship_view oid d \<Longrightarrow> f e = f d"
  shows "estimate_writer oid ty (\<lambda>d. bindR (f d) (\<lambda>x. g x d))"
proof
  fix d d' assume "bindR (f d) (\<lambda>x. g x d) = Inr d'"
  then show "fee_stage oid ty d d'"
    using estimate_writer.frame [OF assms(1)] by (auto simp: bindR_eq_Inr)
next
  fix d d' e
  assume "bindR (f d) (\<lambda>x. g x d) = Inr d'" "wf_fees d" "one_estimate d" "wf_fees e" "ref_eq d e"
    "ship_view oid e = ship_view oid d" "find_estimate oid ty e = find_estimate oid ty d'"
  then show "bindR (f e) (\<lambda>x. g x e) = Inr e"
    using estimate_writer.stable [OF assms(1)] assms(2) by (auto simp: bindR_eq_Inr)
qed

section \<open>The stages of a return\<close>

lemma set_leg_keys [simp]:
  "keeps_key (set_leg D a)" "makes (o_id r) (la_feeType a) (new_leg D r a)"
  "set_leg D a (set_leg D a f) = set_leg D a f" "set_leg D a (new_leg D r a i) = new_leg D r a i"
  by (simp_all add: keeps_key_def makes_def set_leg_def new_leg_def new_estimate_def split: option.split)

lemma set_op_keys [simp]:
  "keeps_key (set_op g)" "set_op g (set_op g f) = set_op g f"
  "set_op g (new_estimate oid org ty DEBIT a g v OVERSEAS_DISPLAY_NAME i) =
     new_estimate oid org ty DEBIT a g v OVERSEAS_DISPLAY_NAME i"
  by (simp_all add: keeps_key_def set_op_def new_estimate_def)

lemma const_writer:
  assumes "keeps_key upd" "makes oid ty mk" "\<And>f. upd (upd f) = upd f" "\<And>i. upd (mk i) = mk i"
  shows "estimate_writer oid ty (\<lambda>d. Inr (upsert_estimate oid ty upd mk d))"
proof -
  have "estimate_writer oid ty (run_plan oid ty (\<lambda>d. Inr (Some (upd, mk))))"
    by (rule run_plan_writer) (auto simp: good_plan_def assms)
  moreover have "run_plan oid ty (\<lambda>d. Inr (Some (upd, mk))) = (\<lambda>d. Inr (upsert_estimate oid ty upd mk d))"
    by (rule ext) (simp add: run_plan_def)
  ultimately show ?thesis by simp
qed

lemma leg_upsert_writer:
  "la_feeType a = ty \<Longrightarrow> estimate_writer (o_id r) ty (\<lambda>d. Inr (upsertReturnEstimateFee D r a d))"
  unfolding upsertReturnEstimateFee_def by (auto intro: const_writer)

interpretation leg: estimate_writer "o_id r" ty "\<lambda>d. Inr (writeLegIfPositive D r ty l d)" for D r ty l
proof (cases "0 < lg_gross l")
  case True
  then show "estimate_writer (o_id r) ty (\<lambda>d. Inr (writeLegIfPositive D r ty l d))"
    by (simp add: writeLegIfPositive_def leg_upsert_writer)
next
  case False
  then show "estimate_writer (o_id r) ty (\<lambda>d. Inr (writeLegIfPositive D r ty l d))"
    by (simp add: writeLegIfPositive_def nop_writer)
qed

lemma Inr_if: "(if b then Inr x else Inr y) = Inr (if b then x else y)"
  by simp

interpretation stoppage_refund: estimate_writer "o_id r" STOPPAGE_REFUND "stoppage_refund_stage D r s l"
  for D r s l
proof (cases "0 < lg_gross l")
  case False
  then show "estimate_writer (o_id r) STOPPAGE_REFUND (stoppage_refund_stage D r s l)"
    by (simp add: stoppage_refund_stage_def [abs_def] nop_writer)
next
  case True
  let ?net = "if or_zero (lg_vatRate l) = 0 then lg_gross l
      else ddiv D (dmul D (lg_gross l) 100) (dadd D 100 (or_zero (lg_vatRate l)))"
  have "stoppage_refund_stage D r s l =
      (\<lambda>d. bindR (resolveFeeDefinition d (s_platform s) STOPPAGE (o_orderDate r)) (\<lambda>fd.
         Inr (writeLegIfPositive D r STOPPAGE_REFUND
           \<lparr> lg_gross = dmul D ?net (or_zero (fd_rateOfSale fd)), lg_vatRate = None \<rparr> d)))"
    using True by (simp add: stoppage_refund_stage_def [abs_def] Let_def)
  then show "estimate_writer (o_id r) STOPPAGE_REFUND (stoppage_refund_stage D r s l)"
    using reads_writer [where f = "\<lambda>d. resolveFeeDefinition d (s_platform s) STOPPAGE (o_orderDate r)"
        and g = "\<lambda>fd d. Inr (writeLegIfPositive D r STOPPAGE_REFUND
           \<lparr> lg_gross = dmul D ?net (or_zero (fd_rateOfSale fd)), lg_vatRate = None \<rparr> d)",
        OF leg.estimate_writer_axioms resolve_ref] by simp
qed

definition return_shipping_plan :: "dec \<Rightarrow> order_row \<Rightarrow> store_row \<Rightarrow> db \<Rightarrow> profit_error + leg_args option" where
  "return_shipping_plan D r s d =
     (case estimateShippingCostForOrder D (o_id r) (Some False) d of
        Inl reason \<Rightarrow> Inr None
      | Inr e \<Rightarrow>
          bindR (resolveFeeDefinition d (s_platform s) RETURN_SHIPPING (o_orderDate r)) (\<lambda>fd.
            let vatRate = fd_defaultVatRate fd;
                grossShipping = ddiv D (dmul D (se_amount e) (dadd D 100 vatRate)) 100
            in Inr (if 0 < grossShipping then
                      Some \<lparr> la_feeType = RETURN_SHIPPING, la_amountGross = grossShipping,
                             la_vatRate = Some vatRate, la_feeDefinitionId = Some (fd_id fd) \<rparr>
                    else None)))"

lemma return_shipping_stage_plan:
  "return_shipping_stage D r s = (\<lambda>d. bindR (return_shipping_plan D r s d) (\<lambda>p.
     Inr (case p of None \<Rightarrow> d | Some a \<Rightarrow> upsertReturnEstimateFee D r (a \<lparr> la_feeType := RETURN_SHIPPING \<rparr>) d)))"
  by (rule ext) (simp add: return_shipping_stage_def return_shipping_plan_def bindR_def Let_def
      split: sum.splits)

interpretation return_shipping: estimate_writer "o_id r" RETURN_SHIPPING "return_shipping_stage D r s" for D r s
  unfolding return_shipping_stage_plan
proof (rule reads_writer)
  fix p
  show "estimate_writer (o_id r) RETURN_SHIPPING (\<lambda>d. Inr (case p of None \<Rightarrow> d
      | Some a \<Rightarrow> upsertReturnEstimateFee D r (a \<lparr> la_feeType := RETURN_SHIPPING \<rparr>) d))"
    by (cases p) (simp_all add: nop_writer leg_upsert_writer)
next
  fix d e assume reads: "ref_eq d e" "ship_view (o_id r) e = ship_view (o_id r) d"
  show "return_shipping_plan D r s e = return_shipping_plan D r s d"
    unfolding return_shipping_plan_def estimate_shipping_reads [OF reads] resolve_ref [OF reads(1)] ..
qed

lemma write_op_writer: "estimate_writer (o_id r) OVERSEAS_RETURN_OPERATION (\<lambda>d. Inr (write_op r g d))"
proof (cases "0 < g")
  case True
  then have "write_op r g = upsert_estimate (o_id r) OVERSEAS_RETURN_OPERATION (set_op g)
      (new_estimate (o_id r) (o_organizationId r) OVERSEAS_RETURN_OPERATION DEBIT None g 0 OVERSEAS_DISPLAY_NAME)"
    by (intro ext) (simp add: write_op_def)
  then show ?thesis by (simp add: const_writer)
next
  case False
  then have "(Inr (write_op r g d) :: profit_error + db) = (case find_estimate (o_id r) OVERSEAS_RETURN_OPERATION d of
      Some f \<Rightarrow> Inr (delete_fee (f_id f) d) | None \<Rightarrow> Inr d)" for d
    by (simp add: write_op_def split: option.split)
  then show ?thesis by (simp only: delete_writer)
qed

lemma resolveOverseasReturnRate_ref:
  "ref_eq d e \<Longrightarrow> resolveOverseasReturnRate e u t = resolveOverseasReturnRate d u t"
  by (simp add: resolveOverseasReturnRate_def ref_eq_sel)

lemma overseas_legs_ref: "ref_eq d e \<Longrightarrow> overseas_legs D r items e qty = overseas_legs D r items d qty"
  unfolding overseas_legs_def by (simp only: resolveOverseasReturnRate_ref)

interpretation micro: estimate_writer "o_id r" OVERSEAS_RETURN_OPERATION "micro_return D r items qty"
  for D r items qty
  unfolding micro_return_def [abs_def]
  by (rule reads_writer [OF write_op_writer overseas_legs_ref])

definition RETURN_ROWS :: "order_fee_type set" where
  "RETURN_ROWS = {REFUND_DEDUCTION, COMMISSION_REFUND, COST_RETURN, STOPPAGE_REFUND, RETURN_SHIPPING,
     OVERSEAS_RETURN_OPERATION}"

lemma domestic_seq:
  "domestic_return D r items s qty =
     (\<lambda>d. bindR (Inr (writeLegIfPositive D r REFUND_DEDUCTION (ls_refund (leg_sums_of D items qty)) d))
       (\<lambda>d. bindR (Inr (writeLegIfPositive D r COMMISSION_REFUND (ls_commission (leg_sums_of D items qty)) d))
       (\<lambda>d. bindR (Inr (writeLegIfPositive D r COST_RETURN (ls_cost (leg_sums_of D items qty)) d))
       (\<lambda>d. bindR (stoppage_refund_stage D r s (ls_refund (leg_sums_of D items qty)) d)
         (return_shipping_stage D r s)))))"
  by (rule ext) (simp add: domestic_return_def Let_def)

interpretation domestic: rows_writer "o_id r" "{REFUND_DEDUCTION} \<union> ({COMMISSION_REFUND} \<union> ({COST_RETURN}
    \<union> ({STOPPAGE_REFUND} \<union> {RETURN_SHIPPING})))" "domestic_return D r items s qty" for D r items s qty
  unfolding domestic_seq
  by (intro rows_writer_seq leg.rows_writer_axioms stoppage_refund.rows_writer_axioms
      return_shipping.rows_writer_axioms) auto

text \<open>The branch of an order writes at most rows of a return.\<close>

definition return_stage ::
  "dec \<Rightarrow> order_row \<Rightarrow> item_row list \<Rightarrow> store_row \<Rightarrow> (id \<times> nat) list \<Rightarrow> db \<Rightarrow> profit_error + db" where
  "return_stage D r items s qty d =
     (if isMicroExport r then micro_return D r items qty d else domestic_return D r items s qty d)"

lemma rows_writer_mono: "rows_writer oid T stage \<Longrightarrow> T \<subseteq> U \<Longrightarrow> rows_writer oid U stage"
  unfolding rows_writer_def by blast

interpretation return_rows: rows_writer "o_id r" RETURN_ROWS "return_stage D r items s qty" for D r items s qty
proof (cases "isMicroExport r")
  case True
  then have "return_stage D r items s qty = micro_return D r items qty"
    by (intro ext) (simp add: return_stage_def)
  then show "rows_writer (o_id r) RETURN_ROWS (return_stage D r items s qty)"
    using rows_writer_mono [OF micro.rows_writer_axioms] by (simp add: RETURN_ROWS_def)
next
  case False
  then have "return_stage D r items s qty = domestic_return D r items s qty"
    by (intro ext) (simp add: return_stage_def)
  then show "rows_writer (o_id r) RETURN_ROWS (return_stage D r items s qty)"
    using rows_writer_mono [OF domestic.rows_writer_axioms, of RETURN_ROWS r D items s qty]
    by (simp add: RETURN_ROWS_def)
qed

section \<open>The whole function\<close>

lemma return_InrE:
  assumes "estimateReturnOnClaim D off oid d = Inr d'" and "find_order oid d = Some r"
    and "o_profitExcludedAt r = None" and "accepted_items oid d \<noteq> []"
  obtains s d1 where "find_store (o_storeId r) d = Some s"
    "return_stage D r (order_items oid d) s (accepted_qty (accepted_items oid d)) d = Inr d1"
    "applyEstimateOnOrderCreate D off oid d1 = Inr d'"
  using assms by (auto simp: estimateReturnOnClaim_def return_stage_def Let_def bindR_eq_Inr
      split: option.splits if_splits)

lemma return_skip:
  assumes "estimateReturnOnClaim D off oid d = Inr d'"
    and "case find_order oid d of None \<Rightarrow> True
         | Some r \<Rightarrow> o_profitExcludedAt r \<noteq> None \<or> accepted_items oid d = []"
  shows "d' = d"
  using assms by (auto simp: estimateReturnOnClaim_def Let_def split: option.splits if_splits)

lemma return_keeps:
  assumes a: "estimateReturnOnClaim D off oid d = Inr d'" and wf: "wf_fees d"
  shows "keeps oid d d'"
proof (cases "case find_order oid d of None \<Rightarrow> True
         | Some r \<Rightarrow> o_profitExcludedAt r \<noteq> None \<or> accepted_items oid d = []")
  case True
  with return_skip [OF a] show ?thesis by simp
next
  case False
  then obtain r where r: "find_order oid d = Some r" "o_profitExcludedAt r = None" "accepted_items oid d \<noteq> []"
    by (auto split: option.splits)
  obtain s d1 where run: "return_stage D r (order_items oid d) s (accepted_qty (accepted_items oid d)) d = Inr d1"
    "applyEstimateOnOrderCreate D off oid d1 = Inr d'"
    using return_InrE [OF a r] by metis
  have k: "keeps oid d d1" using return_rows.rows_keeps [OF run(1)] find_order_id [OF r(1)] by simp
  show ?thesis by (rule keeps_trans [OF k apply_keeps [OF run(2) keepsD(2) [OF k wf]]])
qed

text \<open>The estimate leaves the rows of a return alone.\<close>

lemma apply_find:
  assumes a: "applyEstimateOnOrderCreate D off oid d = Inr d'" and wf: "wf_fees d"
    and r: "find_order oid d = Some r" "o_profitExcludedAt r = None"
    and ty: "ty \<notin> {PLATFORM_SERVICE, STOPPAGE, SHIPPING, INTERNATIONAL_SERVICE}"
  shows "find_estimate oid ty d' = find_estimate oid ty d"
proof -
  obtain s d1 ps d2 d3 d4 d5 where st: "settings_stage r s d = (d1, ps)"
    "psf_stage D off r (order_items oid d) s d1 = Inr d2" "stoppage_step D r s ps d2 = Inr d3"
    "shipping_stage D r s d3 = Inr d4" "intl_stage D r s d4 = Inr d5"
    "d' = profit_stage D r (order_items oid d) ps d5"
    using apply_InrE [OF a r wf] by metis
  have oid: "o_id r = oid" using find_order_id [OF r(1)] by simp
  have "keeps oid d d1" using settings_stage_keeps [OF oid, of d s] st(1) by (metis fst_conv)
  note w1 = keepsD(2) [OF this wf]
  note w2 = psf.frame_wf [OF st(2) w1]
  note w3 = stoppage.frame_wf [OF st(3) w2]
  note w4 = shipping.frame_wf [OF st(4) w3]
  have "find_estimate oid ty d' = find_estimate oid ty d5" by (simp add: st(6) find_estimate_def)
  also have "\<dots> = find_estimate oid ty d1"
    using psf.frame_find [OF st(2) w1, of oid ty] stoppage.frame_find [OF st(3) w2, of oid ty]
      shipping.frame_find [OF st(4) w3, of oid ty] intl.frame_find [OF st(5) w4, of oid ty] ty by simp
  also have "\<dots> = find_estimate oid ty d"
    using settings_stage_fees [of r s d] st(1) by (simp add: find_estimate_def)
  finally show ?thesis .
qed

lemma apply_static:
  assumes "applyEstimateOnOrderCreate D off oid d = Inr d'" and "wf_fees d"
    and "find_order oid d = Some r" and "o_profitExcludedAt r = None"
  obtains r' where "find_order oid d' = Some r'" "static r r'"
proof (rule apply_row [OF assms(1,3,4,2)])
  fix s d1 ps r1
  assume st: "static r r1"
    and known: "\<And>g v. o_saleGross r = Some g \<Longrightarrow> o_saleVat r = Some v \<Longrightarrow>
      all_costs_known (order_items oid d) \<Longrightarrow> find_order oid d' = Some (set_estimate D
         (computeProfit D (folded_estimate D r g v (order_items oid d) ps d')) r1)"
    and unknown: "\<not> all_costs_known (order_items oid d) \<or> o_saleGross r = None \<or> o_saleVat r = None \<Longrightarrow>
       find_order oid d' = Some r1"
  show thesis
  proof (cases "\<not> all_costs_known (order_items oid d) \<or> o_saleGross r = None \<or> o_saleVat r = None")
    case True
    show thesis by (rule that [OF unknown [OF True] st])
  next
    case False
    then obtain g v where "o_saleGross r = Some g" "o_saleVat r = Some v" "all_costs_known (order_items oid d)"
      by auto
    from that [OF known [OF this]] st show thesis by simp
  qed
qed

lemma static_return_stage:
  assumes "static r r'"
  shows "return_stage D r' items s qty d = return_stage D r items s qty d"
proof -
  from assms have eqs: "o_id r' = o_id r" "o_organizationId r' = o_organizationId r"
    "o_orderDate r' = o_orderDate r" "o_micro r' = o_micro r"
    by (simp_all add: static_def)
  have up: "upsertReturnEstimateFee D r' = upsertReturnEstimateFee D r"
    by (intro ext) (simp add: upsertReturnEstimateFee_def new_leg_def [abs_def] eqs)
  have leg: "writeLegIfPositive D r' = writeLegIfPositive D r"
    by (intro ext) (simp add: writeLegIfPositive_def up)
  have "micro_return D r' items qty = micro_return D r items qty"
    by (intro ext) (unfold micro_return_def write_op_def overseas_legs_def eqs, rule refl)
  moreover have "domestic_return D r' items s qty = domestic_return D r items s qty"
    by (intro ext) (unfold domestic_return_def stoppage_refund_stage_def return_shipping_stage_def eqs up leg,
      rule refl)
  ultimately show ?thesis by (simp add: return_stage_def isMicroExport_def eqs)
qed

lemma accepted_items_ref: "ref_eq d e \<Longrightarrow> accepted_items oid e = accepted_items oid d"
  by (simp add: accepted_items_def claim_item_of_def find_claim_def ref_eq_sel)

lemma return_twice:
  assumes a: "estimateReturnOnClaim D off oid d = Inr d'" and wf: "wf_fees d" and one: "one_estimate d"
  shows "estimateReturnOnClaim D off oid d' = Inr d'"
proof (cases "case find_order oid d of None \<Rightarrow> True
         | Some r \<Rightarrow> o_profitExcludedAt r \<noteq> None \<or> accepted_items oid d = []")
  case True
  with return_skip [OF a] a show ?thesis by simp
next
  case False
  then obtain r where r: "find_order oid d = Some r" "o_profitExcludedAt r = None" "accepted_items oid d \<noteq> []"
    by (auto split: option.splits)
  let ?items = "order_items oid d" and ?qty = "accepted_qty (accepted_items oid d)"
  obtain s d1 where s: "find_store (o_storeId r) d = Some s"
    and run: "return_stage D r ?items s ?qty d = Inr d1" "applyEstimateOnOrderCreate D off oid d1 = Inr d'"
    using return_InrE [OF a r] by metis
  have oid: "o_id r = oid" using find_order_id [OF r(1)] by simp
  have k1: "keeps oid d d1" using return_rows.rows_keeps [OF run(1)] oid by simp
  have k: "keeps oid d d'" by (rule return_keeps [OF a wf])
  note ref = keepsD(1) [OF k] and w1 = keepsD(2) [OF k1 wf] and w' = keepsD(2) [OF k wf]
  have r1: "find_order oid d1 = Some r"
    using r(1) return_rows.rows_orders [OF run(1)] by (simp add: find_order_def)
  obtain r' where r': "find_order oid d' = Some r'" "static r r'"
    using apply_static [OF run(2) w1 r1 r(2)] by metis
  have view: "ship_view (o_id r) d' = ship_view (o_id r) d"
    using r' r(1) oid by (simp add: ship_view_def static_def)
  have "\<forall>ty \<in> RETURN_ROWS. find_estimate (o_id r) ty d' = find_estimate (o_id r) ty d1"
    using apply_find [OF run(2) w1 r1 r(2)] oid by (auto simp: RETURN_ROWS_def)
  then have again: "return_stage D r ?items s ?qty d' = Inr d'"
    by (rule return_rows.rows_stable [OF run(1) wf one w' ref view])
  have store: "find_store (o_storeId r') d' = Some s"
    using s find_order_ref_store [OF ref] r'(2) by (simp add: static_def)
  have excl: "o_profitExcludedAt r' = None" using r(2) r'(2) by (simp add: static_def)
  have items: "order_items oid d' = ?items" using ref by (simp add: order_items_def ref_eq_sel)
  have "estimateReturnOnClaim D off oid d' =
      bindR (return_stage D r' ?items s ?qty d') (applyEstimateOnOrderCreate D off oid)"
    using r(3) excl by (simp add: estimateReturnOnClaim_def r'(1) store items accepted_items_ref [OF ref]
        return_stage_def Let_def)
  also have "\<dots> = applyEstimateOnOrderCreate D off oid d'"
    by (simp add: static_return_stage [OF r'(2)] again)
  also have "\<dots> = Inr d'"
    by (rule apply_twice [OF run(2) w1 keepsD(3) [OF k1 wf one]])
  finally show ?thesis .
qed

section \<open>The rows written\<close>

lemma upsert_leg_find:
  assumes "wf_fees d"
  shows "\<exists>f. find_estimate (o_id r) (la_feeType a) (upsertReturnEstimateFee D r a d) = Some f
     \<and> f_amountGross f = dps D 2 (la_amountGross a) \<and> f_direction f = RETURN_LEG_DIRECTIONS (la_feeType a)
     \<and> (\<forall>v. la_vatRate a = Some v \<longrightarrow> f_vatRate f = v)"
  using assms
  by (auto simp: upsertReturnEstimateFee_def find_estimate_upsert set_leg_def new_leg_def new_estimate_def
      split: option.split)

lemma write_leg_find:
  assumes "wf_fees d" and "0 < lg_gross l"
  shows "\<exists>f. find_estimate (o_id r) ty (writeLegIfPositive D r ty l d) = Some f
     \<and> f_amountGross f = dps D 2 (lg_gross l) \<and> f_direction f = RETURN_LEG_DIRECTIONS ty
     \<and> (\<forall>v. lg_vatRate l = Some v \<longrightarrow> f_vatRate f = v)"
  using assms upsert_leg_find [OF assms(1), of r "\<lparr> la_feeType = ty, la_amountGross = lg_gross l,
      la_vatRate = lg_vatRate l, la_feeDefinitionId = None \<rparr>" D]
  by (simp add: writeLegIfPositive_def)

lemma domestic_rows:
  assumes run: "domestic_return D r items s qty d = Inr d'" and wf: "wf_fees d"
  shows "find_estimate (o_id r) REFUND_DEDUCTION d' =
           find_estimate (o_id r) REFUND_DEDUCTION
             (writeLegIfPositive D r REFUND_DEDUCTION (ls_refund (leg_sums_of D items qty)) d)"
    and "0 < lg_gross (ls_commission (leg_sums_of D items qty)) \<Longrightarrow>
      \<exists>f. find_estimate (o_id r) COMMISSION_REFUND d' = Some f \<and> f_direction f = CREDIT
        \<and> f_amountGross f = dps D 2 (lg_gross (ls_commission (leg_sums_of D items qty)))"
    and "0 < lg_gross (ls_cost (leg_sums_of D items qty)) \<Longrightarrow>
      \<exists>f. find_estimate (o_id r) COST_RETURN d' = Some f \<and> f_direction f = CREDIT
        \<and> f_amountGross f = dps D 2 (lg_gross (ls_cost (leg_sums_of D items qty)))"
proof -
  let ?L = "leg_sums_of D items qty"
  define d1 where "d1 = writeLegIfPositive D r REFUND_DEDUCTION (ls_refund ?L) d"
  define d2 where "d2 = writeLegIfPositive D r COMMISSION_REFUND (ls_commission ?L) d1"
  define d3 where "d3 = writeLegIfPositive D r COST_RETURN (ls_cost ?L) d2"
  obtain d4 where d4: "stoppage_refund_stage D r s (ls_refund ?L) d3 = Inr d4"
    "return_shipping_stage D r s d4 = Inr d'"
    using run by (auto simp: domestic_return_def Let_def bindR_eq_Inr d1_def d2_def d3_def)
  have w1: "wf_fees d1" using leg.frame_wf [OF refl wf] by (simp add: d1_def)
  have w2: "wf_fees d2" using leg.frame_wf [OF refl w1] by (simp add: d2_def)
  have w3: "wf_fees d3" using leg.frame_wf [OF refl w2] by (simp add: d3_def)
  have w4: "wf_fees d4" by (rule stoppage_refund.frame_wf [OF d4(1) w3])
  have late: "find_estimate (o_id r) ty d' = find_estimate (o_id r) ty d3"
    if "ty \<noteq> STOPPAGE_REFUND" "ty \<noteq> RETURN_SHIPPING" for ty
    using stoppage_refund.frame_find [OF d4(1) w3, of "o_id r" ty]
      return_shipping.frame_find [OF d4(2) w4, of "o_id r" ty] that by simp
  have f3: "find_estimate (o_id r) ty d3 = find_estimate (o_id r) ty d2" if "ty \<noteq> COST_RETURN" for ty
    using leg.frame_find [OF refl w2, where oid' = "o_id r" and ty' = ty and r = r and ty = COST_RETURN and D = D and l = "ls_cost ?L"]
      that by (simp add: d3_def)
  have f2: "find_estimate (o_id r) ty d2 = find_estimate (o_id r) ty d1" if "ty \<noteq> COMMISSION_REFUND" for ty
    using leg.frame_find [OF refl w1, where oid' = "o_id r" and ty' = ty and r = r and ty = COMMISSION_REFUND and D = D and l = "ls_commission ?L"]
      that by (simp add: d2_def)
  show "find_estimate (o_id r) REFUND_DEDUCTION d' = find_estimate (o_id r) REFUND_DEDUCTION
             (writeLegIfPositive D r REFUND_DEDUCTION (ls_refund ?L) d)"
    by (simp add: late f3 f2 d1_def)
  show "\<exists>f. find_estimate (o_id r) COMMISSION_REFUND d' = Some f \<and> f_direction f = CREDIT
        \<and> f_amountGross f = dps D 2 (lg_gross (ls_commission ?L))" if "0 < lg_gross (ls_commission ?L)"
    using write_leg_find [OF w1 that, of r COMMISSION_REFUND D] by (auto simp: late f3 d2_def [symmetric])
  show "\<exists>f. find_estimate (o_id r) COST_RETURN d' = Some f \<and> f_direction f = CREDIT
        \<and> f_amountGross f = dps D 2 (lg_gross (ls_cost ?L))" if "0 < lg_gross (ls_cost ?L)"
    using write_leg_find [OF w2 that, of r COST_RETURN D] by (auto simp: late d3_def [symmetric])
qed

text \<open>Amounts of money: cents, not negative, at most a billion.\<close>

definition is_money :: "rat \<Rightarrow> bool" where
  "is_money x \<longleftrightarrow> on_grid 2 x \<and> 0 \<le> x \<and> x \<le> 10 ^ 9"

lemma accepted_qty_replicate: "accepted_qty (replicate (Suc n) i) = [(i, Suc n)]"
proof -
  have "foldl (\<lambda>m i. bump i m) [(i, k)] (replicate n i) = [(i, k + n)]" for k
    by (induction n arbitrary: k) auto
  from this [of 1] show ?thesis by (simp add: accepted_qty_def)
qed

context decimal_lib
begin

lemma money_ops:
  assumes "is_money x"
  shows "dadd D 0 x = x" "dmul D x 1 = x" "dps D 2 x = x"
proof -
  have small: "\<bar>x\<bar> * 10 ^ 2 < (10::rat) ^ 20" using assms by (simp add: is_money_def)
  then show "dadd D 0 x = x" "dmul D x 1 = x" "dps D 2 x = x"
    using assms rnd_on_grid [OF _ small] dps_grid by (simp_all add: is_money_def dadd_def dmul_def)
qed

lemma ddiv_self: "0 < n \<Longrightarrow> ddiv D (of_nat n) (of_nat n) = 1"
  using rnd_grid [of 1 0] by (simp add: ddiv_def)

lemma leg_sums_full:
  assumes "i_quantity it = int n" and "0 < n" and "is_money (i_lineSaleGross it)"
    and "is_money (i_commissionGross it)"
  shows "lg_gross (ls_refund (leg_sums_of D [it] [(i_id it, n)])) = i_lineSaleGross it"
    and "lg_vatRate (ls_refund (leg_sums_of D [it] [(i_id it, n)])) = Some (i_saleVatRate it)"
    and "lg_gross (ls_commission (leg_sums_of D [it] [(i_id it, n)])) = i_commissionGross it"
    and "i_unitCostSnapshotGross it = Some c \<Longrightarrow> is_money (c * of_nat n) \<Longrightarrow>
      lg_gross (ls_cost (leg_sums_of D [it] [(i_id it, n)])) = c * of_nat n"
proof -
  have div: "ddiv D (rat_of_nat n) (rat_of_nat n) = 1" using assms(2) by (rule ddiv_self)
  note sums = leg_sums_of_def return_item_def item_by_id_def add_leg_def Let_def
  show "lg_gross (ls_refund (leg_sums_of D [it] [(i_id it, n)])) = i_lineSaleGross it"
    "lg_vatRate (ls_refund (leg_sums_of D [it] [(i_id it, n)])) = Some (i_saleVatRate it)"
    "lg_gross (ls_commission (leg_sums_of D [it] [(i_id it, n)])) = i_commissionGross it"
    using assms money_ops [OF assms(3)] money_ops [OF assms(4)] by (simp_all add: sums div)
  assume c: "i_unitCostSnapshotGross it = Some c" "is_money (c * of_nat n)"
  have "dmul D c (of_nat n) = c * of_nat n"
    using money_ops(2) [OF c(2)] by (simp add: dmul_def)
  then show "lg_gross (ls_cost (leg_sums_of D [it] [(i_id it, n)])) = c * of_nat n"
    using c(1) money_ops(1) [OF c(2)] by (simp add: sums)
qed

end

text \<open>Both branches return, given the definitions they read.\<close>

definition example_claim :: claim_row where
  "example_claim = \<lparr> oc_id = 50, oc_organizationId = 1, oc_storeId = 1, oc_orderId = 9,
     oc_trendyolClaimId = ''c'', oc_claimDate = 0, oc_cargoProviderName = None, oc_cargoTrackingNumber = None,
     oc_resolved = True, oc_orderShipmentPackageId = Some ''r'', oc_orderOutboundPackageId = Some ''p'' \<rparr>"

definition example_claim_item :: "id \<Rightarrow> claim_item_row" where
  "example_claim_item i = \<lparr> ci_id = i, ci_claimId = 50, ci_orderItemId = Some 1,
     ci_trendyolClaimItemId = (if i = 51 then ''u'' else ''v''), ci_reasonCode = ''OTHER'', ci_reasonName = ''other'',
     ci_status = ''Accepted'', ci_acceptedBySeller = True, ci_autoApproveDate = None, ci_resolved = True \<rparr>"

definition return_db :: db where
  "return_db = cover_db \<lparr> db_items := [example_item \<lparr> i_refundedCommissionGross := 3 \<rparr>],
     db_claims := [example_claim], db_claimItems := [example_claim_item 51, example_claim_item 52] \<rparr>"

definition micro_return_db :: db where
  "micro_return_db = return_db \<lparr> db_orders := [(example_order 9) \<lparr> o_micro := True \<rparr>],
     db_returnTiers := [\<lparr> rt_minSaleGross = 0, rt_maxSaleGross = 2000, rt_rate = 0.35, rt_effectiveFrom = 0 \<rparr>] \<rparr>"

abbreviation return_item_row :: item_row where
  "return_item_row \<equiv> example_item \<lparr> i_refundedCommissionGross := 3 \<rparr>"

lemma return_db_rows:
  "find_order 9 return_db = Some (example_order 9)" "find_store 1 return_db = Some no_carrier_store"
  "order_items 9 return_db = [return_item_row]" "accepted_items 9 return_db = replicate 2 1"
  "wf_fees return_db" "one_estimate return_db" "db_fees return_db = []"
proof -
  show "find_order 9 return_db = Some (example_order 9)" "find_store 1 return_db = Some no_carrier_store"
    using cover_db_rows(1,2) by (simp_all add: find_order_def find_store_def return_db_def del: One_nat_def)
  show "order_items 9 return_db = [return_item_row]"
    by (simp add: order_items_def return_db_def example_item_def)
  show "accepted_items 9 return_db = replicate 2 1"
    by (simp add: accepted_items_def claim_item_of_def find_claim_def return_db_def example_claim_def
        example_claim_item_def map_filter_simps numeral_2_eq_2)
  show fees: "db_fees return_db = []" by (simp add: return_db_def cover_db_def estimate_db_def empty_db_def)
  show "wf_fees return_db" "one_estimate return_db" by (simp_all add: wf_fees_def one_estimate_def fees)
qed

lemma micro_return_db_rows:
  "find_order 9 micro_return_db = Some ((example_order 9) \<lparr> o_micro := True \<rparr>)"
  "find_store 1 micro_return_db = Some no_carrier_store"
  "order_items 9 micro_return_db = [return_item_row]" "accepted_items 9 micro_return_db = replicate 2 1"
  "wf_fees micro_return_db" "one_estimate micro_return_db" "db_fees micro_return_db = []"
proof -
  show "find_order 9 micro_return_db = Some ((example_order 9) \<lparr> o_micro := True \<rparr>)"
    by (simp add: find_order_def micro_return_db_def example_order_def)
  show "find_store 1 micro_return_db = Some no_carrier_store"
    "order_items 9 micro_return_db = [return_item_row]" "accepted_items 9 micro_return_db = replicate 2 1"
    "db_fees micro_return_db = []" "wf_fees micro_return_db" "one_estimate micro_return_db"
    using return_db_rows
    by (simp_all add: find_store_def order_items_def accepted_items_def claim_item_of_def find_claim_def
        wf_fees_def one_estimate_def micro_return_db_def del: One_nat_def)
qed

lemma fees_cover_defs:
  assumes "db_feeDefs e = db_feeDefs d"
  shows "fees_cover e p t = fees_cover d p t"
proof -
  have "resolveFeeDefinition e q ty u = resolveFeeDefinition d q ty u" for q ty u
    by (rule resolveFeeDefinition_cong) (rule assms)
  then show ?thesis unfolding fees_cover_def by (simp only:)
qed

lemma return_db_covers: "fees_cover return_db TRENDYOL 0" "fees_cover micro_return_db TRENDYOL 0"
proof -
  have "db_feeDefs return_db = db_feeDefs cover_db" "db_feeDefs micro_return_db = db_feeDefs cover_db"
    by (simp_all add: return_db_def micro_return_db_def)
  then show "fees_cover return_db TRENDYOL 0" "fees_cover micro_return_db TRENDYOL 0"
    using cover_db_covers fees_cover_defs by blast+
qed

lemma return_run:
  assumes "find_order oid d = Some r" "find_store (o_storeId r) d = Some s"
    and "fees_cover d (s_platform s) (o_orderDate r)"
    and "\<exists>d'. return_stage D r (order_items oid d) s (accepted_qty (accepted_items oid d)) d = Inr d'"
  shows "\<exists>d'. estimateReturnOnClaim D off oid d = Inr d'"
proof -
  let ?qty = "accepted_qty (accepted_items oid d)"
  obtain d1 where d1: "return_stage D r (order_items oid d) s ?qty d = Inr d1" using assms(4) by blast
  have "keeps oid d d1" using return_rows.rows_keeps [OF d1] find_order_id [OF assms(1)] by simp
  note ref = keepsD(1) [OF this]
  have "find_order oid d1 = Some r" "find_store (o_storeId r) d1 = Some s"
    "fees_cover d1 (s_platform s) (o_orderDate r)"
    using assms return_rows.rows_orders [OF d1] find_order_ref_store [OF ref] fees_cover_ref [OF ref]
    by (simp_all add: find_order_def)
  then obtain d' where "applyEstimateOnOrderCreate D off oid d1 = Inr d'"
    using apply_total [of oid d1 D off] by (metis option.inject option.distinct(1))
  then show ?thesis
    using d1 assms(1,2) by (auto simp: estimateReturnOnClaim_def return_stage_def Let_def)
qed

lemma domestic_return_run: "\<exists>d'. estimateReturnOnClaim dec20 (\<lambda>_. 0) 9 return_db = Inr d'"
proof (rule return_run [OF return_db_rows(1)])
  show "find_store (o_storeId (example_order 9)) return_db = Some no_carrier_store"
    by (simp add: return_db_rows(2) cover_db_rows(3) del: One_nat_def)
  show cov: "fees_cover return_db (s_platform no_carrier_store) (o_orderDate (example_order 9))"
    using return_db_covers by (simp add: cover_db_rows)
  let ?items = "order_items 9 return_db" and ?qty = "accepted_qty (accepted_items 9 return_db)"
  let ?L = "leg_sums_of dec20 ?items ?qty" and ?r = "example_order 9"
  define d3 where "d3 = writeLegIfPositive dec20 ?r COST_RETURN (ls_cost ?L)
    (writeLegIfPositive dec20 ?r COMMISSION_REFUND (ls_commission ?L)
      (writeLegIfPositive dec20 ?r REFUND_DEDUCTION (ls_refund ?L) return_db))"
  have frame: "ref_eq return_db d3 \<and> db_orders d3 = db_orders return_db"
    using leg.frame_ref [OF refl, where r = ?r and D = dec20] leg.frame_orders [OF refl, where r = ?r and D = dec20]
    by (simp add: d3_def) (meson ref_eq_trans)
  obtain fd x where "resolveFeeDefinition d3 TRENDYOL STOPPAGE 0 = Inr fd"
    using fees_coverD(3) [OF return_db_covers(1)] frame resolve_ref by metis
  then obtain d4 where d4: "stoppage_refund_stage dec20 ?r no_carrier_store (ls_refund ?L) d3 = Inr d4"
    by (cases "0 < lg_gross (ls_refund ?L)") (auto simp: stoppage_refund_stage_def cover_db_rows Let_def)
  have "o_id ?r = 9" by (simp add: example_order_def)
  have "ref_eq return_db d4 \<and> db_orders d4 = db_orders return_db"
    using frame stoppage_refund.frame_ref [OF d4] stoppage_refund.frame_orders [OF d4] ref_eq_trans by auto
  then have "find_order 9 d4 = Some ?r" "find_store 1 d4 = Some no_carrier_store"
    using return_db_rows(1,2) find_order_ref_store by (auto simp: find_order_def)
  then have "return_shipping_stage dec20 ?r no_carrier_store d4 = Inr d4"
    by (simp add: return_shipping_stage_def estimateShippingCostForOrder_def \<open>o_id ?r = 9\<close> cover_db_rows(3)
        resolveTariffForDesi_def store_carrier_def example_store_def del: One_nat_def)
  then show "\<exists>d'. return_stage dec20 ?r ?items no_carrier_store ?qty return_db = Inr d'"
    using d4 by (simp add: return_stage_def isMicroExport_def domestic_return_def Let_def d3_def)
      (simp add: example_order_def)
qed

lemma micro_return_run: "\<exists>d'. estimateReturnOnClaim dec20 (\<lambda>_. 0) 9 micro_return_db = Inr d'"
proof (rule return_run [OF micro_return_db_rows(1)])
  show "find_store (o_storeId ((example_order 9) \<lparr> o_micro := True \<rparr>)) micro_return_db = Some no_carrier_store"
    using micro_return_db_rows(2) cover_db_rows(3) by simp
  show "fees_cover micro_return_db (s_platform no_carrier_store) (o_orderDate ((example_order 9) \<lparr> o_micro := True \<rparr>))"
    using return_db_covers(2) by (simp add: cover_db_rows)
next
  show "\<exists>d'. return_stage dec20 ((example_order 9) \<lparr> o_micro := True \<rparr>) (order_items 9 micro_return_db) no_carrier_store
      (accepted_qty (accepted_items 9 micro_return_db)) micro_return_db = Inr d'"
    unfolding micro_return_db_rows(3,4)
    by (simp add: return_stage_def isMicroExport_def micro_return_def overseas_legs_def item_by_id_def
        accepted_qty_def numeral_2_eq_2 resolveOverseasReturnRate_def micro_return_db_def example_item_def
        example_order_def Let_def ddiv_def dec_eval)
qed

section \<open>Properties\<close>

text \<open>C11: Estimating a return again changes nothing: every leg is one estimated row that is updated in
  place (or the operation fee's row is written or deleted), so repeated claim events never double
  a refund.\<close>
theorem return_idempotent:
  assumes "estimateReturnOnClaim D off oid d = Inr d'" and "wf_fees d" and "one_estimate d"
  shows "estimateReturnOnClaim D off oid d' = Inr d'"
  by (rule return_twice [OF assms])

lemma return_idempotent_witness:
  "\<exists>d'. estimateReturnOnClaim dec20 (\<lambda>_. 0) 9 return_db = Inr d'
     \<and> estimateReturnOnClaim dec20 (\<lambda>_. 0) 9 d' = Inr d'"
  using domestic_return_run return_idempotent [OF _ return_db_rows(5,6)] by blast

text \<open>A return without an accepted unit, or of an order excluded from profit, writes nothing; any
  other writes within its order only: no other order, no item, no fee of another order and no row
  that is not an estimate changes, and each type keeps at most one estimate.\<close>
theorem return_frame:
  assumes "estimateReturnOnClaim D off oid d = Inr d'" and "wf_fees d" and "one_estimate d"
  shows "(accepted_items oid d = [] \<or> (\<exists>r. find_order oid d = Some r \<and> o_profitExcludedAt r \<noteq> None) \<longrightarrow> d' = d)
    \<and> other_orders oid d' = other_orders oid d \<and> db_items d' = db_items d
    \<and> other_fees oid d' = other_fees oid d \<and> one_estimate d' \<and> wf_fees d'"
  using return_keeps [OF assms(1,2)] assms(2,3) return_skip [OF assms(1)]
  by (auto simp: keeps_def ref_eq_def split: option.splits)

lemma return_frame_witness:
  "\<exists>d'. estimateReturnOnClaim dec20 (\<lambda>_. 0) 9 return_db = Inr d' \<and> one_estimate d' \<and> db_items d' = [return_item_row]"
proof -
  obtain d' where "estimateReturnOnClaim dec20 (\<lambda>_. 0) 9 return_db = Inr d'" using domestic_return_run by blast
  with return_frame [OF this return_db_rows(5,6)] show ?thesis by (auto simp: return_db_def)
qed

text \<open>C12: When every unit of a domestic order of one item is accepted, the estimated rows reverse the
  sale exactly: the refund is the line's sale price at its VAT rate, the commission refund the
  line's gross commission, the cost returned the cost of all units.\<close>
theorem full_return_legs:
  assumes "decimal_lib D" and "estimateReturnOnClaim D off oid d = Inr d'" and "wf_fees d"
    and "find_order oid d = Some r" and "o_profitExcludedAt r = None" and "\<not> o_micro r"
    and "order_items oid d = [it]" and "i_quantity it = int n" and "0 < n"
    and "accepted_items oid d = replicate n (i_id it)"
    and "is_money (i_lineSaleGross it)" and "is_money (i_commissionGross it)"
    and "i_unitCostSnapshotGross it = Some c" and "is_money (c * of_nat n)"
    and "0 < i_lineSaleGross it" and "0 < i_commissionGross it" and "0 < c"
  shows "(\<exists>f. find_estimate oid REFUND_DEDUCTION d' = Some f \<and> f_amountGross f = i_lineSaleGross it
             \<and> f_vatRate f = i_saleVatRate it \<and> f_direction f = DEBIT)
       \<and> (\<exists>f. find_estimate oid COMMISSION_REFUND d' = Some f \<and> f_amountGross f = i_commissionGross it
             \<and> f_direction f = CREDIT)
       \<and> (\<exists>f. find_estimate oid COST_RETURN d' = Some f \<and> f_amountGross f = c * of_nat n
             \<and> f_direction f = CREDIT)"
proof -
  have ne: "accepted_items oid d \<noteq> []" using assms(9,10) by simp
  obtain s d1 where run: "return_stage D r (order_items oid d) s (accepted_qty (accepted_items oid d)) d = Inr d1"
    "applyEstimateOnOrderCreate D off oid d1 = Inr d'"
    using return_InrE [OF assms(2,4,5) ne] by metis
  have qty: "accepted_qty (accepted_items oid d) = [(i_id it, n)]"
    using assms(9,10) accepted_qty_replicate [of "n - 1" "i_id it"] by simp
  have oid: "o_id r = oid" using find_order_id [OF assms(4)] by simp
  have dom: "domestic_return D r [it] s [(i_id it, n)] d = Inr d1"
    using run(1) qty assms(6,7) by (simp add: return_stage_def isMicroExport_def)
  have k1: "keeps oid d d1" using return_rows.rows_keeps [OF run(1)] oid by simp
  have r1: "find_order oid d1 = Some r"
    using assms(4) return_rows.rows_orders [OF run(1)] by (simp add: find_order_def)
  have same: "find_estimate oid ty d' = find_estimate oid ty d1"
    if "ty \<in> {REFUND_DEDUCTION, COMMISSION_REFUND, COST_RETURN}" for ty
    using that by (intro apply_find [OF run(2) keepsD(2) [OF k1 assms(3)] r1 assms(5)]) auto
  note sums = decimal_lib.leg_sums_full [OF assms(1,8,9,11,12)]
  note cents = decimal_lib.money_ops(3) [OF assms(1)]
  have pos: "0 < c * of_nat n" using assms(9,17) by simp
  have "\<exists>f. find_estimate oid REFUND_DEDUCTION d1 = Some f \<and> f_amountGross f = i_lineSaleGross it
      \<and> f_vatRate f = i_saleVatRate it \<and> f_direction f = DEBIT"
    using write_leg_find [OF assms(3), of "ls_refund (leg_sums_of D [it] [(i_id it, n)])" r REFUND_DEDUCTION D]
      domestic_rows(1) [OF dom assms(3)] assms(15) oid by (auto simp: sums cents [OF assms(11)])
  moreover have "\<exists>f. find_estimate oid COMMISSION_REFUND d1 = Some f \<and> f_amountGross f = i_commissionGross it
      \<and> f_direction f = CREDIT"
    using domestic_rows(2) [OF dom assms(3)] assms(16) oid by (auto simp: sums cents [OF assms(12)])
  moreover have "\<exists>f. find_estimate oid COST_RETURN d1 = Some f \<and> f_amountGross f = c * of_nat n
      \<and> f_direction f = CREDIT"
    using domestic_rows(3) [OF dom assms(3)] pos oid by (auto simp: sums(4) [OF assms(13,14)] cents [OF assms(14)])
  ultimately show ?thesis by (simp add: same)
qed

lemma full_return_legs_witness:
  "\<exists>d' f. estimateReturnOnClaim dec20 (\<lambda>_. 0) 9 return_db = Inr d'
     \<and> find_estimate 9 COMMISSION_REFUND d' = Some f \<and> f_amountGross f = 18"
proof -
  obtain d' where run: "estimateReturnOnClaim dec20 (\<lambda>_. 0) 9 return_db = Inr d'" using domestic_return_run by blast
  have money: "is_money 120" "is_money 18" "is_money (30 * of_nat 2)"
    by (simp_all add: is_money_def on_grid_def)
  have order: "o_profitExcludedAt (example_order 9) = None" "\<not> o_micro (example_order 9)"
    by (simp_all add: example_order_def)
  have item: "i_quantity return_item_row = int 2" "i_lineSaleGross return_item_row = 120"
    "i_commissionGross return_item_row = 18" "i_unitCostSnapshotGross return_item_row = Some 30"
    "accepted_items 9 return_db = replicate 2 (i_id return_item_row)"
    using return_db_rows(4) by (simp_all add: example_item_def)
  show ?thesis
    using full_return_legs [OF dec20.decimal_lib_axioms run return_db_rows(5,1) order return_db_rows(3) item(1) _
        item(5), of 30] item(2-4) money run by auto
qed

text \<open>The claim of a micro export writes no leg of a domestic return. It leaves one operation fee, a
  debit of the rate of the price band on the accepted part of the sale less its effective
  commission, where that is positive, and none otherwise.\<close>
theorem micro_return_fee:
  assumes "estimateReturnOnClaim D off oid d = Inr d'" and "wf_fees d" and "one_estimate d"
    and "find_order oid d = Some r" and "o_profitExcludedAt r = None" and "o_micro r"
    and "accepted_items oid d \<noteq> []"
  shows "(\<forall>ty \<in> set RETURN_FEE_TYPES. find_estimate oid ty d' = find_estimate oid ty d)
    \<and> (\<exists>legs. overseas_legs D r (order_items oid d) d (accepted_qty (accepted_items oid d)) = Inr legs
        \<and> (let g = dps D 2 (overseasReturnOperationGross D legs)
           in if 0 < g then \<exists>f. find_estimate oid OVERSEAS_RETURN_OPERATION d' = Some f
                             \<and> f_amountGross f = g \<and> f_direction f = DEBIT
              else find_estimate oid OVERSEAS_RETURN_OPERATION d' = None))"
proof -
  let ?qty = "accepted_qty (accepted_items oid d)"
  obtain s d1 where run: "return_stage D r (order_items oid d) s ?qty d = Inr d1"
    "applyEstimateOnOrderCreate D off oid d1 = Inr d'"
    using return_InrE [OF assms(1,4,5,7)] by metis
  have oid: "o_id r = oid" using find_order_id [OF assms(4)] by simp
  have mic: "micro_return D r (order_items oid d) ?qty d = Inr d1"
    using run(1) assms(6) by (simp add: return_stage_def isMicroExport_def)
  then obtain legs where legs: "overseas_legs D r (order_items oid d) d ?qty = Inr legs"
    "d1 = write_op r (dps D 2 (overseasReturnOperationGross D legs)) d"
    by (auto simp: micro_return_def bindR_eq_Inr)
  have r1: "find_order oid d1 = Some r"
    using assms(4) return_rows.rows_orders [OF run(1)] by (simp add: find_order_def)
  note late = apply_find [OF run(2) micro.frame_wf [OF mic assms(2)] r1 assms(5)]
  have same: "find_estimate oid ty d' = find_estimate oid ty d" if "ty \<in> set RETURN_FEE_TYPES" for ty
    using late [of ty] micro.frame_find [OF mic assms(2), of oid ty] that by (auto simp: RETURN_FEE_TYPES_def)
  let ?g = "dps D 2 (overseasReturnOperationGross D legs)"
  have "\<exists>f. find_estimate oid OVERSEAS_RETURN_OPERATION d1 = Some f \<and> f_amountGross f = ?g \<and> f_direction f = DEBIT"
    if "0 < ?g"
    using that by (auto simp: legs(2) write_op_def oid find_estimate_upsert [OF assms(2)] set_op_def
        new_estimate_def split: option.split)
  moreover have "find_estimate oid OVERSEAS_RETURN_OPERATION d1 = None" if "\<not> 0 < ?g"
    using that find_estimate_delete(2) [OF assms(2) _ assms(3)]
    by (simp add: legs(2) write_op_def oid split: option.split)
  ultimately show ?thesis using legs(1) same late [of OVERSEAS_RETURN_OPERATION] by (simp add: Let_def)
qed

lemma micro_return_fee_witness:
  "\<exists>d'. estimateReturnOnClaim dec20 (\<lambda>_. 0) 9 micro_return_db = Inr d' \<and> find_estimate 9 REFUND_DEDUCTION d' = None"
proof -
  obtain d' where run: "estimateReturnOnClaim dec20 (\<lambda>_. 0) 9 micro_return_db = Inr d'" using micro_return_run by blast
  have "find_estimate 9 REFUND_DEDUCTION d' = find_estimate 9 REFUND_DEDUCTION micro_return_db"
    using micro_return_fee [OF run micro_return_db_rows(5,6,1)] micro_return_db_rows(4)
    by (simp add: RETURN_FEE_TYPES_def example_order_def)
  then show ?thesis using run by (simp add: find_estimate_def micro_return_db_rows(7))
qed

end
