(* ===== verification/Sync_Queue.thy ===== *)
theory Sync_Queue
  imports Schema
begin

text \<open>
  The queue of synchronisation runs that the API, the cron fan-out and the workers share: the
  rows of \<open>sync_logs\<close>, the claim of \<open>src/packages/sync-core/src/claim.ts\<close>, the lease-fenced writes
  and the reads of \<open>sync-log.service.ts\<close>, the cursors of \<open>checkpoint.ts\<close> and the sweep of
  \<open>src/apps/sync-worker/src/watchdog.ts\<close>.

  A statement of the database is one step. The clock of the database (\<open>now()\<close> in SQL) and the
  clock of the process (\<open>new Date()\<close>) are separate arguments, so nothing rests on their agreement.
  The partial unique index \<open>sync_logs_active_slot_uniq\<close> is the check the insert makes.
\<close>

section \<open>The rows\<close>

datatype sync_type = ORDERS | PRODUCTS | PRODUCTS_DELTA | SETTLEMENTS | CLAIMS

datatype sync_status = SS_PENDING | SS_RUNNING | SS_COMPLETED | SS_FAILED | SS_FAILED_RETRYABLE

datatype sync_error_code = MARKETPLACE_AUTH_FAILED | MARKETPLACE_ACCESS_DENIED
  | MARKETPLACE_UNREACHABLE | SYNC_IN_PROGRESS | RATE_LIMITED | VALIDATION_ERROR | INTERNAL_ERROR

datatype sync_trigger_source = MANUAL | CRON | BOOTSTRAP

record sync_log =
  l_id :: id
  l_organizationId :: id
  l_storeId :: id
  l_syncType :: sync_type
  l_status :: sync_status
  l_triggerSource :: sync_trigger_source
  l_startedAt :: time
  l_completedAt :: "time option"
  l_recordsProcessed :: int
  l_progressCurrent :: int
  l_progressTotal :: "int option"
  l_progressStage :: "string option"
  l_errorCode :: "sync_error_code option"
  l_errorMessage :: "string option"
  l_claimedAt :: "time option"
  l_claimedBy :: "string option"
  l_lastTickAt :: "time option"
  l_pageCursor :: "json option"
  l_attemptCount :: nat
  l_nextAttemptAt :: "time option"
  l_skippedPages :: "json option"

record sync_queue =
  q_logs :: "sync_log list"
  q_nextId :: id

datatype sync_error =
    ZodError
  | LostLeaseError id string
  | SyncInProgressError sync_type id "id option"
  | NotFoundError id
  | RecordNotFound

definition update_logs :: "(sync_log \<Rightarrow> bool) \<Rightarrow> (sync_log \<Rightarrow> sync_log) \<Rightarrow> sync_queue \<Rightarrow> sync_queue" where
  "update_logs P g q = q \<lparr> q_logs := update_where P g (q_logs q) \<rparr>"

lemma update_logs_sel [simp]:
  "q_logs (update_logs P g q) = update_where P g (q_logs q)"
  "q_nextId (update_logs P g q) = q_nextId q"
  by (simp_all add: update_logs_def)

definition find_log :: "id \<Rightarrow> sync_queue \<Rightarrow> sync_log option" where
  "find_log i q = find (\<lambda>l. l_id l = i) (q_logs q)"

section \<open>Cursors\<close>

text \<open>\<open>z.number().int().min(0)\<close>: a safe integer.\<close>

definition zod_nat :: "json option \<Rightarrow> nat option" where
  "zod_nat v =
     (case v of
        Some (JNum r) \<Rightarrow>
          if r = of_int \<lfloor>r\<rfloor> \<and> 0 \<le> r \<and> r \<le> 2 ^ 53 - 1 then Some (nat \<lfloor>r\<rfloor>) else None
      | _ \<Rightarrow> None)"

definition zod_string :: "json option \<Rightarrow> string option" where
  "zod_string v = (case v of Some (JStr s) \<Rightarrow> Some s | _ \<Rightarrow> None)"

datatype products_cursor = PageCursor nat | TokenCursor string

definition parseProductsCursor :: "json option \<Rightarrow> sync_error + products_cursor option" where
  "parseProductsCursor raw =
     (if raw = None \<or> raw = Some JNull then Inr None
      else let v = the raw in
        case zod_string (json_field v ''kind'') of
          Some k \<Rightarrow>
            if k = ''page'' then
              (case zod_nat (json_field v ''n'') of
                 Some n \<Rightarrow> Inr (Some (PageCursor n)) | None \<Rightarrow> Inl ZodError)
            else if k = ''token'' then
              (case zod_string (json_field v ''token'') of
                 Some t \<Rightarrow> if t \<noteq> [] then Inr (Some (TokenCursor t)) else Inl ZodError
               | None \<Rightarrow> Inl ZodError)
            else Inl ZodError
        | None \<Rightarrow> Inl ZodError)"

datatype orders_cursor =
    PageWindow nat nat nat             \<comment> \<open>\<open>startDate\<close>, \<open>endDate\<close>, \<open>n\<close>\<close>
  | StreamWindow nat nat "string option" \<comment> \<open>\<open>endDate\<close>, \<open>chunkIndex\<close>, \<open>streamCursor\<close>\<close>

definition parseOrdersCursor :: "json option \<Rightarrow> sync_error + orders_cursor option" where
  "parseOrdersCursor raw =
     (if raw = None \<or> raw = Some JNull then Inr None
      else let v = the raw in
        case zod_string (json_field v ''kind'') of
          Some k \<Rightarrow>
            if k = ''page-window'' then
              (case (zod_nat (json_field v ''startDate''), zod_nat (json_field v ''endDate''),
                     zod_nat (json_field v ''n'')) of
                 (Some s, Some e, Some n) \<Rightarrow> Inr (Some (PageWindow s e n))
               | _ \<Rightarrow> Inl ZodError)
            else if k = ''stream-window'' then
              (case (zod_nat (json_field v ''endDate''), zod_nat (json_field v ''chunkIndex''),
                     json_field v ''streamCursor'') of
                 (Some e, Some c, Some JNull) \<Rightarrow> Inr (Some (StreamWindow e c None))
               | (Some e, Some c, Some (JStr t)) \<Rightarrow> Inr (Some (StreamWindow e c (Some t)))
               | _ \<Rightarrow> Inl ZodError)
            else Inl ZodError
        | None \<Rightarrow> Inl ZodError)"

text \<open>The JSON a cursor object is stored as.\<close>

fun products_cursor_json :: "products_cursor \<Rightarrow> json" where
  "products_cursor_json (PageCursor n) = JObj [(''kind'', JStr ''page''), (''n'', JNum (of_nat n))]"
| "products_cursor_json (TokenCursor t) = JObj [(''kind'', JStr ''token''), (''token'', JStr t)]"

fun orders_cursor_json :: "orders_cursor \<Rightarrow> json" where
  "orders_cursor_json (PageWindow s e n) =
     JObj [(''kind'', JStr ''page-window''), (''startDate'', JNum (of_nat s)),
           (''endDate'', JNum (of_nat e)), (''n'', JNum (of_nat n))]"
| "orders_cursor_json (StreamWindow e c t) =
     JObj [(''kind'', JStr ''stream-window''), (''endDate'', JNum (of_nat e)),
           (''chunkIndex'', JNum (of_nat c)),
           (''streamCursor'', case t of None \<Rightarrow> JNull | Some s \<Rightarrow> JStr s)]"

section \<open>Skipped pages\<close>

definition code_name :: "sync_error_code \<Rightarrow> string" where
  "code_name c =
     (case c of MARKETPLACE_AUTH_FAILED \<Rightarrow> ''MARKETPLACE_AUTH_FAILED''
      | MARKETPLACE_ACCESS_DENIED \<Rightarrow> ''MARKETPLACE_ACCESS_DENIED''
      | MARKETPLACE_UNREACHABLE \<Rightarrow> ''MARKETPLACE_UNREACHABLE''
      | SYNC_IN_PROGRESS \<Rightarrow> ''SYNC_IN_PROGRESS'' | RATE_LIMITED \<Rightarrow> ''RATE_LIMITED''
      | VALIDATION_ERROR \<Rightarrow> ''VALIDATION_ERROR'' | INTERNAL_ERROR \<Rightarrow> ''INTERNAL_ERROR'')"

definition sync_error_codes :: "sync_error_code list" where
  "sync_error_codes = [MARKETPLACE_AUTH_FAILED, MARKETPLACE_ACCESS_DENIED, MARKETPLACE_UNREACHABLE,
     SYNC_IN_PROGRESS, RATE_LIMITED, VALIDATION_ERROR, INTERNAL_ERROR]"

definition code_of_name :: "string \<Rightarrow> sync_error_code option" where
  "code_of_name s = find (\<lambda>c. code_name c = s) sync_error_codes"

lemma code_of_name_code_name [simp]: "code_of_name (code_name c) = Some c"
  by (cases c) (simp_all add: code_of_name_def code_name_def sync_error_codes_def)

record skipped_page =
  sp_page :: nat
  sp_attemptedAt :: string
  sp_errorCode :: sync_error_code
  sp_httpStatus :: int
  sp_xRequestId :: "string option"
  sp_responseBodySnippet :: "string option"

definition zod_int :: "json option \<Rightarrow> int option" where
  "zod_int v =
     (case v of
        Some (JNum r) \<Rightarrow>
          if r = of_int \<lfloor>r\<rfloor> \<and> \<bar>r\<bar> \<le> 2 ^ 53 - 1 then Some \<lfloor>r\<rfloor> else None
      | _ \<Rightarrow> None)"

text \<open>\<open>z.string().optional()\<close>: the outer option is the failure.\<close>

definition zod_opt_string :: "json option \<Rightarrow> string option option" where
  "zod_opt_string v =
     (case v of None \<Rightarrow> Some None | Some (JStr s) \<Rightarrow> Some (Some s) | Some _ \<Rightarrow> None)"

definition parseSkippedPage :: "json \<Rightarrow> sync_error + skipped_page" where
  "parseSkippedPage v =
     (case (zod_nat (json_field v ''page''), zod_string (json_field v ''attemptedAt''),
            zod_string (json_field v ''errorCode''), zod_int (json_field v ''httpStatus''),
            zod_opt_string (json_field v ''xRequestId''),
            zod_opt_string (json_field v ''responseBodySnippet'')) of
        (Some p, Some a, Some c, Some h, Some x, Some b) \<Rightarrow>
          (case code_of_name c of
             Some e \<Rightarrow> Inr \<lparr> sp_page = p, sp_attemptedAt = a, sp_errorCode = e, sp_httpStatus = h,
                              sp_xRequestId = x, sp_responseBodySnippet = b \<rparr>
           | None \<Rightarrow> Inl ZodError)
      | _ \<Rightarrow> Inl ZodError)"

definition parseSkippedPages :: "json option \<Rightarrow> sync_error + skipped_page list" where
  "parseSkippedPages raw =
     (case raw of
        None \<Rightarrow> Inr [] | Some JNull \<Rightarrow> Inr []
      | Some (JArr xs) \<Rightarrow> mapR parseSkippedPage xs
      | Some _ \<Rightarrow> Inl ZodError)"

definition opt_field :: "string \<Rightarrow> string option \<Rightarrow> (string \<times> json) list" where
  "opt_field k v = (case v of None \<Rightarrow> [] | Some s \<Rightarrow> [(k, JStr s)])"

definition skipped_page_json :: "skipped_page \<Rightarrow> json" where
  "skipped_page_json e =
     JObj ([(''page'', JNum (of_nat (sp_page e))), (''attemptedAt'', JStr (sp_attemptedAt e)),
            (''errorCode'', JStr (code_name (sp_errorCode e))),
            (''httpStatus'', JNum (of_int (sp_httpStatus e)))]
           @ opt_field ''xRequestId'' (sp_xRequestId e)
           @ opt_field ''responseBodySnippet'' (sp_responseBodySnippet e))"

section \<open>Enqueueing and claiming\<close>

definition active_status :: "sync_status \<Rightarrow> bool" where
  "active_status s \<longleftrightarrow> s = SS_PENDING \<or> s = SS_RUNNING \<or> s = SS_FAILED_RETRYABLE"

definition active_log :: "sync_log \<Rightarrow> bool" where
  "active_log l \<longleftrightarrow> active_status (l_status l)"

definition in_slot :: "id \<Rightarrow> sync_type \<Rightarrow> sync_log \<Rightarrow> bool" where
  "in_slot st ty l \<longleftrightarrow> l_storeId l = st \<and> l_syncType l = ty \<and> active_log l"

definition new_log :: "id \<Rightarrow> id \<Rightarrow> id \<Rightarrow> sync_type \<Rightarrow> sync_trigger_source \<Rightarrow> time \<Rightarrow> sync_log" where
  "new_log i org st ty src startedAt =
     \<lparr> l_id = i, l_organizationId = org, l_storeId = st, l_syncType = ty, l_status = SS_PENDING,
       l_triggerSource = src, l_startedAt = startedAt, l_completedAt = None,
       l_recordsProcessed = 0, l_progressCurrent = 0, l_progressTotal = None,
       l_progressStage = None, l_errorCode = None, l_errorMessage = None, l_claimedAt = None,
       l_claimedBy = None, l_lastTickAt = None, l_pageCursor = None, l_attemptCount = 0,
       l_nextAttemptAt = None, l_skippedPages = None \<rparr>"

text \<open>
  \<open>acquireSlot\<close>: the insert fails on the partial unique index when the slot has an active row,
  and the error carries the id of the row that \<open>findFirst\<close> then finds.
\<close>

definition acquireSlot ::
  "id \<Rightarrow> id \<Rightarrow> sync_type \<Rightarrow> sync_trigger_source \<Rightarrow> time option \<Rightarrow> time \<Rightarrow> sync_queue \<Rightarrow>
   sync_error + (sync_log \<times> sync_queue)" where
  "acquireSlot org st ty src startedAt now q =
     (if list_ex (in_slot st ty) (q_logs q) then
        Inl (SyncInProgressError ty st (map_option l_id (find (in_slot st ty) (q_logs q))))
      else
        let l = new_log (q_nextId q) org st ty src
                  (case startedAt of None \<Rightarrow> now | Some t \<Rightarrow> t)
        in Inr (l, q \<lparr> q_logs := q_logs q @ [l], q_nextId := Suc (q_nextId q) \<rparr>))"

definition MAX_SYNC_ATTEMPTS :: nat where "MAX_SYNC_ATTEMPTS = 5"

definition claimable :: "time \<Rightarrow> sync_log \<Rightarrow> bool" where
  "claimable dbNow l \<longleftrightarrow>
     (l_status l = SS_PENDING
      \<or> l_status l = SS_FAILED_RETRYABLE
         \<and> (case l_nextAttemptAt l of None \<Rightarrow> False | Some t \<Rightarrow> t \<le> dbNow))
     \<and> l_attemptCount l < MAX_SYNC_ATTEMPTS \<and> l_startedAt l \<le> dbNow"

text \<open>\<open>COALESCE(next_attempt_at, started_at)\<close>\<close>

definition ready_at :: "sync_log \<Rightarrow> time" where
  "ready_at l = (case l_nextAttemptAt l of Some t \<Rightarrow> t | None \<Rightarrow> l_startedAt l)"

definition claim_row :: "string \<Rightarrow> time \<Rightarrow> sync_log \<Rightarrow> sync_log" where
  "claim_row w now l =
     l \<lparr> l_status := SS_RUNNING, l_claimedAt := Some now, l_claimedBy := Some w,
         l_lastTickAt := Some now, l_attemptCount := Suc (l_attemptCount l) \<rparr>"

text \<open>
  \<open>tryClaimNext\<close>: \<open>locked\<close> are the rows other transactions hold, which
  \<open>FOR UPDATE SKIP LOCKED\<close> passes over.
\<close>

definition tryClaimNext ::
  "(id \<Rightarrow> bool) \<Rightarrow> time \<Rightarrow> time \<Rightarrow> string \<Rightarrow> sync_queue \<Rightarrow> sync_log option \<times> sync_queue" where
  "tryClaimNext locked dbNow now w q =
     (case least_by ready_at (filter (\<lambda>l. claimable dbNow l \<and> \<not> locked (l_id l)) (q_logs q)) of
        None \<Rightarrow> (None, q)
      | Some l \<Rightarrow>
          (Some (claim_row w now l), update_logs (\<lambda>r. l_id r = l_id l) (claim_row w now) q))"

section \<open>The writes of a claim holder\<close>

definition holds_lease :: "id \<Rightarrow> string \<Rightarrow> sync_log \<Rightarrow> bool" where
  "holds_lease i w l \<longleftrightarrow> l_id l = i \<and> l_claimedBy l = Some w \<and> l_status l = SS_RUNNING"

definition fencedUpdate ::
  "id \<Rightarrow> string \<Rightarrow> (sync_log \<Rightarrow> sync_log) \<Rightarrow> sync_queue \<Rightarrow> sync_error + sync_queue" where
  "fencedUpdate i w g q =
     (if list_ex (holds_lease i w) (q_logs q) then Inr (update_logs (holds_lease i w) g q)
      else Inl (LostLeaseError i w))"

definition complete :: "id \<Rightarrow> int \<Rightarrow> string \<Rightarrow> time \<Rightarrow> sync_queue \<Rightarrow> sync_error + sync_queue" where
  "complete i syncedCount w now =
     fencedUpdate i w (\<lambda>l. l \<lparr> l_status := SS_COMPLETED, l_completedAt := Some now,
       l_recordsProcessed := syncedCount, l_progressCurrent := syncedCount,
       l_errorCode := None, l_errorMessage := None \<rparr>)"

definition fail ::
  "id \<Rightarrow> sync_error_code \<Rightarrow> string \<Rightarrow> string \<Rightarrow> time \<Rightarrow> sync_queue \<Rightarrow> sync_error + sync_queue" where
  "fail i code msg w now =
     fencedUpdate i w (\<lambda>l. l \<lparr> l_status := SS_FAILED, l_completedAt := Some now,
       l_errorCode := Some code, l_errorMessage := Some msg \<rparr>)"

record tick_input =
  ti_cursor :: "json option"
  ti_progress :: int
  ti_total :: "int option"
  ti_stage :: string

definition tick :: "id \<Rightarrow> tick_input \<Rightarrow> string \<Rightarrow> time \<Rightarrow> sync_queue \<Rightarrow> sync_error + sync_queue" where
  "tick i inp w now =
     fencedUpdate i w (\<lambda>l. l \<lparr> l_lastTickAt := Some now, l_pageCursor := ti_cursor inp,
       l_progressCurrent := ti_progress inp, l_progressTotal := ti_total inp,
       l_progressStage := Some (ti_stage inp) \<rparr>)"

definition heartbeat :: "id \<Rightarrow> string \<Rightarrow> time \<Rightarrow> sync_queue \<Rightarrow> sync_error + sync_queue" where
  "heartbeat i w now = fencedUpdate i w (\<lambda>l. l \<lparr> l_lastTickAt := Some now \<rparr>)"

definition releaseToPending :: "id \<Rightarrow> string \<Rightarrow> sync_queue \<Rightarrow> sync_error + sync_queue" where
  "releaseToPending i w =
     fencedUpdate i w (\<lambda>l. l \<lparr> l_status := SS_PENDING, l_claimedAt := None, l_claimedBy := None,
       l_attemptCount := 0 \<rparr>)"

text \<open>
  \<open>Math.min(30_000 * Math.pow(2, attemptCount - 1), 30 * 60_000)\<close>, in milliseconds; the first
  factor is written \<open>15_000 * 2 ^ attemptCount\<close> to stay within the integers at 0.
\<close>

definition backoffMs :: "nat \<Rightarrow> int" where
  "backoffMs attemptCount = min (15000 * 2 ^ attemptCount) (30 * 60000)"

definition markRetryable ::
  "id \<Rightarrow> nat \<Rightarrow> sync_error_code \<Rightarrow> string \<Rightarrow> string \<Rightarrow> time \<Rightarrow> sync_queue \<Rightarrow>
   sync_error + sync_queue" where
  "markRetryable i attemptCount code msg w now =
     fencedUpdate i w (\<lambda>l. l \<lparr> l_status := SS_FAILED_RETRYABLE, l_errorCode := Some code,
       l_errorMessage := Some msg, l_nextAttemptAt := Some (now + backoffMs attemptCount),
       l_claimedAt := None, l_claimedBy := None \<rparr>)"

text \<open>
  \<open>recordSkippedPageAndContinue\<close>: the transaction reads the row, appends the entry and writes
  behind the fence.
\<close>

definition recordSkippedPageAndContinue ::
  "id \<Rightarrow> skipped_page \<Rightarrow> products_cursor option \<Rightarrow> string \<Rightarrow> sync_queue \<Rightarrow>
   sync_error + sync_queue" where
  "recordSkippedPageAndContinue i skipEntry nextCursor w q =
     (case find_log i q of
        None \<Rightarrow> Inl RecordNotFound
      | Some cur \<Rightarrow>
          bindR (parseSkippedPages (l_skippedPages cur)) (\<lambda>existing.
            fencedUpdate i w (\<lambda>l. l \<lparr> l_status := SS_PENDING, l_attemptCount := 0,
              l_pageCursor := map_option products_cursor_json nextCursor,
              l_skippedPages := Some (JArr (map skipped_page_json (existing @ [skipEntry]))),
              l_claimedAt := None, l_claimedBy := None, l_errorCode := None,
              l_errorMessage := None, l_nextAttemptAt := None \<rparr>) q))"

text \<open>\<open>advance\<close> is not fenced; nothing in the repository calls it.\<close>

definition advance ::
  "id \<Rightarrow> int \<Rightarrow> int option \<Rightarrow> string option \<Rightarrow> sync_queue \<Rightarrow> sync_error + sync_queue" where
  "advance i progress progressTotal stage q =
     (if find_log i q = None then Inl RecordNotFound
      else Inr (update_logs (\<lambda>l. l_id l = i) (\<lambda>l. l \<lparr> l_progressCurrent := progress,
        l_progressTotal := progressTotal,
        l_progressStage := (case stage of None \<Rightarrow> l_progressStage l | Some s \<Rightarrow> Some s) \<rparr>) q))"

section \<open>The watchdog\<close>

definition STALE_THRESHOLD_SECONDS :: int where "STALE_THRESHOLD_SECONDS = 90"

definition stale :: "time \<Rightarrow> sync_log \<Rightarrow> bool" where
  "stale thresholdAt l \<longleftrightarrow>
     l_status l = SS_RUNNING \<and> (case l_lastTickAt l of None \<Rightarrow> False | Some t \<Rightarrow> t < thresholdAt)"

definition exhausted :: "time \<Rightarrow> sync_log \<Rightarrow> bool" where
  "exhausted thresholdAt l \<longleftrightarrow>
     MAX_SYNC_ATTEMPTS \<le> l_attemptCount l
     \<and> (stale thresholdAt l \<or> l_status l = SS_PENDING \<or> l_status l = SS_FAILED_RETRYABLE)"

definition reap :: "time \<Rightarrow> sync_log \<Rightarrow> sync_log" where
  "reap dbNow l =
     l \<lparr> l_status := SS_FAILED, l_completedAt := Some dbNow, l_errorCode := Some INTERNAL_ERROR,
         l_errorMessage := Some ''attempt limit exhausted (watchdog reaper)'',
         l_claimedAt := None, l_claimedBy := None \<rparr>"

definition requeue :: "sync_log \<Rightarrow> sync_log" where
  "requeue l = l \<lparr> l_status := SS_PENDING, l_claimedAt := None, l_claimedBy := None \<rparr>"

definition sweepStaleClaims :: "time \<Rightarrow> time \<Rightarrow> sync_queue \<Rightarrow> nat \<times> sync_queue" where
  "sweepStaleClaims dbNow now q =
     (let thresholdAt = now - STALE_THRESHOLD_SECONDS * 1000;
          q1 = update_logs (exhausted thresholdAt) (reap dbNow) q;
          requeuable = (\<lambda>l. stale thresholdAt l \<and> l_attemptCount l < MAX_SYNC_ATTEMPTS)
      in (length (filter (exhausted thresholdAt) (q_logs q))
            + length (filter requeuable (q_logs q1)),
          update_logs requeuable requeue q1))"

section \<open>Reads\<close>

definition by_started_desc :: "sync_log list \<Rightarrow> sync_log list" where
  "by_started_desc = sort_key (\<lambda>l. - l_startedAt l)"

definition finished_log :: "sync_log \<Rightarrow> bool" where
  "finished_log l \<longleftrightarrow> l_status l = SS_COMPLETED \<or> l_status l = SS_FAILED"

text \<open>The organization of a row is read through its store (\<open>store: { organizationId }\<close>).\<close>

definition listActiveAndRecent ::
  "(id \<Rightarrow> id) \<Rightarrow> id \<Rightarrow> id \<Rightarrow> nat \<Rightarrow> sync_queue \<Rightarrow> sync_log list" where
  "listActiveAndRecent storeOrg org st recentLimit q =
     by_started_desc (filter (\<lambda>l. l_storeId l = st \<and> l_status l = SS_RUNNING
                                 \<and> storeOrg (l_storeId l) = org) (q_logs q))
     @ take recentLimit (by_started_desc (filter (\<lambda>l. l_storeId l = st \<and> finished_log l
                                                     \<and> storeOrg (l_storeId l) = org) (q_logs q)))"

definition in_stores :: "id list option \<Rightarrow> sync_log \<Rightarrow> bool" where
  "in_stores storeIds l = (case storeIds of None \<Rightarrow> True | Some ids \<Rightarrow> l_storeId l \<in> set ids)"

definition listOrgActiveAndRecent ::
  "id \<Rightarrow> bool \<Rightarrow> nat option \<Rightarrow> id list option \<Rightarrow> sync_queue \<Rightarrow> sync_log list" where
  "listOrgActiveAndRecent org activeOnly limit storeIds q =
     (let recentLimit = (case limit of None \<Rightarrow> 5 | Some n \<Rightarrow> n) in
      by_started_desc (filter (\<lambda>l. l_organizationId l = org \<and> in_stores storeIds l \<and> active_log l)
        (q_logs q))
      @ (if activeOnly then []
         else take recentLimit (by_started_desc
                (filter (\<lambda>l. l_organizationId l = org \<and> in_stores storeIds l \<and> finished_log l)
                  (q_logs q)))))"

record last_sync =
  ls_storeId :: id
  ls_syncType :: sync_type
  ls_completedAt :: time
  ls_recordsProcessed :: int

text \<open>The order of the enum's values in the database, by which \<open>ORDER BY sync_type\<close> sorts.\<close>

fun type_ord :: "sync_type \<Rightarrow> nat" where
  "type_ord ORDERS = 0" | "type_ord PRODUCTS = 1" | "type_ord PRODUCTS_DELTA = 2"
| "type_ord SETTLEMENTS = 3" | "type_ord CLAIMS = 4"

definition slot_key :: "sync_log \<Rightarrow> id \<times> nat" where
  "slot_key l = (l_storeId l, type_ord (l_syncType l))"

definition done_at :: "sync_log \<Rightarrow> time" where
  "done_at l = (case l_completedAt l of None \<Rightarrow> 0 | Some t \<Rightarrow> t)"

text \<open>\<open>DISTINCT ON\<close>: the first row of each run of rows with the same key.\<close>

fun distinct_on :: "('a \<Rightarrow> 'k) \<Rightarrow> 'a list \<Rightarrow> 'a list" where
  "distinct_on key [] = []"
| "distinct_on key [x] = [x]"
| "distinct_on key (x # y # xs) =
     (if key x = key y then distinct_on key (x # xs) else x # distinct_on key (y # xs))"

definition listLastSuccessfulPerType ::
  "id \<Rightarrow> id list option \<Rightarrow> sync_queue \<Rightarrow> last_sync list" where
  "listLastSuccessfulPerType org storeIds q =
     map (\<lambda>l. \<lparr> ls_storeId = l_storeId l, ls_syncType = l_syncType l, ls_completedAt = done_at l,
               ls_recordsProcessed = l_recordsProcessed l \<rparr>)
       (distinct_on slot_key
         (sort_key (\<lambda>l. (slot_key l, - done_at l))
           (filter (\<lambda>l. l_organizationId l = org \<and> l_status l = SS_COMPLETED
                        \<and> l_completedAt l \<noteq> None \<and> in_stores storeIds l) (q_logs q))))"

definition getById :: "(id \<Rightarrow> id) \<Rightarrow> id \<Rightarrow> id \<Rightarrow> id \<Rightarrow> sync_queue \<Rightarrow> sync_error + sync_log" where
  "getById storeOrg org st i q =
     (case find (\<lambda>l. l_id l = i \<and> l_storeId l = st \<and> storeOrg (l_storeId l) = org) (q_logs q) of
        None \<Rightarrow> Inl (NotFoundError i) | Some l \<Rightarrow> Inr l)"

definition getMostRecentManualSync :: "id \<Rightarrow> id \<Rightarrow> sync_type \<Rightarrow> sync_queue \<Rightarrow> sync_log option" where
  "getMostRecentManualSync org st ty q =
     least_by (\<lambda>l. - l_startedAt l)
       (filter (\<lambda>l. l_organizationId l = org \<and> l_storeId l = st \<and> l_syncType l = ty
                    \<and> l_triggerSource l = MANUAL) (q_logs q))"

end
