(* ===== verification/Sync_Queue_Props.thy ===== *)
theory Sync_Queue_Props
  imports Sync_Queue
begin

text \<open>
  What the queue of synchronisation runs guarantees. Every writer of the queue is a step of
  \<open>queue_step\<close>; the locale \<open>invariant_system\<close> is interpreted on it, so that an invariant proved
  step by step holds of every interleaving of enqueuers, workers and watchdogs.
\<close>

section \<open>Cursors round trip\<close>

lemma zod_nat_of_nat: "n \<le> 2 ^ 53 - 1 \<Longrightarrow> zod_nat (Some (JNum (of_nat n))) = Some n"
proof -
  assume "n \<le> 2 ^ 53 - 1"
  then have "(of_nat n :: rat) \<le> of_nat (2 ^ 53 - 1)" by (simp only: of_nat_le_iff)
  then show ?thesis by (simp add: zod_nat_def)
qed

lemma zod_int_of_int: "\<bar>i\<bar> \<le> 2 ^ 53 - 1 \<Longrightarrow> zod_int (Some (JNum (of_int i))) = Some i"
proof -
  assume "\<bar>i\<bar> \<le> 2 ^ 53 - 1"
  then have "(of_int \<bar>i\<bar> :: rat) \<le> of_int (2 ^ 53 - 1)" by (simp only: of_int_le_iff)
  then show ?thesis by (simp add: zod_int_def)
qed

fun products_cursor_ok :: "products_cursor \<Rightarrow> bool" where
  "products_cursor_ok (PageCursor n) \<longleftrightarrow> n \<le> 2 ^ 53 - 1"
| "products_cursor_ok (TokenCursor t) \<longleftrightarrow> t \<noteq> []"

fun orders_cursor_ok :: "orders_cursor \<Rightarrow> bool" where
  "orders_cursor_ok (PageWindow s e n) \<longleftrightarrow> s \<le> 2 ^ 53 - 1 \<and> e \<le> 2 ^ 53 - 1 \<and> n \<le> 2 ^ 53 - 1"
| "orders_cursor_ok (StreamWindow e c t) \<longleftrightarrow> e \<le> 2 ^ 53 - 1 \<and> c \<le> 2 ^ 53 - 1"

definition skipped_page_ok :: "skipped_page \<Rightarrow> bool" where
  "skipped_page_ok e \<longleftrightarrow> sp_page e \<le> 2 ^ 53 - 1 \<and> \<bar>sp_httpStatus e\<bar> \<le> 2 ^ 53 - 1"

lemma parse_skipped_page: "skipped_page_ok e \<Longrightarrow> parseSkippedPage (skipped_page_json e) = Inr e"
  by (cases e, cases "sp_xRequestId e"; cases "sp_responseBodySnippet e")
    (auto simp: skipped_page_ok_def parseSkippedPage_def skipped_page_json_def opt_field_def
      zod_string_def zod_opt_string_def zod_nat_of_nat zod_int_of_int)

lemma parse_products_cursor:
  "products_cursor_ok c \<Longrightarrow> parseProductsCursor (Some (products_cursor_json c)) = Inr (Some c)"
  by (cases c) (auto simp: parseProductsCursor_def zod_string_def zod_nat_of_nat)

lemma parse_orders_cursor:
  "orders_cursor_ok c \<Longrightarrow> parseOrdersCursor (Some (orders_cursor_json c)) = Inr (Some c)"
  by (cases c) (auto simp: parseOrdersCursor_def zod_string_def zod_nat_of_nat split: option.splits)

text \<open>C24: What a worker saves, the next claimer reads back: a products cursor, an orders cursor and
  a list of skipped pages with safe integers (and a non-empty page token) parse from the JSON they
  are stored as to themselves, and a fresh row's missing cursor parses to no cursor.\<close>
theorem checkpoint_roundtrip:
  assumes "products_cursor_ok c" and "orders_cursor_ok oc" and "\<forall>e \<in> set es. skipped_page_ok e"
  shows "parseProductsCursor (Some (products_cursor_json c)) = Inr (Some c)
    \<and> parseOrdersCursor (Some (orders_cursor_json oc)) = Inr (Some oc)
    \<and> parseSkippedPages (Some (JArr (map skipped_page_json es))) = Inr es
    \<and> parseProductsCursor None = Inr None \<and> parseOrdersCursor None = Inr None
    \<and> parseSkippedPages None = Inr []"
  using assms
  by (simp add: parse_products_cursor parse_orders_cursor parse_skipped_page mapR_map
      parseSkippedPages_def parseProductsCursor_def [where raw = None]
      parseOrdersCursor_def [where raw = None])

definition example_skip :: skipped_page where
  "example_skip = \<lparr> sp_page = 3, sp_attemptedAt = ''2026-01-01'',
     sp_errorCode = MARKETPLACE_UNREACHABLE, sp_httpStatus = 502, sp_xRequestId = None,
     sp_responseBodySnippet = Some ''bad gateway'' \<rparr>"

theorem checkpoint_roundtrip_witness:
  "parseProductsCursor (Some (products_cursor_json (PageCursor 25))) = Inr (Some (PageCursor 25))
   \<and> parseOrdersCursor (Some (orders_cursor_json (StreamWindow 7 2 (Some ''abc''))))
       = Inr (Some (StreamWindow 7 2 (Some ''abc'')))
   \<and> parseSkippedPages (Some (JArr (map skipped_page_json [example_skip]))) = Inr [example_skip]"
  using checkpoint_roundtrip [of "PageCursor 25" "StreamWindow 7 2 (Some ''abc'')" "[example_skip]"]
  by (simp only: products_cursor_ok.simps orders_cursor_ok.simps)
    (simp add: skipped_page_ok_def example_skip_def)

section \<open>The invariant\<close>

definition log_ok :: "sync_log \<Rightarrow> bool" where
  "log_ok l \<longleftrightarrow>
     l_attemptCount l \<le> MAX_SYNC_ATTEMPTS
     \<and> (case l_status l of
          SS_PENDING \<Rightarrow> l_claimedBy l = None \<and> l_claimedAt l = None
        | SS_RUNNING \<Rightarrow> l_claimedBy l \<noteq> None \<and> l_claimedAt l \<noteq> None \<and> l_lastTickAt l \<noteq> None
                        \<and> 0 < l_attemptCount l
        | SS_FAILED_RETRYABLE \<Rightarrow> l_claimedBy l = None \<and> l_claimedAt l = None
                        \<and> l_nextAttemptAt l \<noteq> None \<and> l_errorCode l \<noteq> None
        | SS_COMPLETED \<Rightarrow> l_completedAt l \<noteq> None \<and> l_errorCode l = None
        | SS_FAILED \<Rightarrow> l_completedAt l \<noteq> None \<and> l_errorCode l \<noteq> None)"

definition same_slot :: "sync_log \<Rightarrow> sync_log \<Rightarrow> bool" where
  "same_slot l m \<longleftrightarrow> l_storeId l = l_storeId m \<and> l_syncType l = l_syncType m"

definition queue_ok :: "sync_queue \<Rightarrow> bool" where
  "queue_ok q \<longleftrightarrow>
     distinct (map l_id (q_logs q)) \<and> (\<forall>l \<in> set (q_logs q). l_id l < q_nextId q)
     \<and> (\<forall>l \<in> set (q_logs q). log_ok l)
     \<and> (\<forall>l \<in> set (q_logs q). \<forall>m \<in> set (q_logs q).
          active_log l \<and> active_log m \<and> same_slot l m \<longrightarrow> l_id l = l_id m)"

text \<open>A rewriting of rows that keeps the identity and the slot and revives nothing.\<close>

definition row_step :: "(sync_log \<Rightarrow> bool) \<Rightarrow> (sync_log \<Rightarrow> sync_log) \<Rightarrow> bool" where
  "row_step P g \<longleftrightarrow>
     (\<forall>l. P l \<and> log_ok l \<longrightarrow>
        log_ok (g l) \<and> l_id (g l) = l_id l \<and> same_slot (g l) l \<and> active_log l)"

lemma row_stepI:
  "(\<And>l. P l \<Longrightarrow> log_ok l \<Longrightarrow> log_ok (g l) \<and> l_id (g l) = l_id l \<and> same_slot (g l) l \<and> active_log l)
   \<Longrightarrow> row_step P g"
  by (simp add: row_step_def)

lemma row_stepD:
  assumes "row_step P g" and "log_ok l"
  shows "log_ok (if P l then g l else l)" "l_id (if P l then g l else l) = l_id l"
    "same_slot (if P l then g l else l) l" "active_log (if P l then g l else l) \<Longrightarrow> active_log l"
  using assms by (auto simp: row_step_def same_slot_def split: if_splits)

lemma queue_ok_update:
  assumes q: "queue_ok q" and step: "row_step P g"
  shows "queue_ok (update_logs P g q)"
proof -
  let ?h = "\<lambda>l. if P l then g l else l"
  have logs: "q_logs (update_logs P g q) = map ?h (q_logs q)" by (simp add: update_where_def)
  have ok: "log_ok l" if "l \<in> set (q_logs q)" for l using q that by (simp add: queue_ok_def)
  note h = row_stepD [OF step ok]
  have ids: "map l_id (map ?h (q_logs q)) = map l_id (q_logs q)" using h(2) by auto
  have uniq: "l_id (?h l) = l_id (?h m)"
    if "l \<in> set (q_logs q)" "m \<in> set (q_logs q)"
      "active_log (?h l)" "active_log (?h m)" "same_slot (?h l) (?h m)" for l m
  proof -
    have "active_log l" "active_log m" using h(4) that by blast+
    moreover have "same_slot l m"
      using h(3) [OF that(1)] h(3) [OF that(2)] that(5) by (simp only: same_slot_def)
    ultimately have "l_id l = l_id m" using q that by (simp add: queue_ok_def)
    then show ?thesis using h(2) that by simp
  qed
  have fresh: "l_id (?h l) < q_nextId q" if "l \<in> set (q_logs q)" for l
    using h(2) [OF that] q that by (simp only: queue_ok_def)
  have "distinct (map l_id (q_logs q))" using q by (simp add: queue_ok_def)
  then show ?thesis
    unfolding queue_ok_def logs update_logs_sel(2) ids set_map
    using h(1) uniq fresh by blast
qed

lemma queue_ok_fenced:
  assumes "queue_ok q" and "row_step (holds_lease i w) g" and "fencedUpdate i w g q = Inr q'"
  shows "queue_ok q'"
  using assms queue_ok_update by (auto simp: fencedUpdate_def split: if_splits)

lemma holds_lease_active: "holds_lease i w l \<Longrightarrow> active_log l"
  by (simp add: holds_lease_def active_log_def active_status_def)

lemmas lease_step_simps =
  holds_lease_def log_ok_def same_slot_def active_log_def active_status_def

lemma claim_row_step: "row_step (\<lambda>r. claimable t r \<and> P r) (claim_row w now)"
  by (rule row_stepI)
    (auto simp: claimable_def claim_row_def log_ok_def same_slot_def active_log_def
      active_status_def split: option.splits)

lemma requeue_row_step: "row_step (\<lambda>l. stale t l \<and> l_attemptCount l < MAX_SYNC_ATTEMPTS) requeue"
  by (rule row_stepI)
    (auto simp: stale_def requeue_def log_ok_def same_slot_def active_log_def active_status_def)

lemma reap_row_step: "row_step (exhausted t) (reap dbNow)"
  by (rule row_stepI)
    (auto simp: exhausted_def stale_def reap_def log_ok_def same_slot_def active_log_def
      active_status_def)

section \<open>The steps\<close>

text \<open>The writes a claim holder makes, so that they can be ranged over.\<close>

datatype lease_write =
    W_tick tick_input
  | W_heartbeat
  | W_complete int
  | W_fail sync_error_code string
  | W_retry nat sync_error_code string
  | W_release
  | W_skip skipped_page "products_cursor option"

fun lease_apply ::
  "lease_write \<Rightarrow> id \<Rightarrow> string \<Rightarrow> time \<Rightarrow> sync_queue \<Rightarrow> sync_error + sync_queue" where
  "lease_apply (W_tick inp) i w now q = tick i inp w now q"
| "lease_apply W_heartbeat i w now q = heartbeat i w now q"
| "lease_apply (W_complete n) i w now q = complete i n w now q"
| "lease_apply (W_fail c m) i w now q = fail i c m w now q"
| "lease_apply (W_retry k c m) i w now q = markRetryable i k c m w now q"
| "lease_apply W_release i w now q = releaseToPending i w q"
| "lease_apply (W_skip e c) i w now q = recordSkippedPageAndContinue i e c w q"

text \<open>Whatever the write, it is one fenced update, which never moves a row to another claimant.\<close>

definition lease_keeps :: "(sync_log \<Rightarrow> sync_log) \<Rightarrow> bool" where
  "lease_keeps g \<longleftrightarrow>
     (\<forall>l. (l_status (g l) = SS_RUNNING \<longrightarrow> l_status l = SS_RUNNING)
          \<and> (l_claimedBy (g l) = None \<or> l_claimedBy (g l) = l_claimedBy l) \<and> l_id (g l) = l_id l)"

lemma lease_apply_fenced:
  assumes "lease_apply wr i w now q = Inr q'"
  obtains g where "fencedUpdate i w g q = Inr q'" and "row_step (holds_lease i w) g" and "lease_keeps g"
proof (cases wr)
  case (W_skip e c)
  then obtain cur existing where "find_log i q = Some cur"
      "parseSkippedPages (l_skippedPages cur) = Inr existing"
    using assms by (auto simp: recordSkippedPageAndContinue_def split: option.splits elim!: bindR_InrE)
  with W_skip assms show thesis
    by (intro that, simp add: recordSkippedPageAndContinue_def)
      (auto intro!: row_stepI simp: lease_step_simps lease_keeps_def)
next
  case (W_tick inp)
  show thesis
    using assms unfolding W_tick lease_apply.simps tick_def
    by (rule that) (auto intro!: row_stepI simp: lease_step_simps lease_keeps_def)
next
  case W_heartbeat
  show thesis
    using assms unfolding W_heartbeat lease_apply.simps heartbeat_def
    by (rule that) (auto intro!: row_stepI simp: lease_step_simps lease_keeps_def)
next
  case (W_complete n)
  show thesis
    using assms unfolding W_complete lease_apply.simps complete_def
    by (rule that) (auto intro!: row_stepI simp: lease_step_simps lease_keeps_def)
next
  case (W_fail c m)
  show thesis
    using assms unfolding W_fail lease_apply.simps fail_def
    by (rule that) (auto intro!: row_stepI simp: lease_step_simps lease_keeps_def)
next
  case (W_retry k c m)
  show thesis
    using assms unfolding W_retry lease_apply.simps markRetryable_def
    by (rule that) (auto intro!: row_stepI simp: lease_step_simps lease_keeps_def)
next
  case W_release
  show thesis
    using assms unfolding W_release lease_apply.simps releaseToPending_def
    by (rule that) (auto intro!: row_stepI simp: lease_step_simps lease_keeps_def)
qed

datatype queue_label = Enqueue | Claim string | Write string | Sweep

inductive queue_event :: "queue_label \<Rightarrow> sync_queue \<Rightarrow> sync_queue \<Rightarrow> bool" where
  ev_enqueue: "acquireSlot org st ty src startedAt now q = Inr (l, q') \<Longrightarrow> queue_event Enqueue q q'"
| ev_claim: "tryClaimNext locked dbNow now w q = (Some l, q') \<Longrightarrow> queue_event (Claim w) q q'"
| ev_write: "lease_apply wr i w now q = Inr q' \<Longrightarrow> queue_event (Write w) q q'"
| ev_sweep: "sweepStaleClaims dbNow now q = (n, q') \<Longrightarrow> queue_event Sweep q q'"

definition queue_step :: "sync_queue \<Rightarrow> sync_queue \<Rightarrow> bool" where
  "queue_step q q' \<longleftrightarrow> (\<exists>e. queue_event e q q')"

definition queue_init :: "sync_queue \<Rightarrow> bool" where
  "queue_init q \<longleftrightarrow> q_logs q = []"

text \<open>What each kind of step does to the rows.\<close>

lemma acquireSlot_Inr:
  assumes "acquireSlot org st ty src startedAt now q = Inr (l, q')"
  shows "\<not> list_ex (in_slot st ty) (q_logs q)" "q_logs q' = q_logs q @ [l]"
    "q_nextId q' = Suc (q_nextId q)"
    "l = new_log (q_nextId q) org st ty src (case startedAt of None \<Rightarrow> now | Some t \<Rightarrow> t)"
  using assms by (auto simp: acquireSlot_def Let_def split: if_splits)

lemma tryClaimNext_Some:
  assumes "tryClaimNext locked dbNow now w q = (Some l', q')"
  obtains l where "l \<in> set (q_logs q)" and "claimable dbNow l" and "\<not> locked (l_id l)"
    and "\<forall>m \<in> set (q_logs q). claimable dbNow m \<and> \<not> locked (l_id m) \<longrightarrow> ready_at l \<le> ready_at m"
    and "l' = claim_row w now l"
    and "q' = update_logs (\<lambda>r. l_id r = l_id l) (claim_row w now) q"
proof -
  let ?c = "filter (\<lambda>l. claimable dbNow l \<and> \<not> locked (l_id l)) (q_logs q)"
  obtain l where l: "least_by ready_at ?c = Some l"
    and eqs: "l' = claim_row w now l" "q' = update_logs (\<lambda>r. l_id r = l_id l) (claim_row w now) q"
    using assms unfolding tryClaimNext_def by (auto split: option.splits)
  have mem: "l \<in> set ?c" using l by (rule least_by_mem)
  have least: "\<forall>m \<in> set (q_logs q). claimable dbNow m \<and> \<not> locked (l_id m) \<longrightarrow> ready_at l \<le> ready_at m"
    using least_by_least [OF l] by simp
  show thesis by (rule that [OF _ _ _ least eqs]) (use mem in simp_all)
qed

text \<open>With distinct ids a claim rewrites the one row that was claimable.\<close>

lemma update_logs_by_id:
  assumes "distinct (map l_id (q_logs q))" and "l \<in> set (q_logs q)" and "P l"
  shows "update_logs (\<lambda>r. l_id r = l_id l) g q = update_logs (\<lambda>r. P r \<and> l_id r = l_id l) g q"
proof -
  have "l_id r = l_id l \<longleftrightarrow> P r \<and> l_id r = l_id l" if "r \<in> set (q_logs q)" for r
    using assms that by (metis eq_key_imp_eq_value inj_on_eq_iff distinct_map)
  then have "update_where (\<lambda>r. l_id r = l_id l) g (q_logs q)
      = update_where (\<lambda>r. P r \<and> l_id r = l_id l) g (q_logs q)"
    unfolding update_where_def by (intro map_cong) auto
  then show ?thesis by (simp add: update_logs_def)
qed

lemma queue_ok_enqueue:
  assumes q: "queue_ok q" and e: "acquireSlot org st ty src startedAt now q = Inr (l, q')"
  shows "queue_ok q'"
proof -
  note a = acquireSlot_Inr [OF e]
  have new: "log_ok l" "l_id l = q_nextId q" "l_storeId l = st" "l_syncType l = ty"
    unfolding a(4) by (simp_all add: new_log_def log_ok_def MAX_SYNC_ATTEMPTS_def)
  have free: "\<not> (active_log m \<and> l_storeId m = st \<and> l_syncType m = ty)" if "m \<in> set (q_logs q)" for m
    using a(1) that by (auto simp: in_slot_def list_ex_iff)
  have fresh: "\<forall>m \<in> set (q_logs q). l_id m < q_nextId q" and d: "distinct (map l_id (q_logs q))"
    and ok: "\<forall>m \<in> set (q_logs q). log_ok m"
    and uniq: "\<And>m n. m \<in> set (q_logs q) \<Longrightarrow> n \<in> set (q_logs q) \<Longrightarrow> active_log m \<Longrightarrow> active_log n \<Longrightarrow>
      same_slot m n \<Longrightarrow> l_id m = l_id n"
    using q by (auto simp: queue_ok_def)
  have 1: "distinct (map l_id (q_logs q @ [l]))" using d fresh new(2) by auto
  have 2: "\<forall>m \<in> set (q_logs q @ [l]). l_id m < Suc (q_nextId q)" using fresh new(2) by auto
  have 3: "\<forall>m \<in> set (q_logs q @ [l]). log_ok m" using ok new(1) by simp
  have 4: "l_id m = l_id n"
    if mn: "m \<in> set (q_logs q @ [l])" "n \<in> set (q_logs q @ [l])"
      "active_log m \<and> active_log n \<and> same_slot m n" for m n
  proof -
    consider (old) "m \<in> set (q_logs q)" "n \<in> set (q_logs q)" | (new_m) "m = l" "n \<in> set (q_logs q)"
      | (new_n) "n = l" "m \<in> set (q_logs q)" | (both) "m = l" "n = l"
      using mn(1,2) by auto
    then show ?thesis
    proof cases
      case old then show ?thesis using uniq mn(3) by blast
    next
      case new_m then show ?thesis using free [of n] mn(3) new(3,4) by (simp add: same_slot_def)
    next
      case new_n then show ?thesis using free [of m] mn(3) new(3,4) by (simp add: same_slot_def)
    qed simp
  qed
  show ?thesis
    unfolding queue_ok_def a(2,3) using 1 2 3 4 by blast
qed

lemma queue_event_ok: "queue_event e q q' \<Longrightarrow> queue_ok q \<Longrightarrow> queue_ok q'"
proof (induction rule: queue_event.induct)
  case (ev_enqueue org st ty src startedAt now q l q')
  then show ?case by (rule queue_ok_enqueue [rotated])
next
  case (ev_claim locked dbNow now w q l q')
  from ev_claim(1) obtain l0 where l0: "l0 \<in> set (q_logs q)" "claimable dbNow l0"
    and q': "q' = update_logs (\<lambda>r. l_id r = l_id l0) (claim_row w now) q"
    by (rule tryClaimNext_Some)
  have "distinct (map l_id (q_logs q))" using ev_claim(2) by (simp add: queue_ok_def)
  from update_logs_by_id [where P = "claimable dbNow", OF this l0]
  show ?case unfolding q' using queue_ok_update [OF ev_claim(2) claim_row_step] by simp
next
  case (ev_write wr i w now q q')
  from ev_write(1) obtain g where "fencedUpdate i w g q = Inr q'" "row_step (holds_lease i w) g"
    by (rule lease_apply_fenced)
  from queue_ok_fenced [OF ev_write(2) this(2,1)] show ?case .
next
  case (ev_sweep dbNow now q n q')
  let ?t = "now - STALE_THRESHOLD_SECONDS * 1000"
  have q': "q' = update_logs (\<lambda>l. stale ?t l \<and> l_attemptCount l < MAX_SYNC_ATTEMPTS) requeue
      (update_logs (exhausted ?t) (reap dbNow) q)"
    using ev_sweep(1) by (simp add: sweepStaleClaims_def Let_def)
  show ?case
    unfolding q'
    by (rule queue_ok_update [OF queue_ok_update [OF ev_sweep(2) reap_row_step] requeue_row_step])
qed

interpretation queue_sys: invariant_system queue_init queue_step queue_ok
proof unfold_locales
  show "queue_init q \<Longrightarrow> queue_ok q" for q by (simp add: queue_init_def queue_ok_def)
  show "queue_ok q \<Longrightarrow> queue_step q q' \<Longrightarrow> queue_ok q'" for q q'
    unfolding queue_step_def by (elim exE queue_event_ok)
qed

section \<open>Slots\<close>

lemma queue_ok_distinct: "queue_ok q \<Longrightarrow> distinct (map l_id (q_logs q))"
  by (simp add: queue_ok_def)

lemma queue_ok_log: "queue_ok q \<Longrightarrow> l \<in> set (q_logs q) \<Longrightarrow> log_ok l"
  by (simp add: queue_ok_def)

lemma queue_ok_slot:
  "queue_ok q \<Longrightarrow> l \<in> set (q_logs q) \<Longrightarrow> m \<in> set (q_logs q) \<Longrightarrow> active_log l \<Longrightarrow> active_log m \<Longrightarrow>
   same_slot l m \<Longrightarrow> l_id l = l_id m"
  unfolding queue_ok_def by blast

lemma queue_ok_fresh: "queue_ok q \<Longrightarrow> q_nextId q \<notin> l_id ` set (q_logs q)"
  unfolding queue_ok_def by auto

lemma log_ok_running:
  "log_ok l \<Longrightarrow> l_attemptCount l \<le> 5 \<and> (l_status l = SS_RUNNING \<longleftrightarrow> active_log l \<and> l_claimedBy l \<noteq> None)"
  by (cases "l_status l")
    (simp_all add: log_ok_def MAX_SYNC_ATTEMPTS_def active_log_def active_status_def)

lemma at_most_one:
  assumes "distinct (map f xs)" and "\<And>x y. x \<in> set xs \<Longrightarrow> y \<in> set xs \<Longrightarrow> P x \<Longrightarrow> P y \<Longrightarrow> f x = f y"
  shows "length (filter P xs) \<le> 1"
proof (cases "filter P xs")
  case (Cons a as)
  then show ?thesis
  proof (cases as)
    case (Cons b bs)
    with \<open>filter P xs = a # as\<close> have ab: "filter P xs = a # b # bs" by simp
    have "a \<in> set (filter P xs)" "b \<in> set (filter P xs)" by (simp_all add: ab)
    then have "f a = f b" using assms(2) by simp
    moreover have "distinct (map f (filter P xs))" using assms(1) by (simp add: distinct_map_filter)
    ultimately show ?thesis by (simp add: ab)
  qed simp
qed simp

text \<open>C21: In every state the enqueuers, workers and watchdogs can reach together, a store has at
  most one active run of a type; a row is RUNNING exactly when it is active and claimed, and it has
  been attempted at most five times. Enqueueing then succeeds with a fresh PENDING row exactly when
  the slot is free, and otherwise reports the id of the run that occupies it.\<close>
theorem slot_unique:
  assumes "reach queue_init queue_step q"
  shows "length (filter (in_slot st ty) (q_logs q)) \<le> 1
    \<and> (\<forall>l \<in> set (q_logs q). l_attemptCount l \<le> 5
         \<and> (l_status l = SS_RUNNING \<longleftrightarrow> active_log l \<and> l_claimedBy l \<noteq> None))
    \<and> (case find (in_slot st ty) (q_logs q) of
         Some l \<Rightarrow> acquireSlot org st ty src startedAt now q
                    = Inl (SyncInProgressError ty st (Some (l_id l)))
       | None \<Rightarrow> \<exists>l q'. acquireSlot org st ty src startedAt now q = Inr (l, q')
                  \<and> l_status l = SS_PENDING \<and> l_id l \<notin> l_id ` set (q_logs q)
                  \<and> q_logs q' = q_logs q @ [l])"
proof (intro conjI)
  have ok: "queue_ok q" using assms by (rule queue_sys.inv_reach)
  show "length (filter (in_slot st ty) (q_logs q)) \<le> 1"
  proof (rule at_most_one [OF queue_ok_distinct [OF ok]])
    fix l m assume "l \<in> set (q_logs q)" "m \<in> set (q_logs q)" "in_slot st ty l" "in_slot st ty m"
    then show "l_id l = l_id m"
      by (intro queue_ok_slot [OF ok]) (simp_all add: in_slot_def same_slot_def)
  qed
  show "\<forall>l \<in> set (q_logs q). l_attemptCount l \<le> 5
         \<and> (l_status l = SS_RUNNING \<longleftrightarrow> active_log l \<and> l_claimedBy l \<noteq> None)"
    by (intro ballI log_ok_running queue_ok_log [OF ok])
  show "case find (in_slot st ty) (q_logs q) of
         Some l \<Rightarrow> acquireSlot org st ty src startedAt now q
                    = Inl (SyncInProgressError ty st (Some (l_id l)))
       | None \<Rightarrow> \<exists>l q'. acquireSlot org st ty src startedAt now q = Inr (l, q')
                  \<and> l_status l = SS_PENDING \<and> l_id l \<notin> l_id ` set (q_logs q)
                  \<and> q_logs q' = q_logs q @ [l]"
  proof (cases "find (in_slot st ty) (q_logs q)")
    case None
    then have "\<not> list_ex (in_slot st ty) (q_logs q)" by (auto simp: find_None_all list_ex_iff)
    with queue_ok_fresh [OF ok] show ?thesis
      by (simp add: None acquireSlot_def Let_def new_log_def)
  next
    case (Some l)
    then have "list_ex (in_slot st ty) (q_logs q)" using find_Some_in by (fastforce simp: list_ex_iff)
    with Some show ?thesis by (simp add: acquireSlot_def)
  qed
qed

section \<open>Terminal rows\<close>

lemma update_logs_keeps: "l \<in> set (q_logs q) \<Longrightarrow> \<not> P l \<Longrightarrow> l \<in> set (q_logs (update_logs P g q))"
  by (force simp: set_update_where)

lemma finished_not_active: "finished_log l \<Longrightarrow> \<not> active_log l"
  by (auto simp: finished_log_def active_log_def active_status_def)

lemma claimable_active: "claimable t l \<Longrightarrow> active_log l"
  by (auto simp: claimable_def active_log_def active_status_def)

lemma exhausted_active: "exhausted t l \<Longrightarrow> active_log l"
  by (auto simp: exhausted_def stale_def active_log_def active_status_def)

lemma stale_active: "stale t l \<Longrightarrow> active_log l"
  by (auto simp: stale_def active_log_def active_status_def)

lemma event_keeps_terminal:
  "queue_event e q q' \<Longrightarrow> queue_ok q \<Longrightarrow> l \<in> set (q_logs q) \<Longrightarrow> \<not> active_log l \<Longrightarrow> l \<in> set (q_logs q')"
proof (induction rule: queue_event.induct)
  case (ev_enqueue org st ty src startedAt now q l0 q')
  then show ?case by (simp add: acquireSlot_Inr(2))
next
  case (ev_claim locked dbNow now w q l1 q')
  from ev_claim(1) obtain l0 where l0: "l0 \<in> set (q_logs q)" "claimable dbNow l0"
    and q': "q' = update_logs (\<lambda>r. l_id r = l_id l0) (claim_row w now) q"
    by (rule tryClaimNext_Some)
  have "\<not> (claimable dbNow l \<and> l_id l = l_id l0)" using ev_claim(4) claimable_active by blast
  then show ?case
    unfolding q' update_logs_by_id [where P = "claimable dbNow", OF queue_ok_distinct [OF ev_claim(2)] l0]
    by (intro update_logs_keeps ev_claim(3))
next
  case (ev_write wr i w now q q')
  from ev_write(1) obtain g where "fencedUpdate i w g q = Inr q'" by (rule lease_apply_fenced)
  then have "q' = update_logs (holds_lease i w) g q" by (simp add: fencedUpdate_def split: if_splits)
  moreover have "\<not> holds_lease i w l" using ev_write(4) holds_lease_active by blast
  ultimately show ?case using ev_write(3) update_logs_keeps by simp
next
  case (ev_sweep dbNow now q n q')
  let ?t = "now - STALE_THRESHOLD_SECONDS * 1000"
  have "\<not> exhausted ?t l" "\<not> stale ?t l" using ev_sweep(4) exhausted_active stale_active by blast+
  then have "l \<in> set (q_logs (update_logs (\<lambda>l. stale ?t l \<and> l_attemptCount l < MAX_SYNC_ATTEMPTS)
      requeue (update_logs (exhausted ?t) (reap dbNow) q)))"
    by (intro update_logs_keeps ev_sweep(3)) simp_all
  with ev_sweep(1) show ?case by (auto simp: sweepStaleClaims_def Let_def)
qed

lemma steps_keep_terminal:
  "steps queue_step q q' \<Longrightarrow> queue_ok q \<Longrightarrow> l \<in> set (q_logs q) \<Longrightarrow> \<not> active_log l \<Longrightarrow> l \<in> set (q_logs q')"
proof (induction rule: steps.induct)
  case (steps_step q q1 q2)
  from steps_step(1) obtain e where e: "queue_event e q q1" by (auto simp: queue_step_def)
  show ?case
    by (rule steps_step.IH [OF queue_event_ok [OF e steps_step.prems(1)]
          event_keeps_terminal [OF e steps_step.prems] steps_step.prems(3)])
qed

text \<open>A finished run is final: once a row is COMPLETED or FAILED, no enqueue, claim, write of a
  worker or sweep of a watchdog, in whatever order, changes a column of it.\<close>
theorem terminal_final:
  assumes "reach queue_init queue_step q" and "steps queue_step q q'"
    and "l \<in> set (q_logs q)" and "finished_log l"
  shows "l \<in> set (q_logs q')"
  using steps_keep_terminal [OF assms(2) queue_sys.inv_reach [OF assms(1)] assms(3)]
    finished_not_active [OF assms(4)] by simp

section \<open>Fencing\<close>

definition held :: "id \<Rightarrow> string \<Rightarrow> sync_queue \<Rightarrow> bool" where
  "held i w q \<longleftrightarrow> list_ex (holds_lease i w) (q_logs q)"

text \<open>The steps of everyone, except that worker \<open>w\<close> claims nothing.\<close>

definition step_without_claim :: "string \<Rightarrow> sync_queue \<Rightarrow> sync_queue \<Rightarrow> bool" where
  "step_without_claim w q q' \<longleftrightarrow> (\<exists>e. e \<noteq> Claim w \<and> queue_event e q q')"

lemma not_held_update:
  assumes "\<not> held i w q" and "\<And>l. P l \<Longrightarrow> holds_lease i w (g l) \<Longrightarrow> holds_lease i w l"
  shows "\<not> held i w (update_logs P g q)"
  using assms by (auto simp: held_def list_ex_iff set_update_where)

lemma not_held_event:
  "queue_event e q q' \<Longrightarrow> e \<noteq> Claim w \<Longrightarrow> \<not> held i w q \<Longrightarrow> \<not> held i w q'"
proof (induction rule: queue_event.induct)
  case (ev_enqueue org st ty src startedAt now q l q')
  have "\<not> holds_lease i w l" by (simp add: acquireSlot_Inr(4) [OF ev_enqueue(1)] new_log_def holds_lease_def)
  with ev_enqueue(3) show ?case by (simp add: acquireSlot_Inr(2) [OF ev_enqueue(1)] held_def)
next
  case (ev_claim locked dbNow now w' q l1 q')
  from ev_claim(1) obtain l0 :: sync_log
    where q': "q' = update_logs (\<lambda>r. l_id r = l_id l0) (claim_row w' now) q"
    by (elim tryClaimNext_Some) blast
  show ?case
    unfolding q' by (rule not_held_update [OF ev_claim(3)])
      (use ev_claim(2) in \<open>simp add: holds_lease_def claim_row_def\<close>)
next
  case (ev_write wr j w' now q q')
  from ev_write(1) obtain g where g: "fencedUpdate j w' g q = Inr q'" "lease_keeps g"
    by (rule lease_apply_fenced)
  have q': "q' = update_logs (holds_lease j w') g q"
    using g(1) by (simp add: fencedUpdate_def split: if_splits)
  have "holds_lease i w l" if "holds_lease i w (g l)" for l
    using that g(2) unfolding lease_keeps_def holds_lease_def by (metis option.distinct(1))
  then show ?case unfolding q' by (intro not_held_update [OF ev_write(3)])
next
  case (ev_sweep dbNow now q n q')
  have r: "\<not> holds_lease i w (reap dbNow l)" "\<not> holds_lease i w (requeue l)" for l
    by (simp_all add: holds_lease_def reap_def requeue_def)
  have "\<not> held i w (update_logs P requeue (update_logs P' (reap dbNow) q))" for P P'
    by (intro not_held_update ev_sweep(3)) (use r in blast)+
  then show ?case using ev_sweep(1) by (auto simp: sweepStaleClaims_def Let_def)
qed

lemma not_held_steps:
  "steps (step_without_claim w) q q' \<Longrightarrow> \<not> held i w q \<Longrightarrow> \<not> held i w q'"
  by (induction rule: steps.induct) (auto simp: step_without_claim_def dest: not_held_event)

lemma lease_apply_refused:
  assumes "\<not> held i w q"
  shows "\<exists>e. lease_apply wr i w now q = Inl e" and "(\<forall>e c. wr \<noteq> W_skip e c) \<Longrightarrow> lease_apply wr i w now q = Inl (LostLeaseError i w)"
proof -
  have f: "fencedUpdate i w g q = Inl (LostLeaseError i w)" for g
    using assms by (simp add: fencedUpdate_def held_def)
  show "\<exists>e. lease_apply wr i w now q = Inl e"
    by (cases "lease_apply wr i w now q") (auto elim!: lease_apply_fenced simp: f)
  show "(\<forall>e c. wr \<noteq> W_skip e c) \<Longrightarrow> lease_apply wr i w now q = Inl (LostLeaseError i w)"
    by (cases wr) (simp_all add: f tick_def heartbeat_def complete_def fail_def markRetryable_def
        releaseToPending_def)
qed

text \<open>C22: A worker that has lost its lease writes nothing: from a state in which a row is not
  RUNNING under the worker's id (the watchdog requeued or reaped it, or a peer has claimed it since),
  and as long as that worker claims nothing itself, whatever everyone else does, each of its tick,
  heartbeat, complete, fail, retry and release on the row throws LostLeaseError, and skipping a page
  throws too.\<close>
theorem stale_owner_fenced:
  assumes "\<not> held i w q" and "steps (step_without_claim w) q q'"
  shows "(\<exists>e. lease_apply wr i w now q' = Inl e)
    \<and> ((\<forall>e c. wr \<noteq> W_skip e c) \<longrightarrow> lease_apply wr i w now q' = Inl (LostLeaseError i w))"
  using lease_apply_refused [OF not_held_steps [OF assms(2,1)]] by blast

section \<open>Claiming and sweeping\<close>

lemma claim_not_claimable: "\<not> claimable t (claim_row w now l)"
  by (simp add: claimable_def claim_row_def)

text \<open>A claim takes a row that is ready (PENDING, or retryable with its backoff elapsed, under
  the attempt cap and not scheduled for later) and not locked by a peer, one that has been ready for
  longest, and finds none only when there is none. The row becomes RUNNING under the worker with one
  attempt more, nothing else changes, and no second claim, by whomever and whenever, takes it while
  it stays so.\<close>
theorem claim_fair:
  assumes "reach queue_init queue_step q" and "tryClaimNext locked dbNow now w q = (r, q')"
  shows "case r of
      None \<Rightarrow> q' = q \<and> (\<forall>l \<in> set (q_logs q). \<not> claimable dbNow l \<or> locked (l_id l))
    | Some l' \<Rightarrow>
        (\<exists>l \<in> set (q_logs q). claimable dbNow l \<and> \<not> locked (l_id l) \<and> l' = claim_row w now l
           \<and> (\<forall>m \<in> set (q_logs q). claimable dbNow m \<and> \<not> locked (l_id m) \<longrightarrow> ready_at l \<le> ready_at m)
           \<and> set (q_logs q') = insert l' (set (q_logs q) - {l}))
        \<and> (\<forall>locked2 t2 n2 w2 m q''. tryClaimNext locked2 t2 n2 w2 q' = (Some m, q'') \<longrightarrow> l_id m \<noteq> l_id l')"
proof (cases r)
  case None
  have "q' = q \<and> filter (\<lambda>l. claimable dbNow l \<and> \<not> locked (l_id l)) (q_logs q) = []"
    using assms(2) None by (auto simp: tryClaimNext_def split: option.splits)
  with None show ?thesis by (auto simp: filter_empty_conv)
next
  case (Some l')
  from assms(2) have "tryClaimNext locked dbNow now w q = (Some l', q')" by (simp add: Some)
  then obtain l where l: "l \<in> set (q_logs q)" "claimable dbNow l" "\<not> locked (l_id l)"
    and least: "\<forall>m \<in> set (q_logs q). claimable dbNow m \<and> \<not> locked (l_id m) \<longrightarrow> ready_at l \<le> ready_at m"
    and l': "l' = claim_row w now l"
    and q': "q' = update_logs (\<lambda>r. l_id r = l_id l) (claim_row w now) q"
    by (rule tryClaimNext_Some)
  have ok: "queue_ok q" using assms(1) by (rule queue_sys.inv_reach)
  have same: "m = l" if "m \<in> set (q_logs q)" "l_id m = l_id l" for m
    using that l(1) queue_ok_distinct [OF ok] by (meson eq_key_imp_eq_value inj_onD distinct_map)
  have rows: "set (q_logs q') = insert l' (set (q_logs q) - {l})"
    unfolding q' l' update_logs_sel by (rule set_update_where_one [OF l(1)]) (use same in blast)
  have id: "l_id l' = l_id l" by (simp add: l' claim_row_def)
  have "l_id m \<noteq> l_id l'" if c: "tryClaimNext locked2 t2 n2 w2 q' = (Some m, q'')"
    for locked2 t2 n2 w2 m q''
  proof
    assume eq: "l_id m = l_id l'"
    from c obtain k where k: "k \<in> set (q_logs q')" "claimable t2 k" "m = claim_row w2 n2 k"
      by (rule tryClaimNext_Some)
    have "l_id k = l_id l" using eq k(3) id by (simp add: claim_row_def)
    with k(1) rows same have "k = l'" by auto
    with k(2) show False by (simp add: l' claim_not_claimable)
  qed
  with l least l' rows show ?thesis unfolding Some option.case by blast
qed

text \<open>What the sweep does to one row.\<close>

definition swept :: "time \<Rightarrow> time \<Rightarrow> sync_log \<Rightarrow> sync_log" where
  "swept dbNow t l =
     (if exhausted t l then reap dbNow l
      else if stale t l then requeue l else l)"

lemma stale_below_cap: "stale t l \<and> \<not> exhausted t l \<longleftrightarrow> stale t l \<and> l_attemptCount l < MAX_SYNC_ATTEMPTS"
  by (auto simp: exhausted_def)

lemma reap_not_stale: "\<not> stale t (reap d l)" "\<not> exhausted t (reap d l)"
  by (simp_all add: stale_def exhausted_def reap_def)

lemma sweep_rows:
  assumes "sweepStaleClaims dbNow now q = (n, q')"
  defines "t \<equiv> now - 90000"
  shows "q_logs q' = map (swept dbNow t) (q_logs q)"
    and "n = length (filter (\<lambda>l. exhausted t l \<or> stale t l) (q_logs q))"
    and "q_nextId q' = q_nextId q"
proof -
  let ?E = "exhausted t" and ?S = "\<lambda>l. stale t l \<and> l_attemptCount l < MAX_SYNC_ATTEMPTS"
  have t: "now - STALE_THRESHOLD_SECONDS * 1000 = t"
    by (simp add: t_def STALE_THRESHOLD_SECONDS_def)
  have "q_logs q' = update_where ?S requeue (update_where ?E (reap dbNow) (q_logs q))"
    and n: "n = length (filter ?E (q_logs q)) + length (filter ?S (update_where ?E (reap dbNow) (q_logs q)))"
    and "q_nextId q' = q_nextId q"
    using assms(1) by (auto simp: sweepStaleClaims_def Let_def t)
  moreover have "update_where ?S requeue (update_where ?E (reap dbNow) xs) = map (swept dbNow t) xs" for xs
    by (induction xs) (use stale_below_cap [of t] in \<open>auto simp: swept_def reap_not_stale\<close>)
  moreover have "length (filter ?E xs) + length (filter ?S (update_where ?E (reap dbNow) xs))
      = length (filter (\<lambda>l. exhausted t l \<or> stale t l) xs)" for xs
    by (induction xs) (use stale_below_cap [of t] in \<open>auto simp: reap_not_stale\<close>)
  ultimately show "q_logs q' = map (swept dbNow t) (q_logs q)"
    and "n = length (filter (\<lambda>l. exhausted t l \<or> stale t l) (q_logs q))" and "q_nextId q' = q_nextId q"
    by simp_all
qed

lemma swept_active:
  assumes "log_ok l" and "active_log (swept d t l)"
  shows "swept d t l = l \<and> l_status l = SS_RUNNING \<and> (\<exists>s. l_lastTickAt l = Some s \<and> t \<le> s)
    \<or> l_status (swept d t l) \<noteq> SS_RUNNING \<and> l_attemptCount (swept d t l) < MAX_SYNC_ATTEMPTS"
proof (cases "exhausted t l")
  case True
  then show ?thesis using assms(2) by (simp add: swept_def reap_def active_log_def active_status_def)
next
  case False
  show ?thesis
  proof (cases "l_status l")
    case SS_RUNNING
    then obtain s where s: "l_lastTickAt l = Some s" using assms(1) by (auto simp: log_ok_def)
    show ?thesis
    proof (cases "s < t")
      case True
      then have "stale t l" using s SS_RUNNING by (simp add: stale_def)
      with False show ?thesis
        using stale_below_cap [of t l] by (simp add: swept_def requeue_def)
    next
      case notless: False
      then have "\<not> stale t l" using s by (simp add: stale_def)
      with False notless s SS_RUNNING show ?thesis by (auto simp: swept_def)
    qed
  qed (use False assms(2) in \<open>auto simp: swept_def exhausted_def stale_def active_log_def active_status_def\<close>)
qed

lemma swept_settled:
  "\<not> exhausted t (swept d t l) \<and> \<not> stale t (swept d t l)"
proof (cases "exhausted t l")
  case False
  have "l_attemptCount (requeue l) = l_attemptCount l" by (simp add: requeue_def)
  then have "stale t l \<Longrightarrow> \<not> exhausted t (requeue l)"
    using False stale_below_cap [of t l] by (auto simp: exhausted_def [of t "requeue l"])
  moreover have "\<not> stale t (requeue l)" by (simp add: stale_def requeue_def)
  ultimately show ?thesis using False by (simp add: swept_def)
qed (simp add: swept_def reap_not_stale)

text \<open>C23: After a sweep of the watchdog no slot is stuck: every active run is RUNNING with a
  heartbeat younger than 90 seconds, or is waiting with attempts left, so that a claim can take it
  once it is due. The sweep returns the number of rows it took from their holder or terminated, no
  other row changes, and a second sweep at the same instant, by another worker, finds nothing to
  do.\<close>
theorem sweep_unblocks:
  assumes "reach queue_init queue_step q" and "sweepStaleClaims dbNow now q = (n, q')"
  shows "(\<forall>l \<in> set (q_logs q'). active_log l \<longrightarrow>
            l_status l = SS_RUNNING \<and> (\<exists>s. l_lastTickAt l = Some s \<and> now - 90000 \<le> s)
            \<or> l_status l \<noteq> SS_RUNNING \<and> (\<exists>t. claimable t l))
    \<and> n = length (filter (\<lambda>l. l \<notin> set (q_logs q')) (q_logs q))
    \<and> sweepStaleClaims dbNow2 now q' = (0, q')"
proof (intro conjI ballI impI)
  let ?t = "now - 90000"
  note rows = sweep_rows [OF assms(2)]
  have ok: "queue_ok q" using assms(1) by (rule queue_sys.inv_reach)
  have ok': "queue_ok q'" using assms(2) ok by (rule queue_event_ok [OF ev_sweep])
  show "n = length (filter (\<lambda>l. l \<notin> set (q_logs q')) (q_logs q))"
  proof -
    have "l \<notin> set (q_logs q') \<longleftrightarrow> exhausted ?t l \<or> stale ?t l" if l: "l \<in> set (q_logs q)" for l
    proof (cases "exhausted ?t l \<or> stale ?t l")
      case True
      have "l \<noteq> swept dbNow ?t m" for m using swept_settled [of ?t dbNow m] True by auto
      with True show ?thesis unfolding rows(1) by auto
    next
      case False
      then have "swept dbNow ?t l = l" by (simp add: swept_def)
      with l False show ?thesis unfolding rows(1) by force
    qed
    then show ?thesis unfolding rows(2) by (intro arg_cong [where f = length] filter_cong) auto
  qed
  show "sweepStaleClaims dbNow2 now q' = (0, q')"
  proof -
    obtain n2 q2 where s2: "sweepStaleClaims dbNow2 now q' = (n2, q2)" by force
    note rows2 = sweep_rows [OF s2]
    have quiet: "\<not> exhausted ?t l \<and> \<not> stale ?t l" if "l \<in> set (q_logs q')" for l
      using that swept_settled unfolding rows(1) by auto
    then have "map (swept dbNow2 ?t) (q_logs q') = q_logs q'"
      by (intro map_idI) (simp add: swept_def)
    with rows2(1,3) have "q2 = q'" by simp
    moreover have "n2 = 0" unfolding rows2(2) using quiet by (simp add: filter_False)
    ultimately show ?thesis using s2 by simp
  qed
  fix l' assume l': "l' \<in> set (q_logs q')" and act: "active_log l'"
  then obtain l where l: "l \<in> set (q_logs q)" "l' = swept dbNow ?t l" by (auto simp: rows(1))
  have ok_l: "log_ok l'" using queue_ok_log [OF ok' l'] .
  from swept_active [OF queue_ok_log [OF ok l(1)] act [unfolded l(2)]]
  consider "l_status l' = SS_RUNNING \<and> (\<exists>s. l_lastTickAt l' = Some s \<and> ?t \<le> s)"
    | "l_status l' \<noteq> SS_RUNNING" "l_attemptCount l' < MAX_SYNC_ATTEMPTS" unfolding l(2) by auto
  then show "l_status l' = SS_RUNNING \<and> (\<exists>s. l_lastTickAt l' = Some s \<and> now - 90000 \<le> s)
            \<or> l_status l' \<noteq> SS_RUNNING \<and> (\<exists>t. claimable t l')"
  proof cases
    case 2
    have "claimable (max (l_startedAt l') (ready_at l')) l'"
      using 2 act ok_l
      by (cases "l_status l'"; cases "l_nextAttemptAt l'")
        (simp_all add: claimable_def ready_at_def active_log_def active_status_def log_ok_def)
    with 2 show ?thesis by blast
  qed blast
qed

section \<open>Concrete runs\<close>

text \<open>A run of store 1 is enqueued at 0, claimed by \<open>w1\<close> at 10 and completed at 20.\<close>

definition run_log :: sync_log where
  "run_log = new_log 1 7 1 ORDERS CRON 0"

definition run_queue :: "sync_log \<Rightarrow> sync_queue" where
  "run_queue l = \<lparr> q_logs = [l], q_nextId = 2 \<rparr>"

definition run_claimed :: sync_log where
  "run_claimed = claim_row ''w1'' 10 run_log"

definition run_done :: sync_log where
  "run_done = run_claimed \<lparr> l_status := SS_COMPLETED, l_completedAt := Some 20,
     l_recordsProcessed := 5, l_progressCurrent := 5, l_errorCode := None, l_errorMessage := None \<rparr>"

lemmas run_defs = run_queue_def run_log_def run_claimed_def run_done_def new_log_def claim_row_def

lemma reach_enqueued: "reach queue_init queue_step (run_queue run_log)"
proof (rule reach_step [OF reach_init])
  show "queue_init \<lparr> q_logs = [], q_nextId = 1 \<rparr>" by (simp add: queue_init_def)
  have "acquireSlot 7 1 ORDERS CRON None 0 \<lparr> q_logs = [], q_nextId = 1 \<rparr> = Inr (run_log, run_queue run_log)"
    by (simp add: acquireSlot_def Let_def run_queue_def run_log_def)
  then show "queue_step \<lparr> q_logs = [], q_nextId = 1 \<rparr> (run_queue run_log)"
    unfolding queue_step_def by (blast intro: ev_enqueue)
qed

lemma run_claim: "tryClaimNext (\<lambda>i. False) 10 10 ''w1'' (run_queue run_log) = (Some run_claimed, run_queue run_claimed)"
  by (simp add: tryClaimNext_def claimable_def MAX_SYNC_ATTEMPTS_def run_defs update_logs_def)

lemma reach_claimed: "reach queue_init queue_step (run_queue run_claimed)"
  using reach_step [OF reach_enqueued] ev_claim [OF run_claim] unfolding queue_step_def by blast

lemma run_complete: "queue_event (Write ''w1'') (run_queue run_claimed) (run_queue run_done)"
  by (rule ev_write [where wr = "W_complete 5" and i = 1 and now = 20])
    (simp add: complete_def fencedUpdate_def holds_lease_def update_logs_def run_defs)

lemma reach_done: "reach queue_init queue_step (run_queue run_done)"
  using reach_step [OF reach_claimed] run_complete unfolding queue_step_def by blast

theorem slot_unique_witness:
  "length (filter (in_slot 1 ORDERS) (q_logs (run_queue run_log))) \<le> 1
   \<and> acquireSlot 7 1 ORDERS MANUAL None 5 (run_queue run_log) = Inl (SyncInProgressError ORDERS 1 (Some 1))"
  using slot_unique [OF reach_enqueued, of 1 ORDERS 7 MANUAL None 5]
  by (simp add: run_queue_def run_log_def new_log_def in_slot_def active_log_def active_status_def)

theorem terminal_final_witness:
  "\<exists>q'. steps queue_step (run_queue run_done) q' \<and> run_done \<in> set (q_logs q')
        \<and> length (q_logs q') = 2"
proof -
  let ?l = "new_log 2 7 1 ORDERS MANUAL 30"
  let ?q = "\<lparr> q_logs = [run_done, ?l], q_nextId = 3 \<rparr>"
  have "acquireSlot 7 1 ORDERS MANUAL None 30 (run_queue run_done) = Inr (?l, ?q)"
    by (simp add: acquireSlot_def Let_def in_slot_def active_log_def active_status_def run_defs)
  then have st: "steps queue_step (run_queue run_done) ?q"
    unfolding queue_step_def by (blast intro: steps_step steps_refl ev_enqueue)
  have "run_done \<in> set (q_logs ?q)"
    by (rule terminal_final [OF reach_done st]) (simp_all add: finished_log_def run_defs)
  with st show ?thesis by (intro exI [of _ ?q]) simp
qed

text \<open>The holder of the claim stalls; the watchdog hands the row back at 100 s.\<close>

definition run_requeued :: sync_log where
  "run_requeued = requeue run_claimed"

lemma run_sweep: "sweepStaleClaims 100000 100000 (run_queue run_claimed) = (1, run_queue run_requeued)"
  by (simp add: sweepStaleClaims_def Let_def exhausted_def stale_def requeue_def update_logs_def
      STALE_THRESHOLD_SECONDS_def MAX_SYNC_ATTEMPTS_def run_requeued_def run_defs)

lemma run_claim_again:
  "tryClaimNext (\<lambda>i. False) 100001 100001 w (run_queue run_requeued)
   = (Some (claim_row w 100001 run_requeued), run_queue (claim_row w 100001 run_requeued))"
  by (simp add: tryClaimNext_def claimable_def MAX_SYNC_ATTEMPTS_def run_requeued_def requeue_def
      run_defs update_logs_def)

theorem stale_owner_fenced_witness:
  "steps (step_without_claim ''w1'') (run_queue run_requeued) (run_queue (claim_row ''w2'' 100001 run_requeued))
   \<and> heartbeat 1 ''w1'' 100002 (run_queue (claim_row ''w2'' 100001 run_requeued)) = Inl (LostLeaseError 1 ''w1'')"
proof
  have "queue_event (Claim ''w2'') (run_queue run_requeued) (run_queue (claim_row ''w2'' 100001 run_requeued))"
    by (rule ev_claim [OF run_claim_again])
  then show st: "steps (step_without_claim ''w1'') (run_queue run_requeued)
      (run_queue (claim_row ''w2'' 100001 run_requeued))"
    by (intro steps_step [OF _ steps_refl]) (simp add: step_without_claim_def, rule exI, rule conjI, simp_all)
  have "\<not> held 1 ''w1'' (run_queue run_requeued)"
    by (simp add: held_def holds_lease_def run_requeued_def requeue_def run_defs)
  from stale_owner_fenced [OF this st, where wr = W_heartbeat and now = 100002]
  show "heartbeat 1 ''w1'' 100002 (run_queue (claim_row ''w2'' 100001 run_requeued)) = Inl (LostLeaseError 1 ''w1'')"
    by simp
qed

text \<open>
  The fence is the id of the worker, not the claim: a worker process, which runs several jobs at
  once, may itself claim the row the watchdog took from one of its own stalled tasks. Both tasks
  then hold the lease, and the stalled one's writes are accepted.
\<close>

lemma same_worker_reclaim:
  "\<exists>q. reach queue_init queue_step q
       \<and> q = run_queue (claim_row ''w1'' 100001 run_requeued)
       \<and> (\<exists>q'. tick 1 \<lparr> ti_cursor = None, ti_progress = 99, ti_total = None, ti_stage = ''x'' \<rparr> ''w1'' 100002 q
              = Inr q')"
proof -
  have "reach queue_init queue_step (run_queue run_requeued)"
    using reach_step [OF reach_claimed] ev_sweep [OF run_sweep] unfolding queue_step_def by blast
  then have "reach queue_init queue_step (run_queue (claim_row ''w1'' 100001 run_requeued))"
    by (rule reach_step) (use ev_claim [OF run_claim_again] in \<open>unfold queue_step_def, blast\<close>)
  then show ?thesis
    by (simp add: tick_def fencedUpdate_def holds_lease_def run_queue_def claim_row_def
        run_requeued_def requeue_def run_claimed_def run_log_def new_log_def)
qed

theorem claim_fair_witness:
  "\<not> (\<exists>locked2 t2 n2 w2 m q''.
        tryClaimNext locked2 t2 n2 w2 (run_queue run_claimed) = (Some m, q'') \<and> l_id m = 1)"
proof -
  have "l_id run_claimed = 1" by (simp add: run_defs)
  with claim_fair [OF reach_enqueued run_claim] show ?thesis by force
qed

theorem sweep_unblocks_witness:
  "sweepStaleClaims 1 100000 (run_queue run_requeued) = (0, run_queue run_requeued)
   \<and> (\<exists>t. claimable t run_requeued)"
  using sweep_unblocks [OF reach_claimed run_sweep, of 1]
  by (simp add: run_requeued_def requeue_def run_defs active_log_def active_status_def)

end
