(* ===== verification/Sync_Worker.thy ===== *)
theory Sync_Worker
  imports Sync_Queue_Props
begin

text \<open>
  One job of the synchronisation worker, \<open>src/apps/sync-worker/src\<close>: the dispatch to the handler of
  the type (\<open>dispatcher.ts\<close>), the loop over chunks (\<open>loop.ts\<close>), the classification of errors
  (\<open>error-code.ts\<close>, \<open>run-error.ts\<close>), the recovery past a page the marketplace cannot serve
  (\<open>skip-bad-page.ts\<close>), and the task and the pool of \<open>index.ts\<close>.

  A handler fetches from the marketplace and writes other tables. It is a parameter: a function of
  the rest of the world \<open>'w\<close> and of the queue, which returns its result with the world and the
  queue as they are when the chunk ends (other processes may have moved the queue meanwhile). The
  shutdown flag and the clocks are read from the world.
\<close>

section \<open>Errors\<close>

record unreachable_meta =
  um_httpStatus :: "int option"
  um_xRequestId :: "string option"
  um_responseBodySnippet :: "string option"

text \<open>
  What is thrown: a lost lease, or any other value with its \<open>code\<close> (when it is a string), its
  message (when it is an \<open>Error\<close>) and its \<open>meta\<close> (when it is an object).
\<close>

datatype thrown =
    LostLease id string
  | Thrown "string option" "string option" "unreachable_meta option"

text \<open>The errors of the queue's own operations; the messages of the libraries are a parameter.\<close>

definition thrown_of :: "(sync_error \<Rightarrow> string) \<Rightarrow> sync_error \<Rightarrow> thrown" where
  "thrown_of libMsg e =
     (case e of
        LostLeaseError i w \<Rightarrow> LostLease i w
      | ZodError \<Rightarrow> Thrown None (Some (libMsg e)) None
      | RecordNotFound \<Rightarrow> Thrown (Some ''P2025'') (Some (libMsg e)) None
      | NotFoundError i \<Rightarrow> Thrown (Some ''NOT_FOUND'') (Some (libMsg e)) None
      | SyncInProgressError ty st i \<Rightarrow> Thrown (Some ''SYNC_IN_PROGRESS'') (Some (libMsg e)) None)"

definition errorCodeOf :: "thrown \<Rightarrow> sync_error_code" where
  "errorCodeOf err =
     (case err of
        Thrown (Some c) _ _ \<Rightarrow> (case code_of_name c of Some e \<Rightarrow> e | None \<Rightarrow> INTERNAL_ERROR)
      | _ \<Rightarrow> INTERNAL_ERROR)"

definition errorMessageOf :: "thrown \<Rightarrow> string" where
  "errorMessageOf err =
     (case err of
        Thrown _ (Some m) _ \<Rightarrow> m
      | Thrown _ None _ \<Rightarrow> ''Unknown error''
      | LostLease i w \<Rightarrow> ''sync log lease lost'')"

definition PERMANENT_FAILURE_CODES :: "sync_error_code set" where
  "PERMANENT_FAILURE_CODES = {MARKETPLACE_AUTH_FAILED, MARKETPLACE_ACCESS_DENIED}"

section \<open>Past a bad page\<close>

definition TRENDYOL_PRODUCTS_PAGE_SIZE :: nat where "TRENDYOL_PRODUCTS_PAGE_SIZE = 100"

definition TRENDYOL_APPROVED_PAGE_CAP_ITEMS :: nat where
  "TRENDYOL_APPROVED_PAGE_CAP_ITEMS = 10000"

fun readMeta :: "thrown \<Rightarrow> unreachable_meta option" where
  "readMeta (Thrown _ _ m) = m"
| "readMeta (LostLease _ _) = None"

definition extractHttpStatus :: "thrown \<Rightarrow> int" where
  "extractHttpStatus err =
     (case readMeta err of
        Some m \<Rightarrow> (case um_httpStatus m of Some s \<Rightarrow> s | None \<Rightarrow> 0) | None \<Rightarrow> 0)"

definition extractXRequestId :: "thrown \<Rightarrow> string option" where
  "extractXRequestId err = Option.bind (readMeta err) um_xRequestId"

definition extractBodySnippet :: "thrown \<Rightarrow> string option" where
  "extractBodySnippet err = Option.bind (readMeta err) um_responseBodySnippet"

definition skip_entry :: "nat \<Rightarrow> string \<Rightarrow> thrown \<Rightarrow> skipped_page" where
  "skip_entry n isoNow err =
     \<lparr> sp_page = n, sp_attemptedAt = isoNow, sp_errorCode = MARKETPLACE_UNREACHABLE,
       sp_httpStatus = extractHttpStatus err, sp_xRequestId = extractXRequestId err,
       sp_responseBodySnippet = extractBodySnippet err \<rparr>"

definition current_page :: "products_cursor option \<Rightarrow> nat option" where
  "current_page c =
     (case c of None \<Rightarrow> Some 0 | Some (PageCursor n) \<Rightarrow> Some n | Some (TokenCursor t) \<Rightarrow> None)"

definition advanceCursorPastBadPage ::
  "id \<Rightarrow> thrown \<Rightarrow> string \<Rightarrow> string \<Rightarrow> sync_queue \<Rightarrow> sync_error + (bool \<times> sync_queue)" where
  "advanceCursorPastBadPage i err w isoNow q =
     (case find_log i q of
        None \<Rightarrow> Inr (False, q)
      | Some row \<Rightarrow>
          case parseProductsCursor (l_pageCursor row) of
            Inl e \<Rightarrow> Inr (False, q)
          | Inr cursor \<Rightarrow>
              case current_page cursor of
                None \<Rightarrow> Inr (False, q)
              | Some currentPageN \<Rightarrow>
                  let nextPageN = currentPageN + 1 in
                  if TRENDYOL_APPROVED_PAGE_CAP_ITEMS \<le> nextPageN * TRENDYOL_PRODUCTS_PAGE_SIZE
                  then Inr (False, q)
                  else bindR (recordSkippedPageAndContinue i (skip_entry currentPageN isoNow err)
                               (Some (PageCursor nextPageN)) w q)
                         (\<lambda>q'. Inr (True, q')))"

definition handleRunError ::
  "id \<Rightarrow> sync_type \<Rightarrow> nat \<Rightarrow> thrown \<Rightarrow> string \<Rightarrow> time \<Rightarrow> string \<Rightarrow> sync_queue \<Rightarrow>
   sync_error + sync_queue" where
  "handleRunError i ty attemptCount err w now isoNow q =
     (let code = errorCodeOf err; message = errorMessageOf err in
      if code \<in> PERMANENT_FAILURE_CODES then fail i code message w now q
      else if MAX_SYNC_ATTEMPTS \<le> attemptCount then
        bindR (if ty = PRODUCTS \<and> code = MARKETPLACE_UNREACHABLE
               then advanceCursorPastBadPage i err w isoNow q else Inr (False, q))
          (\<lambda>(advanced, q').
            if advanced then Inr q'
            else fail i code (message @ '' (max retries reached)'') w now q')
      else markRetryable i attemptCount code message w now q)"

section \<open>Chunks\<close>

datatype chunk_result = Continue tick_input | Done int

datatype decoded_cursor = DProducts "products_cursor option" | DRaw "json option"

definition decodeCursor :: "sync_log \<Rightarrow> sync_error + decoded_cursor" where
  "decodeCursor l =
     (case l_syncType l of
        PRODUCTS \<Rightarrow> bindR (parseProductsCursor (l_pageCursor l)) (\<lambda>c. Inr (DProducts c))
      | PRODUCTS_DELTA \<Rightarrow> bindR (parseProductsCursor (l_pageCursor l)) (\<lambda>c. Inr (DProducts c))
      | _ \<Rightarrow> Inr (DRaw (l_pageCursor l)))"

type_synonym 'w handler =
  "sync_log \<Rightarrow> decoded_cursor \<Rightarrow> string \<Rightarrow> 'w \<times> sync_queue \<Rightarrow> (thrown + chunk_result) \<times> 'w \<times> sync_queue"

text \<open>What a worker reads of the world, and its registry of handlers.\<close>

record 'w worker_env =
  we_registry :: "sync_type \<Rightarrow> 'w handler option"
  we_shuttingDown :: "'w \<Rightarrow> bool"
  we_clock :: "'w \<Rightarrow> time"
  we_iso :: "'w \<Rightarrow> string"
  we_libMsg :: "sync_error \<Rightarrow> string"

definition type_name :: "sync_type \<Rightarrow> string" where
  "type_name ty =
     (case ty of ORDERS \<Rightarrow> ''ORDERS'' | PRODUCTS \<Rightarrow> ''PRODUCTS'' | PRODUCTS_DELTA \<Rightarrow> ''PRODUCTS_DELTA''
      | SETTLEMENTS \<Rightarrow> ''SETTLEMENTS'' | CLAIMS \<Rightarrow> ''CLAIMS'')"

definition dispatch ::
  "'w worker_env \<Rightarrow> sync_log \<Rightarrow> string \<Rightarrow> 'w \<times> sync_queue \<Rightarrow> (thrown + chunk_result) \<times> 'w \<times> sync_queue" where
  "dispatch E l w s =
     (case we_registry E (l_syncType l) of
        None \<Rightarrow> (Inl (Thrown None (Some
                  (''No handler registered for syncType='' @ type_name (l_syncType l))) None), s)
      | Some h \<Rightarrow>
          case decodeCursor l of
            Inl e \<Rightarrow> (Inl (thrown_of (we_libMsg E) e), s)
          | Inr c \<Rightarrow> h l c w s)"

text \<open>A write to the queue inside a job: its error is thrown, its success is the new queue.\<close>

definition write_back ::
  "'w worker_env \<Rightarrow> 'w \<times> sync_queue \<Rightarrow> (sync_queue \<Rightarrow> sync_error + sync_queue) \<Rightarrow>
   (thrown + unit) \<times> 'w \<times> sync_queue" where
  "write_back E s op =
     (case op (snd s) of
        Inl e \<Rightarrow> (Inl (thrown_of (we_libMsg E) e), s)
      | Inr q \<Rightarrow> (Inr (), fst s, q))"

text \<open>
  The loop may run as long as its handler keeps continuing: \<open>n\<close> bounds the number of chunks, and
  \<open>None\<close> is a loop that has not ended within them.
\<close>

fun runSyncToCompletion ::
  "nat \<Rightarrow> 'w worker_env \<Rightarrow> sync_log \<Rightarrow> string \<Rightarrow> 'w \<times> sync_queue \<Rightarrow>
   ((thrown + unit) \<times> 'w \<times> sync_queue) option" where
  "runSyncToCompletion n E l w s =
     (if we_shuttingDown E (fst s) then Some (write_back E s (releaseToPending (l_id l) w))
      else case n of
        0 \<Rightarrow> None
      | Suc m \<Rightarrow>
          case dispatch E l w s of
            (Inl e, s1) \<Rightarrow> Some (Inl e, s1)
          | (Inr (Done finalCount), s1) \<Rightarrow>
              Some (write_back E s1 (complete (l_id l) finalCount w (we_clock E (fst s1))))
          | (Inr (Continue inp), s1) \<Rightarrow>
              case write_back E s1 (tick (l_id l) inp w (we_clock E (fst s1))) of
                (Inl e, s2) \<Rightarrow> Some (Inl e, s2)
              | (Inr _, s2) \<Rightarrow>
                  runSyncToCompletion m E
                    (l \<lparr> l_progressCurrent := ti_progress inp, l_progressTotal := ti_total inp,
                         l_pageCursor := ti_cursor inp \<rparr>) w s2)"

declare runSyncToCompletion.simps [simp del]

text \<open>
  \<open>runClaimedJob\<close> never rejects: a lost lease is absorbed without a write, any other error is
  handed to \<open>handleRunError\<close>, and what that throws is logged.
\<close>

definition runClaimedJob ::
  "nat \<Rightarrow> 'w worker_env \<Rightarrow> sync_log \<Rightarrow> string \<Rightarrow> 'w \<times> sync_queue \<Rightarrow> ('w \<times> sync_queue) option" where
  "runClaimedJob n E claimed w s =
     (case runSyncToCompletion n E claimed w s of
        None \<Rightarrow> None
      | Some (Inr _, s') \<Rightarrow> Some s'
      | Some (Inl (LostLease _ _), s') \<Rightarrow> Some s'
      | Some (Inl err, s') \<Rightarrow>
          Some (snd (write_back E s'
            (handleRunError (l_id claimed) (l_syncType claimed) (l_attemptCount claimed) err w
              (we_clock E (fst s')) (we_iso E (fst s'))))))"

section \<open>The pool\<close>

text \<open>
  The claim loop of \<open>main\<close>: a full pool waits for a job to settle; a poll that claims a row starts a
  job and resets the idle backoff; one that finds nothing sleeps and lengthens it. The state is the
  number of jobs in flight and the next sleep.
\<close>

record pool =
  po_active :: nat
  po_backoff :: rat

definition POLL_BACKOFF_INITIAL_MS :: rat where "POLL_BACKOFF_INITIAL_MS = 100"
definition POLL_BACKOFF_MAX_MS :: rat where "POLL_BACKOFF_MAX_MS = 5000"
definition POLL_BACKOFF_MULTIPLIER :: rat where "POLL_BACKOFF_MULTIPLIER = 3 / 2"

definition poll :: "nat \<Rightarrow> sync_log option \<Rightarrow> pool \<Rightarrow> pool" where
  "poll concurrency claimed p =
     (if concurrency \<le> po_active p then p
      else case claimed of
        None \<Rightarrow> p \<lparr> po_backoff := min (po_backoff p * POLL_BACKOFF_MULTIPLIER) POLL_BACKOFF_MAX_MS \<rparr>
      | Some l \<Rightarrow> p \<lparr> po_backoff := POLL_BACKOFF_INITIAL_MS, po_active := Suc (po_active p) \<rparr>)"

inductive pool_step :: "nat \<Rightarrow> pool \<Rightarrow> pool \<Rightarrow> bool" for concurrency where
  pool_poll: "pool_step concurrency p (poll concurrency claimed p)"
| pool_settle: "po_active p = Suc k \<Longrightarrow> pool_step concurrency p (p \<lparr> po_active := k \<rparr>)"

definition pool_init :: "pool \<Rightarrow> bool" where
  "pool_init p \<longleftrightarrow> p = \<lparr> po_active = 0, po_backoff = POLL_BACKOFF_INITIAL_MS \<rparr>"

definition pool_ok :: "nat \<Rightarrow> pool \<Rightarrow> bool" where
  "pool_ok concurrency p \<longleftrightarrow>
     po_active p \<le> concurrency \<and> POLL_BACKOFF_INITIAL_MS \<le> po_backoff p
     \<and> po_backoff p \<le> POLL_BACKOFF_MAX_MS"

lemma pool_step_ok: "pool_step concurrency p p' \<Longrightarrow> pool_ok concurrency p \<Longrightarrow> pool_ok concurrency p'"
  by (induction rule: pool_step.induct)
    (auto simp: pool_ok_def poll_def POLL_BACKOFF_INITIAL_MS_def POLL_BACKOFF_MAX_MS_def
      POLL_BACKOFF_MULTIPLIER_def split: option.splits)

interpretation pool_sys: invariant_system pool_init "pool_step concurrency" "pool_ok concurrency"
  for concurrency
proof unfold_locales
  show "pool_init p \<Longrightarrow> pool_ok concurrency p" for p
    by (simp add: pool_init_def pool_ok_def POLL_BACKOFF_INITIAL_MS_def POLL_BACKOFF_MAX_MS_def)
  show "pool_ok concurrency p \<Longrightarrow> pool_step concurrency p p' \<Longrightarrow> pool_ok concurrency p'" for p p'
    by (rule pool_step_ok)
qed

lemma pool_bounded:
  "reach pool_init (pool_step concurrency) p \<Longrightarrow>
   po_active p \<le> concurrency \<and> 100 \<le> po_backoff p \<and> po_backoff p \<le> 5000"
  using pool_sys.inv_reach [of concurrency p]
  by (simp add: pool_ok_def POLL_BACKOFF_INITIAL_MS_def POLL_BACKOFF_MAX_MS_def)

section \<open>Routing of an error\<close>

lemma held_fenced_Inr:
  "fencedUpdate i w g q = Inr q' \<Longrightarrow> (\<And>l. l_status (g l) \<noteq> SS_RUNNING) \<Longrightarrow> \<not> held i w q'"
  by (auto simp: fencedUpdate_def held_def list_ex_iff set_update_where holds_lease_def
      split: if_splits)

lemma held_fenced_Inl: "fencedUpdate i w g q = Inl e \<Longrightarrow> e = LostLeaseError i w \<and> \<not> held i w q"
  by (auto simp: fencedUpdate_def held_def split: if_splits)

text \<open>A write that ends the job: it fails exactly when the lease is lost, else it gives the row up.\<close>

definition releasing :: "lease_write \<Rightarrow> bool" where
  "releasing wr \<longleftrightarrow> (\<forall>inp. wr \<noteq> W_tick inp) \<and> wr \<noteq> W_heartbeat"

lemma releasing_Inr:
  assumes "releasing wr" and "lease_apply wr i w now q = Inr q'"
  shows "\<not> held i w q'" and "queue_step q q'"
proof -
  show "queue_step q q'" using ev_write [OF assms(2)] unfolding queue_step_def by blast
  show "\<not> held i w q'"
    using assms
    by (cases wr)
      (auto simp: releasing_def complete_def fail_def markRetryable_def releaseToPending_def
        recordSkippedPageAndContinue_def elim!: held_fenced_Inr bindR_InrE split: option.splits)
qed

lemma releasing_Inl:
  assumes "lease_apply wr i w now q = Inl e" and "\<forall>s c. wr \<noteq> W_skip s c"
  shows "e = LostLeaseError i w" and "\<not> held i w q"
  using assms
  by (cases wr; auto simp: tick_def heartbeat_def complete_def fail_def markRetryable_def
      releaseToPending_def dest!: held_fenced_Inl)+

text \<open>\<open>handleRunError\<close> makes exactly one of three writes, chosen by the error and the attempts.\<close>

definition skippable :: "sync_type \<Rightarrow> thrown \<Rightarrow> sync_log \<Rightarrow> nat \<Rightarrow> bool" where
  "skippable ty err row n \<longleftrightarrow>
     ty = PRODUCTS \<and> errorCodeOf err = MARKETPLACE_UNREACHABLE
     \<and> (\<exists>c. parseProductsCursor (l_pageCursor row) = Inr c \<and> current_page c = Some n)
     \<and> (n + 1) * 100 < 10000"

lemma handleRunError_write:
  obtains (permanent) m where "errorCodeOf err \<in> PERMANENT_FAILURE_CODES"
      "handleRunError i ty k err w now ts q = lease_apply (W_fail (errorCodeOf err) m) i w now q"
  | (retry) m where "errorCodeOf err \<notin> PERMANENT_FAILURE_CODES" "k < MAX_SYNC_ATTEMPTS"
      "handleRunError i ty k err w now ts q = lease_apply (W_retry k (errorCodeOf err) m) i w now q"
  | (skip) row n where "errorCodeOf err \<notin> PERMANENT_FAILURE_CODES" "MAX_SYNC_ATTEMPTS \<le> k"
      "find_log i q = Some row" "skippable ty err row n"
      "handleRunError i ty k err w now ts q
       = lease_apply (W_skip (skip_entry n ts err) (Some (PageCursor (n + 1)))) i w now q"
  | (exhausted) m where "errorCodeOf err \<notin> PERMANENT_FAILURE_CODES" "MAX_SYNC_ATTEMPTS \<le> k"
      "\<And>row n. find_log i q = Some row \<Longrightarrow> \<not> skippable ty err row n"
      "handleRunError i ty k err w now ts q = lease_apply (W_fail (errorCodeOf err) m) i w now q"
proof (cases "errorCodeOf err \<in> PERMANENT_FAILURE_CODES")
  case True
  then show thesis by (intro permanent) (simp_all add: handleRunError_def Let_def)
next
  case np: False
  show thesis
  proof (cases "MAX_SYNC_ATTEMPTS \<le> k")
    case False
    with np show thesis by (intro retry) (simp_all add: handleRunError_def Let_def)
  next
    case cap: True
    show thesis
    proof (cases "\<exists>row n. find_log i q = Some row \<and> skippable ty err row n")
      case True
      then obtain row n c where row: "find_log i q = Some row" "skippable ty err row n"
        and c: "parseProductsCursor (l_pageCursor row) = Inr c" "current_page c = Some n"
          "(n + 1) * 100 < 10000" "ty = PRODUCTS" "errorCodeOf err = MARKETPLACE_UNREACHABLE"
        by (auto simp: skippable_def)
      have b: "bindR (bindR r (\<lambda>q'. Inr (True, q'))) (\<lambda>(a, q'). if a then Inr q' else f q') = r"
        for r :: "sync_error + sync_queue" and f
        by (cases r) simp_all
      show thesis
        using np cap c(3)
        by (intro skip [OF np cap row])
          (simp add: handleRunError_def Let_def c(1,2,4,5) advanceCursorPastBadPage_def row(1) b
            TRENDYOL_APPROVED_PAGE_CAP_ITEMS_def TRENDYOL_PRODUCTS_PAGE_SIZE_def)
    next
      case no: False
      have "(if ty = PRODUCTS \<and> errorCodeOf err = MARKETPLACE_UNREACHABLE
             then advanceCursorPastBadPage i err w ts q else Inr (False, q)) = Inr (False, q)"
        using no
        by (auto simp: skippable_def advanceCursorPastBadPage_def Let_def
            TRENDYOL_APPROVED_PAGE_CAP_ITEMS_def TRENDYOL_PRODUCTS_PAGE_SIZE_def
            split: option.splits sum.splits)
      with np cap no show thesis
        by (intro exhausted) (auto simp: handleRunError_def Let_def)
    qed
  qed
qed

end
