(* ===== verification/Sync_Worker_Props.thy ===== *)
theory Sync_Worker_Props
  imports Sync_Worker
begin

text \<open>
  What one job of the worker guarantees: how an error moves the row, that a job that ends has given
  its row up, and that it ends at all when its handler makes progress.
\<close>

section \<open>An error moves the row\<close>

lemma backoff_bounds: "1 \<le> k \<Longrightarrow> 30000 \<le> backoffMs k \<and> backoffMs k \<le> 1800000"
proof -
  assume "1 \<le> k"
  then have "(2 :: int) ^ 1 \<le> 2 ^ k" by (intro power_increasing) auto
  then show ?thesis by (simp add: backoffMs_def)
qed

lemma backoff_mono: "k \<le> m \<Longrightarrow> backoffMs k \<le> backoffMs m"
proof -
  assume "k \<le> m"
  then have "(2 :: int) ^ k \<le> 2 ^ m" by (intro power_increasing) auto
  then show ?thesis unfolding backoffMs_def by linarith
qed

lemma fenced_row:
  assumes "queue_ok q" and "l \<in> set (q_logs q)" and "holds_lease i w l"
  obtains q' where "fencedUpdate i w g q = Inr q'" and "set (q_logs q') = insert (g l) (set (q_logs q) - {l})"
proof
  have "m = l" if "m \<in> set (q_logs q)" "l_id m = l_id l" for m
    using that assms(2) queue_ok_distinct [OF assms(1)]
    by (meson eq_key_imp_eq_value inj_onD distinct_map)
  then have "holds_lease i w m \<longleftrightarrow> m = l" if "m \<in> set (q_logs q)" for m
    using that assms(3) by (auto simp: holds_lease_def)
  then show "set (q_logs (update_logs (holds_lease i w) g q)) = insert (g l) (set (q_logs q) - {l})"
    by (simp add: set_update_where_one [OF assms(2)])
  show "fencedUpdate i w g q = Inr (update_logs (holds_lease i w) g q)"
    using assms(2,3) by (auto simp: fencedUpdate_def list_ex_iff)
qed

lemma find_log_held:
  assumes "queue_ok q" and "l \<in> set (q_logs q)" and "holds_lease i w l"
  shows "find_log i q = Some l"
proof -
  obtain m where m: "find_log i q = Some m"
    using assms(2,3) by (cases "find_log i q") (auto simp: find_log_def find_None_all holds_lease_def)
  then have "m \<in> set (q_logs q)" "l_id m = l_id l"
    using find_Some_in [of _ "q_logs q" m] assms(3) by (auto simp: find_log_def holds_lease_def)
  then have "m = l"
    using assms(2) queue_ok_distinct [OF assms(1)] by (meson eq_key_imp_eq_value inj_onD distinct_map)
  with m show ?thesis by simp
qed

text \<open>C25: How the error of a job moves the row its worker holds. An authentication or access failure,
  and any failure of the last attempt, ends the run as FAILED with the error's code; but when the
  marketplace does not serve a page of the product catalogue below its cap, the last attempt skips
  that page instead: the row waits again with its attempts reset, its cursor on the next page, the
  page recorded and its progress unchanged. Every other failure schedules a retry no earlier than 30
  seconds and no later than 30 minutes from now. Only that row changes.\<close>
theorem run_error_routing:
  fixes err :: thrown
  assumes "reach queue_init queue_step q" and "l \<in> set (q_logs q)" and "holds_lease i w l"
    and "parseSkippedPages (l_skippedPages l) = Inr old"
  defines "code \<equiv> errorCodeOf err"
  shows "\<exists>q' l'. handleRunError i (l_syncType l) (l_attemptCount l) err w now ts q = Inr q'
    \<and> set (q_logs q') = insert l' (set (q_logs q) - {l})
    \<and> (if code \<in> PERMANENT_FAILURE_CODES
          \<or> l_attemptCount l = 5 \<and> (\<forall>n. \<not> skippable (l_syncType l) err l n)
       then l_status l' = SS_FAILED \<and> l_errorCode l' = Some code \<and> l_completedAt l' = Some now
       else if l_attemptCount l = 5
       then \<exists>n. skippable (l_syncType l) err l n \<and> l_status l' = SS_PENDING \<and> l_attemptCount l' = 0
              \<and> parseProductsCursor (l_pageCursor l') = Inr (Some (PageCursor (n + 1)))
              \<and> l_skippedPages l' = Some (JArr (map skipped_page_json (old @ [skip_entry n ts err])))
              \<and> l_progressCurrent l' = l_progressCurrent l
       else \<exists>t. l_status l' = SS_FAILED_RETRYABLE \<and> l_errorCode l' = Some code
              \<and> l_attemptCount l' = l_attemptCount l
              \<and> l_nextAttemptAt l' = Some t \<and> now + 30000 \<le> t \<and> t \<le> now + 1800000)"
proof -
  have ok: "queue_ok q" using assms(1) by (rule queue_sys.inv_reach)
  have row: "find_log i q = Some l" by (rule find_log_held [OF ok assms(2,3)])
  have "log_ok l" using queue_ok_log [OF ok assms(2)] .
  then have att: "1 \<le> l_attemptCount l" "l_attemptCount l \<le> 5"
    using assms(3) by (auto simp: log_ok_def holds_lease_def MAX_SYNC_ATTEMPTS_def)
  show ?thesis
  proof (cases rule: handleRunError_write
      [of err i "l_syncType l" "l_attemptCount l" w now ts q])
    case (permanent m)
    obtain q' where "fencedUpdate i w (\<lambda>l. l \<lparr> l_status := SS_FAILED, l_completedAt := Some now,
        l_errorCode := Some code, l_errorMessage := Some m \<rparr>) q = Inr q'"
      "set (q_logs q') = insert (l \<lparr> l_status := SS_FAILED, l_completedAt := Some now,
        l_errorCode := Some code, l_errorMessage := Some m \<rparr>) (set (q_logs q) - {l})"
      by (rule fenced_row [OF ok assms(2,3)])
    then show ?thesis using permanent by (intro exI conjI) (auto simp: fail_def code_def)
  next
    case (retry m)
    have "l_attemptCount l \<noteq> 5" using retry(2) by (simp add: MAX_SYNC_ATTEMPTS_def)
    moreover obtain q' where "fencedUpdate i w (\<lambda>r. r \<lparr> l_status := SS_FAILED_RETRYABLE,
        l_errorCode := Some code, l_errorMessage := Some m,
        l_nextAttemptAt := Some (now + backoffMs (l_attemptCount l)), l_claimedAt := None,
        l_claimedBy := None \<rparr>) q = Inr q'"
      "set (q_logs q') = insert (l \<lparr> l_status := SS_FAILED_RETRYABLE,
        l_errorCode := Some code, l_errorMessage := Some m,
        l_nextAttemptAt := Some (now + backoffMs (l_attemptCount l)), l_claimedAt := None,
        l_claimedBy := None \<rparr>) (set (q_logs q) - {l})"
      by (rule fenced_row [OF ok assms(2,3)])
    ultimately show ?thesis
      using retry backoff_bounds [OF att(1)]
      by (intro exI conjI) (auto simp: markRetryable_def code_def)
  next
    case (skip r n)
    have r: "r = l" using skip(3) row by simp
    have five: "l_attemptCount l = 5" using skip(2) att by (simp add: MAX_SYNC_ATTEMPTS_def)
    have n: "n + 1 \<le> 2 ^ 53 - 1" using skip(4) by (auto simp: skippable_def)
    let ?g = "\<lambda>l. l \<lparr> l_status := SS_PENDING, l_attemptCount := 0,
        l_pageCursor := map_option products_cursor_json (Some (PageCursor (n + 1))),
        l_skippedPages := Some (JArr (map skipped_page_json (old @ [skip_entry n ts err]))),
        l_claimedAt := None, l_claimedBy := None, l_errorCode := None, l_errorMessage := None,
        l_nextAttemptAt := None \<rparr>"
    obtain q' where q': "fencedUpdate i w ?g q = Inr q'"
      "set (q_logs q') = insert (?g l) (set (q_logs q) - {l})"
      by (rule fenced_row [OF ok assms(2,3)])
    have "handleRunError i (l_syncType l) (l_attemptCount l) err w now ts q = Inr q'"
      using q'(1) by (simp add: skip(5) recordSkippedPageAndContinue_def row assms(4))
    moreover have "parseProductsCursor (l_pageCursor (?g l)) = Inr (Some (PageCursor (n + 1)))"
      using parse_products_cursor [of "PageCursor (n + 1)"] n by simp
    ultimately show ?thesis
      using q'(2) skip(1,4) five unfolding r code_def by (intro exI [of _ q'] exI [of _ "?g l"]) auto
  next
    case (exhausted m)
    have five: "l_attemptCount l = 5" using exhausted(2) att by (simp add: MAX_SYNC_ATTEMPTS_def)
    obtain q' where "fencedUpdate i w (\<lambda>l. l \<lparr> l_status := SS_FAILED, l_completedAt := Some now,
        l_errorCode := Some code, l_errorMessage := Some m \<rparr>) q = Inr q'"
      "set (q_logs q') = insert (l \<lparr> l_status := SS_FAILED, l_completedAt := Some now,
        l_errorCode := Some code, l_errorMessage := Some m \<rparr>) (set (q_logs q) - {l})"
      by (rule fenced_row [OF ok assms(2,3)])
    then show ?thesis
      using exhausted(3) [OF row] exhausted(4) five
      by (intro exI conjI) (auto simp: fail_def code_def)
  qed
qed

section \<open>A job gives its row up\<close>

text \<open>
  What a job relies on of a handler: it and the processes that run meanwhile move the queue by its
  operations only, and a lost lease it reports is lost.
\<close>

definition handlers_ok :: "'w worker_env \<Rightarrow> bool" where
  "handlers_ok E \<longleftrightarrow>
     (\<forall>ty h l c w s r s'. we_registry E ty = Some h \<and> h l c w s = (r, s') \<longrightarrow>
        steps queue_step (snd s) (snd s')
        \<and> (\<forall>i' w'. r = Inl (LostLease i' w') \<longrightarrow> \<not> held (l_id l) w (snd s')))"

definition lost_lease :: "thrown \<Rightarrow> bool" where
  "lost_lease e \<longleftrightarrow> (\<exists>i w. e = LostLease i w)"

lemma dispatch_ok:
  assumes "handlers_ok E" and "dispatch E l w s = (r, s')"
  shows "steps queue_step (snd s) (snd s')"
    and "r = Inl e \<Longrightarrow> lost_lease e \<Longrightarrow> \<not> held (l_id l) w (snd s')"
proof -
  consider (none) "we_registry E (l_syncType l) = None"
    | (cursor) h z where "we_registry E (l_syncType l) = Some h" "decodeCursor l = Inl z"
    | (run) h c where "we_registry E (l_syncType l) = Some h" "decodeCursor l = Inr c"
    by (metis option.exhaust sum.exhaust)
  then have "steps queue_step (snd s) (snd s')
      \<and> (\<forall>i' w'. r = Inl (LostLease i' w') \<longrightarrow> \<not> held (l_id l) w (snd s'))"
  proof cases
    case none
    with assms(2) show ?thesis by (auto simp: dispatch_def intro: steps_refl)
  next
    case cursor
    have "\<exists>a b. thrown_of (we_libMsg E) z = Thrown a b None"
      using cursor(2) by (auto simp: decodeCursor_def parseProductsCursor_def Let_def bindR_eq_Inl
          thrown_of_def split: sync_type.splits if_splits option.splits)
    with cursor assms(2) show ?thesis by (auto simp: dispatch_def intro: steps_refl)
  next
    case (run h c)
    then have "h l c w s = (r, s')" using assms(2) by (simp add: dispatch_def)
    with run(1) assms(1) show ?thesis unfolding handlers_ok_def by blast
  qed
  then show "steps queue_step (snd s) (snd s')"
    and "r = Inl e \<Longrightarrow> lost_lease e \<Longrightarrow> \<not> held (l_id l) w (snd s')"
    by (auto simp: lost_lease_def)
qed

text \<open>A fenced write inside a job.\<close>

lemma write_back_Inl:
  assumes "write_back E s (lease_apply wr i w now) = (Inl e, s')" and "\<forall>a c. wr \<noteq> W_skip a c"
  shows "lost_lease e" and "s' = s" and "\<not> held i w (snd s')"
  using assms releasing_Inl [of wr i w now "snd s"]
  by (auto simp: write_back_def lost_lease_def thrown_of_def split: sum.splits)

lemma write_back_Inr:
  assumes "write_back E s (lease_apply wr i w now) = (Inr u, s')"
  shows "queue_step (snd s) (snd s')" and "fst s' = fst s"
    and "releasing wr \<Longrightarrow> \<not> held i w (snd s')"
proof -
  obtain q where q: "lease_apply wr i w now (snd s) = Inr q" "s' = (fst s, q)"
    using assms by (auto simp: write_back_def split: sum.splits)
  show "queue_step (snd s) (snd s')" using ev_write [OF q(1)] q(2) unfolding queue_step_def by auto
  show "fst s' = fst s" using q(2) by simp
  show "releasing wr \<Longrightarrow> \<not> held i w (snd s')" using releasing_Inr(1) q by auto
qed

text \<open>The outcome of the loop: what has been promised of its result and of the row.\<close>

definition loop_ok :: "id \<Rightarrow> string \<Rightarrow> sync_queue \<Rightarrow> (thrown + unit) \<times> 'w \<times> sync_queue \<Rightarrow> bool" where
  "loop_ok i w q out \<longleftrightarrow>
     steps queue_step q (snd (snd out))
     \<and> ((case fst out of Inr _ \<Rightarrow> True | Inl e \<Rightarrow> lost_lease e) \<longrightarrow> \<not> held i w (snd (snd out)))"

lemma loop_ok_step: "loop_ok i w q1 out \<Longrightarrow> steps queue_step q q1 \<Longrightarrow> loop_ok i w q out"
  unfolding loop_ok_def by (blast intro: steps_trans)

lemma loop_ok_write:
  assumes "releasing wr" and "\<forall>a c. wr \<noteq> W_skip a c"
  shows "loop_ok i w (snd s) (write_back E s (lease_apply wr i w now))"
proof -
  obtain r s' where wb: "write_back E s (lease_apply wr i w now) = (r, s')"
    by (cases "write_back E s (lease_apply wr i w now)")
  show ?thesis
  proof (cases r)
    case (Inl e)
    note d = write_back_Inl [OF wb [unfolded Inl] assms(2)]
    show ?thesis unfolding wb loop_ok_def Inl using d(3) by (simp add: d(2) steps_refl)
  next
    case (Inr u)
    note d = write_back_Inr [OF wb [unfolded Inr]]
    show ?thesis unfolding wb loop_ok_def using d(1) d(3) [OF assms(1)] by (simp add: steps_one)
  qed
qed

lemma writes_as_lease:
  "releaseToPending i w = lease_apply W_release i w now"
  "complete i k w now = lease_apply (W_complete k) i w now"
  "tick i inp w now = lease_apply (W_tick inp) i w now"
  by (simp_all add: fun_eq_iff)

lemma loop_outcome:
  assumes "handlers_ok E"
  shows "runSyncToCompletion n E l w s = Some out \<Longrightarrow> loop_ok (l_id l) w (snd s) out"
proof (induction n arbitrary: l s)
  case 0
  then have "out = write_back E s (lease_apply W_release (l_id l) w 0)"
    by (simp add: runSyncToCompletion.simps writes_as_lease [where now = 0] split: if_splits)
  then show ?case by (simp add: loop_ok_write releasing_def)
next
  case (Suc n)
  show ?case
  proof (cases "we_shuttingDown E (fst s)")
    case True
    then have "out = write_back E s (lease_apply W_release (l_id l) w 0)"
      using Suc.prems by (simp add: runSyncToCompletion.simps writes_as_lease [where now = 0])
    then show ?thesis by (simp add: loop_ok_write releasing_def)
  next
    case run: False
    obtain r s1 where d: "dispatch E l w s = (r, s1)" by (cases "dispatch E l w s")
    note ok = dispatch_ok [OF assms d]
    show ?thesis
    proof (cases r)
      case (Inl e)
      then have "out = (Inl e, s1)" using Suc.prems run d by (simp add: runSyncToCompletion.simps)
      then show ?thesis using ok(1) ok(2) [OF Inl] by (simp add: loop_ok_def)
    next
      case (Inr c)
      show ?thesis
      proof (cases c)
        case (Done k)
        then have "out = write_back E s1 (lease_apply (W_complete k) (l_id l) w (we_clock E (fst s1)))"
          using Suc.prems run d Inr by (simp add: runSyncToCompletion.simps writes_as_lease)
        then have "loop_ok (l_id l) w (snd s1) out" by (simp add: loop_ok_write releasing_def)
        then show ?thesis using ok(1) by (rule loop_ok_step)
      next
        case (Continue inp)
        let ?l = "l \<lparr> l_progressCurrent := ti_progress inp, l_progressTotal := ti_total inp,
                     l_pageCursor := ti_cursor inp \<rparr>"
        obtain r2 s2 where wb: "write_back E s1 (lease_apply (W_tick inp) (l_id l) w (we_clock E (fst s1))) = (r2, s2)"
          by (cases "write_back E s1 (lease_apply (W_tick inp) (l_id l) w (we_clock E (fst s1)))")
        show ?thesis
        proof (cases r2)
          case (Inl e)
          note t = write_back_Inl [OF wb [unfolded Inl]]
          have "out = (Inl e, s2)"
            using Suc.prems run d Inr Continue wb Inl
            by (simp add: runSyncToCompletion.simps writes_as_lease)
          then show ?thesis using ok(1) t by (simp add: loop_ok_def)
        next
          case (Inr u)
          have "runSyncToCompletion n E ?l w s2 = Some out"
            using Suc.prems run d \<open>r = Inr c\<close> Continue wb Inr
            by (subst (asm) runSyncToCompletion.simps) (simp add: writes_as_lease)
          then have "loop_ok (l_id l) w (snd s2) out" using Suc.IH [of ?l s2] by simp
          moreover have "steps queue_step (snd s) (snd s2)"
            using ok(1) write_back_Inr(1) [OF wb [unfolded Inr]] by (blast intro: steps_trans steps_one)
          ultimately show ?thesis by (rule loop_ok_step)
        qed
      qed
    qed
  qed
qed

definition corrupt_skips :: "id \<Rightarrow> sync_queue \<Rightarrow> bool" where
  "corrupt_skips i q \<longleftrightarrow>
     (\<exists>row. find_log i q = Some row \<and> parseSkippedPages (l_skippedPages row) = Inl ZodError)"

lemma mapR_Zod: "mapR f xs = Inl e \<Longrightarrow> (\<And>x e. f x = Inl e \<Longrightarrow> e = ZodError) \<Longrightarrow> e = ZodError"
  by (induction xs) (auto simp: bindR_eq_Inl)

lemma parseSkippedPages_Inl: "parseSkippedPages raw = Inl e \<Longrightarrow> e = ZodError"
proof -
  have "parseSkippedPage x = Inl e \<Longrightarrow> e = ZodError" for x e
    by (auto simp: parseSkippedPage_def split: option.splits)
  then show "parseSkippedPages raw = Inl e \<Longrightarrow> e = ZodError"
    using mapR_Zod [of parseSkippedPage] by (auto simp: parseSkippedPages_def split: option.splits json.splits)
qed

lemma skip_Inl:
  assumes "lease_apply (W_skip a c) i w now q = Inl e" and "find_log i q = Some row"
  shows "\<not> held i w q \<or> corrupt_skips i q"
proof (cases "parseSkippedPages (l_skippedPages row)")
  case (Inl z)
  then show ?thesis using assms(2) parseSkippedPages_Inl by (auto simp: corrupt_skips_def)
next
  case (Inr old)
  then show ?thesis
    using assms by (auto simp: recordSkippedPageAndContinue_def dest: held_fenced_Inl)
qed

lemma handleRunError_outcome:
  "(\<forall>q'. handleRunError i ty k err w now ts q = Inr q' \<longrightarrow> queue_step q q' \<and> \<not> held i w q')
   \<and> (\<forall>e. handleRunError i ty k err w now ts q = Inl e \<longrightarrow> \<not> held i w q \<or> corrupt_skips i q)"
proof -
  have r: "releasing (W_fail c m)" "releasing (W_retry k c m)" "releasing (W_skip a p)" for c m a p
    by (simp_all add: releasing_def)
  show ?thesis
  proof (cases rule: handleRunError_write [of err i ty k w now ts q])
    case (permanent m)
    show ?thesis unfolding permanent(2) using releasing_Inr [OF r(1)] releasing_Inl(2) by blast
  next
    case (retry m)
    show ?thesis unfolding retry(3) using releasing_Inr [OF r(2)] releasing_Inl(2) by blast
  next
    case (skip row n)
    show ?thesis unfolding skip(5) using releasing_Inr [OF r(3)] skip_Inl [OF _ skip(3)] by blast
  next
    case (exhausted m)
    show ?thesis unfolding exhausted(4) using releasing_Inr [OF r(1)] releasing_Inl(2) by blast
  qed
qed


section \<open>A job ends\<close>

lemma loop_returns:
  assumes "\<And>ty h l c s inp s'. we_registry E ty = Some h \<Longrightarrow> h l c w s = (Inr (Continue inp), s') \<Longrightarrow>
      \<mu> (fst s') < (\<mu> (fst s) :: nat)"
  shows "\<mu> (fst s) < n \<Longrightarrow> runSyncToCompletion n E l w s \<noteq> None"
proof (induction n arbitrary: l s)
  case (Suc n)
  show ?case
  proof (cases "we_shuttingDown E (fst s)")
    case run: False
    obtain r s1 where d: "dispatch E l w s = (r, s1)" by (cases "dispatch E l w s")
    show ?thesis
    proof (cases r)
      case (Inr c)
      show ?thesis
      proof (cases c)
        case (Continue inp)
        obtain h dc where h: "we_registry E (l_syncType l) = Some h" "h l dc w s = (Inr (Continue inp), s1)"
          using d Inr Continue by (auto simp: dispatch_def split: option.splits sum.splits)
        have less: "\<mu> (fst s1) < n" using assms [OF h] Suc.prems by simp
        obtain r2 s2 where wb: "write_back E s1 (tick (l_id l) inp w (we_clock E (fst s1))) = (r2, s2)"
          by (cases "write_back E s1 (tick (l_id l) inp w (we_clock E (fst s1)))")
        show ?thesis
        proof (cases r2)
          case (Inr u)
          have "fst s2 = fst s1"
            using write_back_Inr(2) [of E s1 "W_tick inp" "l_id l" w "we_clock E (fst s1)" u s2] wb Inr
            by (simp add: writes_as_lease)
          with less have "\<mu> (fst s2) < n" by simp
          from Suc.IH [OF this] show ?thesis
            using run d \<open>r = Inr c\<close> Continue wb Inr
            by (subst runSyncToCompletion.simps) simp
        qed (use run d Inr Continue wb in \<open>simp add: runSyncToCompletion.simps\<close>)
      qed (use run d Inr in \<open>simp add: runSyncToCompletion.simps\<close>)
    qed (use run d in \<open>simp add: runSyncToCompletion.simps\<close>)
  qed (simp add: runSyncToCompletion.simps)
qed simp

text \<open>A job ends. If the work its handler has left (any measure of the world, such as the pages
  not yet fetched) decreases with every chunk that asks to continue, then the loop returns within
  that many chunks and the task settles, with whatever result.\<close>
theorem job_returns:
  fixes \<mu> :: "'w \<Rightarrow> nat"
  assumes "\<And>ty h l c s inp s'. we_registry E ty = Some h \<Longrightarrow> h l c w s = (Inr (Continue inp), s') \<Longrightarrow>
      \<mu> (fst s') < \<mu> (fst s)"
  shows "runClaimedJob (Suc (\<mu> (fst s))) E l w s \<noteq> None"
proof -
  have "runSyncToCompletion (Suc (\<mu> (fst s))) E l w s \<noteq> None"
    by (rule loop_returns [where \<mu> = \<mu>]) (use assms in blast, simp)
  then obtain r s1 where "runSyncToCompletion (Suc (\<mu> (fst s))) E l w s = Some (r, s1)"
    by (metis option.exhaust surj_pair)
  then show ?thesis by (simp add: runClaimedJob_def split: sum.splits thrown.splits)
qed

section \<open>A concrete job\<close>

text \<open>A world with a number of pages left, and an orders handler that fetches one page per chunk.\<close>

definition page_handler :: "nat handler" where
  "page_handler l c w s =
     (if fst s = 0 then (Inr (Done 7), s)
      else (Inr (Continue \<lparr> ti_cursor = None, ti_progress = 5, ti_total = None, ti_stage = ''orders'' \<rparr>),
            (fst s - 1, snd s)))"

definition page_env :: "nat worker_env" where
  "page_env = \<lparr> we_registry = (\<lambda>ty. if ty = ORDERS then Some page_handler else None),
     we_shuttingDown = (\<lambda>n. False), we_clock = (\<lambda>n. 50), we_iso = (\<lambda>n. ''1970''),
     we_libMsg = (\<lambda>e. ''library'') \<rparr>"

lemma page_handler_ok: "handlers_ok page_env"
  unfolding handlers_ok_def
  by (auto simp: page_env_def page_handler_def intro: steps_refl split: if_splits)

theorem job_returns_witness:
  "runClaimedJob 3 page_env run_claimed ''w1'' (2, run_queue run_claimed) \<noteq> None"
proof -
  have "fst s' < fst s"
    if "we_registry page_env ty = Some h" "h l c ''w1'' s = (Inr (Continue inp), s')" for ty h l c s inp s'
    using that by (auto simp: page_env_def page_handler_def split: if_splits)
  from job_returns [of page_env "''w1''" "\<lambda>n. n" "(2, run_queue run_claimed)" run_claimed, OF this]
  show ?thesis by (simp only: fst_conv eval_nat_numeral) simp
qed


theorem run_error_routing_witness:
  "\<exists>q' l'. handleRunError 1 ORDERS 1 (Thrown (Some ''MARKETPLACE_AUTH_FAILED'') (Some ''401'') None)
              ''w1'' 60 ''1970'' (run_queue run_claimed) = Inr q'
           \<and> set (q_logs q') = {l'} \<and> l_status l' = SS_FAILED
           \<and> l_errorCode l' = Some MARKETPLACE_AUTH_FAILED"
proof -
  let ?err = "Thrown (Some ''MARKETPLACE_AUTH_FAILED'') (Some ''401'') None"
  have l: "run_claimed \<in> set (q_logs (run_queue run_claimed))" by (simp add: run_queue_def)
  have h: "holds_lease 1 ''w1'' run_claimed" by (simp add: holds_lease_def run_defs)
  have p: "parseSkippedPages (l_skippedPages run_claimed) = Inr []"
    by (simp add: parseSkippedPages_def run_defs)
  have c: "errorCodeOf ?err = MARKETPLACE_AUTH_FAILED"
    by (simp add: errorCodeOf_def code_of_name_def code_name_def sync_error_codes_def)
  have f: "l_syncType run_claimed = ORDERS" "l_attemptCount run_claimed = 1"
    by (simp_all add: run_defs)
  from run_error_routing [OF reach_claimed l h p, of ?err 60 "''1970''"]
  show ?thesis by (simp add: c f PERMANENT_FAILURE_CODES_def run_queue_def) blast
qed

section \<open>A job ends\<close>

text \<open>A measure that every tick lowers, under an invariant it keeps, bounds the chunks of a run.\<close>

lemma loop_ends:
  assumes step: "\<And>l s inp s1 u s2. I l s \<Longrightarrow> dispatch E l w s = (Inr (Continue inp), s1) \<Longrightarrow>
      write_back E s1 (tick (l_id l) inp w (we_clock E (fst s1))) = (Inr u, s2) \<Longrightarrow>
      (let l' = l \<lparr> l_progressCurrent := ti_progress inp, l_progressTotal := ti_total inp, l_pageCursor := ti_cursor inp \<rparr>
       in I l' s2 \<and> \<mu> l' < (\<mu> l :: nat))"
  shows "I l s \<Longrightarrow> \<mu> l < n \<Longrightarrow> runSyncToCompletion n E l w s \<noteq> None"
proof (induction n arbitrary: l s)
  case (Suc n)
  obtain r s1 where d: "dispatch E l w s = (r, s1)" by (metis surj_pair)
  show ?case
  proof (cases "we_shuttingDown E (fst s) \<or> (\<nexists>inp. r = Inr (Continue inp))")
    case True
    then show ?thesis
      using d by (auto simp: runSyncToCompletion.simps [of "Suc n"] simp del: not_None_eq split: sum.splits chunk_result.splits)
  next
    case False
    then obtain inp where r: "r = Inr (Continue inp)" by blast
    let ?l = "l \<lparr> l_progressCurrent := ti_progress inp, l_progressTotal := ti_total inp, l_pageCursor := ti_cursor inp \<rparr>"
    obtain o2 s2 where wb: "write_back E s1 (tick (l_id l) inp w (we_clock E (fst s1))) = (o2, s2)" by (metis surj_pair)
    show ?thesis
    proof (cases o2)
      case (Inl e)
      then show ?thesis using False d r wb by (simp add: runSyncToCompletion.simps [of "Suc n"])
    next
      case (Inr u)
      have "I ?l s2" "\<mu> ?l < n"
        using step [OF Suc.prems(1) d [unfolded r] wb [unfolded Inr]] Suc.prems(2) by (simp_all add: Let_def)
      from Suc.IH [OF this] show ?thesis
        using False d r wb Inr by (simp add: runSyncToCompletion.simps [of "Suc n"])
    qed
  qed
qed simp

lemma job_ends: "runSyncToCompletion n E l w s \<noteq> None \<Longrightarrow> runClaimedJob n E l w s \<noteq> None"
  by (auto simp: runClaimedJob_def split: sum.splits thrown.splits)

end
