(* ===== verification/Stock.thy ===== *)
theory Stock
  imports Profit_Settings Fee_Definitions
begin

text \<open>
  The optimistic stock movement of \<open>src/packages/order-sync/src/stock.ts\<close>: a line that enters the
  system lowers the local stock of its variant at once, and the catalogue scan corrects it later.
  Quantities are 32-bit columns; their overflow is not modelled. \<open>updated_at\<close> is not a column of the
  model.
\<close>

section \<open>The operations\<close>

definition map_variant :: "id \<Rightarrow> (int \<Rightarrow> int) \<Rightarrow> db \<Rightarrow> db" where
  "map_variant vid g d =
     d \<lparr> db_variants := update_where (\<lambda>v. v_id v = vid)
           (\<lambda>v. v \<lparr> v_quantity := g (v_quantity v) \<rparr>) (db_variants d) \<rparr>"

definition decrementVariantStock :: "id \<Rightarrow> int \<Rightarrow> db \<Rightarrow> db" where
  "decrementVariantStock vid quantity = map_variant vid (\<lambda>q. max (q - quantity) 0)"

definition incrementVariantStock :: "id \<Rightarrow> int \<Rightarrow> db \<Rightarrow> db" where
  "incrementVariantStock vid quantity = map_variant vid (\<lambda>q. q + quantity)"

definition variants_of :: "id \<Rightarrow> db \<Rightarrow> variant_row list" where
  "variants_of pid d = filter (\<lambda>v. v_productId v = pid) (db_variants d)"

text \<open>A product without a variant has no group in the sums, so it is left alone.\<close>

definition recomputeProductsTotalStock :: "id list \<Rightarrow> db \<Rightarrow> db" where
  "recomputeProductsTotalStock productIds d =
     (if productIds = [] then d
      else d \<lparr> db_products := update_where
                 (\<lambda>p. p_id p \<in> set productIds \<and> variants_of (p_id p) d \<noteq> [])
                 (\<lambda>p. p \<lparr> p_totalStock := sum_list (map v_quantity (variants_of (p_id p) d)) \<rparr>)
                 (db_products d) \<rparr>)"

definition isOrderOnBusinessToday :: "(time \<Rightarrow> int) \<Rightarrow> time \<Rightarrow> jsdate \<Rightarrow> bool" where
  "isOrderOnBusinessToday off now orderDate =
     (case date_of orderDate of
        None \<Rightarrow> False
      | Some t \<Rightarrow> getBusinessDate off t = getBusinessDate off now)"

text \<open>The first variant of a store with a barcode, as \<open>findFirst\<close> finds it.\<close>

definition variant_by_barcode :: "id \<Rightarrow> string \<Rightarrow> db \<Rightarrow> variant_row option" where
  "variant_by_barcode sid bc d = find (\<lambda>v. v_storeId v = sid \<and> v_barcode v = bc) (db_variants d)"

section \<open>What they leave alone\<close>

text \<open>Everything but the quantities of variants and the totals of products.\<close>

definition same_but_stock :: "db \<Rightarrow> db \<Rightarrow> bool" where
  "same_but_stock d d' \<longleftrightarrow>
     d' \<lparr> db_variants := db_variants d, db_products := db_products d \<rparr> = d
   \<and> map (v_quantity_update (\<lambda>_. 0)) (db_variants d') = map (v_quantity_update (\<lambda>_. 0)) (db_variants d)
   \<and> map (p_totalStock_update (\<lambda>_. 0)) (db_products d') = map (p_totalStock_update (\<lambda>_. 0)) (db_products d)"

lemma same_but_stock_refl [simp]: "same_but_stock d d"
  by (simp add: same_but_stock_def)

lemma same_but_stock_trans: "same_but_stock a b \<Longrightarrow> same_but_stock b c \<Longrightarrow> same_but_stock a c"
  by (cases a; cases b; cases c) (simp add: same_but_stock_def)

lemma same_but_stock_sel:
  assumes "same_but_stock d d'"
  shows "db_orders d' = db_orders d" "db_items d' = db_items d" "db_fees d' = db_fees d"
    "db_buffer d' = db_buffer d" "db_stores d' = db_stores d" "db_nextId d' = db_nextId d"
    "db_costLinks d' = db_costLinks d" "db_costProfiles d' = db_costProfiles d"
    "db_feeDefs d' = db_feeDefs d" "db_claimItems d' = db_claimItems d" "db_fxRates d' = db_fxRates d"
    "db_components d' = db_components d" "db_commissionRates d' = db_commissionRates d"
  using assms by (cases d; cases d'; simp add: same_but_stock_def)+

lemma map_variant_stock: "same_but_stock d (map_variant vid g d)"
  by (simp add: same_but_stock_def map_variant_def update_where_def)

lemma recompute_stock: "same_but_stock d (recomputeProductsTotalStock pids d)"
  by (simp add: same_but_stock_def recomputeProductsTotalStock_def update_where_def)

lemma decrement_stock: "same_but_stock d (decrementVariantStock vid n d)"
  by (simp add: decrementVariantStock_def map_variant_stock)

lemma increment_stock: "same_but_stock d (incrementVariantStock vid n d)"
  by (simp add: incrementVariantStock_def map_variant_stock)

text \<open>The keys of the variants do not change, so a barcode resolves to the same id.\<close>

lemma find_map_key:
  assumes "map k xs = map k ys" and "\<And>x y. k x = k y \<Longrightarrow> P x = P y \<and> f x = f y"
  shows "map_option f (find P xs) = map_option f (find P ys)"
  using assms(1)
proof (induction xs arbitrary: ys)
  case (Cons x xs)
  then obtain y zs where ys: "ys = y # zs" "k x = k y" "map k xs = map k zs"
    by (cases ys) auto
  then show ?case using Cons.IH [OF ys(3)] assms(2) [OF ys(2)] by simp
qed simp

abbreviation variant_keys :: "db \<Rightarrow> variant_row list" where
  "variant_keys d \<equiv> map (v_quantity_update (\<lambda>_. 0)) (db_variants d)"

lemma variant_by_barcode_keys:
  assumes m: "variant_keys d' = variant_keys d"
  shows "map_option v_id (variant_by_barcode sid bc d') = map_option v_id (variant_by_barcode sid bc d)"
    and "map_option v_productId (variant_by_barcode sid bc d') = map_option v_productId (variant_by_barcode sid bc d)"
proof -
  have sel: "v_id x = v_id y" "v_productId x = v_productId y" "v_storeId x = v_storeId y" "v_barcode x = v_barcode y"
    if xy: "v_quantity_update (\<lambda>_. 0) x = v_quantity_update (\<lambda>_. 0) y" for x y :: variant_row
    using arg_cong [OF xy, of v_id] arg_cong [OF xy, of v_productId] arg_cong [OF xy, of v_storeId]
      arg_cong [OF xy, of v_barcode] by simp_all
  show "map_option v_id (variant_by_barcode sid bc d') = map_option v_id (variant_by_barcode sid bc d)"
    unfolding variant_by_barcode_def by (rule find_map_key [OF m], frule sel(1), frule sel(3), frule sel(4), simp)
  show "map_option v_productId (variant_by_barcode sid bc d') = map_option v_productId (variant_by_barcode sid bc d)"
    unfolding variant_by_barcode_def by (rule find_map_key [OF m], frule sel(2), frule sel(3), frule sel(4), simp)
qed

lemma map_variant_keys [simp]: "variant_keys (map_variant vid g d) = variant_keys d"
  by (simp add: map_variant_def update_where_def)

lemma stock_keys [simp]:
  "variant_keys (decrementVariantStock vid n d) = variant_keys d"
  "variant_keys (incrementVariantStock vid n d) = variant_keys d"
  by (simp_all add: decrementVariantStock_def incrementVariantStock_def)

end
