(* ===== verification/Order_Write.thy ===== *)
theory Order_Write
  imports Stock Estimate
begin

text \<open>
  \<open>src/packages/order-sync/src/upsert-order.ts\<close>: the write of one marketplace order with its lines,
  the capture of unit costs and the refresh of commissions, in one transaction. A failed
  transaction leaves the database as it was: the operations are functions into an error or a
  database. All calls of \<open>new Date()\<close> inside one transaction read the same instant \<open>now\<close>; log lines are
  left out, as are the columns of an order that nothing modelled reads (the promotion displays,
  the promised and estimated delivery dates, the order number).
\<close>

datatype intake_error = ProfitError profit_error | InvalidDate

fun liftE :: "profit_error + 'a \<Rightarrow> intake_error + 'a" where
  "liftE (Inl e) = Inl (ProfitError e)"
| "liftE (Inr x) = Inr x"

lemma liftE_Inr [simp]: "liftE r = Inr x \<longleftrightarrow> r = Inr x"
  by (cases r) auto

section \<open>Unit costs\<close>

record fx_resolution =
  fr_rate :: rat
  fr_source :: fx_source

definition resolveFx :: "cost_profile_row \<Rightarrow> db \<Rightarrow> profit_error + fx_resolution option" where
  "resolveFx p d =
     (if cp_currency p = TRY then Inr (Some \<lparr> fr_rate = 1, fr_source = TRY_NATIVE \<rparr>)
      else if cp_fxRateMode p = FX_MANUAL then
        (case cp_manualFxRate p of
           None \<Rightarrow> Inl (ManualFxRateMissing (cp_id p))
         | Some r \<Rightarrow> Inr (Some \<lparr> fr_rate = r, fr_source = MANUAL_SOURCE \<rparr>))
      else
        (case least_by (\<lambda>r. - fx_rateDate r) (filter (\<lambda>r. fx_currency r = cp_currency p) (db_fxRates d)) of
           None \<Rightarrow> Inr None
         | Some r \<Rightarrow> Inr (Some \<lparr> fr_rate = fx_rateToTry r, fr_source = TCMB (fx_rateDate r) \<rparr>)))"

definition find_item :: "id \<Rightarrow> db \<Rightarrow> item_row option" where
  "find_item iid d = find (\<lambda>i. i_id i = iid) (db_items d)"

definition update_item :: "id \<Rightarrow> (item_row \<Rightarrow> item_row) \<Rightarrow> db \<Rightarrow> db" where
  "update_item iid g d = d \<lparr> db_items := update_where (\<lambda>i. i_id i = iid) g (db_items d) \<rparr>"

definition linked_profiles :: "id \<Rightarrow> db \<Rightarrow> cost_profile_row list" where
  "linked_profiles vid d =
     List.map_filter (\<lambda>l. find (\<lambda>p. cp_id p = cl_profileId l) (db_costProfiles d))
       (filter (\<lambda>l. cl_variantId l = vid) (db_costLinks d))"

definition active_profiles :: "id \<Rightarrow> db \<Rightarrow> cost_profile_row list" where
  "active_profiles vid d = filter (\<lambda>p. cp_archivedAt p = None) (linked_profiles vid d)"

definition snapshot_component :: "dec \<Rightarrow> id \<Rightarrow> cost_profile_row \<Rightarrow> fx_resolution \<Rightarrow> component_row" where
  "snapshot_component D iid p fx =
     \<lparr> sc_itemId = iid, sc_profileId = cp_id p, sc_profileName = cp_name p,
       sc_amountGross = cp_amountGross p, sc_currency = cp_currency p, sc_vatRate = cp_vatRate p,
       sc_amountInTryGross = dmul D (cp_amountGross p) (fr_rate fx), sc_fxRateMode = cp_fxRateMode p,
       sc_fxRateUsed = fr_rate fx, sc_fxRateSource = fr_source fx \<rparr>"

text \<open>The loop over the profiles: it ends without a snapshot at the first rate that is missing.\<close>

fun snapshot_components ::
  "dec \<Rightarrow> db \<Rightarrow> id \<Rightarrow> cost_profile_row list \<Rightarrow> profit_error + component_row list option" where
  "snapshot_components D d iid [] = Inr (Some [])"
| "snapshot_components D d iid (p # ps) =
     bindR (resolveFx p d) (\<lambda>fx.
       case fx of
         None \<Rightarrow> Inr None
       | Some r \<Rightarrow> bindR (snapshot_components D d iid ps) (\<lambda>cs.
                     Inr (map_option (Cons (snapshot_component D iid p r)) cs)))"

definition components_gross :: "dec \<Rightarrow> component_row list \<Rightarrow> rat" where
  "components_gross D cs = dps D 2 (dsum D sc_amountInTryGross 0 cs)"

definition components_net :: "dec \<Rightarrow> component_row list \<Rightarrow> rat" where
  "components_net D cs =
     dsum D (\<lambda>c. ddiv D (dmul D (sc_amountInTryGross c) 100) (dadd D 100 (sc_vatRate c))) 0 cs"

definition blended_vat_rate :: "dec \<Rightarrow> component_row list \<Rightarrow> rat option" where
  "blended_vat_rate D cs =
     (let gross = components_gross D cs; net = components_net D cs in
      if gross = 0 \<or> net = 0 then None
      else Some (dps D 2 (dmul D (ddiv D (dsub D gross net) net) 100)))"

definition captureCostSnapshot :: "dec \<Rightarrow> time \<Rightarrow> id \<Rightarrow> db \<Rightarrow> profit_error + db" where
  "captureCostSnapshot D now iid d =
     (case find_item iid d of
        None \<Rightarrow> Inr d
      | Some i \<Rightarrow>
          (case (i_productVariantId i, find_order (i_orderId i) d) of
             (Some vid, Some r) \<Rightarrow>
               if i_unitCostSnapshotGross i \<noteq> None \<or> o_profitExcludedAt r \<noteq> None then Inr d
               else if active_profiles vid d = [] then Inr d
               else bindR (snapshot_components D d iid (active_profiles vid d)) (\<lambda>cs.
                 case cs of
                   None \<Rightarrow> Inr d
                 | Some comps \<Rightarrow>
                     Inr (let d1 = update_item iid (\<lambda>i. i \<lparr>
                            i_unitCostSnapshotGross := Some (components_gross D comps),
                            i_unitCostSnapshotVatRate := blended_vat_rate D comps,
                            i_snapshotCapturedAt := Some now \<rparr>) d
                          in d1 \<lparr> db_components := db_components d1 @ comps \<rparr>))
           | _ \<Rightarrow> Inr d))"

section \<open>Commissions\<close>

record effective_commission =
  ec_rate :: rat
  ec_gross :: rat
  ec_refundedGross :: rat

definition mapped_commission :: "mapped_line \<Rightarrow> effective_commission" where
  "mapped_commission l =
     \<lparr> ec_rate = ml_commissionRate l, ec_gross = ml_commissionGross l,
       ec_refundedGross = ml_refundedCommissionGross l \<rparr>"

definition resolveEffectiveCommission ::
  "dec \<Rightarrow> mapped_line \<Rightarrow> platform option \<Rightarrow> db \<Rightarrow> effective_commission" where
  "resolveEffectiveCommission D l platform d =
     (if ml_commissionKnown l \<noteq> Some False then mapped_commission l
      else case (ml_categoryId l, platform) of
        (Some cat, Some p) \<Rightarrow>
          (case resolveCommissionRate d p cat None None of
             None \<Rightarrow> mapped_commission l
           | Some r \<Rightarrow>
               \<lparr> ec_rate = rr_rate r,
                 ec_gross = dps D 2 (ddiv D (dmul D (ml_lineListGross l) (rr_rate r)) 100),
                 ec_refundedGross = dps D 2 (ddiv D (dmul D (ml_lineSellerDiscountGross l) (rr_rate r)) 100) \<rparr>)
      | _ \<Rightarrow> mapped_commission l)"

section \<open>The order row\<close>

record upsert_opts =
  uo_profitExclusion :: "profit_exclusion_reason option"
  uo_promotedFromBuffer :: bool

definition no_opts :: upsert_opts where
  "no_opts = \<lparr> uo_profitExclusion = None, uo_promotedFromBuffer = False \<rparr>"

definition incoming_lmd :: "mapped_order \<Rightarrow> time option" where
  "incoming_lmd mo = Option.bind (mo_lastModifiedDate mo) date_of"

definition is_order :: "id \<Rightarrow> string \<Rightarrow> order_row \<Rightarrow> bool" where
  "is_order sid pid r \<longleftrightarrow> o_storeId r = sid \<and> o_platformOrderId r = pid"

definition order_by_key :: "id \<Rightarrow> string \<Rightarrow> db \<Rightarrow> order_row option" where
  "order_by_key sid pid d = find (is_order sid pid) (db_orders d)"

text \<open>The freshness guard: an event strictly older than the freshest one applied is dropped.\<close>

definition stale_event :: "id \<Rightarrow> mapped_order \<Rightarrow> db \<Rightarrow> bool" where
  "stale_event sid mo d \<longleftrightarrow>
     (case (Option.bind (order_by_key sid (mo_platformOrderId mo) d) o_platformLastModifiedAt, incoming_lmd mo) of
        (Some seen, Some incoming) \<Rightarrow> incoming < seen
      | _ \<Rightarrow> False)"

definition seller_discount_vat :: "dec \<Rightarrow> mapped_order \<Rightarrow> rat" where
  "seller_discount_vat D mo =
     (if mo_micro mo then 0
      else dps D 2 (foldl (\<lambda>acc l.
             if ml_saleVatRate l = 0 then acc
             else dadd D acc (ddiv D (dmul D (ml_lineSellerDiscountGross l) (ml_saleVatRate l))
                                     (dadd D 100 (ml_saleVatRate l)))) 0 (mo_lines mo)))"

definition create_order_row ::
  "dec \<Rightarrow> id \<Rightarrow> id \<Rightarrow> id \<Rightarrow> mapped_order \<Rightarrow> time \<Rightarrow> upsert_opts \<Rightarrow> time \<Rightarrow> order_row" where
  "create_order_row D oid sid org mo orderDate opts now =
     \<lparr> o_id = oid, o_organizationId = org, o_storeId = sid,
       o_platformOrderId = mo_platformOrderId mo,
       o_platformOrderNumber = mo_platformOrderNumber mo, o_orderDate = orderDate, o_status = mo_status mo,
       o_actualDeliveryDate = mo_actualDeliveryDate mo, o_actualShipDate = mo_actualShipDate mo,
       o_deliveredOnTime = mo_deliveredOnTime mo, o_fastDelivery = mo_fastDelivery mo,
       o_fastDeliveryType = mo_fastDeliveryType mo, o_micro = mo_micro mo,
       o_saleGross = Some (mo_saleGross mo),
       o_saleVat = Some (if mo_micro mo then 0 else mo_saleVat mo),
       o_listGross = Some (mo_listGross mo),
       o_sellerDiscountGross = Some (mo_sellerDiscountGross mo),
       o_sellerDiscountVat = Some (seller_discount_vat D mo),
       o_cargoDeci = mo_cargoDeci mo, o_cargoProviderName = mo_cargoProviderName mo,
       o_cargoTrackingNumber = mo_cargoTrackingNumber mo,
       o_usesSellerCargoAgreement = (case mo_usesSellerCargoAgreement mo of None \<Rightarrow> False | Some b \<Rightarrow> b),
       o_platformCreatedBy = mo_platformCreatedBy mo,
       o_originShipmentDate = mo_originShipmentDate mo,
       o_estimatedNetProfit = None, o_estimatedNetVat = None, o_estimatedSaleMarginPct = None,
       o_estimatedCostMarkupPct = None, o_settledNetProfit = None, o_settledNetVat = None,
       o_settledSaleMarginPct = None, o_settledCostMarkupPct = None,
       o_snapshotIncludeStopaj = None, o_snapshotIncludeNegativeNetVat = None,
       o_profitExcludedAt = map_option (\<lambda>_. now) (uo_profitExclusion opts),
       o_profitExclusionReason = uo_profitExclusion opts,
       o_platformLastModifiedAt = incoming_lmd mo,
       o_promotedFromBufferAt = (if uo_promotedFromBuffer opts then Some now else None),
       o_reconciliationStatus = NOT_SETTLED, o_paymentOrderId = None, o_paymentDate = None \<rparr>"

text \<open>A value the event carries is written, a missing one keeps what is stored.\<close>

fun keep_or :: "'a option \<Rightarrow> 'a option \<Rightarrow> 'a option" where
  "keep_or None old = old"
| "keep_or (Some x) old = Some x"

definition update_order_row :: "mapped_order \<Rightarrow> order_row \<Rightarrow> order_row" where
  "update_order_row mo r =
     r \<lparr> o_status := mo_status mo,
         o_actualDeliveryDate := keep_or (mo_actualDeliveryDate mo) (o_actualDeliveryDate r),
         o_deliveredOnTime := (if mo_actualDeliveryDate mo \<noteq> None then mo_deliveredOnTime mo
                               else o_deliveredOnTime r),
         o_actualShipDate := keep_or (mo_actualShipDate mo) (o_actualShipDate r),
         o_cargoProviderName := keep_or (mo_cargoProviderName mo) (o_cargoProviderName r),
         o_cargoTrackingNumber := keep_or (mo_cargoTrackingNumber mo) (o_cargoTrackingNumber r),
         o_cargoDeci := keep_or (mo_cargoDeci mo) (o_cargoDeci r),
         o_usesSellerCargoAgreement := (case mo_usesSellerCargoAgreement mo of
                                          None \<Rightarrow> o_usesSellerCargoAgreement r | Some b \<Rightarrow> b),
         o_platformCreatedBy := keep_or (mo_platformCreatedBy mo) (o_platformCreatedBy r),
         o_originShipmentDate := keep_or (mo_originShipmentDate mo) (o_originShipmentDate r),
         o_platformLastModifiedAt := keep_or (incoming_lmd mo) (o_platformLastModifiedAt r) \<rparr>"

text \<open>The upsert on \<open>(storeId, platformOrderId)\<close>: the id of the row and the database.\<close>

definition upsert_order ::
  "dec \<Rightarrow> id \<Rightarrow> id \<Rightarrow> mapped_order \<Rightarrow> upsert_opts \<Rightarrow> time \<Rightarrow> db \<Rightarrow> intake_error + id \<times> db" where
  "upsert_order D sid org mo opts now d =
     (case order_by_key sid (mo_platformOrderId mo) d of
        Some r \<Rightarrow> Inr (o_id r, update_order (o_id r) (update_order_row mo) d)
      | None \<Rightarrow>
          (case date_of (mo_orderDate mo) of
             None \<Rightarrow> Inl InvalidDate
           | Some t \<Rightarrow>
               Inr (db_nextId d,
                    d \<lparr> db_orders := db_orders d
                          @ [create_order_row D (db_nextId d) sid org mo t opts now],
                        db_nextId := Suc (db_nextId d) \<rparr>)))"

section \<open>The lines\<close>

text \<open>
  The key of a line: the platform's line id where it has one, a stored row without a line id
  being matched by its variant; else the variant alone.
\<close>

definition line_matches :: "id \<Rightarrow> mapped_line \<Rightarrow> id option \<Rightarrow> item_row \<Rightarrow> bool" where
  "line_matches oid l vid i \<longleftrightarrow>
     i_orderId i = oid
     \<and> (case ml_platformLineId l of
          Some p \<Rightarrow> i_platformLineId i = Some p
                    \<or> (i_platformLineId i = None \<and> i_productVariantId i = vid)
        | None \<Rightarrow> i_productVariantId i = vid)"

definition create_item_row :: "id \<Rightarrow> id \<Rightarrow> mapped_order \<Rightarrow> mapped_line \<Rightarrow> id option \<Rightarrow> effective_commission \<Rightarrow> item_row" where
  "create_item_row iid oid mo l vid eff =
     \<lparr> i_id = iid, i_orderId = oid, i_productVariantId = vid, i_quantity = ml_quantity l,
       i_platformLineId = ml_platformLineId l, i_barcode = Some (ml_barcode l),
       i_lineListGross = ml_lineListGross l, i_lineSaleGross = ml_lineSaleGross l,
       i_lineSellerDiscountGross = ml_lineSellerDiscountGross l,
       i_saleVatRate = (if mo_micro mo then 0 else ml_saleVatRate l),
       i_commissionRate = ec_rate eff, i_commissionGross = ec_gross eff,
       i_refundedCommissionGross = ec_refundedGross eff,
       i_commissionVatRate = ml_commissionVatRate l,
       i_estimatedCommissionGross = Some (ec_gross eff), i_settledCommissionGross = None,
       i_unitCostSnapshotGross = None, i_unitCostSnapshotVatRate = None, i_snapshotCapturedAt = None,
       i_settledSaleAmount = None, i_commissionInvoiceSerialNumber = None, i_commissionInvoiceId = None,
       i_variantResolutionAttempts = 0, i_nextResolutionAt = None \<rparr>"

definition stamp_line_id :: "mapped_line \<Rightarrow> item_row \<Rightarrow> db \<Rightarrow> db" where
  "stamp_line_id l i d =
     (if ml_platformLineId l \<noteq> None \<and> i_platformLineId i = None
      then update_item (i_id i) (\<lambda>r. r \<lparr> i_platformLineId := ml_platformLineId l \<rparr>) d else d)"

definition set_commission :: "effective_commission \<Rightarrow> item_row \<Rightarrow> item_row" where
  "set_commission eff r =
     r \<lparr> i_commissionRate := ec_rate eff, i_commissionGross := ec_gross eff,
         i_refundedCommissionGross := ec_refundedGross eff,
         i_estimatedCommissionGross := Some (ec_gross eff) \<rparr>"

definition refresh_commission :: "dec \<Rightarrow> mapped_line \<Rightarrow> platform option \<Rightarrow> item_row \<Rightarrow> db \<Rightarrow> db" where
  "refresh_commission D l platform i d =
     (if ml_commissionKnown l = Some True \<and> i_settledCommissionGross i = None then
        (let eff = resolveEffectiveCommission D l platform d in
         if ec_gross eff \<noteq> i_commissionGross i then update_item (i_id i) (set_commission eff) d else d)
      else d)"

definition existing_line :: "dec \<Rightarrow> mapped_line \<Rightarrow> platform option \<Rightarrow> item_row \<Rightarrow> db \<Rightarrow> db" where
  "existing_line D l platform i d = refresh_commission D l platform i (stamp_line_id l i d)"

definition insert_item :: "item_row \<Rightarrow> db \<Rightarrow> db" where
  "insert_item i d = d \<lparr> db_items := db_items d @ [i], db_nextId := Suc (db_nextId d) \<rparr>"

text \<open>The state of the loop: the database and the products whose stock was lowered.\<close>

definition new_line ::
  "dec \<Rightarrow> mapped_order \<Rightarrow> upsert_opts \<Rightarrow> bool \<Rightarrow> platform option \<Rightarrow> time \<Rightarrow> id \<Rightarrow> mapped_line \<Rightarrow>
   variant_row option \<Rightarrow> db \<times> id list \<Rightarrow> intake_error + db \<times> id list" where
  "new_line D mo opts shouldDecrement platform now oid l variant s =
     (let (d, products) = s;
          eff = resolveEffectiveCommission D l platform d;
          iid = db_nextId d;
          d1 = insert_item (create_item_row iid oid mo l (map_option v_id variant) eff) d;
          (d2, products') =
            (case variant of
               Some v \<Rightarrow>
                 if shouldDecrement
                 then (decrementVariantStock (v_id v) (ml_quantity l) d1, products @ [v_productId v])
                 else (d1, products)
             | None \<Rightarrow> (d1, products))
      in if uo_profitExclusion opts = None
         then bindR (liftE (captureCostSnapshot D now iid d2)) (\<lambda>d3. Inr (d3, products'))
         else Inr (d2, products'))"

definition write_line ::
  "dec \<Rightarrow> id \<Rightarrow> mapped_order \<Rightarrow> upsert_opts \<Rightarrow> bool \<Rightarrow> platform option \<Rightarrow> time \<Rightarrow> id \<Rightarrow>
   db \<times> id list \<Rightarrow> mapped_line \<Rightarrow> intake_error + db \<times> id list" where
  "write_line D sid mo opts shouldDecrement platform now oid s l =
     (let d = fst s;
          variant = variant_by_barcode sid (ml_barcode l) d
      in case find (line_matches oid l (map_option v_id variant)) (db_items d) of
           Some i \<Rightarrow> Inr (existing_line D l platform i d, snd s)
         | None \<Rightarrow> new_line D mo opts shouldDecrement platform now oid l variant s)"

definition fallback_platform :: "id \<Rightarrow> mapped_order \<Rightarrow> db \<Rightarrow> platform option" where
  "fallback_platform sid mo d =
     (if list_ex (\<lambda>l. ml_commissionKnown l = Some False) (mo_lines mo)
      then map_option s_platform (find_store sid d) else None)"

definition should_decrement :: "(time \<Rightarrow> int) \<Rightarrow> time \<Rightarrow> mapped_order \<Rightarrow> upsert_opts \<Rightarrow> bool" where
  "should_decrement off now mo opts \<longleftrightarrow>
     isOrderOnBusinessToday off now (mo_orderDate mo) \<and> mo_status mo \<noteq> OS_CANCELLED
     \<and> \<not> uo_promotedFromBuffer opts"

definition upsertOrderWithSnapshot ::
  "dec \<Rightarrow> (time \<Rightarrow> int) \<Rightarrow> time \<Rightarrow> id \<Rightarrow> id \<Rightarrow> mapped_order \<Rightarrow> upsert_opts \<Rightarrow> db \<Rightarrow> intake_error + db" where
  "upsertOrderWithSnapshot D off now sid org mo opts d =
     (if stale_event sid mo d then Inr d
      else bindR (upsert_order D sid org mo opts now d) (\<lambda>(oid, d1).
        bindR (foldR (write_line D sid mo opts (should_decrement off now mo opts)
                       (fallback_platform sid mo d1) now oid) (d1, []) (mo_lines mo))
          (\<lambda>(d2, products).
            let d3 = recomputeProductsTotalStock products d2 in
            if uo_profitExclusion opts = None
            then liftE (applyEstimateOnOrderCreate D off oid d3)
            else Inr d3)))"

end
