(* ===== verification/Order_Intake.thy ===== *)
theory Order_Intake
  imports Order_Write
begin

text \<open>
  \<open>src/packages/order-sync/src/intake-order.ts\<close>: the routing of an order that a webhook or a poll
  delivers, into \<open>orders\<close> or into the live performance buffer. The statements outside a transaction
  are run one after the other; what an interleaving could add between them is not modelled. The
  raw payload, which nothing reads, is left out. A buffer row keeps the business day of its order
  (a \<open>date\<close> column, read back as midnight UTC of that day).
\<close>

datatype persist_reason = R_calculable | R_excluded_late_arrival | R_already_in_orders | R_cancelled_audit

datatype intake_outcome =
    Persisted persist_reason
  | Buffered
  | BufferedDeduped bool           \<comment> \<open>\<open>refreshed\<close>\<close>
  | Dematerialized bool nat        \<comment> \<open>\<open>deletedOrder\<close>, \<open>deletedBufferEntries\<close>\<close>

section \<open>Split ghosts\<close>

definition is_ghost :: "id \<Rightarrow> id \<Rightarrow> string \<Rightarrow> order_row \<Rightarrow> bool" where
  "is_ghost org sid pid r \<longleftrightarrow>
     o_organizationId r = org \<and> o_storeId r = sid \<and> o_platformOrderId r = pid"

definition is_buffered :: "id \<Rightarrow> id \<Rightarrow> string \<Rightarrow> buffer_row \<Rightarrow> bool" where
  "is_buffered org sid pid b \<longleftrightarrow>
     b_organizationId b = org \<and> b_storeId b = sid \<and> b_platformOrderId b = pid"

definition parseBufferResolvableLines :: "mapped_order \<Rightarrow> (string \<times> int) list" where
  "parseBufferResolvableLines mo = map (\<lambda>l. (ml_barcode l, ml_quantity l)) (mo_lines mo)"

text \<open>A list of stock movements with the products they touch.\<close>

definition restock_item :: "db \<times> id list \<Rightarrow> item_row \<Rightarrow> db \<times> id list" where
  "restock_item s i =
     (case item_variant i (fst s) of
        None \<Rightarrow> s
      | Some v \<Rightarrow> (incrementVariantStock (v_id v) (i_quantity i) (fst s), snd s @ [v_productId v]))"

definition move_line ::
  "(id \<Rightarrow> int \<Rightarrow> db \<Rightarrow> db) \<Rightarrow> id \<Rightarrow> db \<times> id list \<Rightarrow> string \<times> int \<Rightarrow> db \<times> id list" where
  "move_line move sid s l =
     (case variant_by_barcode sid (fst l) (fst s) of
        None \<Rightarrow> s
      | Some v \<Rightarrow> (move (v_id v) (snd l) (fst s), snd s @ [v_productId v]))"

definition restock_buffer_row ::
  "(time \<Rightarrow> int) \<Rightarrow> time \<Rightarrow> id \<Rightarrow> db \<times> id list \<Rightarrow> buffer_row \<Rightarrow> db \<times> id list" where
  "restock_buffer_row off now sid s b =
     (if isOrderOnBusinessToday off now (JDate (b_orderDay b * day_ms))
      then foldl (move_line incrementVariantStock sid) s (parseBufferResolvableLines (b_mappedOrder b))
      else s)"

definition reverse_stock :: "(time \<Rightarrow> int) \<Rightarrow> time \<Rightarrow> id \<Rightarrow> id \<Rightarrow> string \<Rightarrow> db \<Rightarrow> db \<times> id list" where
  "reverse_stock off now sid org pid d =
     (case find (is_ghost org sid pid) (db_orders d) of
        Some g \<Rightarrow>
          if isOrderOnBusinessToday off now (JDate (o_orderDate g))
          then foldl restock_item (d, [])
                 (filter (\<lambda>i. i_productVariantId i \<noteq> None) (order_items (o_id g) d))
          else (d, [])
      | None \<Rightarrow> foldl (restock_buffer_row off now sid) (d, []) (filter (is_buffered org sid pid) (db_buffer d)))"

text \<open>Deleting an order deletes its items, their cost components, its fees and claims.\<close>

definition delete_orders :: "(order_row \<Rightarrow> bool) \<Rightarrow> db \<Rightarrow> db" where
  "delete_orders P d =
     (let oids = set (map o_id (filter P (db_orders d)));
          iids = set (map i_id (filter (\<lambda>i. i_orderId i \<in> oids) (db_items d)))
      in d \<lparr> db_orders := delete_where P (db_orders d),
             db_items := delete_where (\<lambda>i. i_orderId i \<in> oids) (db_items d),
             db_fees := delete_where (\<lambda>f. f_orderId f \<in> oids) (db_fees d),
             db_claims := delete_where (\<lambda>c. oc_orderId c \<in> oids) (db_claims d),
             db_claimItems := delete_where (\<lambda>c. list_ex (\<lambda>oid. claim_item_of oid d c) (map o_id (filter P (db_orders d))))
               (db_claimItems d),
             db_components := delete_where (\<lambda>c. sc_itemId c \<in> iids) (db_components d) \<rparr>)"

definition delete_buffer :: "(buffer_row \<Rightarrow> bool) \<Rightarrow> db \<Rightarrow> db" where
  "delete_buffer P d = d \<lparr> db_buffer := delete_where P (db_buffer d) \<rparr>"

definition dematerialize :: "(time \<Rightarrow> int) \<Rightarrow> time \<Rightarrow> id \<Rightarrow> id \<Rightarrow> mapped_order \<Rightarrow> db \<Rightarrow> intake_outcome \<times> db" where
  "dematerialize off now sid org mo d =
     (let pid = mo_platformOrderId mo;
          (d1, products) = reverse_stock off now sid org pid d;
          d2 = recomputeProductsTotalStock products d1
      in (Dematerialized (list_ex (is_ghost org sid pid) (db_orders d2))
            (length (filter (is_buffered org sid pid) (db_buffer d2))),
          delete_buffer (is_buffered org sid pid) (delete_orders (is_ghost org sid pid) d2)))"

section \<open>The buffer\<close>

definition new_buffer_row :: "id \<Rightarrow> id \<Rightarrow> id \<Rightarrow> int \<Rightarrow> mapped_order \<Rightarrow> buffer_row" where
  "new_buffer_row bid sid org day mo =
     \<lparr> b_id = bid, b_organizationId = org, b_storeId = sid, b_orderDay = day,
       b_platformOrderId = mo_platformOrderId mo, b_mappedOrder = mo, b_status = BS_PENDING,
       b_attempts = 0, b_lastError = None, b_lastFailedAt = None \<rparr>"

definition buffer_key :: "id \<Rightarrow> string \<Rightarrow> buffer_row \<Rightarrow> bool" where
  "buffer_key sid pid b \<longleftrightarrow> b_storeId b = sid \<and> b_platformOrderId b = pid"

definition decrementBufferedOrderStock :: "id \<Rightarrow> mapped_line list \<Rightarrow> db \<Rightarrow> db" where
  "decrementBufferedOrderStock sid lines d =
     (let (d1, products) = foldl (move_line decrementVariantStock sid) (d, [])
            (map (\<lambda>l. (ml_barcode l, ml_quantity l)) lines)
      in recomputeProductsTotalStock products d1)"

text \<open>\<open>parseBufferLastModified\<close>: a date in the snapshot that does not parse counts as none.\<close>

definition parseBufferLastModified :: "mapped_order \<Rightarrow> time option" where
  "parseBufferLastModified mo = Option.bind (mo_lastModifiedDate mo) date_of"

definition should_refresh :: "mapped_order \<Rightarrow> buffer_row \<Rightarrow> bool" where
  "should_refresh mo b \<longleftrightarrow>
     (case incoming_lmd mo of
        None \<Rightarrow> False
      | Some t \<Rightarrow> (case parseBufferLastModified (b_mappedOrder b) of None \<Rightarrow> True | Some s \<Rightarrow> s < t))"

definition refreshBufferSnapshot :: "id \<Rightarrow> mapped_order \<Rightarrow> db \<Rightarrow> intake_outcome \<times> db" where
  "refreshBufferSnapshot sid mo d =
     (case find (buffer_key sid (mo_platformOrderId mo)) (db_buffer d) of
        None \<Rightarrow> (BufferedDeduped False, d)
      | Some b \<Rightarrow>
          if b_status b \<noteq> BS_PENDING \<or> \<not> should_refresh mo b then (BufferedDeduped False, d)
          else (BufferedDeduped True,
                d \<lparr> db_buffer := update_where (\<lambda>x. b_id x = b_id b \<and> b_status x = BS_PENDING)
                       (\<lambda>x. x \<lparr> b_mappedOrder := mo \<rparr>) (db_buffer d) \<rparr>))"

text \<open>
  The insert with its stock movement; the composite unique \<open>(storeId, platformOrderId)\<close> fails it when
  the row exists.
\<close>

definition buffer_order ::
  "(time \<Rightarrow> int) \<Rightarrow> time \<Rightarrow> id \<Rightarrow> id \<Rightarrow> mapped_order \<Rightarrow> time \<Rightarrow> db \<Rightarrow> intake_outcome \<times> db" where
  "buffer_order off now sid org mo orderDate d =
     (if list_ex (buffer_key sid (mo_platformOrderId mo)) (db_buffer d)
      then refreshBufferSnapshot sid mo d
      else let d1 = d \<lparr> db_buffer := db_buffer d
                  @ [new_buffer_row (db_nextId d) sid org (getBusinessDate off orderDate) mo],
                db_nextId := Suc (db_nextId d) \<rparr>
           in (Buffered,
               if isOrderOnBusinessToday off now (mo_orderDate mo) \<and> mo_status mo \<noteq> OS_CANCELLED
               then decrementBufferedOrderStock sid (mo_lines mo) d1 else d1))"

section \<open>Routing\<close>

text \<open>An upsert as a step of the intake: a failed transaction leaves the database as it was.\<close>

definition persist ::
  "dec \<Rightarrow> (time \<Rightarrow> int) \<Rightarrow> time \<Rightarrow> id \<Rightarrow> id \<Rightarrow> mapped_order \<Rightarrow> profit_exclusion_reason option \<Rightarrow>
   persist_reason \<Rightarrow> db \<Rightarrow> (intake_error + intake_outcome) \<times> db" where
  "persist D off now sid org mo excl reason d =
     (case upsertOrderWithSnapshot D off now sid org mo (no_opts \<lparr> uo_profitExclusion := excl \<rparr>) d of
        Inl e \<Rightarrow> (Inl e, d)
      | Inr d' \<Rightarrow> (Inr (Persisted reason), d'))"

definition intakeOrder ::
  "dec \<Rightarrow> (time \<Rightarrow> int) \<Rightarrow> time \<Rightarrow> id \<Rightarrow> id \<Rightarrow> mapped_order \<Rightarrow> db \<Rightarrow> (intake_error + intake_outcome) \<times> db" where
  "intakeOrder D off now sid org mo d =
     (let pid = mo_platformOrderId mo in
      if mo_dematerialized mo then
        (let (out, d') = dematerialize off now sid org mo d in (Inr out, d'))
      else if mo_status mo = OS_CANCELLED then
        persist D off now sid org mo None R_cancelled_audit (delete_buffer (is_buffered org sid pid) d)
      else if resolveOrderCalculability (buildCalcCheckLines d sid (map ml_barcode (mo_lines mo))) = Calculable
      then persist D off now sid org mo None R_calculable d
      else
        (case date_of (mo_orderDate mo) of
           None \<Rightarrow> (Inl InvalidDate, d)
         | Some t \<Rightarrow>
             if getBusinessDate off t < getBusinessDate off now
             then persist D off now sid org mo (Some LATE_UNCOSTED_ARRIVAL) R_excluded_late_arrival d
             else if list_ex (is_ghost org sid pid) (db_orders d)
             then persist D off now sid org mo None R_already_in_orders d
             else (let (out, d') = buffer_order off now sid org mo t d in (Inr out, d'))))"

end
