(* ===== verification/Order_Write_Props.thy ===== *)
theory Order_Write_Props
  imports Order_Write Estimate_Values
begin

text \<open>
  What one order event does to the tables: the parts of the database an upsert leaves alone, the
  freshness watermark, and the exclusion from profit.
\<close>

section \<open>What the estimate leaves of an order\<close>

text \<open>An order without the columns the estimate writes.\<close>

definition strip :: "order_row \<Rightarrow> order_row" where
  "strip r = r \<lparr> o_estimatedNetProfit := None, o_estimatedNetVat := None,
     o_estimatedSaleMarginPct := None, o_estimatedCostMarkupPct := None,
     o_snapshotIncludeStopaj := None, o_snapshotIncludeNegativeNetVat := None \<rparr>"

lemma strip_sel:
  assumes "strip r' = strip r"
  shows "o_id r' = o_id r" "o_storeId r' = o_storeId r" "o_organizationId r' = o_organizationId r"
    "o_platformOrderId r' = o_platformOrderId r" "o_status r' = o_status r"
    "o_platformLastModifiedAt r' = o_platformLastModifiedAt r"
    "o_profitExcludedAt r' = o_profitExcludedAt r" "o_orderDate r' = o_orderDate r"
    "o_profitExclusionReason r' = o_profitExclusionReason r"
    "o_promotedFromBufferAt r' = o_promotedFromBufferAt r"
proof -
  have a: "f r' = f r" if "\<And>r. f (strip r) = f r" for f :: "order_row \<Rightarrow> 'x"
    using arg_cong [OF assms, of f] that by simp
  show "o_id r' = o_id r" "o_storeId r' = o_storeId r" "o_organizationId r' = o_organizationId r"
    "o_platformOrderId r' = o_platformOrderId r" "o_status r' = o_status r"
    "o_platformLastModifiedAt r' = o_platformLastModifiedAt r"
    "o_profitExcludedAt r' = o_profitExcludedAt r" "o_orderDate r' = o_orderDate r"
    "o_profitExclusionReason r' = o_profitExclusionReason r"
    "o_promotedFromBufferAt r' = o_promotedFromBufferAt r"
    by (rule a, simp add: strip_def)+
qed

lemma strip_update:
  "(\<And>r. strip (g r) = strip r) \<Longrightarrow> map strip (db_orders (update_order oid g d)) = map strip (db_orders d)"
  by (simp add: update_order_def update_where_def)

lemma apply_strip:
  assumes "applyEstimateOnOrderCreate D off oid d = Inr d'"
  shows "ref_eq d d'" and "map strip (db_orders d') = map strip (db_orders d)"
    and "\<And>r. find_order oid d = Some r \<Longrightarrow> o_profitExcludedAt r \<noteq> None \<Longrightarrow> d' = d"
proof -
  have "ref_eq d d' \<and> map strip (db_orders d') = map strip (db_orders d)
    \<and> (\<forall>r. find_order oid d = Some r \<and> o_profitExcludedAt r \<noteq> None \<longrightarrow> d' = d)"
  proof (cases "find_order oid d")
    case None
    then show ?thesis using assms by (simp add: applyEstimateOnOrderCreate_def)
  next
    case (Some r)
    show ?thesis
    proof (cases "o_profitExcludedAt r = None")
      case False
      then show ?thesis using assms Some
        by (auto simp: applyEstimateOnOrderCreate_def split: option.splits)
    next
      case True
      obtain s where s: "find_store (o_storeId r) d = Some s"
        using assms Some by (auto simp: applyEstimateOnOrderCreate_def split: option.splits)
      obtain d1 ps where d1: "settings_stage r s d = (d1, ps)" by (cases "settings_stage r s d")
      obtain d2 d3 d4 d5 where st: "psf_stage D off r (order_items oid d) s d1 = Inr d2"
        "stoppage_stage D r s ps (estimate_types oid d1) d2 = Inr d3"
        "shipping_stage D r s d3 = Inr d4" "intl_stage D r s d4 = Inr d5"
        "d' = profit_stage D r (order_items oid d) ps d5"
        using assms Some s True d1
        by (auto simp: applyEstimateOnOrderCreate_def Let_def elim!: bindR_InrE)
      have o1: "map strip (db_orders d1) = map strip (db_orders d)"
        using d1 strip_update by (auto simp: settings_stage_def Let_def strip_def split: if_splits)
      have "db_orders d3 = db_orders d2 \<and> ref_eq d2 d3"
        using st(2) by (auto simp: stoppage_stage_def bindR_eq_Inr create_fee_def ref_eq_def split: option.splits if_splits)
      then have o5: "db_orders d5 = db_orders d1" and "ref_eq d1 d5"
        using psf.frame_orders [OF st(1)] shipping.frame_orders [OF st(3)] intl.frame_orders [OF st(4)]
          psf.frame_ref [OF st(1)] shipping.frame_ref [OF st(3)] intl.frame_ref [OF st(4)]
        by (auto intro: ref_eq_trans)
      moreover have "ref_eq d d1" using ref_eq_settings [of d r s] d1 by simp
      moreover have "ref_eq d5 d'" unfolding st(5)
        by (auto simp: profit_stage_def ref_eq_def update_order_def split: option.splits)
      moreover have "map strip (db_orders d') = map strip (db_orders d5)"
        unfolding st(5) using strip_update
        by (auto simp: profit_stage_def set_estimate_def strip_def split: option.splits)
      ultimately show ?thesis using o1 Some True by (auto intro: ref_eq_trans)
    qed
  qed
  then show "ref_eq d d'" and "map strip (db_orders d') = map strip (db_orders d)"
    and "\<And>r. find_order oid d = Some r \<Longrightarrow> o_profitExcludedAt r \<noteq> None \<Longrightarrow> d' = d" by auto
qed

section \<open>What a line leaves alone\<close>

text \<open>Only items, cost components, variant quantities and the id counter differ.\<close>

definition line_frame :: "db \<Rightarrow> db \<Rightarrow> bool" where
  "line_frame d d' \<longleftrightarrow>
     d' \<lparr> db_items := db_items d, db_components := db_components d, db_nextId := db_nextId d,
          db_variants := db_variants d \<rparr> = d"

lemma line_frame_refl [simp]: "line_frame d d"
  by (simp add: line_frame_def)

lemma line_frame_trans: "line_frame a b \<Longrightarrow> line_frame b c \<Longrightarrow> line_frame a c"
  by (cases a; cases b; cases c) (simp add: line_frame_def)

lemma line_frame_sel:
  assumes "line_frame d d'"
  shows "db_orders d' = db_orders d" "db_fees d' = db_fees d" "db_buffer d' = db_buffer d"
    "db_stores d' = db_stores d" "db_products d' = db_products d" "db_costLinks d' = db_costLinks d"
    "db_costProfiles d' = db_costProfiles d" "db_feeDefs d' = db_feeDefs d"
    "db_claimItems d' = db_claimItems d" "db_fxRates d' = db_fxRates d"
    "db_commissionRates d' = db_commissionRates d"
  using assms by (cases d; cases d'; simp add: line_frame_def)+

lemma capture_frame:
  assumes "captureCostSnapshot D now iid d = Inr d'"
  shows "line_frame d d'" and "db_variants d' = db_variants d" and "db_nextId d' = db_nextId d"
  using assms
  by (auto simp: captureCostSnapshot_def line_frame_def update_item_def Let_def bindR_eq_Inr
      split: option.splits if_splits)

lemma existing_frame: "line_frame d (existing_line D l p i d)"
  "db_variants (existing_line D l p i d) = db_variants d"
  "db_nextId (existing_line D l p i d) = db_nextId d"
  by (simp_all add: existing_line_def refresh_commission_def stamp_line_id_def update_item_def
      line_frame_def Let_def)

text \<open>A new line: the item created, the stock moved, the cost captured.\<close>

lemma new_line_cases:
  assumes "new_line D mo opts dec p now oid l variant (d, ps) = Inr (d', ps')"
  defines "i \<equiv> create_item_row (db_nextId d) oid mo l (map_option v_id variant)
             (resolveEffectiveCommission D l p d)"
  obtains d2 where
    "d2 = (case variant of Some v \<Rightarrow>
             if dec then decrementVariantStock (v_id v) (ml_quantity l) (insert_item i d) else insert_item i d
           | None \<Rightarrow> insert_item i d)"
    and "if uo_profitExclusion opts = None then captureCostSnapshot D now (db_nextId d) d2 = Inr d'
         else d' = d2"
    and "ps' = (case variant of Some v \<Rightarrow> if dec then ps @ [v_productId v] else ps | None \<Rightarrow> ps)"
  using assms
  by (auto simp: new_line_def Let_def i_def bindR_eq_Inr split: option.splits if_splits)

lemma insert_frame: "line_frame d (insert_item i d)"
  by (simp add: line_frame_def insert_item_def)

lemma decrement_frame: "line_frame d (decrementVariantStock vid n d)"
  by (simp add: line_frame_def decrementVariantStock_def map_variant_def)

lemma new_line_frame:
  assumes "new_line D mo opts dec p now oid l variant (d, ps) = Inr (d', ps')"
  shows "line_frame d d'" and "\<not> dec \<Longrightarrow> db_variants d' = db_variants d \<and> ps' = ps"
proof -
  obtain d2 where d2: "d2 = (case variant of Some v \<Rightarrow>
        if dec then decrementVariantStock (v_id v) (ml_quantity l)
             (insert_item (create_item_row (db_nextId d) oid mo l (map_option v_id variant)
             (resolveEffectiveCommission D l p d)) d)
        else insert_item (create_item_row (db_nextId d) oid mo l (map_option v_id variant)
             (resolveEffectiveCommission D l p d)) d
      | None \<Rightarrow> insert_item (create_item_row (db_nextId d) oid mo l (map_option v_id variant)
             (resolveEffectiveCommission D l p d)) d)"
    and cap: "if uo_profitExclusion opts = None then captureCostSnapshot D now (db_nextId d) d2 = Inr d'
         else d' = d2"
    and ps: "ps' = (case variant of Some v \<Rightarrow> if dec then ps @ [v_productId v] else ps | None \<Rightarrow> ps)"
    by (rule new_line_cases [OF assms])
  have "line_frame d d2"
    unfolding d2 by (auto split: option.split intro: insert_frame line_frame_trans decrement_frame)
  moreover have "line_frame d2 d'" "db_variants d' = db_variants d2"
    using cap capture_frame by (auto split: if_splits)
  moreover have "\<not> dec \<Longrightarrow> db_variants d2 = db_variants d \<and> ps' = ps"
    unfolding d2 ps by (simp add: insert_item_def split: option.split)
  ultimately show "line_frame d d'" and "\<not> dec \<Longrightarrow> db_variants d' = db_variants d \<and> ps' = ps"
    by (auto intro: line_frame_trans)
qed

lemma write_line_frame:
  assumes "write_line D sid mo opts dec p now oid s l = Inr s'"
  shows "line_frame (fst s) (fst s')"
    and "\<not> dec \<Longrightarrow> db_variants (fst s') = db_variants (fst s) \<and> snd s' = snd s"
proof -
  obtain d ps d' ps' where s: "s = (d, ps)" "s' = (d', ps')" by (cases s; cases s')
  show "line_frame (fst s) (fst s')"
    and "\<not> dec \<Longrightarrow> db_variants (fst s') = db_variants (fst s) \<and> snd s' = snd s"
    using assms existing_frame new_line_frame unfolding s
    by (auto simp: write_line_def Let_def split: option.splits)
qed

lemma lines_frame:
  assumes "foldR (write_line D sid mo opts dec p now oid) s ls = Inr s'"
  shows "line_frame (fst s) (fst s')"
    and "\<not> dec \<Longrightarrow> db_variants (fst s') = db_variants (fst s) \<and> snd s' = snd s"
proof -
  show "line_frame (fst s) (fst s')"
    by (rule foldR_invariant [OF assms, where I = "\<lambda>t. line_frame (fst s) (fst t)"])
      (auto intro: line_frame_trans dest: write_line_frame(1))
  show "db_variants (fst s') = db_variants (fst s) \<and> snd s' = snd s" if "\<not> dec"
    by (rule foldR_invariant [OF assms, where I = "\<lambda>t. db_variants (fst t) = db_variants (fst s) \<and> snd t = snd s"])
      (use that in \<open>auto dest: write_line_frame(2)\<close>)
qed

section \<open>The tables stay well formed\<close>

text \<open>The primary keys and the composite unique \<open>(storeId, platformOrderId)\<close> of \<open>orders\<close>.\<close>

definition order_key :: "order_row \<Rightarrow> id \<times> string" where
  "order_key r = (o_storeId r, o_platformOrderId r)"

definition wf_db :: "db \<Rightarrow> bool" where
  "wf_db d \<longleftrightarrow> wf_fees d \<and> one_estimate d \<and> ids_ok o_id (db_orders d) (db_nextId d)
     \<and> distinct (map order_key (db_orders d)) \<and> ids_ok i_id (db_items d) (db_nextId d)"

lemma wf_fees_next: "wf_fees d \<Longrightarrow> db_fees d' = db_fees d \<Longrightarrow> db_nextId d \<le> db_nextId d' \<Longrightarrow> wf_fees d'"
  by (auto simp: wf_fees_def intro: less_le_trans)

lemma order_key_is: "is_order sid pid r \<longleftrightarrow> order_key r = (sid, pid)"
  by (auto simp: is_order_def order_key_def)

lemma order_by_key_None: "order_by_key sid pid d = None \<longleftrightarrow> (sid, pid) \<notin> set (map order_key (db_orders d))"
  by (simp add: order_by_key_def find_None_all order_key_is image_iff) metis

lemma order_by_key_Some:
  "order_by_key sid pid d = Some r \<Longrightarrow> r \<in> set (db_orders d) \<and> order_key r = (sid, pid)"
  unfolding order_by_key_def using find_Some_in [of "is_order sid pid" "db_orders d" r] order_key_is by blast

lemma order_key_strip: "strip r' = strip r \<Longrightarrow> order_key r' = order_key r"
  unfolding order_key_def by (frule strip_sel(2), frule strip_sel(4)) (simp only:)

lemma strip_maps:
  assumes "map strip xs = map strip ys"
  shows "map order_key xs = map order_key ys" and "map o_id xs = map o_id ys"
proof -
  have "map order_key xs = map (order_key \<circ> strip) xs" for xs
    by (simp add: order_key_def strip_def)
  then show "map order_key xs = map order_key ys" using assms by (metis map_map)
  have "map o_id xs = map (o_id \<circ> strip) xs" for xs by (simp add: strip_def)
  then show "map o_id xs = map o_id ys" using assms by (metis map_map)
qed

lemma order_by_key_strip:
  assumes "map strip (db_orders d') = map strip (db_orders d)"
  shows "map_option strip (order_by_key sid pid d') = map_option strip (order_by_key sid pid d)"
  unfolding order_by_key_def by (rule find_map_key [OF assms], frule order_key_strip) (simp only: order_key_is)

lemma find_order_strip:
  assumes "map strip (db_orders d') = map strip (db_orders d)"
  shows "map_option strip (find_order oid d') = map_option strip (find_order oid d)"
  unfolding find_order_def by (rule find_map_key [OF assms], frule strip_sel(1)) (simp only:)

lemma update_order_row_key [simp]:
  "order_key (update_order_row mo r) = order_key r" "o_id (update_order_row mo r) = o_id r"
  by (simp_all add: update_order_row_def order_key_def)

lemma create_order_row_key [simp]:
  "order_key (create_order_row D oid sid org mo t opts now) = (sid, mo_platformOrderId mo)"
  "o_id (create_order_row D oid sid org mo t opts now) = oid"
  by (simp_all add: create_order_row_def order_key_def)

lemma upsert_order_wf:
  assumes "upsert_order D sid org mo opts now d = Inr (oid, d')" and wf: "wf_db d"
  shows "wf_db d'" and "db_items d' = db_items d" and "db_fees d' = db_fees d" and "db_nextId d \<le> db_nextId d'"
proof -
  consider r where "order_by_key sid (mo_platformOrderId mo) d = Some r"
      "d' = update_order (o_id r) (update_order_row mo) d"
    | t where "order_by_key sid (mo_platformOrderId mo) d = None"
      "d' = d \<lparr> db_orders := db_orders d @ [create_order_row D (db_nextId d) sid org mo t opts now],
               db_nextId := Suc (db_nextId d) \<rparr>"
    using assms(1) by (auto simp: upsert_order_def split: option.splits)
  then have "wf_db d' \<and> db_items d' = db_items d \<and> db_fees d' = db_fees d \<and> db_nextId d \<le> db_nextId d'"
  proof cases
    case 1
    have m: "map o_id (db_orders d') = map o_id (db_orders d)"
      "map order_key (db_orders d') = map order_key (db_orders d)"
      unfolding 1(2) update_order_def by (simp_all add: map_update_where)
    have same: "db_items d' = db_items d" "db_fees d' = db_fees d" "db_nextId d' = db_nextId d"
      unfolding 1(2) update_order_def by simp_all
    with wf show ?thesis
      by (simp add: wf_db_def wf_fees_def one_estimate_def ids_ok_map [OF m(1)] m(2))
  next
    case 2
    have "(sid, mo_platformOrderId mo) \<notin> order_key ` set (db_orders d)"
      using 2(1) by (simp add: order_by_key_None)
    with wf show ?thesis unfolding 2(2)
      by (auto simp: wf_db_def wf_fees_def one_estimate_def less_Suc_eq intro: ids_ok_snoc ids_ok_mono)
  qed
  then show "wf_db d'" and "db_items d' = db_items d" and "db_fees d' = db_fees d" and "db_nextId d \<le> db_nextId d'"
    by auto
qed

lemma items_wf: "wf_db d \<Longrightarrow> db_orders d' = db_orders d \<Longrightarrow> db_fees d' = db_fees d \<Longrightarrow>
    db_nextId d \<le> db_nextId d' \<Longrightarrow> ids_ok i_id (db_items d') (db_nextId d') \<Longrightarrow> wf_db d'"
  by (auto simp: wf_db_def one_estimate_def intro: wf_fees_next ids_ok_mono)

lemma update_item_ids: "(\<And>i. i_id (g i) = i_id i) \<Longrightarrow> map i_id (db_items (update_item iid g d)) = map i_id (db_items d)"
  by (simp add: update_item_def map_update_where)

lemma capture_ids:
  "captureCostSnapshot D now iid d = Inr d' \<Longrightarrow> map i_id (db_items d') = map i_id (db_items d)"
  by (auto simp: captureCostSnapshot_def Let_def bindR_eq_Inr update_item_ids split: option.splits if_splits)

lemma existing_ids: "map i_id (db_items (existing_line D l p i d)) = map i_id (db_items d)"
  by (simp add: existing_line_def refresh_commission_def stamp_line_id_def Let_def update_item_ids set_commission_def)

lemma create_item_row_sel [simp]:
  "i_id (create_item_row iid oid mo l vid eff) = iid" "i_orderId (create_item_row iid oid mo l vid eff) = oid"
  "i_unitCostSnapshotGross (create_item_row iid oid mo l vid eff) = None"
  "i_productVariantId (create_item_row iid oid mo l vid eff) = vid"
  "i_platformLineId (create_item_row iid oid mo l vid eff) = ml_platformLineId l"
  "i_quantity (create_item_row iid oid mo l vid eff) = ml_quantity l"
  "i_commissionGross (create_item_row iid oid mo l vid eff) = ec_gross eff"
  "i_settledCommissionGross (create_item_row iid oid mo l vid eff) = None"
  by (simp_all add: create_item_row_def)

text \<open>What a new line leaves in the item table, up to the cost snapshot of its own row.\<close>

lemma decrement_items [simp]: "db_items (decrementVariantStock vid n d) = db_items d"
  "db_nextId (decrementVariantStock vid n d) = db_nextId d" "db_orders (decrementVariantStock vid n d) = db_orders d"
  by (simp_all add: decrementVariantStock_def map_variant_def)

lemma new_line_steps:
  assumes "new_line D mo opts dec p now oid l variant (d, ps) = Inr (d', ps')"
  obtains d2 where
    "db_items d2 = db_items d @ [create_item_row (db_nextId d) oid mo l (map_option v_id variant)
             (resolveEffectiveCommission D l p d)]"
    "db_nextId d2 = Suc (db_nextId d)" "line_frame d d2" "variant_keys d2 = variant_keys d"
    "if uo_profitExclusion opts = None then captureCostSnapshot D now (db_nextId d) d2 = Inr d' else d' = d2"
proof -
  let ?i = "create_item_row (db_nextId d) oid mo l (map_option v_id variant) (resolveEffectiveCommission D l p d)"
  obtain d2 where d2: "d2 = (case variant of Some v \<Rightarrow>
        if dec then decrementVariantStock (v_id v) (ml_quantity l) (insert_item ?i d) else insert_item ?i d
      | None \<Rightarrow> insert_item ?i d)"
    and cap: "if uo_profitExclusion opts = None then captureCostSnapshot D now (db_nextId d) d2 = Inr d'
         else d' = d2"
    by (rule new_line_cases [OF assms])
  have "db_items d2 = db_items d @ [?i]" "db_nextId d2 = Suc (db_nextId d)" "line_frame d d2"
    "variant_keys d2 = variant_keys d"
    unfolding d2 by (auto simp: insert_item_def decrementVariantStock_def map_variant_def line_frame_def
        map_update_where split: option.split)
  with cap show thesis by (intro that)
qed

lemma write_line_wf:
  assumes w: "write_line D sid mo opts dec p now oid s l = Inr s'" and wf: "wf_db (fst s)"
  shows "wf_db (fst s')" and "db_nextId (fst s) \<le> db_nextId (fst s')"
proof -
  have fr: "line_frame (fst s) (fst s')" by (rule write_line_frame(1) [OF w])
  obtain d ps d' ps' where s: "s = (d, ps)" "s' = (d', ps')" by (cases s; cases s')
  have "db_nextId d \<le> db_nextId d' \<and> ids_ok i_id (db_items d') (db_nextId d')"
  proof (cases "find (line_matches oid l (map_option v_id (variant_by_barcode sid (ml_barcode l) d))) (db_items d)")
    case (Some i)
    then have "d' = existing_line D l p i d" using w s by (auto simp: write_line_def Let_def)
    then show ?thesis using wf s existing_frame(3) [of D l p i d] ids_ok_map [OF existing_ids [of D l p i d]]
      by (simp add: wf_db_def)
  next
    case None
    then obtain v where n: "new_line D mo opts dec p now oid l v (d, ps) = Inr (d', ps')"
      using w s by (auto simp: write_line_def Let_def)
    obtain d2 where d2: "db_items d2 = db_items d @ [create_item_row (db_nextId d) oid mo l (map_option v_id v)
             (resolveEffectiveCommission D l p d)]"
      "db_nextId d2 = Suc (db_nextId d)"
      "if uo_profitExclusion opts = None then captureCostSnapshot D now (db_nextId d) d2 = Inr d' else d' = d2"
      by (rule new_line_steps [OF n])
    have two: "ids_ok i_id (db_items d2) (db_nextId d2)"
      using wf s unfolding d2(1,2) by (intro ids_ok_snoc) (simp_all add: wf_db_def)
    have "db_nextId d' = db_nextId d2 \<and> map i_id (db_items d') = map i_id (db_items d2)"
      using d2(3) capture_frame(3) capture_ids by (auto split: if_splits)
    then show ?thesis using two d2(2) ids_ok_map [of i_id "db_items d'" "db_items d2"] by simp
  qed
  then show "wf_db (fst s')" and "db_nextId (fst s) \<le> db_nextId (fst s')"
    using items_wf [OF wf line_frame_sel(1,2) [OF fr]] s by auto
qed

lemma lines_wf:
  assumes f: "foldR (write_line D sid mo opts dec p now oid) s ls = Inr s'" and wf: "wf_db (fst s)"
  shows "wf_db (fst s')" and "db_nextId (fst s) \<le> db_nextId (fst s')"
proof -
  have "wf_db (fst s') \<and> db_nextId (fst s) \<le> db_nextId (fst s')"
    by (rule foldR_invariant [OF f, where I = "\<lambda>t. wf_db (fst t) \<and> db_nextId (fst s) \<le> db_nextId (fst t)"])
      (use wf write_line_wf in \<open>auto intro: order_trans\<close>)
  then show "wf_db (fst s')" and "db_nextId (fst s) \<le> db_nextId (fst s')" by auto
qed

lemma recompute_wf: "wf_db d \<Longrightarrow> wf_db (recomputeProductsTotalStock ps d)"
  by (auto simp: recomputeProductsTotalStock_def wf_db_def wf_fees_def one_estimate_def)

lemma recompute_sel [simp]:
  "db_orders (recomputeProductsTotalStock ps d) = db_orders d" "db_items (recomputeProductsTotalStock ps d) = db_items d"
  "db_fees (recomputeProductsTotalStock ps d) = db_fees d" "db_nextId (recomputeProductsTotalStock ps d) = db_nextId d"
  "db_variants (recomputeProductsTotalStock ps d) = db_variants d" "db_buffer (recomputeProductsTotalStock ps d) = db_buffer d"
  "db_components (recomputeProductsTotalStock ps d) = db_components d"
  by (auto simp: recomputeProductsTotalStock_def)

text \<open>The counter only grows.\<close>

lemma upsert_estimate_next: "db_nextId d \<le> db_nextId (upsert_estimate oid ty upd mk d)"
  by (auto simp: upsert_estimate_def update_fee_def create_fee_def split: option.split)

lemma stages_next:
  "psf_stage D off r items s d = Inr d' \<Longrightarrow> db_nextId d \<le> db_nextId d'"
  "stoppage_stage D r s ps ex d = Inr d' \<Longrightarrow> db_nextId d \<le> db_nextId d'"
  "shipping_stage D r s d = Inr d' \<Longrightarrow> db_nextId d \<le> db_nextId d'"
  "intl_stage D r s d = Inr d' \<Longrightarrow> db_nextId d \<le> db_nextId d'"
  by (auto simp: psf_stage_def stoppage_stage_def shipping_stage_def intl_stage_def Let_def bindR_eq_Inr
      upsert_estimate_next create_fee_def delete_fee_def split: option.splits sum.splits if_splits)

lemma apply_next:
  assumes a: "applyEstimateOnOrderCreate D off oid d = Inr d'"
  shows "db_nextId d \<le> db_nextId d'"
proof (cases "find_order oid d")
  case None
  then show ?thesis using a by (simp add: applyEstimateOnOrderCreate_def)
next
  case (Some r)
  show ?thesis
  proof (cases "o_profitExcludedAt r = None")
    case False
    then show ?thesis using apply_strip(3) [OF a Some] by simp
  next
    case True
    obtain s where s: "find_store (o_storeId r) d = Some s"
      using a Some by (auto simp: applyEstimateOnOrderCreate_def split: option.splits)
    obtain d1 ps where d1: "settings_stage r s d = (d1, ps)" by (cases "settings_stage r s d")
    obtain d2 d3 d4 d5 where st: "psf_stage D off r (order_items oid d) s d1 = Inr d2"
      "stoppage_stage D r s ps (estimate_types oid d1) d2 = Inr d3"
      "shipping_stage D r s d3 = Inr d4" "intl_stage D r s d4 = Inr d5"
      "d' = profit_stage D r (order_items oid d) ps d5"
      using a Some s True d1
      by (auto simp: applyEstimateOnOrderCreate_def Let_def elim!: bindR_InrE)
    have "db_nextId d1 = db_nextId d"
      using d1 by (auto simp: settings_stage_def Let_def update_order_def split: if_splits)
    moreover have "db_nextId d' = db_nextId d5"
      unfolding st(5) using profit_stage_cases [of D r "order_items oid d" ps d5] by (auto simp: update_order_def)
    ultimately show ?thesis
      using stages_next(1) [OF st(1)] stages_next(2) [OF st(2)] stages_next(3) [OF st(3)] stages_next(4) [OF st(4)]
      by simp
  qed
qed

lemma apply_wf:
  assumes a: "applyEstimateOnOrderCreate D off oid d = Inr d'" and wf: "wf_db d"
  shows "wf_db d'"
proof -
  have k: "keeps oid d d'" by (rule apply_keeps [OF a]) (use wf in \<open>simp add: wf_db_def\<close>)
  note m = strip_maps [OF apply_strip(2) [OF a]]
  have "db_items d' = db_items d" using keepsD(1) [OF k] by (rule ref_eq_sel)
  then show ?thesis
    using wf keepsD [OF k] apply_next [OF a] m(1) ids_ok_map [OF m(2)]
    by (auto simp: wf_db_def intro: ids_ok_mono)
qed

section \<open>One event\<close>

lemma upsertE:
  assumes "upsertOrderWithSnapshot D off now sid org mo opts d = Inr d'"
  obtains (stale) "stale_event sid mo d" "d' = d"
  | (written) oid d1 d2 ps where "\<not> stale_event sid mo d"
      "upsert_order D sid org mo opts now d = Inr (oid, d1)"
      "foldR (write_line D sid mo opts (should_decrement off now mo opts)
          (fallback_platform sid mo d1) now oid) (d1, []) (mo_lines mo) = Inr (d2, ps)"
      "uo_profitExclusion opts = None \<and>
          applyEstimateOnOrderCreate D off oid (recomputeProductsTotalStock ps d2) = Inr d'
       \<or> uo_profitExclusion opts \<noteq> None \<and> d' = recomputeProductsTotalStock ps d2"
proof (cases "stale_event sid mo d")
  case True
  then have "d' = d" using assms by (simp add: upsertOrderWithSnapshot_def)
  with True show thesis by (rule stale)
next
  case False
  then obtain oid d1 d2 ps where "upsert_order D sid org mo opts now d = Inr (oid, d1)"
      "foldR (write_line D sid mo opts (should_decrement off now mo opts)
          (fallback_platform sid mo d1) now oid) (d1, []) (mo_lines mo) = Inr (d2, ps)"
      "(if uo_profitExclusion opts = None
        then liftE (applyEstimateOnOrderCreate D off oid (recomputeProductsTotalStock ps d2))
        else Inr (recomputeProductsTotalStock ps d2)) = Inr d'"
    using assms by (auto simp: upsertOrderWithSnapshot_def Let_def bindR_eq_Inr)
  note up = this
  show thesis by (rule written [OF False up(1,2)]) (use up(3) in \<open>auto split: if_splits\<close>)
qed

lemma upsert_wf:
  assumes "upsertOrderWithSnapshot D off now sid org mo opts d = Inr d'" and wf: "wf_db d"
  shows "wf_db d'"
  using assms(1)
proof (cases rule: upsertE)
  case (written oid d1 d2 ps)
  have "wf_db d1" by (rule upsert_order_wf(1) [OF written(2) wf])
  then have "wf_db (recomputeProductsTotalStock ps d2)"
    using lines_wf(1) [OF written(3)] recompute_wf by simp
  then show ?thesis using written(4) apply_wf by blast
qed (use wf in simp)

text \<open>The orders after an event: those of the upsert of the row, but for the estimate's columns.\<close>

lemma upsert_strip:
  assumes "upsertOrderWithSnapshot D off now sid org mo opts d = Inr d'" and "\<not> stale_event sid mo d"
  obtains oid d1 where "upsert_order D sid org mo opts now d = Inr (oid, d1)"
    "map strip (db_orders d') = map strip (db_orders d1)" "db_buffer d' = db_buffer d"
  using assms(1)
proof (cases rule: upsertE)
  case stale
  then show ?thesis using assms(2) by simp
next
  case (written oid d1 d2 ps)
  let ?d3 = "recomputeProductsTotalStock ps d2"
  have "map strip (db_orders d') = map strip (db_orders ?d3) \<and> db_buffer d' = db_buffer ?d3"
    using written(4) apply_strip(1,2) [of D off oid ?d3 d'] ref_eq_sel(12) [of ?d3 d'] by auto
  moreover have "db_orders ?d3 = db_orders d1" "db_buffer ?d3 = db_buffer d1"
    using line_frame_sel(1,3) [OF lines_frame(1) [OF written(3)]] by simp_all
  moreover have "db_buffer d1 = db_buffer d"
    using written(2) by (auto simp: upsert_order_def update_order_def split: option.splits)
  ultimately show ?thesis using that [OF written(2)] by simp
qed

end
