(* ===== verification/Order_Events.thy ===== *)
theory Order_Events
  imports Order_Write_Props
begin

text \<open>
  Sequences of order events, from a webhook, a poll or the buffer, in whatever order they arrive:
  the newest event decides the state of the order, an excluded order keeps its profit columns for
  good, and a cost snapshot is written once.
\<close>

record delivery =
  dl_now :: time
  dl_sid :: id
  dl_org :: id
  dl_mo :: mapped_order
  dl_opts :: upsert_opts

definition deliver :: "dec \<Rightarrow> (time \<Rightarrow> int) \<Rightarrow> db \<Rightarrow> delivery \<Rightarrow> intake_error + db" where
  "deliver D off d e = upsertOrderWithSnapshot D off (dl_now e) (dl_sid e) (dl_org e) (dl_mo e) (dl_opts e) d"

definition about :: "id \<Rightarrow> string \<Rightarrow> delivery \<Rightarrow> bool" where
  "about sid pid e \<longleftrightarrow> dl_sid e = sid \<and> mo_platformOrderId (dl_mo e) = pid"

lemma deliver_wf: "deliver D off d e = Inr d' \<Longrightarrow> wf_db d \<Longrightarrow> wf_db d'"
  unfolding deliver_def by (rule upsert_wf)

lemma deliver_all_wf: "foldR (deliver D off) d es = Inr d' \<Longrightarrow> wf_db d \<Longrightarrow> wf_db d'"
  by (rule foldR_invariant [where I = wf_db]) (auto dest: deliver_wf)

section \<open>The row of an order\<close>

lemma find_update_order_key:
  "order_by_key sid pid d = Some r \<Longrightarrow>
   order_by_key sid pid (update_order (o_id r) (update_order_row mo) d) = Some (update_order_row mo r)"
  by (simp add: order_by_key_def update_order_def find_update_where_same order_key_is)

lemma update_order_other_key:
  assumes wf: "wf_db d" and r: "order_by_key sid pid d = Some r" and k: "(sid', pid') \<noteq> (sid, pid)"
  shows "order_by_key sid' pid' (update_order (o_id r) (update_order_row mo) d) = order_by_key sid' pid' d"
proof (cases "order_by_key sid' pid' d")
  case None
  then show ?thesis
    by (simp add: order_by_key_def update_order_def find_update_where_same order_key_is)
next
  case (Some r')
  have "o_id r' \<noteq> o_id r"
  proof
    assume "o_id r' = o_id r"
    then have "r' = r"
      using wf order_by_key_Some [OF r] order_by_key_Some [OF Some] ids_ok_same [of o_id _ _ r' r]
      by (auto simp: wf_db_def)
    then show False using order_by_key_Some [OF r] order_by_key_Some [OF Some] k by simp
  qed
  then show ?thesis using Some
    by (simp add: order_by_key_def update_order_def find_update_where_same order_key_is)
qed

text \<open>The row an event leaves under its key, up to the estimate's columns, and every other row.\<close>

lemma upsert_row:
  assumes u: "upsertOrderWithSnapshot D off now sid org mo opts d = Inr d'" and ns: "\<not> stale_event sid mo d"
    and wf: "wf_db d"
  shows "\<exists>r'. order_by_key sid (mo_platformOrderId mo) d' = Some r'
      \<and> (case order_by_key sid (mo_platformOrderId mo) d of
           Some r \<Rightarrow> strip r' = strip (update_order_row mo r)
         | None \<Rightarrow> \<exists>t. date_of (mo_orderDate mo) = Some t
             \<and> strip r' = strip (create_order_row D (db_nextId d) sid org mo t opts now))"
    and "(sid', pid') \<noteq> (sid, mo_platformOrderId mo) \<Longrightarrow>
      map_option strip (order_by_key sid' pid' d') = map_option strip (order_by_key sid' pid' d)"
proof -
  let ?pid = "mo_platformOrderId mo"
  obtain oid d1 where up: "upsert_order D sid org mo opts now d = Inr (oid, d1)"
    and st: "map strip (db_orders d') = map strip (db_orders d1)"
    by (rule upsert_strip [OF u ns])
  note eq = order_by_key_strip [OF st]
  show "\<exists>r'. order_by_key sid ?pid d' = Some r'
      \<and> (case order_by_key sid ?pid d of
           Some r \<Rightarrow> strip r' = strip (update_order_row mo r)
         | None \<Rightarrow> \<exists>t. date_of (mo_orderDate mo) = Some t
             \<and> strip r' = strip (create_order_row D (db_nextId d) sid org mo t opts now))"
  proof (cases "order_by_key sid ?pid d")
    case (Some r)
    then have "order_by_key sid ?pid d1 = Some (update_order_row mo r)"
      using up find_update_order_key [OF Some] by (auto simp: upsert_order_def)
    then show ?thesis using eq [of sid ?pid] Some by auto
  next
    case None
    then obtain t where t: "date_of (mo_orderDate mo) = Some t"
      "d1 = d \<lparr> db_orders := db_orders d @ [create_order_row D (db_nextId d) sid org mo t opts now],
               db_nextId := Suc (db_nextId d) \<rparr>"
      using up by (auto simp: upsert_order_def split: option.splits)
    have "order_by_key sid ?pid d1 = Some (create_order_row D (db_nextId d) sid org mo t opts now)"
      using None unfolding t(2) by (simp add: order_by_key_def find_append order_key_is)
    then show ?thesis using eq [of sid ?pid] None t(1) by auto
  qed
  assume k: "(sid', pid') \<noteq> (sid, ?pid)"
  have "order_by_key sid' pid' d1 = order_by_key sid' pid' d"
  proof (cases "order_by_key sid ?pid d")
    case (Some r)
    then show ?thesis using up update_order_other_key [OF wf Some k] by (auto simp: upsert_order_def)
  next
    case None
    then show ?thesis using up k
      by (auto simp: upsert_order_def order_by_key_def find_append order_key_is split: option.splits)
  qed
  then show "map_option strip (order_by_key sid' pid' d') = map_option strip (order_by_key sid' pid' d)"
    using eq by simp
qed

section \<open>The freshness watermark\<close>

lemma watermark_row:
  assumes u: "deliver D off d e = Inr d'" and wf: "wf_db d" and a: "about sid pid e"
    and ns: "\<not> stale_event (dl_sid e) (dl_mo e) d" and lmd: "incoming_lmd (dl_mo e) \<noteq> None"
  shows "\<exists>r'. order_by_key sid pid d' = Some r' \<and> o_platformLastModifiedAt r' = incoming_lmd (dl_mo e)
     \<and> o_status r' = mo_status (dl_mo e)"
proof -
  obtain m where m: "incoming_lmd (dl_mo e) = Some m" using lmd by auto
  have key: "dl_sid e = sid" "mo_platformOrderId (dl_mo e) = pid" using a by (auto simp: about_def)
  obtain r' where r': "order_by_key sid pid d' = Some r'"
    and row: "case order_by_key sid pid d of
           Some r \<Rightarrow> strip r' = strip (update_order_row (dl_mo e) r)
         | None \<Rightarrow> \<exists>t. date_of (mo_orderDate (dl_mo e)) = Some t
             \<and> strip r' = strip (create_order_row D (db_nextId d) sid (dl_org e) (dl_mo e) t (dl_opts e) (dl_now e))"
    using upsert_row(1) [OF u [unfolded deliver_def] ns wf] unfolding key by blast
  obtain q where q: "strip r' = strip q" "o_status q = mo_status (dl_mo e)"
    "o_platformLastModifiedAt q = incoming_lmd (dl_mo e)"
  proof (cases "order_by_key sid pid d")
    case (Some r)
    show thesis
      by (rule that [of "update_order_row (dl_mo e) r"]) (use row Some m in \<open>simp_all add: update_order_row_def\<close>)
  next
    case None
    then obtain t where "strip r' =
        strip (create_order_row D (db_nextId d) sid (dl_org e) (dl_mo e) t (dl_opts e) (dl_now e))"
      using row by auto
    then show thesis by (rule that) (simp_all add: create_order_row_def)
  qed
  show ?thesis using r' strip_sel(5,6) [OF q(1)] q(2,3) by simp
qed

definition newest_of :: "id \<Rightarrow> string \<Rightarrow> delivery list \<Rightarrow> order_row \<Rightarrow> bool" where
  "newest_of sid pid es r \<longleftrightarrow>
     (\<exists>e \<in> set es. about sid pid e \<and> o_platformLastModifiedAt r = incoming_lmd (dl_mo e)
        \<and> o_status r = mo_status (dl_mo e)
        \<and> (\<forall>e' \<in> set es. about sid pid e' \<longrightarrow> the (incoming_lmd (dl_mo e')) \<le> the (incoming_lmd (dl_mo e))))"

lemma newest_run:
  assumes "foldR (deliver D off) d es = Inr d'" and "wf_db d" and "order_by_key sid pid d = None"
    and "\<And>e. e \<in> set es \<Longrightarrow> about sid pid e \<Longrightarrow> incoming_lmd (dl_mo e) \<noteq> None"
  shows "if \<exists>e \<in> set es. about sid pid e
    then \<exists>r. order_by_key sid pid d' = Some r \<and> newest_of sid pid es r
    else order_by_key sid pid d' = None"
  using assms
proof (induction es arbitrary: d' rule: rev_induct)
  case Nil
  then show ?case by simp
next
  case (snoc e es)
  obtain d1 where d1: "foldR (deliver D off) d es = Inr d1" and e: "deliver D off d1 e = Inr d'"
    using snoc.prems(1) by (auto simp: foldR_append bindR_eq_Inr)
  have wf1: "wf_db d1" by (rule deliver_all_wf [OF d1 snoc.prems(2)])
  have IH: "if \<exists>e \<in> set es. about sid pid e
    then \<exists>r. order_by_key sid pid d1 = Some r \<and> newest_of sid pid es r
    else order_by_key sid pid d1 = None"
    by (rule snoc.IH [OF d1 snoc.prems(2,3)]) (use snoc.prems(4) in auto)
  show ?case
  proof (cases "about sid pid e")
    case a: True
    then have lmd: "incoming_lmd (dl_mo e) \<noteq> None" using snoc.prems(4) by simp
    have key: "dl_sid e = sid" "mo_platformOrderId (dl_mo e) = pid" using a by (auto simp: about_def)
    show ?thesis
    proof (cases "stale_event (dl_sid e) (dl_mo e) d1")
      case True
      then have "d' = d1" using e by (simp add: deliver_def upsertOrderWithSnapshot_def)
      moreover obtain r where r: "order_by_key sid pid d1 = Some r"
        "the (incoming_lmd (dl_mo e)) \<le> the (o_platformLastModifiedAt r)"
        using True unfolding stale_event_def key by (auto split: option.splits bind_splits)
      moreover have "\<exists>e \<in> set es. about sid pid e" using IH r(1) by (auto split: if_splits)
      ultimately show ?thesis using IH a by (auto simp: newest_of_def)
    next
      case fresh: False
      obtain r' where r': "order_by_key sid pid d' = Some r'"
        "o_platformLastModifiedAt r' = incoming_lmd (dl_mo e)" "o_status r' = mo_status (dl_mo e)"
        using watermark_row [OF e wf1 a fresh lmd] by blast
      have "the (incoming_lmd (dl_mo e')) \<le> the (incoming_lmd (dl_mo e))"
        if e': "e' \<in> set es" "about sid pid e'" for e'
      proof -
        obtain r b where r: "order_by_key sid pid d1 = Some r" "b \<in> set es" "about sid pid b"
          "o_platformLastModifiedAt r = incoming_lmd (dl_mo b)"
          "the (incoming_lmd (dl_mo e')) \<le> the (incoming_lmd (dl_mo b))"
          using IH e' by (auto simp: newest_of_def split: if_splits)
        have "incoming_lmd (dl_mo b) \<noteq> None" using snoc.prems(4) r(2,3) by simp
        then have "the (incoming_lmd (dl_mo b)) \<le> the (incoming_lmd (dl_mo e))"
          using fresh lmd r(1,4) unfolding stale_event_def key by (auto split: option.splits)
        with r(5) show ?thesis by (rule order_trans)
      qed
      then have "newest_of sid pid (es @ [e]) r'"
        using a r'(2,3) by (auto simp: newest_of_def)
      with r'(1) a show ?thesis by auto
    qed
  next
    case na: False
    have k: "(sid, pid) \<noteq> (dl_sid e, mo_platformOrderId (dl_mo e))" using na by (auto simp: about_def)
    have eq: "map_option strip (order_by_key sid pid d') = map_option strip (order_by_key sid pid d1)"
    proof (cases "stale_event (dl_sid e) (dl_mo e) d1")
      case True
      then show ?thesis using e by (simp add: deliver_def upsertOrderWithSnapshot_def)
    next
      case False
      show ?thesis by (rule upsert_row(2) [OF e [unfolded deliver_def] False wf1 k])
    qed
    have same: "newest_of sid pid (es @ [e]) r'" if "strip r' = strip r" "newest_of sid pid es r" for r r'
      using that(2) strip_sel(5,6) [OF that(1)] na by (auto simp: newest_of_def)
    have ex: "(\<exists>b \<in> set (es @ [e]). about sid pid b) = (\<exists>b \<in> set es. about sid pid b)" using na by auto
    show ?thesis
    proof (cases "\<exists>b \<in> set es. about sid pid b")
      case True
      then obtain r where "order_by_key sid pid d1 = Some r" "newest_of sid pid es r" using IH by auto
      then show ?thesis using eq same ex True by auto
    next
      case False
      then show ?thesis using IH eq ex by simp
    qed
  qed
qed

section \<open>Items and their cost snapshots\<close>

text \<open>The identity of an item with the columns of its cost snapshot.\<close>

type_synonym cost_snapshot = "rat option \<times> rat option \<times> time option"

definition item_snapshot :: "item_row \<Rightarrow> cost_snapshot" where
  "item_snapshot i = (i_unitCostSnapshotGross i, i_unitCostSnapshotVatRate i, i_snapshotCapturedAt i)"

definition snapshot_row :: "item_row \<Rightarrow> id \<times> id \<times> cost_snapshot" where
  "snapshot_row i = (i_id i, i_orderId i, item_snapshot i)"

definition order_excluded :: "id \<Rightarrow> db \<Rightarrow> bool" where
  "order_excluded oid d \<longleftrightarrow> (\<exists>r. find_order oid d = Some r \<and> o_profitExcludedAt r \<noteq> None)"

text \<open>The items of \<open>d\<close> come first and keep their snapshots; an item added to an excluded order has none.\<close>

definition snapshots_kept :: "db \<Rightarrow> db \<Rightarrow> bool" where
  "snapshots_kept d d' \<longleftrightarrow>
     (\<exists>ns. map snapshot_row (db_items d') = map snapshot_row (db_items d) @ ns
        \<and> (\<forall>iid oid c. (iid, oid, c) \<in> set ns \<longrightarrow>
              db_nextId d \<le> iid \<and> (order_excluded oid d \<longrightarrow> c = (None, None, None))))"

lemma snapshots_kept_refl: "map snapshot_row (db_items d') = map snapshot_row (db_items d) \<Longrightarrow> snapshots_kept d d'"
  by (simp add: snapshots_kept_def)

lemma snapshots_kept_trans:
  assumes "snapshots_kept a b" and "snapshots_kept b c" and "db_nextId a \<le> db_nextId b"
    and "\<And>oid. order_excluded oid a \<Longrightarrow> order_excluded oid b"
  shows "snapshots_kept a c"
proof -
  obtain ns where ns: "map snapshot_row (db_items b) = map snapshot_row (db_items a) @ ns"
    "\<And>iid oid s. (iid, oid, s) \<in> set ns \<Longrightarrow> db_nextId a \<le> iid \<and> (order_excluded oid a \<longrightarrow> s = (None, None, None))"
    using assms(1) by (auto simp: snapshots_kept_def)
  obtain ms where ms: "map snapshot_row (db_items c) = map snapshot_row (db_items b) @ ms"
    "\<And>iid oid s. (iid, oid, s) \<in> set ms \<Longrightarrow> db_nextId b \<le> iid \<and> (order_excluded oid b \<longrightarrow> s = (None, None, None))"
    using assms(2) by (auto simp: snapshots_kept_def)
  have "db_nextId a \<le> iid \<and> (order_excluded oid a \<longrightarrow> s = (None, None, None))"
    if m: "(iid, oid, s) \<in> set (ns @ ms)" for iid oid s
  proof (cases "(iid, oid, s) \<in> set ns")
    case True
    then show ?thesis by (rule ns(2))
  next
    case False
    then have "db_nextId b \<le> iid \<and> (order_excluded oid b \<longrightarrow> s = (None, None, None))"
      using m ms(2) by simp
    then show ?thesis using assms(3,4) order_trans by blast
  qed
  then show ?thesis unfolding snapshots_kept_def ms(1) ns(1) by (intro exI [of _ "ns @ ms"]) auto
qed

lemma existing_snapshots: "map snapshot_row (db_items (existing_line D l p i d)) = map snapshot_row (db_items d)"
  by (simp add: existing_line_def refresh_commission_def stamp_line_id_def update_item_def Let_def
      set_commission_def snapshot_row_def item_snapshot_def map_update_where)

lemma capture_shape:
  assumes c: "captureCostSnapshot D now iid d = Inr d'"
  shows "d' = d \<or> (\<exists>i r g v. find_item iid d = Some i \<and> find_order (i_orderId i) d = Some r
      \<and> o_profitExcludedAt r = None
      \<and> db_items d' = update_where (\<lambda>i. i_id i = iid) (\<lambda>i. i \<lparr> i_unitCostSnapshotGross := Some g,
           i_unitCostSnapshotVatRate := v, i_snapshotCapturedAt := Some now \<rparr>) (db_items d))"
proof (cases "d' = d")
  case False
  then obtain i r y where i: "find_item iid d = Some i" and r: "find_order (i_orderId i) d = Some r"
    and ne: "o_profitExcludedAt r = None"
    and d': "db_items d' = db_items (update_item iid (\<lambda>i. i \<lparr> i_unitCostSnapshotGross := Some (components_gross D y),
        i_unitCostSnapshotVatRate := blended_vat_rate D y, i_snapshotCapturedAt := Some now \<rparr>) d)"
    using c by (fastforce simp: captureCostSnapshot_def bindR_eq_Inr Let_def split: option.splits if_splits)
  then show ?thesis unfolding update_item_def by (intro disjI2 exI [of _ i] exI [of _ r]) auto
qed simp

lemma new_line_snapshots:
  assumes n: "new_line D mo opts dec p now oid l variant (d, ps) = Inr (d', ps')" and wf: "wf_db d"
  shows "snapshots_kept d d'"
proof -
  let ?i = "create_item_row (db_nextId d) oid mo l (map_option v_id variant) (resolveEffectiveCommission D l p d)"
  obtain d2 where d2: "db_items d2 = db_items d @ [?i]" "line_frame d d2"
    and cap: "if uo_profitExclusion opts = None then captureCostSnapshot D now (db_nextId d) d2 = Inr d' else d' = d2"
    by (rule new_line_steps [OF n])
  have fresh: "i_id j \<noteq> db_nextId d" if "j \<in> set (db_items d)" for j
    using wf that by (auto simp: wf_db_def ids_ok_def)
  have row: "snapshot_row ?i = (db_nextId d, oid, None, None, None)"
    by (simp add: snapshot_row_def item_snapshot_def create_item_row_def)
  show ?thesis
  proof (cases "d' = d2")
    case True
    then show ?thesis using d2(1) row by (simp add: snapshots_kept_def)
  next
    case False
    then have c: "captureCostSnapshot D now (db_nextId d) d2 = Inr d'" using cap by (auto split: if_splits)
    obtain i r g v where sh: "find_item (db_nextId d) d2 = Some i" "find_order (i_orderId i) d2 = Some r"
      "o_profitExcludedAt r = None"
      "db_items d' = update_where (\<lambda>i. i_id i = db_nextId d) (\<lambda>i. i \<lparr> i_unitCostSnapshotGross := Some g,
           i_unitCostSnapshotVatRate := v, i_snapshotCapturedAt := Some now \<rparr>) (db_items d2)"
      using capture_shape [OF c] False by blast
    have "find (\<lambda>i. i_id i = db_nextId d) (db_items d) = None" using fresh by (simp add: find_None_all)
    then have "i = ?i" using sh(1) d2(1) by (simp add: find_item_def find_append)
    then have "find_order oid d = Some r"
      using sh(2) line_frame_sel(1) [OF d2(2)] by (simp add: find_order_def)
    then have ne: "\<not> order_excluded oid d" using sh(3) by (simp add: order_excluded_def)
    have "update_where (\<lambda>i. i_id i = db_nextId d) f (db_items d) = db_items d" for f
      using fresh by (intro update_where_id) auto
    then have "map snapshot_row (db_items d') = map snapshot_row (db_items d) @ [(db_nextId d, oid, Some g, v, Some now)]"
      unfolding sh(4) d2(1) by (simp add: update_where_append snapshot_row_def item_snapshot_def)
    then show ?thesis using ne by (simp add: snapshots_kept_def)
  qed
qed

lemma order_excluded_orders: "db_orders d' = db_orders d \<Longrightarrow> order_excluded oid d' = order_excluded oid d"
  by (simp add: order_excluded_def find_order_def)

lemma write_line_snapshots:
  assumes w: "write_line D sid mo opts dec p now oid s l = Inr s'" and wf: "wf_db (fst s)"
  shows "snapshots_kept (fst s) (fst s')"
proof -
  obtain d ps d' ps' where s: "s = (d, ps)" "s' = (d', ps')" by (cases s; cases s')
  then show ?thesis using w wf existing_snapshots new_line_snapshots
    by (auto simp: write_line_def Let_def split: option.splits intro: snapshots_kept_refl)
qed

lemma lines_snapshots:
  assumes f: "foldR (write_line D sid mo opts dec p now oid) s ls = Inr s'" and wf: "wf_db (fst s)"
  shows "snapshots_kept (fst s) (fst s')"
proof -
  let ?I = "\<lambda>t. wf_db (fst t) \<and> snapshots_kept (fst s) (fst t) \<and> db_nextId (fst s) \<le> db_nextId (fst t)
      \<and> db_orders (fst t) = db_orders (fst s)"
  have "?I s'"
  proof (rule foldR_invariant [OF f, where I = ?I])
    show "?I s" using wf by (simp add: snapshots_kept_refl)
    fix t l t' assume I: "?I t" and w: "write_line D sid mo opts dec p now oid t l = Inr t'"
    have ex: "order_excluded oid (fst t)" if "order_excluded oid (fst s)" for oid
      using I that order_excluded_orders [of "fst t" "fst s"] by simp
    have "snapshots_kept (fst s) (fst t')"
      by (rule snapshots_kept_trans [of _ "fst t"]) (use I write_line_snapshots [OF w] ex in simp_all)
    moreover have "db_nextId (fst s) \<le> db_nextId (fst t')"
      using I write_line_wf(2) [OF w] by (auto intro: order_trans)
    moreover have "db_orders (fst t') = db_orders (fst s)"
      using I line_frame_sel(1) [OF write_line_frame(1) [OF w]] by simp
    ultimately show "?I t'" using I write_line_wf(1) [OF w] by simp
  qed
  then show ?thesis by simp
qed

section \<open>Excluded orders\<close>

text \<open>The columns of an order the profit services own.\<close>

definition profit_columns where
  "profit_columns r = (o_profitExcludedAt r, o_profitExclusionReason r, o_estimatedNetProfit r,
     o_estimatedNetVat r, o_estimatedSaleMarginPct r, o_estimatedCostMarkupPct r, o_settledNetProfit r,
     o_settledNetVat r, o_settledSaleMarginPct r, o_settledCostMarkupPct r, o_snapshotIncludeStopaj r,
     o_snapshotIncludeNegativeNetVat r)"

lemma profit_columns_update [simp]: "profit_columns (update_order_row mo r) = profit_columns r"
  by (simp add: profit_columns_def update_order_row_def)

text \<open>What a step keeps of an excluded order: its profit columns and its fees.\<close>

definition frozen :: "id \<Rightarrow> db \<Rightarrow> db \<Rightarrow> bool" where
  "frozen oid d d' \<longleftrightarrow>
     map_option profit_columns (find_order oid d') = map_option profit_columns (find_order oid d)
   \<and> order_fees oid d' = order_fees oid d"

lemma frozen_refl [simp]: "frozen oid d d"
  by (simp add: frozen_def)

lemma frozen_trans: "frozen oid a b \<Longrightarrow> frozen oid b c \<Longrightarrow> frozen oid a c"
  by (simp add: frozen_def)

lemma frozen_excluded: "frozen oid d d' \<Longrightarrow> order_excluded oid d' = order_excluded oid d"
  by (cases "find_order oid d'"; cases "find_order oid d") (auto simp: frozen_def order_excluded_def profit_columns_def)

lemma frozen_same: "db_orders d' = db_orders d \<Longrightarrow> db_fees d' = db_fees d \<Longrightarrow> frozen oid d d'"
  by (simp add: frozen_def find_order_def order_fees_def)

lemma upsert_order_frozen:
  assumes u: "upsert_order D sid org mo opts now d = Inr (oid', d')" and ex: "order_excluded oid d"
  shows "frozen oid d d'"
proof -
  obtain r where r: "find_order oid d = Some r" using ex by (auto simp: order_excluded_def)
  consider q :: order_row where "d' = update_order (o_id q) (update_order_row mo) d"
    | x :: order_row where "d' = d \<lparr> db_orders := db_orders d @ [x], db_nextId := Suc (db_nextId d) \<rparr>"
  proof (cases "order_by_key sid (mo_platformOrderId mo) d")
    case None
    then show thesis using u that(2) by (auto simp: upsert_order_def split: option.splits)
  next
    case (Some q)
    then have "d' = update_order (o_id q) (update_order_row mo) d" using u by (auto simp: upsert_order_def)
    then show thesis by (rule that(1))
  qed
  then show ?thesis
  proof cases
    case 1
    then show ?thesis using r
      by (simp add: frozen_def find_order_update order_fees_def) (simp add: update_order_def)
  next
    case 2
    then show ?thesis using r by (simp add: frozen_def find_order_def find_append order_fees_def)
  qed
qed

lemma find_order_other: "oid \<noteq> oid' \<Longrightarrow> find_order oid d = find (\<lambda>r. o_id r = oid) (other_orders oid' d)"
  unfolding find_order_def other_orders_def by (simp add: find_cong_filter conj_commute) (metis (mono_tags))

lemma order_fees_other:
  "oid \<noteq> oid' \<Longrightarrow> order_fees oid d = filter (\<lambda>f. f_orderId f = oid) (other_fees oid' d)"
  by (auto simp: order_fees_def other_fees_def intro!: filter_cong)

lemma apply_frozen:
  assumes a: "applyEstimateOnOrderCreate D off oid' d = Inr d'" and wf: "wf_db d" and ex: "order_excluded oid d"
  shows "frozen oid d d'"
proof (cases "oid = oid'")
  case True
  then have "d' = d" using ex apply_strip(3) [OF a] by (auto simp: order_excluded_def)
  then show ?thesis by simp
next
  case False
  have "wf_fees d" using wf by (simp add: wf_db_def)
  then have "other_orders oid' d' = other_orders oid' d" "other_fees oid' d' = other_fees oid' d"
    using apply_keeps [OF a] by (auto simp: keeps_def)
  then show ?thesis
    by (simp add: frozen_def find_order_other [OF False] order_fees_other [OF False])
qed

lemma upsert_frozen:
  assumes u: "upsertOrderWithSnapshot D off now sid org mo opts d = Inr d'" and wf: "wf_db d"
  shows "order_excluded oid d \<Longrightarrow> frozen oid d d'" and "snapshots_kept d d'" and "db_nextId d \<le> db_nextId d'"
proof -
  have all: "(order_excluded oid d \<longrightarrow> frozen oid d d') \<and> snapshots_kept d d' \<and> db_nextId d \<le> db_nextId d'" for oid
    using u
  proof (cases rule: upsertE)
    case (written oid' d1 d2 ps)
    let ?d3 = "recomputeProductsTotalStock ps d2"
    have wf1: "wf_db d1" by (rule upsert_order_wf(1) [OF written(2) wf])
    then have wf2: "wf_db d2" using lines_wf(1) [OF written(3)] by simp
    then have wf3: "wf_db ?d3" by (rule recompute_wf)
    note lf = lines_frame(1) [OF written(3), simplified]
    have n: "db_nextId d \<le> db_nextId d1" "db_nextId d1 \<le> db_nextId d2"
      using upsert_order_wf(4) [OF written(2) wf] lines_wf(2) [OF written(3)] wf1 by simp_all
    have last: "(order_excluded o2 d2 \<longrightarrow> frozen o2 d2 d') \<and> db_items d' = db_items d2 \<and> db_nextId d2 \<le> db_nextId d'" for o2
      using written(4)
    proof
      assume "uo_profitExclusion opts = None \<and> applyEstimateOnOrderCreate D off oid' ?d3 = Inr d'"
      then have a: "applyEstimateOnOrderCreate D off oid' ?d3 = Inr d'" ..
      have "order_excluded o2 d2 \<Longrightarrow> frozen o2 ?d3 d'"
        using apply_frozen [OF a wf3] order_excluded_orders [of ?d3 d2] by simp
      then have "order_excluded o2 d2 \<Longrightarrow> frozen o2 d2 d'"
        using frozen_trans [OF frozen_same, of ?d3 d2 o2 d'] by simp
      then show ?thesis using apply_next [OF a] ref_eq_sel(8) [OF apply_strip(1) [OF a]] by simp
    next
      assume "uo_profitExclusion opts \<noteq> None \<and> d' = ?d3"
      then have d': "d' = ?d3" ..
      have "frozen o2 d2 d'" unfolding d' by (rule frozen_same) simp_all
      then show ?thesis unfolding d' by simp
    qed
    have fr: "frozen o2 d d1 \<and> frozen o2 d1 d2" if "order_excluded o2 d" for o2
      using upsert_order_frozen [OF written(2) that] frozen_same [OF line_frame_sel(1,2) [OF lf]] by simp
    have ex: "order_excluded o2 d2" if "order_excluded o2 d" for o2
      using fr [OF that] frozen_excluded that by blast
    have "frozen oid d d'" if "order_excluded oid d"
      using fr [OF that] last [of oid] ex [OF that] frozen_trans by blast
    moreover have "snapshots_kept d d'"
    proof (rule snapshots_kept_trans [of d d1])
      show "snapshots_kept d d1" using upsert_order_wf(2) [OF written(2) wf] by (intro snapshots_kept_refl) simp
      have "snapshots_kept d1 d2" using lines_snapshots [OF written(3)] wf1 by simp
      then show "snapshots_kept d1 d'" using last by (simp add: snapshots_kept_def)
      show "db_nextId d \<le> db_nextId d1" by (rule n(1))
      show "order_excluded o2 d \<Longrightarrow> order_excluded o2 d1" for o2 using fr frozen_excluded by blast
    qed
    ultimately show ?thesis using n last by (auto intro: order_trans)
  qed (simp add: snapshots_kept_refl)
  then show "order_excluded oid d \<Longrightarrow> frozen oid d d'" and "snapshots_kept d d'" and "db_nextId d \<le> db_nextId d'"
    by auto
qed

lemma deliver_all_frozen:
  assumes f: "foldR (deliver D off) d es = Inr d'" and wf: "wf_db d"
  shows "order_excluded oid d \<Longrightarrow> frozen oid d d'" and "snapshots_kept d d'"
proof -
  let ?I = "\<lambda>t. wf_db t \<and> (\<forall>oid. order_excluded oid d \<longrightarrow> frozen oid d t) \<and> snapshots_kept d t \<and> db_nextId d \<le> db_nextId t"
  have "?I d'"
  proof (rule foldR_invariant [OF f, where I = ?I])
    show "?I d" using wf by (simp add: snapshots_kept_refl)
    fix t e t' assume I: "?I t" and e: "deliver D off t e = Inr t'"
    note u = upsert_frozen [OF e [unfolded deliver_def]]
    have wft: "wf_db t" using I by simp
    have ex: "order_excluded oid t" if "order_excluded oid d" for oid
      using I that frozen_excluded by blast
    have "frozen oid d t'" if "order_excluded oid d" for oid
      using I that u(1) [OF wft ex [OF that]] frozen_trans by blast
    moreover have "snapshots_kept d t'"
      by (rule snapshots_kept_trans [of _ t]) (use I u(2) [OF wft] ex in simp_all)
    moreover have "db_nextId d \<le> db_nextId t'" using I u(3) [OF wft] by simp
    ultimately show "?I t'" using deliver_wf [OF e wft] by simp
  qed
  then show "order_excluded oid d \<Longrightarrow> frozen oid d d'" and "snapshots_kept d d'" by auto
qed

section \<open>Properties\<close>

text \<open>C30: Events of an order may arrive in any order, interleaved with those of other orders and stores:
  if every event of the order carries a modification date, the stored status is that of a newest
  event and the watermark is its date; a late, older event never sets the order back.\<close>
theorem newest_event_wins:
  assumes "foldR (deliver D off) d es = Inr d'" and "wf_db d" and "order_by_key sid pid d = None"
    and "\<exists>e \<in> set es. about sid pid e"
    and "\<forall>e \<in> set es. about sid pid e \<longrightarrow> incoming_lmd (dl_mo e) \<noteq> None"
  shows "\<exists>r e. order_by_key sid pid d' = Some r \<and> e \<in> set es \<and> about sid pid e
     \<and> o_platformLastModifiedAt r = incoming_lmd (dl_mo e) \<and> o_status r = mo_status (dl_mo e)
     \<and> (\<forall>e' \<in> set es. about sid pid e' \<longrightarrow> the (incoming_lmd (dl_mo e')) \<le> the (incoming_lmd (dl_mo e)))"
  using newest_run [OF assms(1-3)] assms(4,5) by (auto simp: newest_of_def)

text \<open>C31: An order that was excluded from profit stays excluded: whatever events follow, calculable or
  not, of this order or of others, its exclusion, its estimated and settled profit, margins and
  settings columns and its fee rows do not change.\<close>
theorem exclusion_frozen:
  assumes "foldR (deliver D off) d es = Inr d'" and "wf_db d"
    and "find_order oid d = Some r" and "o_profitExcludedAt r \<noteq> None"
  shows "(\<exists>r'. find_order oid d' = Some r' \<and> profit_columns r' = profit_columns r)
       \<and> order_fees oid d' = order_fees oid d"
  using deliver_all_frozen(1) [OF assms(1,2), of oid] assms(3,4)
  by (auto simp: frozen_def order_excluded_def)

text \<open>C32: A cost snapshot is written once: no sequence of events removes or reorders items or changes the
  unit cost, its VAT rate or the capture time of an item that exists, and an item added to an
  excluded order never gets a cost.\<close>
theorem snapshot_write_once:
  assumes "foldR (deliver D off) d es = Inr d'" and "wf_db d"
  shows "\<exists>ns. map snapshot_row (db_items d') = map snapshot_row (db_items d) @ ns
    \<and> (\<forall>iid oid c. (iid, oid, c) \<in> set ns \<and> order_excluded oid d \<longrightarrow> c = (None, None, None))"
  using deliver_all_frozen(2) [OF assms] unfolding snapshots_kept_def by blast

subsection \<open>Witnesses\<close>

text \<open>An uncosted order of one line that arrives late and is then shipped, the events out of order.\<close>

definition example_line :: mapped_line where
  "example_line = \<lparr> ml_barcode = ''869'', ml_quantity = 2, ml_platformLineId = Some 5, ml_lineListGross = 120,
     ml_lineSaleGross = 120, ml_lineSellerDiscountGross = 0, ml_saleVatRate = 20, ml_commissionRate = 15,
     ml_commissionGross = 18, ml_refundedCommissionGross = 0, ml_commissionVatRate = 20, ml_categoryId = None,
     ml_commissionKnown = Some True \<rparr>"

definition example_mapped :: "time \<Rightarrow> order_status \<Rightarrow> mapped_order" where
  "example_mapped lmd st = \<lparr> mo_platformOrderId = ''77'', mo_platformOrderNumber = ''77'', mo_orderDate = JDate 0,
     mo_lastModifiedDate = Some (JDate lmd), mo_status = st, mo_dematerialized = False, mo_saleGross = 120,
     mo_saleVat = 20, mo_listGross = 120, mo_sellerDiscountGross = 0, mo_actualDeliveryDate = None,
     mo_deliveredOnTime = None, mo_actualShipDate = None, mo_fastDelivery = False, mo_fastDeliveryType = None,
     mo_micro = False, mo_cargoProviderName = None, mo_cargoTrackingNumber = None, mo_cargoDeci = None,
     mo_usesSellerCargoAgreement = None, mo_platformCreatedBy = None, mo_originShipmentDate = None,
     mo_lines = [example_line] \<rparr>"

definition example_delivery :: "profit_exclusion_reason option \<Rightarrow> time \<Rightarrow> order_status \<Rightarrow> delivery" where
  "example_delivery excl lmd st = \<lparr> dl_now = 3 * day_ms, dl_sid = 1, dl_org = 1, dl_mo = example_mapped lmd st,
     dl_opts = \<lparr> uo_profitExclusion = excl, uo_promotedFromBuffer = False \<rparr> \<rparr>"

definition example_events :: "delivery list" where
  "example_events = map (\<lambda>(t, st). example_delivery (Some LATE_UNCOSTED_ARRIVAL) t st)
     [(10, OS_PENDING), (30, OS_SHIPPED), (20, OS_PROCESSING)]"

lemma Inr_projr: "\<not> isl x \<Longrightarrow> x = Inr (projr x)"
  by (cases x) auto

lemma empty_wf: "wf_db empty_db"
  by (simp add: wf_db_def wf_fees_def one_estimate_def ids_ok_def empty_db_def)

lemma example_run: "foldR (deliver dec20 (\<lambda>_. 0)) empty_db example_events
    = Inr (projr (foldR (deliver dec20 (\<lambda>_. 0)) empty_db example_events))"
  by (rule Inr_projr) code_simp

lemma newest_event_wins_witness:
  "\<exists>r. order_by_key 1 ''77'' (projr (foldR (deliver dec20 (\<lambda>_. 0)) empty_db example_events)) = Some r
     \<and> o_platformLastModifiedAt r = Some 30 \<and> o_status r = OS_SHIPPED"
proof -
  have "\<exists>r e. order_by_key 1 ''77'' (projr (foldR (deliver dec20 (\<lambda>_. 0)) empty_db example_events)) = Some r
     \<and> e \<in> set example_events \<and> about 1 ''77'' e
     \<and> o_platformLastModifiedAt r = incoming_lmd (dl_mo e) \<and> o_status r = mo_status (dl_mo e)
     \<and> (\<forall>e' \<in> set example_events. about 1 ''77'' e' \<longrightarrow>
          the (incoming_lmd (dl_mo e')) \<le> the (incoming_lmd (dl_mo e)))"
    by (rule newest_event_wins [OF example_run empty_wf])
      (auto simp: order_by_key_def empty_db_def example_events_def example_delivery_def example_mapped_def
        about_def incoming_lmd_def)
  then show ?thesis
    by (auto simp: example_events_def example_delivery_def example_mapped_def about_def incoming_lmd_def)
qed

definition one_store_db :: db where
  "one_store_db = empty_db \<lparr> db_stores := [example_store] \<rparr>"

lemma one_store_wf: "wf_db one_store_db"
  using empty_wf by (simp add: wf_db_def wf_fees_def one_estimate_def one_store_db_def)

definition excluded_db :: db where
  "excluded_db = projr (deliver dec20 (\<lambda>_. 0) one_store_db (example_delivery (Some LATE_UNCOSTED_ARRIVAL) 10 OS_PENDING))"

lemma excluded_start: "deliver dec20 (\<lambda>_. 0) one_store_db
    (example_delivery (Some LATE_UNCOSTED_ARRIVAL) 10 OS_PENDING) = Inr excluded_db"
  unfolding excluded_db_def by (rule Inr_projr) code_simp

lemma excluded_db_wf: "wf_db excluded_db"
  using excluded_start one_store_wf by (rule deliver_wf)

lemma excluded_run: "foldR (deliver dec20 (\<lambda>_. 0)) excluded_db [example_delivery None 40 OS_DELIVERED]
    = Inr (projr (foldR (deliver dec20 (\<lambda>_. 0)) excluded_db [example_delivery None 40 OS_DELIVERED]))"
  by (rule Inr_projr) code_simp

lemma excluded_ids: "map (\<lambda>r. (o_id r, o_profitExcludedAt r)) (db_orders excluded_db) = [(db_nextId one_store_db, Some (3 * day_ms))]"
  by code_simp

lemma excluded_row: "find_order (db_nextId one_store_db) excluded_db = Some (hd (db_orders excluded_db))
    \<and> o_profitExcludedAt (hd (db_orders excluded_db)) \<noteq> None"
  using excluded_ids by (auto simp: find_order_def)

lemma exclusion_frozen_witness:
  "order_fees (db_nextId one_store_db) (projr (foldR (deliver dec20 (\<lambda>_. 0)) excluded_db [example_delivery None 40 OS_DELIVERED]))
     = order_fees (db_nextId one_store_db) excluded_db"
  using exclusion_frozen [OF excluded_run excluded_db_wf] excluded_row by blast

lemma snapshot_write_once_witness:
  "\<exists>ns. map snapshot_row (db_items (projr (foldR (deliver dec20 (\<lambda>_. 0)) excluded_db [example_delivery None 40 OS_DELIVERED])))
      = map snapshot_row (db_items excluded_db) @ ns"
  using snapshot_write_once [OF excluded_run excluded_db_wf] by blast

end
