(* ===== verification/Order_Redelivery.thy ===== *)
theory Order_Redelivery
  imports Order_Events
begin

text \<open>
  A delivery may come twice: a webhook is retried, a poll re-reads its window. The second delivery
  of an event finds every row as the first left it and changes nothing.
\<close>

section \<open>A line that is already written\<close>

definition in_step :: "mapped_line \<Rightarrow> item_row \<Rightarrow> bool" where
  "in_step l i \<longleftrightarrow> i_platformLineId i = ml_platformLineId l
     \<and> (ml_commissionKnown l = Some True \<and> i_settledCommissionGross i = None \<longrightarrow>
          i_commissionGross i = ml_commissionGross l)"

definition line_key :: "id \<Rightarrow> id \<Rightarrow> mapped_line \<Rightarrow> db \<Rightarrow> item_row \<Rightarrow> bool" where
  "line_key oid sid l d = line_matches oid l (map_option v_id (variant_by_barcode sid (ml_barcode l) d))"

definition line_written :: "id \<Rightarrow> id \<Rightarrow> mapped_line \<Rightarrow> db \<Rightarrow> bool" where
  "line_written oid sid l d \<longleftrightarrow> (\<exists>i. find (line_key oid sid l d) (db_items d) = Some i \<and> in_step l i)"

lemma line_key_keys: "variant_keys d' = variant_keys d \<Longrightarrow> line_key oid sid l d' = line_key oid sid l d"
  unfolding line_key_def using variant_by_barcode_keys(1) [of d' d sid "ml_barcode l"] by simp

lemma line_written_keys:
  "variant_keys d' = variant_keys d \<Longrightarrow> db_items d' = db_items d \<Longrightarrow> line_written oid sid l d' = line_written oid sid l d"
  unfolding line_written_def using line_key_keys [of d' d oid sid l] by simp

lemma known_commission: "ml_commissionKnown l = Some True \<Longrightarrow> resolveEffectiveCommission D l p d = mapped_commission l"
  by (simp add: resolveEffectiveCommission_def)

lemma written_again:
  assumes w: "line_written oid sid l d" and lid: "ml_platformLineId l \<noteq> None"
  shows "write_line D sid mo opts dec p now oid (d, ps) l = Inr (d, ps)"
proof -
  obtain i where i: "find (line_key oid sid l d) (db_items d) = Some i" "in_step l i"
    using w by (auto simp: line_written_def)
  have "existing_line D l p i d = d"
    using i(2) lid
    by (auto simp: in_step_def existing_line_def stamp_line_id_def refresh_commission_def known_commission
        mapped_commission_def Let_def)
  then show ?thesis using i(1) by (simp add: write_line_def line_key_def Let_def)
qed

lemma all_written_again:
  assumes "\<forall>l \<in> set ls. line_written oid sid l d \<and> ml_platformLineId l \<noteq> None"
  shows "foldR (write_line D sid mo opts dec p now oid) (d, ps) ls = Inr (d, ps)"
  using assms by (induction ls) (simp_all add: written_again)

section \<open>Writing a line\<close>

text \<open>An existing row is matched up with the line, by one update of that row.\<close>

definition align :: "mapped_line \<Rightarrow> item_row \<Rightarrow> item_row \<Rightarrow> item_row" where
  "align l i r =
     (let r1 = (if ml_platformLineId l \<noteq> None \<and> i_platformLineId i = None
                then r \<lparr> i_platformLineId := ml_platformLineId l \<rparr> else r)
      in if ml_commissionKnown l = Some True \<and> i_settledCommissionGross i = None
            \<and> ml_commissionGross l \<noteq> i_commissionGross i
         then set_commission (mapped_commission l) r1 else r1)"

lemma align_sel [simp]:
  "i_id (align l i r) = i_id r" "i_orderId (align l i r) = i_orderId r"
  "i_productVariantId (align l i r) = i_productVariantId r"
  "i_settledCommissionGross (align l i r) = i_settledCommissionGross r"
  "i_platformLineId (align l i r) = (if ml_platformLineId l \<noteq> None \<and> i_platformLineId i = None
      then ml_platformLineId l else i_platformLineId r)"
  by (simp_all add: align_def set_commission_def Let_def)

lemma align_commission: "ml_commissionKnown l = Some True \<Longrightarrow> i_settledCommissionGross i = None \<Longrightarrow>
    i_commissionGross (align l i i) = ml_commissionGross l"
  by (simp add: align_def set_commission_def mapped_commission_def Let_def)

lemma update_where_ident: "update_where P (\<lambda>x. x) xs = xs"
  by (rule update_where_id) simp

lemma existing_align:
  "db_items (existing_line D l p i d) = update_where (\<lambda>j. i_id j = i_id i) (align l i) (db_items d)"
proof -
  define st :: "item_row \<Rightarrow> item_row" where "st = (\<lambda>r. if ml_platformLineId l \<noteq> None \<and> i_platformLineId i = None
      then r \<lparr> i_platformLineId := ml_platformLineId l \<rparr> else r)"
  define cm :: "item_row \<Rightarrow> item_row" where "cm = (\<lambda>r. if ml_commissionKnown l = Some True
      \<and> i_settledCommissionGross i = None \<and> ml_commissionGross l \<noteq> i_commissionGross i
      then set_commission (mapped_commission l) r else r)"
  have "db_items (stamp_line_id l i d) = update_where (\<lambda>j. i_id j = i_id i) st (db_items d)"
  proof (cases "ml_platformLineId l \<noteq> None \<and> i_platformLineId i = None")
    case True
    then have "st = (\<lambda>r. r \<lparr> i_platformLineId := ml_platformLineId l \<rparr>)" unfolding st_def by simp
    then show ?thesis using True by (simp add: stamp_line_id_def update_item_def)
  next
    case False
    then have "st = (\<lambda>r. r)" unfolding st_def by (simp only: if_False)
    then show ?thesis using False by (auto simp: stamp_line_id_def update_where_ident)
  qed
  moreover have "db_items (refresh_commission D l p i e) = update_where (\<lambda>j. i_id j = i_id i) cm (db_items e)" for e
  proof (cases "ml_commissionKnown l = Some True \<and> i_settledCommissionGross i = None
      \<and> ml_commissionGross l \<noteq> i_commissionGross i")
    case True
    then have "cm = set_commission (mapped_commission l)" unfolding cm_def by simp
    then show ?thesis using True
      by (simp add: refresh_commission_def update_item_def known_commission) (simp add: mapped_commission_def update_item_def)
  next
    case False
    then have "cm = (\<lambda>r. r)" unfolding cm_def by (simp only: if_False)
    then show ?thesis using False
      by (auto simp: refresh_commission_def known_commission mapped_commission_def update_where_ident Let_def)
  qed
  moreover have "align l i = (\<lambda>r. cm (st r))" by (rule ext) (simp add: align_def cm_def st_def Let_def)
  moreover have "i_id (st r) = i_id r" for r by (simp add: st_def)
  ultimately show ?thesis unfolding existing_line_def by (simp add: update_where_update_where)
qed

lemma unique_item: "wf_db d \<Longrightarrow> i \<in> set (db_items d) \<Longrightarrow> j \<in> set (db_items d) \<Longrightarrow> i_id i = i_id j \<Longrightarrow> i = j"
  by (auto simp: wf_db_def dest: ids_ok_same)

text \<open>A captured snapshot does not change which row a line finds.\<close>

lemma capture_find:
  assumes c: "captureCostSnapshot D now iid d = Inr d'" and f: "find (line_matches oid l vid) (db_items d) = Some i"
    and s: "in_step l i"
  shows "\<exists>i'. find (line_matches oid l vid) (db_items d') = Some i' \<and> in_step l i'"
proof -
  from capture_shape [OF c] show ?thesis
  proof
    assume "d' = d"
    then show ?thesis using f s by blast
  next
    assume "\<exists>j r g v. find_item iid d = Some j \<and> find_order (i_orderId j) d = Some r
      \<and> o_profitExcludedAt r = None
      \<and> db_items d' = update_where (\<lambda>i. i_id i = iid) (\<lambda>i. i \<lparr> i_unitCostSnapshotGross := Some g,
           i_unitCostSnapshotVatRate := v, i_snapshotCapturedAt := Some now \<rparr>) (db_items d)"
    then obtain g v where "db_items d' = update_where (\<lambda>i. i_id i = iid) (\<lambda>i. i \<lparr> i_unitCostSnapshotGross := Some g,
           i_unitCostSnapshotVatRate := v, i_snapshotCapturedAt := Some now \<rparr>) (db_items d)" by blast
    then have "find (line_matches oid l vid) (db_items d') = map_option
        (\<lambda>i. if i_id i = iid then i \<lparr> i_unitCostSnapshotGross := Some g, i_unitCostSnapshotVatRate := v,
           i_snapshotCapturedAt := Some now \<rparr> else i) (find (line_matches oid l vid) (db_items d))"
      by (simp add: find_update_where_same line_matches_def cong: option.case_cong)
    then show ?thesis using f s by (simp add: in_step_def)
  qed
qed

lemma capture_keys: "captureCostSnapshot D now iid d = Inr d' \<Longrightarrow> variant_keys d' = variant_keys d"
  by (simp add: capture_frame(2))

lemma write_line_keys:
  assumes w: "write_line D sid mo opts dec p now oid s l = Inr s'"
  shows "variant_keys (fst s') = variant_keys (fst s)"
proof -
  obtain d ps d' ps' where s: "s = (d, ps)" "s' = (d', ps')" by (cases s; cases s')
  show ?thesis
  proof (cases "find (line_matches oid l (map_option v_id (variant_by_barcode sid (ml_barcode l) d))) (db_items d)")
    case (Some i)
    then show ?thesis using w s by (auto simp: write_line_def Let_def existing_frame)
  next
    case None
    then obtain v where n: "new_line D mo opts dec p now oid l v (d, ps) = Inr (d', ps')"
      using w s by (auto simp: write_line_def Let_def)
    show ?thesis by (rule new_line_steps [OF n]) (auto simp: s dest: capture_keys split: if_splits)
  qed
qed

text \<open>After a line is written it is in step with its row.\<close>

lemma write_line_written:
  assumes w: "write_line D sid mo opts dec p now oid s l = Inr s'" and wf: "wf_db (fst s)"
    and lid: "ml_platformLineId l \<noteq> None"
  shows "line_written oid sid l (fst s')"
proof -
  obtain d ps d' ps' where s: "s = (d, ps)" "s' = (d', ps')" by (cases s; cases s')
  have key: "line_key oid sid l d' = line_key oid sid l d"
    using line_key_keys [OF write_line_keys [OF w]] s by simp
  obtain b where b: "ml_platformLineId l = Some b" using lid by auto
  show ?thesis
  proof (cases "find (line_key oid sid l d) (db_items d)")
    case (Some i)
    then have d': "d' = existing_line D l p i d" using w s by (auto simp: write_line_def line_key_def Let_def)
    have h: "db_items d' = update_where (\<lambda>j. i_id j = i_id i) (align l i) (db_items d)"
      unfolding d' by (rule existing_align)
    have i: "i \<in> set (db_items d)" "line_key oid sid l d i" using find_Some_in [OF Some] by simp_all
    then have lid': "i_platformLineId (align l i i) = ml_platformLineId l" "line_key oid sid l d (align l i i)"
      using b by (auto simp: line_key_def line_matches_def)
    have one: "j = i" if "j \<in> set (db_items d)" "i_id j = i_id i" for j
      using unique_item wf s i(1) that by auto
    have "find (line_key oid sid l d) (db_items d') = Some (align l i i)"
      unfolding h by (subst find_update_where_set) (use one i lid' Some in auto)
    moreover have "in_step l (align l i i)" using lid'(1) align_commission by (auto simp: in_step_def)
    ultimately show ?thesis unfolding line_written_def s fst_conv key by blast
  next
    case None
    define v where "v = variant_by_barcode sid (ml_barcode l) d"
    have n: "new_line D mo opts dec p now oid l v (d, ps) = Inr (d', ps')"
      using w s None by (auto simp: write_line_def line_key_def v_def Let_def)
    let ?n = "create_item_row (db_nextId d) oid mo l (map_option v_id v) (resolveEffectiveCommission D l p d)"
    obtain d2 where d2: "db_items d2 = db_items d @ [?n]"
      and cap: "if uo_profitExclusion opts = None then captureCostSnapshot D now (db_nextId d) d2 = Inr d' else d' = d2"
      by (rule new_line_steps [OF n])
    have "line_key oid sid l d ?n" using b by (simp add: line_key_def line_matches_def)
    then have f2: "find (line_key oid sid l d) (db_items d2) = Some ?n"
      unfolding d2 using None by (simp add: find_append)
    have st: "in_step l ?n" by (simp add: in_step_def known_commission mapped_commission_def)
    have "\<exists>i. find (line_key oid sid l d) (db_items d') = Some i \<and> in_step l i"
      using cap capture_find [OF _ f2 [unfolded line_key_def] st] f2 st unfolding line_key_def
      by (auto split: if_splits)
    then show ?thesis unfolding line_written_def s fst_conv key .
  qed
qed

text \<open>Another line does not disturb it.\<close>

lemma write_line_keeps_written:
  assumes w: "write_line D sid mo opts dec p now oid s l' = Inr s'" and wf: "wf_db (fst s)"
    and lid: "ml_platformLineId l \<noteq> None" "ml_platformLineId l' \<noteq> None" "ml_platformLineId l' \<noteq> ml_platformLineId l"
    and lw: "line_written oid sid l (fst s)"
  shows "line_written oid sid l (fst s')"
proof -
  obtain d ps d' ps' where s: "s = (d, ps)" "s' = (d', ps')" by (cases s; cases s')
  have key: "line_key oid sid l d' = line_key oid sid l d"
    using line_key_keys [OF write_line_keys [OF w]] s by simp
  obtain i where i: "find (line_key oid sid l d) (db_items d) = Some i" "in_step l i"
    using lw s by (auto simp: line_written_def)
  have ii: "i \<in> set (db_items d)" using find_Some_in [OF i(1)] by simp
  have "\<exists>i. find (line_key oid sid l d) (db_items d') = Some i \<and> in_step l i"
  proof (cases "find (line_key oid sid l' d) (db_items d)")
    case (Some j)
    then have d': "d' = existing_line D l' p j d" using w s by (auto simp: write_line_def line_key_def Let_def)
    have h: "db_items d' = update_where (\<lambda>k. i_id k = i_id j) (align l' j) (db_items d)"
      unfolding d' by (rule existing_align)
    have j: "j \<in> set (db_items d)" "line_key oid sid l' d j" using find_Some_in [OF Some] by simp_all
    have lj: "i_platformLineId j = None \<or> i_platformLineId j = ml_platformLineId l'"
      using j(2) lid(2) by (auto simp: line_key_def line_matches_def)
    then have hj: "i_platformLineId (align l' j j) = ml_platformLineId l'" using lid(2) by auto
    have "i_platformLineId i = ml_platformLineId l" using i(2) by (simp add: in_step_def)
    then have "i \<noteq> j" using lj lid by auto
    then have ne: "i_id i \<noteq> i_id j" using unique_item [of d i j] wf s ii j(1) by auto
    have one: "k = j" if "k \<in> set (db_items d)" "i_id k = i_id j" for k
      using unique_item wf s j(1) that by auto
    have "\<not> line_key oid sid l d (align l' j j)"
      using hj lid by (auto simp: line_key_def line_matches_def)
    then have "find (line_key oid sid l d) (db_items d') = Some i"
      unfolding h using i(1) ne one by (intro find_update_where_keep) auto
    then show ?thesis using i(2) by blast
  next
    case None
    define v where "v = variant_by_barcode sid (ml_barcode l') d"
    have n: "new_line D mo opts dec p now oid l' v (d, ps) = Inr (d', ps')"
      using w s None by (auto simp: write_line_def line_key_def v_def Let_def)
    obtain d2 x where d2: "db_items d2 = db_items d @ [x]"
      and cap: "if uo_profitExclusion opts = None then captureCostSnapshot D now (db_nextId d) d2 = Inr d' else d' = d2"
      using new_line_steps [OF n] by metis
    have f2: "find (line_key oid sid l d) (db_items d2) = Some i"
      unfolding d2 using i(1) by (simp add: find_append)
    show ?thesis
      using cap capture_find [OF _ f2 [unfolded line_key_def] i(2)] f2 i(2) unfolding line_key_def
      by (auto split: if_splits)
  qed
  then show ?thesis unfolding line_written_def s fst_conv key .
qed

lemma lines_written:
  assumes "foldR (write_line D sid mo opts dec p now oid) s ls = Inr s'" and "wf_db (fst s)"
    and "\<forall>l \<in> set ls. ml_platformLineId l \<noteq> None" and "distinct (map ml_platformLineId ls)"
  shows "\<forall>l \<in> set ls. line_written oid sid l (fst s')"
  using assms
proof (induction ls arbitrary: s' rule: rev_induct)
  case Nil
  then show ?case by simp
next
  case (snoc l ls)
  obtain t where t: "foldR (write_line D sid mo opts dec p now oid) s ls = Inr t"
    and w: "write_line D sid mo opts dec p now oid t l = Inr s'"
    using snoc.prems(1) by (auto simp: foldR_append bindR_eq_Inr)
  have IH: "\<forall>l \<in> set ls. line_written oid sid l (fst t)"
    by (rule snoc.IH [OF t snoc.prems(2)]) (use snoc.prems(3,4) in auto)
  have wft: "wf_db (fst t)" by (rule lines_wf(1) [OF t snoc.prems(2)])
  have "line_written oid sid k (fst s')" if k: "k \<in> set ls" for k
    by (rule write_line_keeps_written [OF w wft]) (use snoc.prems(3,4) IH k in \<open>auto simp: image_iff\<close>)
  then show ?case using write_line_written [OF w wft] snoc.prems(3) by auto
qed

section \<open>The order row\<close>

lemma update_order_row_twice [simp]: "update_order_row mo (update_order_row mo r) = update_order_row mo r"
proof -
  have k: "keep_or a (keep_or a b) = keep_or a b" for a b :: "'x option" by (cases a) simp_all
  show ?thesis by (cases "mo_usesSellerCargoAgreement mo") (simp_all add: update_order_row_def k)
qed

lemma update_order_row_create [simp]:
  "update_order_row mo (create_order_row D oid sid org mo t opts now) = create_order_row D oid sid org mo t opts now"
proof -
  have k: "keep_or a a = a" for a :: "'x option" by (cases a) simp_all
  show ?thesis by (cases "mo_usesSellerCargoAgreement mo") (simp_all add: update_order_row_def create_order_row_def k)
qed

text \<open>The update writes none of the columns of the estimate.\<close>

lemma update_order_row_strip:
  assumes "strip r' = strip q" and "update_order_row mo q = q"
  shows "update_order_row mo r' = r'"
proof -
  have a: "f r' = f q" if "\<And>r. f (strip r) = f r" for f :: "order_row \<Rightarrow> 'x"
    using arg_cong [OF assms(1), of f] that by simp
  have b: "f (update_order_row mo q) = f q" for f :: "order_row \<Rightarrow> 'x" using assms(2) by simp
  have cols: "o_status r' = mo_status mo"
    "o_actualDeliveryDate r' = keep_or (mo_actualDeliveryDate mo) (o_actualDeliveryDate r')"
    "o_deliveredOnTime r' = (if mo_actualDeliveryDate mo \<noteq> None then mo_deliveredOnTime mo else o_deliveredOnTime r')"
    "o_actualShipDate r' = keep_or (mo_actualShipDate mo) (o_actualShipDate r')"
    "o_cargoProviderName r' = keep_or (mo_cargoProviderName mo) (o_cargoProviderName r')"
    "o_cargoTrackingNumber r' = keep_or (mo_cargoTrackingNumber mo) (o_cargoTrackingNumber r')"
    "o_cargoDeci r' = keep_or (mo_cargoDeci mo) (o_cargoDeci r')"
    "o_usesSellerCargoAgreement r' = (case mo_usesSellerCargoAgreement mo of None \<Rightarrow> o_usesSellerCargoAgreement r' | Some b \<Rightarrow> b)"
    "o_platformCreatedBy r' = keep_or (mo_platformCreatedBy mo) (o_platformCreatedBy r')"
    "o_originShipmentDate r' = keep_or (mo_originShipmentDate mo) (o_originShipmentDate r')"
    "o_platformLastModifiedAt r' = keep_or (incoming_lmd mo) (o_platformLastModifiedAt r')"
    using b [of o_status] b [of o_actualDeliveryDate] b [of o_deliveredOnTime] b [of o_actualShipDate]
      b [of o_cargoProviderName] b [of o_cargoTrackingNumber] b [of o_cargoDeci] b [of o_usesSellerCargoAgreement]
      b [of o_platformCreatedBy] b [of o_originShipmentDate] b [of o_platformLastModifiedAt]
      a [of o_status] a [of o_actualDeliveryDate] a [of o_deliveredOnTime] a [of o_actualShipDate]
      a [of o_cargoProviderName] a [of o_cargoTrackingNumber] a [of o_cargoDeci] a [of o_usesSellerCargoAgreement]
      a [of o_platformCreatedBy] a [of o_originShipmentDate] a [of o_platformLastModifiedAt]
    by (simp_all add: strip_def update_order_row_def, simp_all split: if_splits option.splits)
  show ?thesis
    by (rule order_row.equality) (simp_all add: update_order_row_def cols [symmetric], use cols(3) in auto)
qed

lemma upsert_order_again:
  assumes u: "upsert_order D sid org mo opts now d = Inr (oid, d1)" and wf: "wf_db d'"
    and st: "map strip (db_orders d') = map strip (db_orders d1)"
  shows "upsert_order D sid org mo opts now' d' = Inr (oid, d')" and "\<not> stale_event sid mo d'"
proof -
  let ?pid = "mo_platformOrderId mo"
  obtain q where q: "order_by_key sid ?pid d1 = Some q" "o_id q = oid" "update_order_row mo q = q"
  proof (cases "order_by_key sid ?pid d")
    case (Some r)
    have "order_by_key sid ?pid d1 = Some (update_order_row mo r)"
      using u Some find_update_order_key [OF Some] by (auto simp: upsert_order_def)
    then show thesis by (rule that) (use u Some in \<open>auto simp: upsert_order_def\<close>)
  next
    case None
    then obtain t where t: "oid = db_nextId d"
      "d1 = d \<lparr> db_orders := db_orders d @ [create_order_row D (db_nextId d) sid org mo t opts now],
               db_nextId := Suc (db_nextId d) \<rparr>"
      using u by (auto simp: upsert_order_def split: option.splits)
    have "order_by_key sid ?pid d1 = Some (create_order_row D (db_nextId d) sid org mo t opts now)"
      using None unfolding t(2) by (simp add: order_by_key_def find_append order_key_is)
    then show thesis by (rule that) (use t(1) in simp_all)
  qed
  obtain r' where r': "order_by_key sid ?pid d' = Some r'" "strip r' = strip q"
    using order_by_key_strip [OF st, of sid ?pid] q(1) by auto
  have fix': "update_order_row mo r' = r'" by (rule update_order_row_strip [OF r'(2) q(3)])
  have oid: "o_id r' = oid" using strip_sel(1) [OF r'(2)] q(2) by simp
  have mem: "r' \<in> set (db_orders d')" using order_by_key_Some [OF r'(1)] by simp
  have "x = r'" if "x \<in> set (db_orders d')" "o_id x = o_id r'" for x
    using wf mem that by (auto simp: wf_db_def dest: ids_ok_same)
  then have "update_where (\<lambda>x. o_id x = o_id r') (update_order_row mo) (db_orders d') = db_orders d'"
    using fix' by (intro update_where_id) auto
  then have "update_order (o_id r') (update_order_row mo) d' = d'" by (simp add: update_order_def)
  then show "upsert_order D sid org mo opts now' d' = Inr (oid, d')"
    using r'(1) oid by (simp add: upsert_order_def)
  have "keep_or (incoming_lmd mo) (o_platformLastModifiedAt r') = o_platformLastModifiedAt r'"
    using arg_cong [OF fix', of o_platformLastModifiedAt] by (simp add: update_order_row_def)
  then show "\<not> stale_event sid mo d'"
    using r'(1) by (cases "incoming_lmd mo") (auto simp: stale_event_def split: option.splits)
qed

section \<open>The whole event\<close>

lemma redelivery:
  assumes u: "upsertOrderWithSnapshot D off now sid org mo opts d = Inr d'" and wf: "wf_db d"
    and lid: "\<forall>l \<in> set (mo_lines mo). ml_platformLineId l \<noteq> None" "distinct (map ml_platformLineId (mo_lines mo))"
  shows "upsertOrderWithSnapshot D off now' sid org mo opts d' = Inr d'"
  using u
proof (cases rule: upsertE)
  case stale
  then show ?thesis by (simp add: upsertOrderWithSnapshot_def)
next
  case (written oid d1 d2 ps)
  let ?d3 = "recomputeProductsTotalStock ps d2"
  have wf1: "wf_db d1" by (rule upsert_order_wf(1) [OF written(2) wf])
  have wf3: "wf_db ?d3" using lines_wf(1) [OF written(3)] wf1 by (simp add: recompute_wf)
  have wf': "wf_db d'" by (rule upsert_wf [OF u wf])
  have same: "map strip (db_orders d') = map strip (db_orders ?d3) \<and> ref_eq ?d3 d'"
    using written(4) apply_strip(1,2) by auto
  then have st: "map strip (db_orders d') = map strip (db_orders d1)"
    using line_frame_sel(1) [OF lines_frame(1) [OF written(3)]] by simp
  have "\<forall>l \<in> set (mo_lines mo). line_written oid sid l d2"
    using lines_written [OF written(3) _ lid] wf1 by simp
  moreover have "variant_keys d' = variant_keys d2" "db_items d' = db_items d2"
    using same ref_eq_sel(6,8) [of ?d3 d'] by simp_all
  ultimately have w: "\<forall>l \<in> set (mo_lines mo). line_written oid sid l d' \<and> ml_platformLineId l \<noteq> None"
    using lid(1) line_written_keys by blast
  have est: "uo_profitExclusion opts = None \<Longrightarrow> applyEstimateOnOrderCreate D off oid d' = Inr d'"
    using written(4) apply_twice [of D off oid ?d3 d'] wf3 by (auto simp: wf_db_def)
  show ?thesis
    using upsert_order_again [OF written(2) wf' st] all_written_again [OF w] est
    by (simp add: upsertOrderWithSnapshot_def recomputeProductsTotalStock_def)
qed

section \<open>Properties\<close>

text \<open>C33: Delivering the same event again, at any later time, changes nothing: neither a row of the order,
  its items, fees, cost components or stock, nor the id counter. The lines carry distinct line ids
  of the platform.\<close>
theorem redelivery_idempotent:
  assumes "upsertOrderWithSnapshot D off now sid org mo opts d = Inr d'" and "wf_db d"
    and "\<forall>l \<in> set (mo_lines mo). ml_platformLineId l \<noteq> None" and "distinct (map ml_platformLineId (mo_lines mo))"
  shows "upsertOrderWithSnapshot D off now' sid org mo opts d' = Inr d'"
  by (rule redelivery [OF assms])

lemma redelivery_idempotent_witness:
  "upsertOrderWithSnapshot dec20 (\<lambda>_. 0) 5 1 1 (example_mapped 10 OS_PENDING)
     \<lparr> uo_profitExclusion = Some LATE_UNCOSTED_ARRIVAL, uo_promotedFromBuffer = False \<rparr> excluded_db = Inr excluded_db"
proof (rule redelivery_idempotent)
  show "upsertOrderWithSnapshot dec20 (\<lambda>_. 0) (3 * day_ms) 1 1 (example_mapped 10 OS_PENDING)
     \<lparr> uo_profitExclusion = Some LATE_UNCOSTED_ARRIVAL, uo_promotedFromBuffer = False \<rparr> one_store_db = Inr excluded_db"
    using excluded_start by (simp add: deliver_def example_delivery_def)
qed (simp_all add: one_store_wf example_mapped_def example_line_def)

end
