(* ===== verification/Order_Intake_Props.thy ===== *)
theory Order_Intake_Props
  imports Order_Intake Order_Redelivery
begin

text \<open>
  What the intake does with an order: it ends in \<open>orders\<close>, in the live performance buffer or, for a
  split ghost, in neither; the tables stay well formed; and a sale lowers the stock by its lines,
  whichever way it goes.
\<close>

section \<open>Well-formed buffers\<close>

definition buffer_id :: "buffer_row \<Rightarrow> id \<times> string" where
  "buffer_id b = (b_storeId b, b_platformOrderId b)"

definition wf_buffer :: "db \<Rightarrow> bool" where
  "wf_buffer d \<longleftrightarrow> ids_ok b_id (db_buffer d) (db_nextId d) \<and> distinct (map buffer_id (db_buffer d))"

definition items_fk :: "db \<Rightarrow> bool" where
  "items_fk d \<longleftrightarrow> (\<forall>i \<in> set (db_items d). i_orderId i \<in> set (map o_id (db_orders d)))"

definition wf_tables :: "db \<Rightarrow> bool" where
  "wf_tables d \<longleftrightarrow> wf_db d \<and> items_fk d \<and> wf_buffer d"

lemma buffer_key_id: "buffer_key sid pid b \<longleftrightarrow> buffer_id b = (sid, pid)"
  by (auto simp: buffer_key_def buffer_id_def)

lemma wf_buffer_mono: "wf_buffer d \<Longrightarrow> db_buffer d' = db_buffer d \<Longrightarrow> db_nextId d \<le> db_nextId d' \<Longrightarrow> wf_buffer d'"
  by (auto simp: wf_buffer_def intro: ids_ok_mono)

lemma wf_buffer_delete: "wf_buffer d \<Longrightarrow> wf_buffer (delete_buffer P d)"
  by (auto simp: wf_buffer_def delete_buffer_def ids_ok_delete) (simp add: delete_where_def distinct_map_filter)

lemma wf_db_buffer [simp]: "wf_db (d \<lparr> db_buffer := x \<rparr>) = wf_db d" "items_fk (d \<lparr> db_buffer := x \<rparr>) = items_fk d"
  by (simp_all add: wf_db_def wf_fees_def one_estimate_def items_fk_def)

lemma wf_stock:
  assumes "same_but_stock d d'"
  shows "wf_db d' = wf_db d" and "items_fk d' = items_fk d" and "wf_buffer d' = wf_buffer d"
  by (simp_all add: wf_db_def wf_fees_def one_estimate_def items_fk_def wf_buffer_def same_but_stock_sel [OF assms])

lemma wf_next:
  assumes "wf_db d"
  shows "wf_db (d \<lparr> db_buffer := x, db_nextId := Suc (db_nextId d) \<rparr>)"
    "items_fk (d \<lparr> db_buffer := x, db_nextId := n \<rparr>) = items_fk d"
  using assms by (auto simp: wf_db_def wf_fees_def one_estimate_def items_fk_def less_Suc_eq intro: ids_ok_mono)

section \<open>The upsert\<close>

lemma write_line_orderIds:
  assumes w: "write_line D sid mo opts dec p now oid s l = Inr s'"
  shows "i_orderId ` set (db_items (fst s')) \<subseteq> insert oid (i_orderId ` set (db_items (fst s)))"
proof -
  obtain d ps d' ps' where s: "s = (d, ps)" "s' = (d', ps')" by (cases s; cases s')
  show ?thesis
  proof (cases "find (line_matches oid l (map_option v_id (variant_by_barcode sid (ml_barcode l) d))) (db_items d)")
    case (Some i)
    then have "d' = existing_line D l p i d" using w s by (auto simp: write_line_def Let_def)
    then show ?thesis using s by (auto simp: existing_align set_update_where image_iff)
  next
    case None
    then obtain v where n: "new_line D mo opts dec p now oid l v (d, ps) = Inr (d', ps')"
      using w s by (auto simp: write_line_def Let_def)
    obtain d2 where d2: "db_items d2 = db_items d @ [create_item_row (db_nextId d) oid mo l (map_option v_id v)
             (resolveEffectiveCommission D l p d)]"
      and cap: "if uo_profitExclusion opts = None then captureCostSnapshot D now (db_nextId d) d2 = Inr d' else d' = d2"
      by (rule new_line_steps [OF n])
    have "i_orderId ` set (db_items d') = i_orderId ` set (db_items d2)"
    proof (cases "d' = d2")
      case False
      then have c: "captureCostSnapshot D now (db_nextId d) d2 = Inr d'" using cap by (auto split: if_splits)
      then have "map i_orderId (db_items d') = map i_orderId (db_items d2)"
        using capture_shape [OF c] by (auto simp: map_update_where)
      then show ?thesis by (metis list.set_map)
    qed simp
    then show ?thesis using s d2 by auto
  qed
qed

lemma lines_orderIds:
  assumes f: "foldR (write_line D sid mo opts dec p now oid) s ls = Inr s'"
  shows "i_orderId ` set (db_items (fst s')) \<subseteq> insert oid (i_orderId ` set (db_items (fst s)))"
proof -
  let ?I = "\<lambda>t. i_orderId ` set (db_items (fst t)) \<subseteq> insert oid (i_orderId ` set (db_items (fst s)))"
  show "?I s'"
  proof (rule foldR_invariant [OF f, where I = ?I])
    show "?I s" by blast
    fix t l t' assume I: "?I t" and w: "write_line D sid mo opts dec p now oid t l = Inr t'"
    from I write_line_orderIds [OF w] show "?I t'" by blast
  qed
qed

lemma upsert_order_ids:
  assumes "upsert_order D sid org mo opts now d = Inr (oid, d')"
  shows "insert oid (o_id ` set (db_orders d)) = o_id ` set (db_orders d')"
proof (cases "order_by_key sid (mo_platformOrderId mo) d")
  case (Some r)
  then have d': "oid = o_id r" "d' = update_order oid (update_order_row mo) d"
    using assms by (auto simp: upsert_order_def)
  have "map o_id (db_orders d') = map o_id (db_orders d)"
    unfolding d'(2) update_order_def by (simp add: map_update_where)
  then have "o_id ` set (db_orders d') = o_id ` set (db_orders d)" by (metis list.set_map)
  then show ?thesis using order_by_key_Some [OF Some] d'(1) by auto
next
  case None
  then show ?thesis using assms by (auto simp: upsert_order_def split: option.splits)
qed

lemma upsert_fk:
  assumes u: "upsertOrderWithSnapshot D off now sid org mo opts d = Inr d'" and fk: "items_fk d"
  shows "items_fk d'"
  using u
proof (cases rule: upsertE)
  case (written oid d1 d2 ps)
  let ?d3 = "recomputeProductsTotalStock ps d2"
  have same: "map strip (db_orders d') = map strip (db_orders ?d3) \<and> ref_eq ?d3 d'"
    using written(4) apply_strip(1,2) by auto
  then have ids: "o_id ` set (db_orders d') = o_id ` set (db_orders d1)"
    using strip_maps(2) [of "db_orders d'" "db_orders ?d3"] line_frame_sel(1) [OF lines_frame(1) [OF written(3)]]
    by (metis fst_conv list.set_map recompute_sel(1))
  have items: "db_items d' = db_items d2" using same ref_eq_sel(8) [of ?d3 d'] by simp
  have "db_items d1 = db_items d"
    using written(2) by (auto simp: upsert_order_def update_order_def split: option.splits)
  then have "i_orderId ` set (db_items d') \<subseteq> insert oid (i_orderId ` set (db_items d))"
    using lines_orderIds [OF written(3)] items by simp
  moreover have "i_orderId ` set (db_items d) \<subseteq> o_id ` set (db_orders d)" using fk by (auto simp: items_fk_def)
  then have "insert oid (i_orderId ` set (db_items d)) \<subseteq> insert oid (o_id ` set (db_orders d))" by (rule insert_mono)
  ultimately have "i_orderId ` set (db_items d') \<subseteq> insert oid (o_id ` set (db_orders d))" by (rule order_trans)
  then have "i_orderId ` set (db_items d') \<subseteq> o_id ` set (db_orders d')"
    unfolding upsert_order_ids [OF written(2)] ids .
  then show ?thesis unfolding items_fk_def set_map image_subset_iff .
qed (use fk in simp)

lemma upsert_buffer:
  assumes u: "upsertOrderWithSnapshot D off now sid org mo opts d = Inr d'"
  shows "db_buffer d' = db_buffer d"
proof (cases "stale_event sid mo d")
  case True
  then show ?thesis using u by (simp add: upsertOrderWithSnapshot_def)
next
  case False
  show ?thesis by (rule upsert_strip [OF u False])
qed

lemma upsert_tables:
  assumes u: "upsertOrderWithSnapshot D off now sid org mo opts d = Inr d'" and wf: "wf_tables d"
  shows "wf_tables d'"
  using wf upsert_wf [OF u] upsert_fk [OF u] upsert_frozen(3) [OF u] upsert_buffer [OF u]
  by (auto simp: wf_tables_def intro: wf_buffer_mono)

text \<open>A successful upsert leaves a row under its key.\<close>

lemma upsert_present:
  assumes u: "upsertOrderWithSnapshot D off now sid org mo opts d = Inr d'" and wf: "wf_db d"
  shows "order_by_key sid (mo_platformOrderId mo) d' \<noteq> None"
proof (cases "stale_event sid mo d")
  case True
  then have "d' = d" using u by (simp add: upsertOrderWithSnapshot_def)
  then show ?thesis using True by (auto simp: stale_event_def split: option.splits bind_splits)
next
  case False
  then show ?thesis using upsert_row(1) [OF u False wf] by auto
qed

lemma upsert_keeps_keys:
  assumes u: "upsertOrderWithSnapshot D off now sid org mo opts d = Inr d'" and wf: "wf_db d"
    and k: "order_by_key sid' pid' d \<noteq> None"
  shows "order_by_key sid' pid' d' \<noteq> None"
proof (cases "(sid', pid') = (sid, mo_platformOrderId mo)")
  case True
  then show ?thesis using upsert_present [OF u wf] by simp
next
  case False
  show ?thesis
  proof (cases "stale_event sid mo d")
    case True
    then show ?thesis using u k by (simp add: upsertOrderWithSnapshot_def)
  next
    case fresh: False
    then show ?thesis using upsert_row(2) [OF u fresh wf False] k
      by (cases "order_by_key sid' pid' d'") auto
  qed
qed

section \<open>Removing a ghost\<close>

lemma foldl_inv: "I s \<Longrightarrow> (\<And>s x. I s \<Longrightarrow> x \<in> set xs \<Longrightarrow> I (f s x)) \<Longrightarrow> I (foldl f s xs)"
  by (induction xs arbitrary: s) auto

lemma move_line_stock:
  assumes "\<And>vid n d. same_but_stock d (move vid n d)"
  shows "same_but_stock (fst s) (fst (move_line move sid s l))"
  using assms by (auto simp: move_line_def split: option.split)

lemma move_lines_stock:
  assumes "\<And>vid n d. same_but_stock d (move vid n d)"
  shows "same_but_stock (fst s) (fst (foldl (move_line move sid) s ls))"
proof (rule foldl_inv [where I = "\<lambda>t. same_but_stock (fst s) (fst t)"])
  fix t :: "db \<times> id list" and l assume "same_but_stock (fst s) (fst t)"
  then show "same_but_stock (fst s) (fst (move_line move sid t l))"
    using move_line_stock [OF assms] by (rule same_but_stock_trans)
qed simp

lemma reverse_stock_frame: "same_but_stock d (fst (reverse_stock off now sid org pid d))"
proof -
  have a: "same_but_stock (fst s) (fst (restock_item s i))" for s i
    by (auto simp: restock_item_def increment_stock split: option.split)
  have b: "same_but_stock (fst s) (fst (restock_buffer_row off now sid s b))" for s b
    by (simp add: restock_buffer_row_def move_lines_stock increment_stock)
  have "same_but_stock (fst s) (fst (foldl restock_item s is))" for s "is"
  proof (rule foldl_inv [where I = "\<lambda>t. same_but_stock (fst s) (fst t)"])
    fix t :: "db \<times> id list" and i assume "same_but_stock (fst s) (fst t)"
    then show "same_but_stock (fst s) (fst (restock_item t i))" using a by (rule same_but_stock_trans)
  qed simp
  moreover have "same_but_stock (fst s) (fst (foldl (restock_buffer_row off now sid) s bs))" for s bs
  proof (rule foldl_inv [where I = "\<lambda>t. same_but_stock (fst s) (fst t)"])
    fix t :: "db \<times> id list" and i assume "same_but_stock (fst s) (fst t)"
    then show "same_but_stock (fst s) (fst (restock_buffer_row off now sid t i))" using b by (rule same_but_stock_trans)
  qed simp
  ultimately show ?thesis unfolding reverse_stock_def
    by (auto split: option.split)
qed

lemma delete_where_map_distinct: "distinct (map k xs) \<Longrightarrow> distinct (map k (delete_where P xs))"
  by (simp add: delete_where_def distinct_map_filter)

lemma delete_orders_wf:
  assumes "wf_db d"
  shows "wf_db (delete_orders P d)"
proof -
  let ?d = "delete_orders P d"
  have "wf_fees ?d"
    using assms by (auto simp: wf_db_def wf_fees_def delete_orders_def Let_def delete_where_map_distinct)
  moreover have "filter is_estimate (db_fees ?d) =
      delete_where (\<lambda>f. f_orderId f \<in> set (map o_id (filter P (db_orders d)))) (filter is_estimate (db_fees d))"
    unfolding delete_orders_def delete_where_def Let_def by (simp add: conj_commute)
  then have "one_estimate ?d"
    using assms by (simp add: wf_db_def one_estimate_def delete_where_map_distinct del: set_map)
  ultimately show ?thesis
    using assms by (auto simp: wf_db_def delete_orders_def Let_def delete_where_map_distinct intro: ids_ok_delete)
qed

lemma delete_orders_fk:
  assumes "items_fk d"
  shows "items_fk (delete_orders P d)"
  unfolding items_fk_def
proof
  fix i assume i: "i \<in> set (db_items (delete_orders P d))"
  then have m: "i \<in> set (db_items d)" "i_orderId i \<notin> o_id ` set (filter P (db_orders d))"
    by (auto simp: delete_orders_def Let_def)
  then obtain r where "r \<in> set (db_orders d)" "o_id r = i_orderId i" using assms by (auto simp: items_fk_def)
  moreover have "\<not> P r" using m(2) calculation by force
  ultimately show "i_orderId i \<in> set (map o_id (db_orders (delete_orders P d)))"
    by (force simp: delete_orders_def Let_def)
qed

lemma delete_orders_sel [simp]:
  "db_orders (delete_orders P d) = delete_where P (db_orders d)" "db_buffer (delete_orders P d) = db_buffer d"
  "db_nextId (delete_orders P d) = db_nextId d" "db_variants (delete_orders P d) = db_variants d"
  by (simp_all add: delete_orders_def Let_def)

lemma delete_buffer_sel [simp]:
  "db_orders (delete_buffer P d) = db_orders d" "db_buffer (delete_buffer P d) = delete_where P (db_buffer d)"
  "db_variants (delete_buffer P d) = db_variants d" "db_nextId (delete_buffer P d) = db_nextId d"
  "db_items (delete_buffer P d) = db_items d" "db_fees (delete_buffer P d) = db_fees d"
  by (simp_all add: delete_buffer_def)

lemma dematerializeE:
  assumes "dematerialize off now sid org mo d = (out, d')"
  obtains d2 where "same_but_stock d d2"
    "out = Dematerialized (list_ex (is_ghost org sid (mo_platformOrderId mo)) (db_orders d))
       (length (filter (is_buffered org sid (mo_platformOrderId mo)) (db_buffer d)))"
    "d' = delete_buffer (is_buffered org sid (mo_platformOrderId mo))
            (delete_orders (is_ghost org sid (mo_platformOrderId mo)) d2)"
proof -
  obtain d1 ps where r: "reverse_stock off now sid org (mo_platformOrderId mo) d = (d1, ps)"
    by (cases "reverse_stock off now sid org (mo_platformOrderId mo) d")
  let ?d2 = "recomputeProductsTotalStock ps d1"
  have s: "same_but_stock d ?d2"
    using reverse_stock_frame [of d off now sid org "mo_platformOrderId mo"] recompute_stock [of d1 ps] r
      same_but_stock_trans by (metis fst_conv)
  show thesis
    by (rule that [OF s]) (use assms r same_but_stock_sel(1,4) [OF s] in \<open>auto simp: dematerialize_def Let_def\<close>)
qed

section \<open>The buffer\<close>

lemma refreshE:
  assumes "refreshBufferSnapshot sid mo d = (out, d')"
    and "list_ex (buffer_key sid (mo_platformOrderId mo)) (db_buffer d)" and wf: "wf_buffer d"
  obtains b where "b \<in> set (db_buffer d)" "buffer_key sid (mo_platformOrderId mo) b"
    "out = BufferedDeduped False \<and> d' = d
     \<or> out = BufferedDeduped True \<and> b_status b = BS_PENDING \<and> should_refresh mo b
       \<and> d' = d \<lparr> db_buffer := update_where (\<lambda>x. x = b) (\<lambda>x. x \<lparr> b_mappedOrder := mo \<rparr>) (db_buffer d) \<rparr>"
proof -
  obtain b where f: "find (buffer_key sid (mo_platformOrderId mo)) (db_buffer d) = Some b"
    using assms(2) by (cases "find (buffer_key sid (mo_platformOrderId mo)) (db_buffer d)")
      (auto simp: find_None_all list_ex_iff)
  have b: "b \<in> set (db_buffer d)" "buffer_key sid (mo_platformOrderId mo) b" using find_Some_in [OF f] by auto
  have one: "x \<in> set (db_buffer d) \<Longrightarrow> b_id x = b_id b \<longleftrightarrow> x = b" for x
    using wf b(1) by (auto simp: wf_buffer_def dest: ids_ok_same)
  have "update_where (\<lambda>x. b_id x = b_id b \<and> b_status x = BS_PENDING) g (db_buffer d) =
      update_where (\<lambda>x. x = b) g (db_buffer d)" if "b_status b = BS_PENDING" for g
    unfolding update_where_def using one that by (intro map_cong) auto
  then show thesis
    using assms(1) f by (intro that [OF b]) (auto simp: refreshBufferSnapshot_def split: if_splits)
qed

lemma buffer_key_unique:
  assumes "wf_buffer d" and "b \<in> set (db_buffer d)" and "buffer_key sid pid b"
  shows "filter (buffer_key sid pid) (db_buffer d) = [b]"
proof -
  have "distinct (map buffer_id xs) \<Longrightarrow> b \<in> set xs \<Longrightarrow> filter (buffer_key sid pid) xs = [b]" for xs
  proof (induction xs)
    case (Cons x xs)
    show ?case
    proof (cases "x = b")
      case True
      then have "\<not> buffer_key sid pid y" if "y \<in> set xs" for y
        using Cons.prems(1) that assms(3) by (force simp: buffer_key_id)
      then show ?thesis using True assms(3) by (simp add: filter_empty_conv)
    next
      case False
      then have "b \<in> set xs" using Cons.prems(2) by simp
      then show ?thesis using Cons assms(3) by (force simp: buffer_key_id)
    qed
  qed simp
  then show ?thesis using assms(1,2) by (simp add: wf_buffer_def)
qed

lemma decrementBuffered_stock: "same_but_stock d (decrementBufferedOrderStock sid ls d)"
proof -
  obtain d1 ps where f: "foldl (move_line decrementVariantStock sid) (d, []) (map (\<lambda>l. (ml_barcode l, ml_quantity l)) ls) = (d1, ps)"
    by (cases "foldl (move_line decrementVariantStock sid) (d, []) (map (\<lambda>l. (ml_barcode l, ml_quantity l)) ls)")
  have "same_but_stock d d1"
    using move_lines_stock [of decrementVariantStock "(d, [])" sid, OF decrement_stock] f by (metis fst_conv)
  then show ?thesis unfolding decrementBufferedOrderStock_def f Let_def prod.case
    by (rule same_but_stock_trans) (rule recompute_stock)
qed

text \<open>A new buffer row, and the stock lowered in the same transaction.\<close>

lemma buffer_orderE:
  assumes "buffer_order off now sid org mo t d = (out, d')"
  obtains (old) "list_ex (buffer_key sid (mo_platformOrderId mo)) (db_buffer d)" "refreshBufferSnapshot sid mo d = (out, d')"
  | (fresh) d1 where "\<not> list_ex (buffer_key sid (mo_platformOrderId mo)) (db_buffer d)" "out = Buffered"
      "d1 = d \<lparr> db_buffer := db_buffer d @ [new_buffer_row (db_nextId d) sid org (getBusinessDate off t) mo],
               db_nextId := Suc (db_nextId d) \<rparr>"
      "d' = (if isOrderOnBusinessToday off now (mo_orderDate mo) \<and> mo_status mo \<noteq> OS_CANCELLED
             then decrementBufferedOrderStock sid (mo_lines mo) d1 else d1)"
proof (cases "list_ex (buffer_key sid (mo_platformOrderId mo)) (db_buffer d)")
  case True
  then show thesis using assms by (intro old) (simp_all add: buffer_order_def)
next
  case False
  show thesis by (rule fresh [OF False _ refl]) (use assms False in \<open>auto simp: buffer_order_def Let_def\<close>)
qed

section \<open>Routing\<close>

lemma persistE:
  assumes "persist D off now sid org mo excl why d = (res, d')"
  obtains (failed) e where "res = Inl e" "d' = d"
  | (written) "res = Inr (Persisted why)"
      "upsertOrderWithSnapshot D off now sid org mo (no_opts \<lparr> uo_profitExclusion := excl \<rparr>) d = Inr d'"
proof (cases "upsertOrderWithSnapshot D off now sid org mo (no_opts \<lparr> uo_profitExclusion := excl \<rparr>) d")
  case (Inl e)
  show thesis by (rule failed) (use assms Inl in \<open>auto simp: persist_def\<close>)
next
  case (Inr x)
  show thesis by (rule written) (use assms Inr in \<open>auto simp: persist_def\<close>)
qed

definition calculable_now :: "id \<Rightarrow> mapped_order \<Rightarrow> db \<Rightarrow> bool" where
  "calculable_now sid mo d \<longleftrightarrow>
     resolveOrderCalculability (buildCalcCheckLines d sid (map ml_barcode (mo_lines mo))) = Calculable"

lemma intakeE:
  assumes i: "intakeOrder D off now sid org mo d = (res, d')"
  obtains (ghost) out where "mo_dematerialized mo" "res = Inr out" "dematerialize off now sid org mo d = (out, d')"
  | (cancelled) "mo_status mo = OS_CANCELLED" "persist D off now sid org mo None R_cancelled_audit
        (delete_buffer (is_buffered org sid (mo_platformOrderId mo)) d) = (res, d')"
  | (bad_date) "res = Inl InvalidDate" "d' = d"
  | (direct) excl why where "\<not> mo_dematerialized mo" "mo_status mo \<noteq> OS_CANCELLED"
        "persist D off now sid org mo excl why d = (res, d')"
        "excl = None \<and> calculable_now sid mo d
         \<or> excl = Some LATE_UNCOSTED_ARRIVAL \<and> \<not> calculable_now sid mo d
         \<or> excl = None \<and> list_ex (is_ghost org sid (mo_platformOrderId mo)) (db_orders d)"
  | (buffer) t out where "date_of (mo_orderDate mo) = Some t" "mo_status mo \<noteq> OS_CANCELLED" "res = Inr out"
        "\<not> list_ex (is_ghost org sid (mo_platformOrderId mo)) (db_orders d)"
        "buffer_order off now sid org mo t d = (out, d')"
proof (cases "mo_dematerialized mo")
  case True
  obtain out x where o: "dematerialize off now sid org mo d = (out, x)" by (cases "dematerialize off now sid org mo d")
  show thesis
    by (rule ghost [OF True, of out]) (use i True o in \<open>auto simp: intakeOrder_def Let_def\<close>)
next
  case dem: False
  show thesis
  proof (cases "mo_status mo = OS_CANCELLED")
    case True
    show thesis by (rule cancelled [OF True]) (use i True dem in \<open>simp add: intakeOrder_def Let_def\<close>)
  next
    case st: False
    show thesis
    proof (cases "calculable_now sid mo d")
      case True
      show thesis
        by (rule direct [OF dem st, of None R_calculable])
          (use i True dem st in \<open>simp_all add: intakeOrder_def Let_def calculable_now_def\<close>)
    next
      case calc: False
      show thesis
      proof (cases "date_of (mo_orderDate mo)")
        case None
        show thesis by (rule bad_date) (use i calc dem st None in \<open>simp_all add: intakeOrder_def Let_def calculable_now_def\<close>)
      next
        case (Some t)
        consider (late) "getBusinessDate off t < getBusinessDate off now"
          | (known) "\<not> getBusinessDate off t < getBusinessDate off now"
              "list_ex (is_ghost org sid (mo_platformOrderId mo)) (db_orders d)"
          | (new) "\<not> getBusinessDate off t < getBusinessDate off now"
              "\<not> list_ex (is_ghost org sid (mo_platformOrderId mo)) (db_orders d)" by blast
        then show thesis
        proof cases
          case late
          show thesis by (rule direct [OF dem st, of "Some LATE_UNCOSTED_ARRIVAL" R_excluded_late_arrival])
            (use i calc dem st Some late in \<open>simp_all add: intakeOrder_def Let_def calculable_now_def\<close>)
        next
          case known
          show thesis by (rule direct [OF dem st, of None R_already_in_orders])
            (use i calc dem st Some known in \<open>simp_all add: intakeOrder_def Let_def calculable_now_def\<close>)
        next
          case new
          obtain out x where b: "buffer_order off now sid org mo t d = (out, x)"
            by (cases "buffer_order off now sid org mo t d")
          show thesis by (rule buffer [OF Some st _ new(2), of out])
            (use i calc dem st Some new b in \<open>simp_all add: intakeOrder_def Let_def calculable_now_def\<close>)
        qed
      qed
    qed
  qed
qed

section \<open>Every operation keeps the tables well formed\<close>

lemma buffer_order_tables:
  assumes b: "buffer_order off now sid org mo t d = (out, d')" and wf: "wf_tables d"
  shows "wf_tables d'"
  using b
proof (cases rule: buffer_orderE)
  case old
  have wb: "wf_buffer d" using wf by (simp add: wf_tables_def)
  obtain b where "out = BufferedDeduped False \<and> d' = d
     \<or> out = BufferedDeduped True \<and> b_status b = BS_PENDING \<and> should_refresh mo b
       \<and> d' = d \<lparr> db_buffer := update_where (\<lambda>x. x = b) (\<lambda>x. x \<lparr> b_mappedOrder := mo \<rparr>) (db_buffer d) \<rparr>"
    by (rule refreshE [OF old(2,1) wb])
  moreover have "wf_buffer (d \<lparr> db_buffer := update_where (\<lambda>x. x = b) (\<lambda>x. x \<lparr> b_mappedOrder := mo \<rparr>) (db_buffer d) \<rparr>)"
  proof -
    let ?u = "update_where (\<lambda>x. x = b) (\<lambda>x. x \<lparr> b_mappedOrder := mo \<rparr>) (db_buffer d)"
    have m: "map b_id ?u = map b_id (db_buffer d)" "map buffer_id ?u = map buffer_id (db_buffer d)"
      by (simp_all add: map_update_where buffer_id_def)
    show ?thesis using wb by (simp add: wf_buffer_def ids_ok_map [OF m(1)] m(2))
  qed
  ultimately show ?thesis using wf by (auto simp: wf_tables_def)
next
  case (fresh d1)
  have "buffer_id (new_buffer_row (db_nextId d) sid org (getBusinessDate off t) mo) \<notin> buffer_id ` set (db_buffer d)"
    using fresh(1) by (auto simp: list_ex_iff buffer_key_id new_buffer_row_def buffer_id_def)
  then have "wf_buffer d1"
    using wf unfolding fresh(3) by (auto simp: wf_tables_def wf_buffer_def new_buffer_row_def intro: ids_ok_snoc)
  then have "wf_tables d1"
    using wf wf_next unfolding fresh(3) wf_tables_def by auto
  moreover have "same_but_stock d1 d'" unfolding fresh(4) by (simp add: decrementBuffered_stock)
  ultimately show ?thesis by (simp add: wf_tables_def wf_stock)
qed

lemma delete_buffer_tables: "wf_tables d \<Longrightarrow> wf_tables (delete_buffer P d)"
  by (simp add: wf_tables_def wf_buffer_delete) (simp add: delete_buffer_def)

lemma delete_orders_tables: "wf_tables d \<Longrightarrow> wf_tables (delete_orders P d)"
  by (simp add: wf_tables_def delete_orders_wf delete_orders_fk) (simp add: wf_buffer_def)

lemma dematerialize_tables:
  assumes "dematerialize off now sid org mo d = (out, d')" and wf: "wf_tables d"
  shows "wf_tables d'"
proof -
  obtain d2 where "same_but_stock d d2" "d' = delete_buffer (is_buffered org sid (mo_platformOrderId mo))
            (delete_orders (is_ghost org sid (mo_platformOrderId mo)) d2)"
    by (rule dematerializeE [OF assms(1)])
  moreover have "wf_tables d2" using wf wf_stock [OF \<open>same_but_stock d d2\<close>] by (simp add: wf_tables_def)
  ultimately show ?thesis by (simp add: delete_buffer_tables delete_orders_tables)
qed

lemma persist_tables: "persist D off now sid org mo excl why d = (res, d') \<Longrightarrow> wf_tables d \<Longrightarrow> wf_tables d'"
  by (erule persistE) (auto intro: upsert_tables)

lemma intake_tables:
  assumes i: "intakeOrder D off now sid org mo d = (res, d')" and wf: "wf_tables d"
  shows "wf_tables d'"
  using i
proof (cases rule: intakeE)
  case (ghost out)
  then show ?thesis using dematerialize_tables wf by blast
next
  case cancelled
  then show ?thesis using persist_tables delete_buffer_tables wf by blast
next
  case (direct excl why)
  then show ?thesis using persist_tables wf by blast
next
  case (buffer t out)
  then show ?thesis using buffer_order_tables wf by blast
qed (use wf in simp)

section \<open>Where an order ends\<close>

definition intake_post :: "id \<Rightarrow> id \<Rightarrow> mapped_order \<Rightarrow> db \<Rightarrow> db \<Rightarrow> intake_outcome \<Rightarrow> bool" where
  "intake_post sid org mo d d' out \<longleftrightarrow>
     (let pid = mo_platformOrderId mo in
      case out of
        Persisted why \<Rightarrow> order_by_key sid pid d' \<noteq> None
      | Buffered \<Rightarrow> \<not> list_ex (is_ghost org sid pid) (db_orders d')
          \<and> (\<exists>b. filter (buffer_key sid pid) (db_buffer d') = [b] \<and> b_mappedOrder b = mo \<and> b_status b = BS_PENDING)
      | BufferedDeduped refreshed \<Rightarrow> db_orders d' = db_orders d \<and> \<not> list_ex (is_ghost org sid pid) (db_orders d')
          \<and> (\<exists>b. filter (buffer_key sid pid) (db_buffer d') = [b] \<and> (refreshed \<longrightarrow> b_mappedOrder b = mo \<and> b_status b = BS_PENDING))
      | Dematerialized a n \<Rightarrow> \<not> list_ex (is_ghost org sid pid) (db_orders d')
          \<and> \<not> list_ex (is_buffered org sid pid) (db_buffer d'))"

lemma buffer_order_post:
  assumes b: "buffer_order off now sid org mo t d = (out, d')" and wf: "wf_tables d"
    and ng: "\<not> list_ex (is_ghost org sid (mo_platformOrderId mo)) (db_orders d)"
  shows "intake_post sid org mo d d' out"
  using b
proof (cases rule: buffer_orderE)
  case old
  have wb: "wf_buffer d" using wf by (simp add: wf_tables_def)
  have wb': "wf_buffer d'" using buffer_order_tables [OF b wf] by (simp add: wf_tables_def)
  obtain b where b: "b \<in> set (db_buffer d)" "buffer_key sid (mo_platformOrderId mo) b"
    "out = BufferedDeduped False \<and> d' = d
     \<or> out = BufferedDeduped True \<and> b_status b = BS_PENDING \<and> should_refresh mo b
       \<and> d' = d \<lparr> db_buffer := update_where (\<lambda>x. x = b) (\<lambda>x. x \<lparr> b_mappedOrder := mo \<rparr>) (db_buffer d) \<rparr>"
    by (rule refreshE [OF old(2,1) wb])
  from b(3) show ?thesis
  proof (elim disjE conjE)
    assume "out = BufferedDeduped False" "d' = d"
    then show ?thesis using buffer_key_unique [OF wb b(1,2)] ng by (auto simp: intake_post_def Let_def)
  next
    assume r: "out = BufferedDeduped True" "b_status b = BS_PENDING"
      "d' = d \<lparr> db_buffer := update_where (\<lambda>x. x = b) (\<lambda>x. x \<lparr> b_mappedOrder := mo \<rparr>) (db_buffer d) \<rparr>"
    let ?b = "b \<lparr> b_mappedOrder := mo \<rparr>"
    have "?b \<in> set (db_buffer d')" using b(1) unfolding r(3) by (auto simp: set_update_where)
    moreover have "buffer_key sid (mo_platformOrderId mo) ?b" using b(2) by (simp add: buffer_key_def)
    ultimately have "filter (buffer_key sid (mo_platformOrderId mo)) (db_buffer d') = [?b]"
      by (rule buffer_key_unique [OF wb'])
    then show ?thesis using r ng by (auto simp: intake_post_def Let_def)
  qed
next
  case (fresh d1)
  have s: "same_but_stock d1 d'" unfolding fresh(4) by (simp add: decrementBuffered_stock)
  have "filter (buffer_key sid (mo_platformOrderId mo)) (db_buffer d) = []"
    using fresh(1) by (auto simp: filter_empty_conv list_ex_iff)
  then have "filter (buffer_key sid (mo_platformOrderId mo)) (db_buffer d')
      = [new_buffer_row (db_nextId d) sid org (getBusinessDate off t) mo]"
    using same_but_stock_sel(4) [OF s] unfolding fresh(3) by (simp add: buffer_key_def new_buffer_row_def)
  moreover have "db_orders d' = db_orders d" using same_but_stock_sel(1) [OF s] unfolding fresh(3) by simp
  ultimately show ?thesis using fresh(2) ng by (auto simp: intake_post_def Let_def new_buffer_row_def)
qed

lemma intake_post_holds:
  assumes i: "intakeOrder D off now sid org mo d = (Inr out, d')" and wf: "wf_tables d"
  shows "intake_post sid org mo d d' out"
proof -
  have persisted: "intake_post sid org mo d d' out"
    if p: "persist D off now sid org mo excl why d0 = (Inr out, d')" and "wf_tables d0" for excl why d0
    using p that(2) upsert_present by (elim persistE) (auto simp: intake_post_def wf_tables_def)
  show ?thesis
    using i
  proof (cases rule: intakeE)
    case (ghost o')
    then show ?thesis
      by (elim dematerializeE) (auto simp: intake_post_def Let_def list_ex_iff)
  next
    case cancelled
    then show ?thesis using persisted delete_buffer_tables [OF wf] by blast
  next
    case (direct excl why)
    then show ?thesis using persisted wf by blast
  next
    case (buffer t o')
    then show ?thesis using buffer_order_post [OF _ wf] by blast
  qed simp
qed

end
