(* ===== verification/Order_Stock.thy ===== *)
theory Order_Stock
  imports Order_Intake_Props
begin

text \<open>
  How an order moves the stock of the variants it sells. Both ways an order can enter the system,
  the direct write and the buffer, lower the stock by the same list of drops.
\<close>

section \<open>Drops\<close>

text \<open>One entry per line: the variant it resolves to, if any, and its quantity.\<close>

fun drop_stock :: "variant_row list \<Rightarrow> id option \<times> int \<Rightarrow> variant_row list" where
  "drop_stock vs (None, n) = vs"
| "drop_stock vs (Some vid, n) =
     update_where (\<lambda>v. v_id v = vid) (\<lambda>v. v \<lparr> v_quantity := max (v_quantity v - n) 0 \<rparr>) vs"

definition line_drop :: "id \<Rightarrow> db \<Rightarrow> string \<times> int \<Rightarrow> id option \<times> int" where
  "line_drop sid d l = (map_option v_id (variant_by_barcode sid (fst l) d), snd l)"

definition order_drops :: "id \<Rightarrow> mapped_line list \<Rightarrow> db \<Rightarrow> (id option \<times> int) list" where
  "order_drops sid ls d = map (\<lambda>l. line_drop sid d (ml_barcode l, ml_quantity l)) ls"

definition sold_units :: "(id option \<times> int) list \<Rightarrow> id \<Rightarrow> int" where
  "sold_units xs vid = sum_list (map snd (filter (\<lambda>x. fst x = Some vid) xs))"

text \<open>The units of a variant an order sells.\<close>

definition sold :: "id \<Rightarrow> mapped_order \<Rightarrow> db \<Rightarrow> id \<Rightarrow> int" where
  "sold sid mo d vid = sold_units (order_drops sid (mo_lines mo) d) vid"

lemma sold_units_simps [simp]:
  "sold_units [] vid = 0"
  "sold_units (x # xs) vid = (if fst x = Some vid then snd x else 0) + sold_units xs vid"
  by (simp_all add: sold_units_def)

lemma sold_units_nonneg: "\<forall>x \<in> set xs. 0 \<le> snd x \<Longrightarrow> 0 \<le> sold_units xs vid"
  by (induction xs) auto

lemma line_drop_keys: "variant_keys d' = variant_keys d \<Longrightarrow> line_drop sid d' l = line_drop sid d l"
  unfolding line_drop_def using variant_by_barcode_keys(1) [of d' d sid "fst l"] by simp

lemma order_drops_keys: "variant_keys d' = variant_keys d \<Longrightarrow> order_drops sid ls d' = order_drops sid ls d"
  unfolding order_drops_def by (rule map_cong [OF refl]) (rule line_drop_keys)

text \<open>The floor at zero does not depend on the order of the drops.\<close>

lemma drops_quantity:
  assumes "\<forall>x \<in> set xs. 0 \<le> snd x" and "\<forall>v \<in> set vs. 0 \<le> v_quantity v"
  shows "foldl drop_stock vs xs = map (\<lambda>v. v \<lparr> v_quantity := max (v_quantity v - sold_units xs (v_id v)) 0 \<rparr>) vs"
  using assms
proof (induction xs arbitrary: vs)
  case Nil
  then have "map (\<lambda>v. v \<lparr> v_quantity := max (v_quantity v) 0 \<rparr>) vs = map (\<lambda>v. v) vs"
    by (intro map_cong [OF refl]) simp
  then show ?case by simp
next
  case (Cons x xs)
  obtain o' n where x: "x = (o', n)" by (cases x)
  have q: "\<forall>v \<in> set (drop_stock vs x). 0 \<le> v_quantity v"
    using Cons.prems(2) unfolding x by (cases o') (auto simp: set_update_where)
  have "drop_stock vs x = map (\<lambda>v. if o' = Some (v_id v) then v \<lparr> v_quantity := max (v_quantity v - n) 0 \<rparr> else v) vs"
    unfolding x by (cases o') (auto simp: update_where_def)
  then have "foldl drop_stock vs (x # xs) = map (\<lambda>v. v \<lparr> v_quantity := max (v_quantity v - sold_units xs (v_id v)) 0 \<rparr>)
      (map (\<lambda>v. if o' = Some (v_id v) then v \<lparr> v_quantity := max (v_quantity v - n) 0 \<rparr> else v) vs)"
    using Cons.IH [OF _ q] Cons.prems(1) by simp
  also have "\<dots> = map (\<lambda>v. v \<lparr> v_quantity := max (v_quantity v - sold_units (x # xs) (v_id v)) 0 \<rparr>) vs"
  proof -
    have nn: "0 \<le> sold_units xs vid" for vid
      using Cons.prems(1) by (intro sold_units_nonneg) simp
    have "max (max (q - n) 0 - sold_units xs vid) 0 = max (q - (n + sold_units xs vid)) 0" for q vid
      using nn [of vid] by (auto simp: max_def)
    then show ?thesis unfolding map_map x by (intro map_cong [OF refl]) auto
  qed
  finally show ?case .
qed

section \<open>The buffer's drops\<close>

lemma move_line_drop:
  "db_variants (fst (move_line decrementVariantStock sid s l)) = drop_stock (db_variants (fst s)) (line_drop sid (fst s) l)"
  "variant_keys (fst (move_line decrementVariantStock sid s l)) = variant_keys (fst s)"
  by (auto simp: move_line_def line_drop_def decrementVariantStock_def map_variant_def map_update_where split: option.split)

lemma move_lines_drop:
  "db_variants (fst (foldl (move_line decrementVariantStock sid) s ls))
     = foldl drop_stock (db_variants (fst s)) (map (line_drop sid (fst s)) ls)"
proof (induction ls arbitrary: s)
  case (Cons l ls)
  let ?t = "move_line decrementVariantStock sid s l"
  have "map (line_drop sid (fst ?t)) ls = map (line_drop sid (fst s)) ls"
    using line_drop_keys [OF move_line_drop(2)] by simp
  then show ?case by (simp only: foldl_Cons list.map Cons.IH [of ?t] move_line_drop(1) [of sid s l])
qed simp

lemma decrementBuffered_drop:
  "db_variants (decrementBufferedOrderStock sid ls d) = foldl drop_stock (db_variants d) (order_drops sid ls d)"
proof -
  obtain d1 ps where f: "foldl (move_line decrementVariantStock sid) (d, []) (map (\<lambda>l. (ml_barcode l, ml_quantity l)) ls) = (d1, ps)"
    by (cases "foldl (move_line decrementVariantStock sid) (d, []) (map (\<lambda>l. (ml_barcode l, ml_quantity l)) ls)")
  then show ?thesis
    using move_lines_drop [of sid "(d, [])" "map (\<lambda>l. (ml_barcode l, ml_quantity l)) ls"]
    by (simp add: decrementBufferedOrderStock_def order_drops_def comp_def)
qed

section \<open>The drops of a direct write\<close>

definition lines_of :: "id \<Rightarrow> db \<Rightarrow> int option set" where
  "lines_of oid d = i_platformLineId ` {i \<in> set (db_items d). i_orderId i = oid}"

lemma capture_lines_of: "captureCostSnapshot D now iid d = Inr d' \<Longrightarrow> lines_of oid d' = lines_of oid d"
proof -
  assume c: "captureCostSnapshot D now iid d = Inr d'"
  let ?f = "\<lambda>i. (i_orderId i, i_platformLineId i)"
  have "lines_of oid d = snd ` {p \<in> set (map ?f (db_items d)). fst p = oid}" for d by (force simp: lines_of_def)
  moreover have "map ?f (db_items d') = map ?f (db_items d)"
    using capture_shape [OF c] by (auto simp: map_update_where)
  ultimately show "lines_of oid d' = lines_of oid d" by (simp only:)
qed

lemma lines_of_snoc: "db_items d2 = db_items d @ [i] \<Longrightarrow> i_orderId i = oid \<Longrightarrow>
    lines_of oid d2 = insert (i_platformLineId i) (lines_of oid d)"
  unfolding lines_of_def by (simp add: Collect_disj_eq [symmetric]) blast

lemma write_new_line:
  assumes w: "write_line D sid mo opts True p now oid s l = Inr s'"
    and lid: "ml_platformLineId l \<noteq> None" and none: "None \<notin> lines_of oid (fst s)"
    and new: "ml_platformLineId l \<notin> lines_of oid (fst s)"
  shows "db_variants (fst s') = drop_stock (db_variants (fst s)) (line_drop sid (fst s) (ml_barcode l, ml_quantity l))"
    and "lines_of oid (fst s') = insert (ml_platformLineId l) (lines_of oid (fst s))"
proof -
  obtain d ps d' ps' where s: "s = (d, ps)" "s' = (d', ps')" by (cases s; cases s')
  define v where "v = variant_by_barcode sid (ml_barcode l) d"
  have "find (line_matches oid l (map_option v_id v)) (db_items d) = None"
    using lid none new s by (force simp: find_None_all line_matches_def lines_of_def)
  then have n: "new_line D mo opts True p now oid l v (d, ps) = Inr (d', ps')"
    using w s by (simp add: write_line_def v_def)
  let ?n = "create_item_row (db_nextId d) oid mo l (map_option v_id v) (resolveEffectiveCommission D l p d)"
  obtain d2 where d2: "d2 = (case v of Some v \<Rightarrow>
        if True then decrementVariantStock (v_id v) (ml_quantity l) (insert_item ?n d) else insert_item ?n d
      | None \<Rightarrow> insert_item ?n d)"
    and cap: "if uo_profitExclusion opts = None then captureCostSnapshot D now (db_nextId d) d2 = Inr d' else d' = d2"
    by (rule new_line_cases [OF n])
  have d': "db_variants d' = db_variants d2" "lines_of oid d' = lines_of oid d2"
    using cap capture_frame(2) capture_lines_of by (auto split: if_splits)
  have "db_variants d2 = drop_stock (db_variants d) (line_drop sid d (ml_barcode l, ml_quantity l))"
    unfolding d2 line_drop_def v_def
    by (auto simp: insert_item_def decrementVariantStock_def map_variant_def split: option.split)
  moreover have "lines_of oid d2 = insert (i_platformLineId ?n) (lines_of oid d)"
    by (rule lines_of_snoc) (simp_all add: d2 insert_item_def split: option.split)
  ultimately show "db_variants (fst s') = drop_stock (db_variants (fst s)) (line_drop sid (fst s) (ml_barcode l, ml_quantity l))"
    and "lines_of oid (fst s') = insert (ml_platformLineId l) (lines_of oid (fst s))"
    using d' s by simp_all
qed

lemma write_new_lines:
  assumes "foldR (write_line D sid mo opts True p now oid) s ls = Inr s'"
    and "\<forall>l \<in> set ls. ml_platformLineId l \<noteq> None" and "distinct (map ml_platformLineId ls)"
    and "lines_of oid (fst s) = {}"
  shows "db_variants (fst s') = foldl drop_stock (db_variants (fst s)) (order_drops sid ls (fst s))
    \<and> lines_of oid (fst s') = ml_platformLineId ` set ls \<and> variant_keys (fst s') = variant_keys (fst s)"
  using assms
proof (induction ls arbitrary: s' rule: rev_induct)
  case Nil
  then show ?case by (simp add: order_drops_def)
next
  case (snoc l ls)
  obtain t where t: "foldR (write_line D sid mo opts True p now oid) s ls = Inr t"
    and w: "write_line D sid mo opts True p now oid t l = Inr s'"
    using snoc.prems(1) by (auto simp: foldR_append bindR_eq_Inr)
  have IH: "db_variants (fst t) = foldl drop_stock (db_variants (fst s)) (order_drops sid ls (fst s))"
    "lines_of oid (fst t) = ml_platformLineId ` set ls" "variant_keys (fst t) = variant_keys (fst s)"
    using snoc.IH [OF t _ _ snoc.prems(4)] snoc.prems(2,3) by (auto simp del: map_map)
  have new: "ml_platformLineId l \<notin> lines_of oid (fst t)" and none: "None \<notin> lines_of oid (fst t)"
    and lid: "ml_platformLineId l \<noteq> None"
    using snoc.prems(2,3) unfolding IH(2) by (auto simp: image_iff)
  note step = write_new_line [OF w lid none new]
  have "line_drop sid (fst t) (ml_barcode l, ml_quantity l) = line_drop sid (fst s) (ml_barcode l, ml_quantity l)"
    by (rule line_drop_keys [OF IH(3)])
  then show ?case
    using step IH write_line_keys [OF w] by (auto simp: order_drops_def)
qed

lemma upsert_new_drop:
  assumes u: "upsertOrderWithSnapshot D off now sid org mo opts d = Inr d'"
    and new: "order_by_key sid (mo_platformOrderId mo) d = None"
    and dec: "should_decrement off now mo opts"
    and fk: "items_fk d" and ids: "wf_db d"
    and lid: "\<forall>l \<in> set (mo_lines mo). ml_platformLineId l \<noteq> None" "distinct (map ml_platformLineId (mo_lines mo))"
  shows "db_variants d' = foldl drop_stock (db_variants d) (order_drops sid (mo_lines mo) d)"
  using u
proof (cases rule: upsertE)
  case stale
  then show ?thesis using new by (simp add: stale_event_def)
next
  case (written oid d1 d2 ps)
  have d1: "oid = db_nextId d" "db_items d1 = db_items d" "db_variants d1 = db_variants d"
    using written(2) new by (auto simp: upsert_order_def split: option.splits)
  have "lines_of oid d1 = {}"
    using fk ids unfolding lines_of_def d1(1,2) by (fastforce simp: items_fk_def wf_db_def ids_ok_def)
  then have "db_variants d2 = foldl drop_stock (db_variants d) (order_drops sid (mo_lines mo) d1)"
    using write_new_lines [OF written(3) [unfolded eqTrueI [OF dec]] lid] d1(3) by simp
  moreover have "order_drops sid (mo_lines mo) d1 = order_drops sid (mo_lines mo) d"
    by (rule order_drops_keys) (simp add: d1(3))
  moreover have "db_variants d' = db_variants d2"
    using written(4) apply_strip(1) [of D off oid "recomputeProductsTotalStock ps d2" d'] ref_eq_sel(6) by fastforce
  ultimately show ?thesis by simp
qed

text \<open>A write from the buffer moves no stock.\<close>

lemma upsert_keeps_stock:
  assumes u: "upsertOrderWithSnapshot D off now sid org mo opts d = Inr d'"
    and dec: "\<not> should_decrement off now mo opts"
  shows "db_variants d' = db_variants d"
  using u
proof (cases rule: upsertE)
  case (written oid d1 d2 ps)
  have "db_variants d2 = db_variants d1" using lines_frame(2) [OF written(3) dec] by simp
  moreover have "db_variants d1 = db_variants d"
    using written(2) by (auto simp: upsert_order_def update_order_def split: option.splits)
  moreover have "db_variants d' = db_variants d2"
    using written(4) apply_strip(1) [of D off oid "recomputeProductsTotalStock ps d2" d'] ref_eq_sel(6) by fastforce
  ultimately show ?thesis by simp
qed simp

end
