(* ===== verification/Buffer_Promote.thy ===== *)
theory Buffer_Promote
  imports Order_Intake
begin

text \<open>
  The way out of the live performance buffer: \<open>src/apps/sync-worker/src/handlers/buffer-promote.ts\<close>
  and its retry policy \<open>lib/buffer-promote-backoff.ts\<close>. \<open>now\<close> is the instant a tick starts at, \<open>clk\<close>
  the clock while it works, \<open>locked\<close> the rows other workers hold (\<open>SKIP LOCKED\<close>). The rows stand in
  the order of their creation. What an error prints is a parameter; the throttled log lines are
  left out.
\<close>

section \<open>The retry policy\<close>

definition RETRY_BACKOFF_MINUTES :: "int list" where "RETRY_BACKOFF_MINUTES = [5, 15, 45]"

definition MAX_ATTEMPTS :: nat where "MAX_ATTEMPTS = length RETRY_BACKOFF_MINUTES"

definition isRetryDue :: "nat \<Rightarrow> time \<Rightarrow> time \<Rightarrow> bool" where
  "isRetryDue attempts lastFailedAt now =
     (if attempts < 1 \<or> MAX_ATTEMPTS < attempts then False
      else let requiredWaitMinutes = RETRY_BACKOFF_MINUTES ! (attempts - 1);
               elapsedMs = now - lastFailedAt
           in requiredWaitMinutes * 60000 \<le> elapsedMs)"

section \<open>Promotion\<close>

definition find_entry :: "id \<Rightarrow> db \<Rightarrow> buffer_row option" where
  "find_entry bid d = find (\<lambda>b. b_id b = bid) (db_buffer d)"

definition update_entry :: "id \<Rightarrow> (buffer_row \<Rightarrow> buffer_row) \<Rightarrow> db \<Rightarrow> db" where
  "update_entry bid g d = d \<lparr> db_buffer := update_where (\<lambda>b. b_id b = bid) g (db_buffer d) \<rparr>"

definition eligible :: "time \<Rightarrow> buffer_row \<Rightarrow> bool" where
  "eligible now e \<longleftrightarrow>
     b_status e = BS_PROMOTING
     \<or> (b_status e = BS_FAILED \<and> b_attempts e \<le> MAX_ATTEMPTS
        \<and> (case b_lastFailedAt e of None \<Rightarrow> False | Some t \<Rightarrow> isRetryDue (b_attempts e) t now))"

definition entry_calculable :: "buffer_row \<Rightarrow> db \<Rightarrow> bool" where
  "entry_calculable e d \<longleftrightarrow>
     resolveOrderCalculability
       (buildCalcCheckLines d (b_storeId e) (map ml_barcode (mo_lines (b_mappedOrder e)))) = Calculable"

text \<open>The order is written and the entry deleted in one transaction.\<close>

definition graduate ::
  "dec \<Rightarrow> (time \<Rightarrow> int) \<Rightarrow> time \<Rightarrow> profit_exclusion_reason option \<Rightarrow> buffer_row \<Rightarrow> db \<Rightarrow> intake_error + db" where
  "graduate D off clk excl e d =
     bindR (upsertOrderWithSnapshot D off clk (b_storeId e) (b_organizationId e) (b_mappedOrder e)
              \<lparr> uo_profitExclusion = excl, uo_promotedFromBuffer = True \<rparr> d)
       (\<lambda>d'. Inr (delete_buffer (\<lambda>b. b_id b = b_id e) d'))"

definition promote_tx ::
  "dec \<Rightarrow> (time \<Rightarrow> int) \<Rightarrow> (id \<Rightarrow> bool) \<Rightarrow> time \<Rightarrow> time \<Rightarrow> id \<Rightarrow> db \<Rightarrow> intake_error + db" where
  "promote_tx D off locked now clk bid d =
     (if locked bid then Inr d
      else case find_entry bid d of
        None \<Rightarrow> Inr d
      | Some e \<Rightarrow>
          if \<not> eligible now e then Inr d
          else if \<not> entry_calculable e d then
            (if b_orderDay e * day_ms < getBusinessDateAnchor off now
             then graduate D off clk (Some COST_DEADLINE_MISSED) e d
             else Inr (update_entry bid (\<lambda>b. b \<lparr> b_status := BS_PENDING \<rparr>) d))
          else graduate D off clk None e d)"

definition markFailed :: "(intake_error \<Rightarrow> string) \<Rightarrow> time \<Rightarrow> buffer_row \<Rightarrow> intake_error \<Rightarrow> db \<Rightarrow> db" where
  "markFailed msg clk e err d =
     (let nextAttempts = b_attempts e + 1 in
      update_entry (b_id e) (\<lambda>b. b \<lparr>
        b_status := (if MAX_ATTEMPTS < nextAttempts then BS_PERMANENT_FAILED else BS_FAILED),
        b_attempts := nextAttempts, b_lastError := Some (take 1000 (msg err)),
        b_lastFailedAt := Some clk \<rparr>) d)"

definition promoteOne ::
  "(intake_error \<Rightarrow> string) \<Rightarrow> dec \<Rightarrow> (time \<Rightarrow> int) \<Rightarrow> (id \<Rightarrow> bool) \<Rightarrow> time \<Rightarrow> time \<Rightarrow> db \<Rightarrow> id \<Rightarrow> db" where
  "promoteOne msg D off locked now clk d bid =
     (case promote_tx D off locked now clk bid d of
        Inr d' \<Rightarrow> d'
      | Inl err \<Rightarrow>
          (case find_entry bid d of
             None \<Rightarrow> d
           | Some e \<Rightarrow> markFailed msg clk e err d))"

definition CHUNK_SIZE :: nat where "CHUNK_SIZE = 25"

definition promote_candidate :: "time \<Rightarrow> buffer_row \<Rightarrow> bool" where
  "promote_candidate now b \<longleftrightarrow>
     b_status b = BS_PROMOTING
     \<or> (b_status b = BS_FAILED \<and> b_attempts b \<le> MAX_ATTEMPTS
        \<and> (case b_lastFailedAt b of None \<Rightarrow> False
           | Some t \<Rightarrow> t \<le> now - RETRY_BACKOFF_MINUTES ! 0 * 60000))"

definition processBufferPromote ::
  "(intake_error \<Rightarrow> string) \<Rightarrow> dec \<Rightarrow> (time \<Rightarrow> int) \<Rightarrow> (id \<Rightarrow> bool) \<Rightarrow> time \<Rightarrow> time \<Rightarrow> db \<Rightarrow> db" where
  "processBufferPromote msg D off locked now clk d =
     foldl (promoteOne msg D off locked now clk) d
       (take CHUNK_SIZE (map b_id (filter (promote_candidate now) (db_buffer d))))"

section \<open>The flush of past days\<close>

definition flush_tx ::
  "dec \<Rightarrow> (time \<Rightarrow> int) \<Rightarrow> (id \<Rightarrow> bool) \<Rightarrow> time \<Rightarrow> id \<Rightarrow> db \<Rightarrow> intake_error + db" where
  "flush_tx D off locked clk bid d =
     (if locked bid then Inr d
      else case find_entry bid d of
        None \<Rightarrow> Inr d
      | Some e \<Rightarrow>
          if b_status e \<noteq> BS_PENDING \<and> b_status e \<noteq> BS_PERMANENT_FAILED then Inr d
          else graduate D off clk (Some COST_DEADLINE_MISSED) e d)"

definition flushOne ::
  "(intake_error \<Rightarrow> string) \<Rightarrow> dec \<Rightarrow> (time \<Rightarrow> int) \<Rightarrow> (id \<Rightarrow> bool) \<Rightarrow> time \<Rightarrow> db \<Rightarrow> id \<Rightarrow> id option \<times> db" where
  "flushOne msg D off locked clk d bid =
     (case flush_tx D off locked clk bid d of
        Inr d' \<Rightarrow> (None, d')
      | Inl err \<Rightarrow>
          (case find_entry bid d of
             None \<Rightarrow> (None, d)
           | Some e \<Rightarrow>
               if b_status e = BS_PERMANENT_FAILED then (Some (b_id e), d)
               else (None, markFailed msg clk e err d)))"

definition FLUSH_CHUNK_SIZE :: nat where "FLUSH_CHUNK_SIZE = 25"
definition PERMANENT_FAILED_RETRY_LIMIT :: nat where "PERMANENT_FAILED_RETRY_LIMIT = 25"

definition past_day :: "buffer_status \<Rightarrow> time \<Rightarrow> buffer_row \<Rightarrow> bool" where
  "past_day st todayAnchor b \<longleftrightarrow> b_status b = st \<and> b_orderDay b * day_ms < todayAnchor"

definition processPastDayBufferFlush ::
  "(intake_error \<Rightarrow> string) \<Rightarrow> dec \<Rightarrow> (time \<Rightarrow> int) \<Rightarrow> (id \<Rightarrow> bool) \<Rightarrow> time \<Rightarrow> time \<Rightarrow> db \<Rightarrow> db" where
  "processPastDayBufferFlush msg D off locked now clk d =
     (let todayAnchor = getBusinessDateAnchor off now;
          flush = (\<lambda>d bid. snd (flushOne msg D off locked clk d bid));
          d1 = foldl flush d
            (take FLUSH_CHUNK_SIZE (map b_id (filter (past_day BS_PENDING todayAnchor) (db_buffer d))))
      in foldl flush d1
           (take PERMANENT_FAILED_RETRY_LIMIT
             (map b_id (sort_key b_orderDay (filter (past_day BS_PERMANENT_FAILED todayAnchor) (db_buffer d1))))))"

end
