(* ===== verification/Intake_Claims.thy ===== *)
theory Intake_Claims
  imports Order_Stock Buffer_Promote
begin

text \<open>
  The properties of the intake and of the way out of the buffer, with their witnesses.
\<close>

section \<open>Graduation\<close>

lemma graduateE:
  assumes "graduate D off clk excl e d = Inr d'"
  obtains d1 where "upsertOrderWithSnapshot D off clk (b_storeId e) (b_organizationId e) (b_mappedOrder e)
      \<lparr> uo_profitExclusion = excl, uo_promotedFromBuffer = True \<rparr> d = Inr d1"
    "d' = delete_buffer (\<lambda>b. b_id b = b_id e) d1"
  using assms by (auto simp: graduate_def bindR_eq_Inr)

lemma graduate_stock: "graduate D off clk excl e d = Inr d' \<Longrightarrow> db_variants d' = db_variants d"
  by (erule graduateE) (auto dest: upsert_keeps_stock simp: should_decrement_def)

lemma update_entry_sel [simp]:
  "db_variants (update_entry bid g d) = db_variants d" "db_orders (update_entry bid g d) = db_orders d"
  "db_items (update_entry bid g d) = db_items d" "db_fees (update_entry bid g d) = db_fees d"
  "db_nextId (update_entry bid g d) = db_nextId d"
  "db_buffer (update_entry bid g d) = update_where (\<lambda>b. b_id b = bid) g (db_buffer d)"
  by (simp_all add: update_entry_def)

text \<open>What a promotion or a flush does to the entry it works on.\<close>

definition set_failed :: "(intake_error \<Rightarrow> string) \<Rightarrow> time \<Rightarrow> nat \<Rightarrow> intake_error \<Rightarrow> buffer_row \<Rightarrow> buffer_row" where
  "set_failed msg clk n err b = b \<lparr>
        b_status := (if MAX_ATTEMPTS < n then BS_PERMANENT_FAILED else BS_FAILED),
        b_attempts := n, b_lastError := Some (take 1000 (msg err)), b_lastFailedAt := Some clk \<rparr>"

lemma markFailed_entry: "markFailed msg clk e err d = update_entry (b_id e) (set_failed msg clk (b_attempts e + 1) err) d"
  unfolding markFailed_def Let_def set_failed_def by (rule refl)

lemma find_entry_Some: "find_entry bid d = Some e \<Longrightarrow> e \<in> set (db_buffer d) \<and> b_id e = bid"
  unfolding find_entry_def by (drule find_Some_in) simp

lemma promoteOneE:
  obtains (same) "promoteOne msg D off locked now clk d bid = d"
  | (demoted) e where "find_entry bid d = Some e" "eligible now e"
      "promoteOne msg D off locked now clk d bid = update_entry bid (\<lambda>b. b \<lparr> b_status := BS_PENDING \<rparr>) d"
  | (out) e excl where "find_entry bid d = Some e" "eligible now e"
      "graduate D off clk excl e d = Inr (promoteOne msg D off locked now clk d bid)"
  | (failed) e err where "find_entry bid d = Some e" "eligible now e"
      "promoteOne msg D off locked now clk d bid = update_entry bid (set_failed msg clk (b_attempts e + 1) err) d"
proof (cases "locked bid \<or> find_entry bid d = None")
  case True
  then show thesis by (intro same) (auto simp: promoteOne_def promote_tx_def)
next
  case nl: False
  then obtain e where e: "find_entry bid d = Some e" by auto
  then have id: "b_id e = bid" using find_entry_Some by blast
  show thesis
  proof (cases "eligible now e")
    case False
    then show thesis using nl e by (intro same) (simp add: promoteOne_def promote_tx_def)
  next
    case el: True
    show thesis
    proof (cases "\<not> entry_calculable e d \<and> \<not> b_orderDay e * day_ms < getBusinessDateAnchor off now")
      case True
      then show thesis using nl e el by (intro demoted) (simp_all add: promoteOne_def promote_tx_def)
    next
      case False
      define excl where "excl = (if entry_calculable e d then None else Some COST_DEADLINE_MISSED)"
      have tx: "promote_tx D off locked now clk bid d = graduate D off clk excl e d"
        using nl e el False by (auto simp: promote_tx_def excl_def)
      show thesis
      proof (cases "graduate D off clk excl e d")
        case (Inl err)
        show thesis by (rule failed [OF e el]) (simp add: promoteOne_def tx Inl e markFailed_entry id)
      next
        case (Inr d')
        show thesis by (rule out [OF e el, of excl]) (simp add: promoteOne_def tx Inr)
      qed
    qed
  qed
qed

lemma flushOneE:
  obtains (same) "snd (flushOne msg D off locked clk d bid) = d"
  | (out) e where "find_entry bid d = Some e" "b_status e = BS_PENDING \<or> b_status e = BS_PERMANENT_FAILED"
      "graduate D off clk (Some COST_DEADLINE_MISSED) e d = Inr (snd (flushOne msg D off locked clk d bid))"
  | (failed) e err where "find_entry bid d = Some e" "b_status e = BS_PENDING"
      "snd (flushOne msg D off locked clk d bid) = update_entry bid (set_failed msg clk (b_attempts e + 1) err) d"
proof (cases "locked bid \<or> find_entry bid d = None")
  case True
  then show thesis by (intro same) (auto simp: flushOne_def flush_tx_def)
next
  case nl: False
  then obtain e where e: "find_entry bid d = Some e" by auto
  then have id: "b_id e = bid" using find_entry_Some by blast
  show thesis
  proof (cases "b_status e = BS_PENDING \<or> b_status e = BS_PERMANENT_FAILED")
    case False
    then show thesis using nl e by (intro same) (simp add: flushOne_def flush_tx_def)
  next
    case st: True
    then have tx: "flush_tx D off locked clk bid d = graduate D off clk (Some COST_DEADLINE_MISSED) e d"
      using nl e by (auto simp: flush_tx_def)
    show thesis
    proof (cases "graduate D off clk (Some COST_DEADLINE_MISSED) e d")
      case (Inr d')
      show thesis by (rule out [OF e st]) (simp add: flushOne_def tx Inr)
    next
      case (Inl err)
      show thesis
      proof (cases "b_status e = BS_PERMANENT_FAILED")
        case True
        then show thesis by (intro same) (simp add: flushOne_def tx Inl e)
      next
        case False
        then have "b_status e = BS_PENDING" using st by simp
        then show thesis by (rule failed [OF e]) (simp add: flushOne_def tx Inl e False markFailed_entry id)
      qed
    qed
  qed
qed

lemma promoteOne_stock: "db_variants (promoteOne msg D off locked now clk d bid) = db_variants d"
  by (rule promoteOneE [of msg D off locked now clk d bid]) (auto dest: graduate_stock)

lemma flushOne_stock: "db_variants (snd (flushOne msg D off locked clk d bid)) = db_variants d"
  by (rule flushOneE [of msg D off locked clk d bid]) (auto dest: graduate_stock)

text \<open>The ticks are folds of these steps, so what every step keeps they keep.\<close>

lemma promote_tick:
  assumes "I d" and "\<And>d bid. I d \<Longrightarrow> I (promoteOne msg D off locked now clk d bid)"
  shows "I (processBufferPromote msg D off locked now clk d)"
  unfolding processBufferPromote_def by (rule foldl_inv [where I = I]) (use assms in auto)

lemma flush_tick:
  assumes "I d" and "\<And>d bid. I d \<Longrightarrow> I (snd (flushOne msg D off locked clk d bid))"
  shows "I (processPastDayBufferFlush msg D off locked now clk d)"
  unfolding processPastDayBufferFlush_def Let_def
  by (rule foldl_inv [where I = I], rule foldl_inv [where I = I]) (use assms in auto)

lemma ticks_stock:
  "db_variants (processBufferPromote msg D off locked now clk d) = db_variants d"
  "db_variants (processPastDayBufferFlush msg D off locked now clk d) = db_variants d"
  by (rule promote_tick, simp_all add: promoteOne_stock) (rule flush_tick, simp_all add: flushOne_stock)

end
