(* ===== verification/Cost_Attach.thy ===== *)
theory Cost_Attach
  imports Intake_Claims
begin

text \<open>
  Attaching cost profiles to variants, \<open>src/apps/api/src/services/cost-profile-attachment.service.ts\<close>:
  the guards that keep an organization, a store and a member to their own rows, the links, and the
  flip of buffered orders that became calculable, in one transaction with the links. The guards
  read before the transaction; \<open>access\<close> is the list of stores a member was granted, \<open>None\<close> for an owner.
\<close>

text \<open>The last three are the uses of \<open>CostProfileVariantOrgMismatchError\<close>.\<close>

datatype attach_error =
    ProfileArchived id
  | ProfileNotFound id
  | MultipleMismatch
  | CrossStoreMismatch
  | UnknownVariant id

section \<open>Guards\<close>

definition may_access :: "id list option \<Rightarrow> id \<Rightarrow> bool" where
  "may_access access sid \<longleftrightarrow> (case access of None \<Rightarrow> True | Some sids \<Rightarrow> sid \<in> set sids)"

definition guard_rows :: "id \<Rightarrow> id list \<Rightarrow> id list option \<Rightarrow> db \<Rightarrow> cost_profile_row list" where
  "guard_rows org pids access d =
     filter (\<lambda>p. cp_id p \<in> set pids \<and> cp_organizationId p = org \<and> may_access access (cp_storeId p)) (db_costProfiles d)"

definition guardProfiles :: "id \<Rightarrow> id list \<Rightarrow> id list option \<Rightarrow> db \<Rightarrow> attach_error + unit" where
  "guardProfiles org pids access d =
     (let rows = guard_rows org pids access d in
      case find (\<lambda>p. cp_archivedAt p \<noteq> None) rows of
        Some p \<Rightarrow> Inl (ProfileArchived (cp_id p))
      | None \<Rightarrow>
          if length rows \<noteq> length pids then
            Inl (ProfileNotFound (case find (\<lambda>i. i \<notin> set (map cp_id rows)) pids of
                                    Some i \<Rightarrow> i | None \<Rightarrow> hd pids))
          else Inr ())"

definition variant_rows :: "id \<Rightarrow> id list \<Rightarrow> id list option \<Rightarrow> db \<Rightarrow> variant_row list" where
  "variant_rows org vids access d =
     filter (\<lambda>v. v_id v \<in> set vids \<and> v_organizationId v = org \<and> may_access access (v_storeId v)) (db_variants d)"

definition guardVariants :: "id \<Rightarrow> id list \<Rightarrow> id list option \<Rightarrow> db \<Rightarrow> attach_error + unit" where
  "guardVariants org vids access d =
     failIf (length (variant_rows org vids access d) \<noteq> length vids) MultipleMismatch"

definition assertSameStore :: "id \<Rightarrow> id list \<Rightarrow> id list \<Rightarrow> db \<Rightarrow> attach_error + unit" where
  "assertSameStore org pids vids d =
     (let profiles = filter (\<lambda>p. cp_id p \<in> set pids \<and> cp_organizationId p = org) (db_costProfiles d);
          variants = filter (\<lambda>v. v_id v \<in> set vids \<and> v_organizationId v = org) (db_variants d);
          stores = remdups (map cp_storeId profiles @ map v_storeId variants)
      in failIf (length stores > 1) CrossStoreMismatch)"

section \<open>The flip\<close>

definition flip_candidates :: "id \<Rightarrow> id \<Rightarrow> string list \<Rightarrow> db \<Rightarrow> buffer_row list" where
  "flip_candidates org sid barcodes d =
     filter (\<lambda>b. b_storeId b = sid \<and> b_organizationId b = org \<and> b_status b = BS_PENDING
               \<and> list_ex (\<lambda>l. ml_barcode l \<in> set barcodes) (mo_lines (b_mappedOrder b))) (db_buffer d)"

definition promotable :: "id \<Rightarrow> db \<Rightarrow> buffer_row \<Rightarrow> bool" where
  "promotable sid d b \<longleftrightarrow>
     resolveOrderCalculability (buildCalcCheckLines d sid (map ml_barcode (mo_lines (b_mappedOrder b)))) = Calculable"

definition flip_store :: "id \<Rightarrow> db \<times> nat \<Rightarrow> id \<times> string list \<Rightarrow> db \<times> nat" where
  "flip_store org s grp =
     (let (sid, barcodes) = grp;
          d = fst s;
          promotableIds = map b_id (filter (promotable sid d) (flip_candidates org sid barcodes d));
          hit = (\<lambda>b. b_id b \<in> set promotableIds \<and> b_status b = BS_PENDING)
      in if promotableIds = [] then s
         else (d \<lparr> db_buffer := update_where hit (\<lambda>b. b \<lparr> b_status := BS_PROMOTING \<rparr>) (db_buffer d) \<rparr>,
               snd s + length (filter hit (db_buffer d))))"

definition barcodesByStore :: "variant_row list \<Rightarrow> (id \<times> string list) list" where
  "barcodesByStore vs =
     map (\<lambda>sid. (sid, map v_barcode (filter (\<lambda>v. v_storeId v = sid) vs))) (remdups (map v_storeId vs))"

definition flipBufferForVariants :: "id \<Rightarrow> id list \<Rightarrow> db \<Rightarrow> db \<times> nat" where
  "flipBufferForVariants org vids d =
     (let variants = filter (\<lambda>v. v_id v \<in> set vids \<and> v_organizationId v = org) (db_variants d)
      in foldl (flip_store org) (d, 0) (barcodesByStore variants))"

section \<open>The links\<close>

definition new_links :: "id \<Rightarrow> id list \<Rightarrow> id list \<Rightarrow> time \<Rightarrow> cost_link_row list" where
  "new_links org pids vids now =
     concat (map (\<lambda>pid. map (\<lambda>vid. \<lparr> cl_variantId = vid, cl_profileId = pid, cl_organizationId = org,
        cl_attachedAt = now \<rparr>) vids) pids)"

text \<open>\<open>createMany\<close> with \<open>skipDuplicates\<close>: a pair that is linked already is left as it is.\<close>

definition has_link :: "cost_link_row \<Rightarrow> cost_link_row list \<Rightarrow> bool" where
  "has_link l ls \<longleftrightarrow> list_ex (\<lambda>k. cl_variantId k = cl_variantId l \<and> cl_profileId k = cl_profileId l) ls"

definition add_link :: "cost_link_row list \<Rightarrow> cost_link_row \<Rightarrow> cost_link_row list" where
  "add_link ls l = (if has_link l ls then ls else ls @ [l])"

definition create_links :: "cost_link_row list \<Rightarrow> db \<Rightarrow> db" where
  "create_links ls d = d \<lparr> db_costLinks := foldl add_link (db_costLinks d) ls \<rparr>"

record attach_result =
  ar_attached :: nat
  ar_promoted :: nat

definition attachCostProfiles ::
  "id \<Rightarrow> id list \<Rightarrow> id list \<Rightarrow> id list option \<Rightarrow> time \<Rightarrow> db \<Rightarrow> attach_error + attach_result \<times> db" where
  "attachCostProfiles org pids vids access now d =
     bindR (guardProfiles org pids access d) (\<lambda>_.
     bindR (guardVariants org vids access d) (\<lambda>_.
     bindR (assertSameStore org pids vids d) (\<lambda>_.
       let d1 = create_links (new_links org pids vids now) d;
           (d2, promoted) = flipBufferForVariants org vids d1
       in Inr (\<lparr> ar_attached = length (db_costLinks d1) - length (db_costLinks d), ar_promoted = promoted \<rparr>, d2))))"

definition detachCostProfiles ::
  "id \<Rightarrow> id list \<Rightarrow> id list \<Rightarrow> id list option \<Rightarrow> db \<Rightarrow> attach_error + nat \<times> db" where
  "detachCostProfiles org pids vids access d =
     bindR (guardProfiles org pids access d) (\<lambda>_.
     bindR (guardVariants org vids access d) (\<lambda>_.
       let hit = (\<lambda>l. cl_profileId l \<in> set pids \<and> cl_variantId l \<in> set vids \<and> cl_organizationId l = org)
       in Inr (length (filter hit (db_costLinks d)), d \<lparr> db_costLinks := delete_where hit (db_costLinks d) \<rparr>)))"

record replace_result =
  rp_variantsAffected :: nat
  rp_finalProfilesPerVariant :: nat
  rp_promoted :: nat

definition replaceCostProfilesForVariants ::
  "id \<Rightarrow> id list \<Rightarrow> id list \<Rightarrow> id list option \<Rightarrow> time \<Rightarrow> db \<Rightarrow> attach_error + replace_result \<times> db" where
  "replaceCostProfilesForVariants org vids pids access now d =
     bindR (if pids \<noteq> [] then guardProfiles org pids access d else Inr ()) (\<lambda>_.
     bindR (guardVariants org vids access d) (\<lambda>_.
     bindR (assertSameStore org pids vids d) (\<lambda>_.
       let d1 = d \<lparr> db_costLinks := delete_where (\<lambda>l. cl_variantId l \<in> set vids \<and> cl_organizationId l = org) (db_costLinks d) \<rparr>;
           d2 = (if pids \<noteq> [] then create_links (new_links org pids vids now) d1 else d1);
           (d3, promoted) = flipBufferForVariants org vids d2
       in Inr (\<lparr> rp_variantsAffected = length vids, rp_finalProfilesPerVariant = length pids, rp_promoted = promoted \<rparr>, d3))))"

definition listCostProfilesForVariant ::
  "id \<Rightarrow> id \<Rightarrow> id list option \<Rightarrow> db \<Rightarrow> attach_error + cost_profile_row list" where
  "listCostProfilesForVariant org vid access d =
     (if variant_rows org [vid] access d = [] then Inl (UnknownVariant vid)
      else let links = sort_key (\<lambda>l. - cl_attachedAt l)
                 (filter (\<lambda>l. cl_variantId l = vid \<and> cl_organizationId l = org) (db_costLinks d))
           in Inr (filter (\<lambda>p. cp_archivedAt p = None)
                (List.map_filter (\<lambda>l. find (\<lambda>p. cp_id p = cl_profileId l) (db_costProfiles d)) links)))"

section \<open>What the guards establish\<close>

lemma guard_rows_all:
  assumes g: "guardProfiles org pids access d = Inr u" and u: "distinct (map cp_id (db_costProfiles d))"
    and m: "pid \<in> set pids"
  shows "\<exists>p \<in> set (db_costProfiles d). cp_id p = pid \<and> cp_organizationId p = org
    \<and> may_access access (cp_storeId p) \<and> cp_archivedAt p = None"
proof -
  let ?rows = "guard_rows org pids access d"
  have none: "find (\<lambda>p. cp_archivedAt p \<noteq> None) ?rows = None" and len: "length ?rows = length pids"
    using g by (auto simp: guardProfiles_def Let_def split: option.splits if_splits)
  have "distinct (map cp_id ?rows)" using u by (simp add: guard_rows_def distinct_map_filter)
  from distinct_card [OF this] have "card (set (map cp_id ?rows)) = length pids" using len by simp
  moreover have sub: "set (map cp_id ?rows) \<subseteq> set pids" by (auto simp: guard_rows_def)
  ultimately have "set (map cp_id ?rows) = set pids"
    using card_length [of pids] by (intro card_seteq) auto
  then have "pid \<in> cp_id ` set ?rows" using m by simp
  then obtain p where "p \<in> set ?rows" "cp_id p = pid" by blast
  moreover have "cp_archivedAt p = None" using none calculation(1) by (auto simp: find_None_all)
  ultimately show ?thesis by (auto simp: guard_rows_def)
qed

lemma variant_rows_all:
  assumes g: "guardVariants org vids access d = Inr u" and u: "distinct (map v_id (db_variants d))"
    and m: "vid \<in> set vids"
  shows "\<exists>v \<in> set (db_variants d). v_id v = vid \<and> v_organizationId v = org \<and> may_access access (v_storeId v)"
proof -
  let ?rows = "variant_rows org vids access d"
  have len: "length ?rows = length vids" using g by (simp add: guardVariants_def)
  have "distinct (map v_id ?rows)" using u by (simp add: variant_rows_def distinct_map_filter)
  from distinct_card [OF this] have "card (set (map v_id ?rows)) = length vids" using len by simp
  moreover have "set (map v_id ?rows) \<subseteq> set vids" by (auto simp: variant_rows_def)
  ultimately have "set (map v_id ?rows) = set vids"
    using card_length [of vids] by (intro card_seteq) auto
  then have "vid \<in> v_id ` set ?rows" using m by simp
  then obtain v where "v \<in> set ?rows" "v_id v = vid" by blast
  then show ?thesis by (auto simp: variant_rows_def)
qed

lemma short_remdups: "length (remdups xs) \<le> 1 \<Longrightarrow> x \<in> set xs \<Longrightarrow> y \<in> set xs \<Longrightarrow> x = y"
proof -
  assume l: "length (remdups xs) \<le> 1" and m: "x \<in> set xs" "y \<in> set xs"
  have "card (set xs) \<le> 1" using l by (simp add: length_remdups_card_conv)
  then show "x = y" using m card_le_Suc0_iff_eq [of "set xs"] by auto
qed

lemma one_store:
  assumes g: "assertSameStore org pids vids d = Inr u"
    and "p \<in> set (db_costProfiles d)" "cp_id p \<in> set pids" "cp_organizationId p = org"
    and "v \<in> set (db_variants d)" "v_id v \<in> set vids" "v_organizationId v = org"
  shows "cp_storeId p = v_storeId v"
proof -
  let ?ps = "filter (\<lambda>p. cp_id p \<in> set pids \<and> cp_organizationId p = org) (db_costProfiles d)"
  let ?vs = "filter (\<lambda>v. v_id v \<in> set vids \<and> v_organizationId v = org) (db_variants d)"
  have "length (remdups (map cp_storeId ?ps @ map v_storeId ?vs)) \<le> 1"
    using g unfolding assertSameStore_def Let_def failIf_eq_Inr by simp
  then show ?thesis by (rule short_remdups) (use assms in auto)
qed

section \<open>What a flip does\<close>

definition becomes_promotable :: "id \<Rightarrow> id list \<Rightarrow> db \<Rightarrow> buffer_row \<Rightarrow> bool" where
  "becomes_promotable org vids d b \<longleftrightarrow>
     b_organizationId b = org \<and> b_status b = BS_PENDING \<and> promotable (b_storeId b) d b
   \<and> (\<exists>v \<in> set (db_variants d). v_id v \<in> set vids \<and> v_organizationId v = org \<and> v_storeId v = b_storeId b
        \<and> v_barcode v \<in> set (map ml_barcode (mo_lines (b_mappedOrder b))))"

definition flipped :: "buffer_row \<Rightarrow> buffer_row" where
  "flipped b = b \<lparr> b_status := BS_PROMOTING \<rparr>"

lemma latest_cost_buffer [simp]: "latest_cost (d \<lparr> db_buffer := x \<rparr>) = latest_cost d"
  by (rule ext) (simp add: latest_cost_def split: option.split)

lemma promotable_buffer [simp]: "promotable sid (d \<lparr> db_buffer := x \<rparr>) b = promotable sid d b"
  by (simp add: promotable_def buildCalcCheckLines_def cong: option.case_cong)

definition in_group :: "id \<Rightarrow> db \<Rightarrow> id \<times> string list \<Rightarrow> buffer_row \<Rightarrow> bool" where
  "in_group org d grp b \<longleftrightarrow> b_storeId b = fst grp \<and> b_organizationId b = org \<and> b_status b = BS_PENDING
     \<and> list_ex (\<lambda>l. ml_barcode l \<in> set (snd grp)) (mo_lines (b_mappedOrder b)) \<and> promotable (fst grp) d b"

lemma flip_store_buffer:
  assumes ids: "distinct (map b_id (db_buffer (fst s)))"
  shows "fst (flip_store org s grp) = (fst s) \<lparr> db_buffer := map (\<lambda>b. if in_group org (fst s) grp b then flipped b else b) (db_buffer (fst s)) \<rparr>"
    and "snd (flip_store org s grp) = snd s + length (filter (in_group org (fst s) grp) (db_buffer (fst s)))"
proof -
  obtain sid bcs where g: "grp = (sid, bcs)" by (cases grp)
  let ?d = "fst s"
  let ?ids = "map b_id (filter (promotable sid ?d) (flip_candidates org sid bcs ?d))"
  let ?hit = "\<lambda>b. b_id b \<in> set ?ids \<and> b_status b = BS_PENDING"
  have hit: "?hit b \<longleftrightarrow> in_group org ?d grp b" if b: "b \<in> set (db_buffer ?d)" for b
  proof
    assume "?hit b"
    then obtain c where c: "c \<in> set (db_buffer ?d)" "b_id c = b_id b" "in_group org ?d grp c"
      by (auto simp: flip_candidates_def in_group_def g)
    then have "c = b" using ids b by (auto simp: distinct_map inj_on_def)
    with c show "in_group org ?d grp b" by simp
  next
    assume "in_group org ?d grp b"
    then show "?hit b" using b by (auto simp: flip_candidates_def in_group_def g)
  qed
  have len: "filter ?hit (db_buffer ?d) = filter (in_group org ?d grp) (db_buffer ?d)"
    using hit by (intro filter_cong) auto
  have map: "update_where ?hit (\<lambda>b. b \<lparr> b_status := BS_PROMOTING \<rparr>) (db_buffer ?d)
      = map (\<lambda>b. if in_group org ?d grp b then flipped b else b) (db_buffer ?d)"
    unfolding update_where_def flipped_def using hit by (intro map_cong) auto
  have "flip_store org s grp = (?d \<lparr> db_buffer := map (\<lambda>b. if in_group org ?d grp b then flipped b else b) (db_buffer ?d) \<rparr>,
      snd s + length (filter (in_group org ?d grp) (db_buffer ?d)))"
  proof (cases "?ids = []")
    case True
    then have no: "\<not> in_group org ?d grp b" if "b \<in> set (db_buffer ?d)" for b using hit [OF that] by simp
    then have "map (\<lambda>b. if in_group org ?d grp b then flipped b else b) (db_buffer ?d) = db_buffer ?d"
      by (intro map_idI) simp
    moreover have "filter (in_group org ?d grp) (db_buffer ?d) = []" using no by (simp add: filter_empty_conv)
    ultimately show ?thesis using True by (cases s) (simp add: flip_store_def g)
  next
    case False
    then have "flip_store org s grp = (?d \<lparr> db_buffer := update_where ?hit (\<lambda>b. b \<lparr> b_status := BS_PROMOTING \<rparr>) (db_buffer ?d) \<rparr>,
        snd s + length (filter ?hit (db_buffer ?d)))"
      by (simp add: flip_store_def g Let_def)
    then show ?thesis unfolding map len .
  qed
  then show "fst (flip_store org s grp) = ?d \<lparr> db_buffer := map (\<lambda>b. if in_group org ?d grp b then flipped b else b) (db_buffer ?d) \<rparr>"
    and "snd (flip_store org s grp) = snd s + length (filter (in_group org ?d grp) (db_buffer ?d))"
    by simp_all
qed

lemma flip_stores:
  assumes "distinct (map b_id (db_buffer (fst s)))" and "distinct (map fst gs)"
  shows "foldl (flip_store org) s gs =
    ((fst s) \<lparr> db_buffer := map (\<lambda>b. if \<exists>g \<in> set gs. in_group org (fst s) g b then flipped b else b) (db_buffer (fst s)) \<rparr>,
     snd s + length (filter (\<lambda>b. \<exists>g \<in> set gs. in_group org (fst s) g b) (db_buffer (fst s))))"
  using assms
proof (induction gs arbitrary: s)
  case Nil
  then show ?case by (cases s) simp
next
  case (Cons g gs)
  let ?t = "flip_store org s g"
  note ft = flip_store_buffer [OF Cons.prems(1), of org g]
  have ids: "map b_id (db_buffer (fst ?t)) = map b_id (db_buffer (fst s))"
    unfolding ft(1) by (simp add: flipped_def)
  have other: "in_group org (fst ?t) h (if in_group org (fst s) g b then flipped b else b) \<longleftrightarrow> in_group org (fst s) h b"
    if "h \<in> set gs" for h b
  proof -
    have "fst h \<in> fst ` set gs" using that by (rule imageI)
    then have "fst h \<noteq> fst g" using Cons.prems(2) by (metis distinct.simps(2) list.set_map list.simps(9))
    then show ?thesis unfolding ft(1) by (auto simp: in_group_def flipped_def)
  qed
  have ex: "(\<exists>h \<in> set gs. in_group org (fst ?t) h (if in_group org (fst s) g b then flipped b else b))
      \<longleftrightarrow> (\<exists>h \<in> set gs. in_group org (fst s) h b)" for b
    using other by auto
  have disj: "\<not> (in_group org (fst s) g b \<and> (\<exists>h \<in> set gs. in_group org (fst s) h b))" for b
    using Cons.prems(2) by (auto simp: in_group_def)
  have IH: "foldl (flip_store org) ?t gs =
    ((fst ?t) \<lparr> db_buffer := map (\<lambda>b. if \<exists>h \<in> set gs. in_group org (fst ?t) h b then flipped b else b) (db_buffer (fst ?t)) \<rparr>,
     snd ?t + length (filter (\<lambda>b. \<exists>h \<in> set gs. in_group org (fst ?t) h b) (db_buffer (fst ?t))))"
    by (rule Cons.IH) (use Cons.prems ids in auto)
  have b1: "map (\<lambda>b. if \<exists>h \<in> set gs. in_group org (fst ?t) h b then flipped b else b) (db_buffer (fst ?t))
      = map (\<lambda>b. if \<exists>h \<in> set (g # gs). in_group org (fst s) h b then flipped b else b) (db_buffer (fst s))"
    (is "map ?f _ = _")
  proof -
    have "db_buffer (fst ?t) = map (\<lambda>b. if in_group org (fst s) g b then flipped b else b) (db_buffer (fst s))"
      unfolding ft(1) by simp
    then have "map ?f (db_buffer (fst ?t)) = map (\<lambda>b. ?f (if in_group org (fst s) g b then flipped b else b)) (db_buffer (fst s))"
      by (simp add: comp_def)
    also have "\<dots> = map (\<lambda>b. if \<exists>h \<in> set (g # gs). in_group org (fst s) h b then flipped b else b) (db_buffer (fst s))"
      unfolding ex using disj by (intro map_cong [OF refl]) auto
    finally show ?thesis .
  qed
  have "length (filter (\<lambda>b. \<exists>h \<in> set gs. in_group org (fst ?t) h b) (db_buffer (fst ?t)))
      = length (filter (\<lambda>b. \<exists>h \<in> set gs. in_group org (fst s) h b) (db_buffer (fst s)))"
  proof -
    have "db_buffer (fst ?t) = map (\<lambda>b. if in_group org (fst s) g b then flipped b else b) (db_buffer (fst s))"
      unfolding ft(1) by simp
    then show ?thesis by (simp only: filter_map length_map comp_def ex)
  qed
  moreover have "length (filter (in_group org (fst s) g) xs) + length (filter (\<lambda>b. \<exists>h \<in> set gs. in_group org (fst s) h b) xs)
      = length (filter (\<lambda>b. \<exists>h \<in> set (g # gs). in_group org (fst s) h b) xs)" for xs
    using disj by (induction xs) auto
  ultimately have n: "snd ?t + length (filter (\<lambda>b. \<exists>h \<in> set gs. in_group org (fst ?t) h b) (db_buffer (fst ?t)))
      = snd s + length (filter (\<lambda>b. \<exists>h \<in> set (g # gs). in_group org (fst s) h b) (db_buffer (fst s)))"
    unfolding ft(2) by (simp only: add.assoc)
  show ?case unfolding foldl_Cons IH b1 n by (simp add: ft(1))
qed

lemma flip_groups:
  "(\<exists>g \<in> set (barcodesByStore (filter (\<lambda>v. v_id v \<in> set vids \<and> v_organizationId v = org) (db_variants d))). in_group org d g b)
     \<longleftrightarrow> becomes_promotable org vids d b"
proof
  assume "\<exists>g \<in> set (barcodesByStore (filter (\<lambda>v. v_id v \<in> set vids \<and> v_organizationId v = org) (db_variants d))). in_group org d g b"
  then obtain sid where g: "in_group org d (sid, map v_barcode (filter (\<lambda>v. v_storeId v = sid)
      (filter (\<lambda>v. v_id v \<in> set vids \<and> v_organizationId v = org) (db_variants d)))) b"
    by (auto simp: barcodesByStore_def)
  then obtain l v where "l \<in> set (mo_lines (b_mappedOrder b))" "v \<in> set (db_variants d)" "v_id v \<in> set vids"
    "v_organizationId v = org" "v_storeId v = sid" "v_barcode v = ml_barcode l"
    by (auto simp: in_group_def list_ex_iff)
  with g show "becomes_promotable org vids d b"
    unfolding becomes_promotable_def in_group_def by (auto intro!: bexI [of _ v])
next
  assume b: "becomes_promotable org vids d b"
  let ?vs = "filter (\<lambda>v. v_id v \<in> set vids \<and> v_organizationId v = org) (db_variants d)"
  obtain v where v: "v \<in> set ?vs" "v_storeId v = b_storeId b" "v_barcode v \<in> set (map ml_barcode (mo_lines (b_mappedOrder b)))"
    using b by (auto simp: becomes_promotable_def)
  let ?g = "(b_storeId b, map v_barcode (filter (\<lambda>v. v_storeId v = b_storeId b) ?vs))"
  have "?g \<in> set (barcodesByStore ?vs)"
    unfolding barcodesByStore_def set_map set_remdups using v(1,2) by (intro image_eqI [of _ _ "b_storeId b"]) (auto intro: rev_image_eqI)
  moreover obtain l where l: "l \<in> set (mo_lines (b_mappedOrder b))" "ml_barcode l = v_barcode v" using v(3) by auto
  have "v_barcode v \<in> set (snd ?g)" using v(1,2) by simp
  then have "list_ex (\<lambda>l. ml_barcode l \<in> set (snd ?g)) (mo_lines (b_mappedOrder b))"
    unfolding list_ex_iff using l by (intro bexI [of _ l]) simp_all
  then have "in_group org d ?g b" using b by (simp add: in_group_def becomes_promotable_def)
  ultimately show "\<exists>g \<in> set (barcodesByStore ?vs). in_group org d g b" by blast
qed

lemma flip_result:
  assumes "distinct (map b_id (db_buffer d))"
  shows "flipBufferForVariants org vids d =
    (d \<lparr> db_buffer := map (\<lambda>b. if becomes_promotable org vids d b then flipped b else b) (db_buffer d) \<rparr>,
     length (filter (becomes_promotable org vids d) (db_buffer d)))"
proof -
  let ?gs = "barcodesByStore (filter (\<lambda>v. v_id v \<in> set vids \<and> v_organizationId v = org) (db_variants d))"
  have "distinct (map fst ?gs)" by (simp add: barcodesByStore_def comp_def)
  from flip_stores [of "(d, 0)", OF _ this, of org] assms show ?thesis
    by (simp add: flipBufferForVariants_def Let_def flip_groups)
qed

end
