(* ===== verification/Buffer_Life.thy ===== *)
theory Buffer_Life
  imports Cost_Attach
begin

text \<open>
  The life of a buffered order as a state machine on the database: the intake, the attachment,
  replacement and removal of costs, and the ticks that promote and flush. Every step keeps the
  tables well formed and the retry counters of the entries in their range.
\<close>

section \<open>Entries\<close>

definition entry_ok :: "buffer_row \<Rightarrow> bool" where
  "entry_ok b \<longleftrightarrow> mo_platformOrderId (b_mappedOrder b) = b_platformOrderId b
     \<and> b_attempts b \<le> MAX_ATTEMPTS + 1
     \<and> (b_status b = BS_PERMANENT_FAILED \<longleftrightarrow> b_attempts b = MAX_ATTEMPTS + 1)
     \<and> (b_status b = BS_FAILED \<longrightarrow> 1 \<le> b_attempts b \<and> b_lastFailedAt b \<noteq> None)"

definition buffer_inv :: "db \<Rightarrow> bool" where
  "buffer_inv d \<longleftrightarrow> wf_tables d \<and> (\<forall>b \<in> set (db_buffer d). entry_ok b)"

lemma MAX_ATTEMPTS_3: "MAX_ATTEMPTS = 3"
  by (simp add: MAX_ATTEMPTS_def RETRY_BACKOFF_MINUTES_def)

lemma entry_ok_new: "entry_ok (new_buffer_row bid sid org day mo)"
  by (simp add: entry_ok_def new_buffer_row_def)

lemma entry_ok_failed: "entry_ok b \<Longrightarrow> b_status b \<noteq> BS_PERMANENT_FAILED \<Longrightarrow> entry_ok (set_failed msg clk (b_attempts b + 1) err b)"
  by (auto simp: entry_ok_def set_failed_def)

lemma entry_ok_status:
  "entry_ok b \<Longrightarrow> b_status b \<noteq> BS_PERMANENT_FAILED \<Longrightarrow> st = BS_PENDING \<or> st = BS_PROMOTING \<Longrightarrow> entry_ok (b \<lparr> b_status := st \<rparr>)"
  by (auto simp: entry_ok_def)

lemma buffer_unique:
  assumes "buffer_inv d" and "find_entry bid d = Some e" and "b \<in> set (db_buffer d)" and "b_id b = bid"
  shows "b = e"
  using assms find_entry_Some [OF assms(2)] by (auto simp: buffer_inv_def wf_tables_def wf_buffer_def dest: ids_ok_same)

lemma wf_tables_buffer:
  assumes "wf_tables d" and "ids_ok b_id x (db_nextId d)" and "distinct (map buffer_id x)"
  shows "wf_tables (d \<lparr> db_buffer := x \<rparr>)"
  using assms by (simp add: wf_tables_def wf_buffer_def)

lemma update_entry_inv:
  assumes i: "buffer_inv d" and e: "find_entry bid d = Some e" and ok: "entry_ok (g e)"
    and k: "\<And>b. b_id (g b) = b_id b \<and> buffer_id (g b) = buffer_id b"
  shows "buffer_inv (update_entry bid g d)"
proof -
  let ?u = "update_where (\<lambda>b. b_id b = bid) g (db_buffer d)"
  have m: "map b_id ?u = map b_id (db_buffer d)" "map buffer_id ?u = map buffer_id (db_buffer d)"
    using k by (simp_all add: map_update_where)
  have "wf_tables (update_entry bid g d)"
    unfolding update_entry_def using i
    by (intro wf_tables_buffer) (simp_all add: ids_ok_map [OF m(1)] m(2), simp_all add: buffer_inv_def wf_tables_def wf_buffer_def)
  moreover have "entry_ok b" if b: "b \<in> set ?u" for b
  proof -
    obtain x where x: "x \<in> set (db_buffer d)" "b = (if b_id x = bid then g x else x)"
      using b by (auto simp: set_update_where)
    show ?thesis
      using x buffer_unique [OF i e x(1)] ok i by (auto simp: buffer_inv_def)
  qed
  ultimately show ?thesis by (simp add: buffer_inv_def)
qed

section \<open>Graduation\<close>

lemma graduate_inv:
  assumes g: "graduate D off clk excl e d = Inr d'" and i: "buffer_inv d"
  shows "buffer_inv d'"
proof -
  obtain d1 where u: "upsertOrderWithSnapshot D off clk (b_storeId e) (b_organizationId e) (b_mappedOrder e)
      \<lparr> uo_profitExclusion = excl, uo_promotedFromBuffer = True \<rparr> d = Inr d1"
    and d': "d' = delete_buffer (\<lambda>b. b_id b = b_id e) d1"
    by (rule graduateE [OF g])
  show ?thesis
    using i upsert_tables [OF u] upsert_buffer [OF u] unfolding d'
    by (auto simp: buffer_inv_def delete_buffer_tables)
qed

lemma not_permanent: "eligible now e \<Longrightarrow> b_status e \<noteq> BS_PERMANENT_FAILED"
  by (auto simp: eligible_def)

lemma promoteOne_inv: "buffer_inv d \<Longrightarrow> buffer_inv (promoteOne msg D off locked now clk d bid)"
proof -
  assume i: "buffer_inv d"
  show ?thesis
  proof (rule promoteOneE [of msg D off locked now clk d bid])
    fix e assume e: "find_entry bid d = Some e" "eligible now e"
      and p: "promoteOne msg D off locked now clk d bid = update_entry bid (\<lambda>b. b \<lparr> b_status := BS_PENDING \<rparr>) d"
    have "entry_ok e" using i find_entry_Some [OF e(1)] by (simp add: buffer_inv_def)
    then show ?thesis unfolding p using not_permanent [OF e(2)]
      by (intro update_entry_inv [OF i e(1)] entry_ok_status) (simp_all add: buffer_id_def)
  next
    fix e err assume e: "find_entry bid d = Some e" "eligible now e"
      and p: "promoteOne msg D off locked now clk d bid = update_entry bid (set_failed msg clk (b_attempts e + 1) err) d"
    have "entry_ok e" using i find_entry_Some [OF e(1)] by (simp add: buffer_inv_def)
    then show ?thesis unfolding p using not_permanent [OF e(2)]
      by (intro update_entry_inv [OF i e(1)] entry_ok_failed) (simp_all add: buffer_id_def set_failed_def)
  qed (use i graduate_inv in auto)
qed

lemma flushOne_inv: "buffer_inv d \<Longrightarrow> buffer_inv (snd (flushOne msg D off locked clk d bid))"
proof -
  assume i: "buffer_inv d"
  show ?thesis
  proof (rule flushOneE [of msg D off locked clk d bid])
    fix e err assume e: "find_entry bid d = Some e" "b_status e = BS_PENDING"
      and p: "snd (flushOne msg D off locked clk d bid) = update_entry bid (set_failed msg clk (b_attempts e + 1) err) d"
    have "entry_ok e" using i find_entry_Some [OF e(1)] by (simp add: buffer_inv_def)
    then show ?thesis unfolding p using e(2)
      by (intro update_entry_inv [OF i e(1)] entry_ok_failed) (simp_all add: buffer_id_def set_failed_def)
  qed (use i graduate_inv in auto)
qed

section \<open>Intake and costs\<close>

lemma intake_inv:
  assumes i: "intakeOrder D off now sid org mo d = (res, d')" and b: "buffer_inv d"
  shows "buffer_inv d'"
proof -
  have wf: "wf_tables d" using b by (simp add: buffer_inv_def)
  have p: "\<forall>b \<in> set (db_buffer d'). entry_ok b"
    if "persist D off now sid org mo excl why d0 = (res, d')" "set (db_buffer d0) \<subseteq> set (db_buffer d)" for excl why d0
    using that(1)
  proof (cases rule: persistE)
    case failed
    then show ?thesis using that(2) b by (auto simp: buffer_inv_def)
  next
    case written
    then show ?thesis using that(2) b upsert_buffer [OF written(2)] by (auto simp: buffer_inv_def)
  qed
  have "\<forall>b \<in> set (db_buffer d'). entry_ok b"
    using i
  proof (cases rule: intakeE)
    case (ghost out)
    obtain d2 where "same_but_stock d d2" "d' = delete_buffer (is_buffered org sid (mo_platformOrderId mo))
            (delete_orders (is_ghost org sid (mo_platformOrderId mo)) d2)"
      by (rule dematerializeE [OF ghost(3)])
    then show ?thesis using b same_but_stock_sel(4) [OF \<open>same_but_stock d d2\<close>] by (auto simp: buffer_inv_def)
  next
    case cancelled
    show ?thesis by (rule p [OF cancelled(2)]) auto
  next
    case (direct excl why)
    show ?thesis by (rule p [OF direct(3)]) simp
  next
    case (buffer t out)
    from buffer(5) show ?thesis
    proof (cases rule: buffer_orderE)
      case old
      have wb: "wf_buffer d" using wf by (simp add: wf_tables_def)
      obtain x where x: "x \<in> set (db_buffer d)" "buffer_key sid (mo_platformOrderId mo) x"
        "out = BufferedDeduped False \<and> d' = d
         \<or> out = BufferedDeduped True \<and> b_status x = BS_PENDING \<and> should_refresh mo x
           \<and> d' = d \<lparr> db_buffer := update_where (\<lambda>y. y = x) (\<lambda>y. y \<lparr> b_mappedOrder := mo \<rparr>) (db_buffer d) \<rparr>"
        by (rule refreshE [OF old(2,1) wb])
      have "entry_ok x" using b x(1) by (simp add: buffer_inv_def)
      then have "entry_ok (x \<lparr> b_mappedOrder := mo \<rparr>)" using x(2) by (auto simp: entry_ok_def buffer_key_def)
      then show ?thesis using x(3) b by (auto simp: buffer_inv_def set_update_where)
    next
      case (fresh d1)
      have "same_but_stock d1 d'" unfolding fresh(4) by (simp add: decrementBuffered_stock)
      then have "db_buffer d' = db_buffer d1" by (rule same_but_stock_sel)
      then show ?thesis using b entry_ok_new unfolding fresh(3) by (auto simp: buffer_inv_def)
    qed
  qed (use b in \<open>auto simp: buffer_inv_def\<close>)
  with intake_tables [OF i wf] show ?thesis by (simp add: buffer_inv_def)
qed

lemma wf_tables_links [simp]: "wf_tables (d \<lparr> db_costLinks := x \<rparr>) = wf_tables d"
  by (simp add: wf_tables_def wf_db_def wf_fees_def one_estimate_def items_fk_def wf_buffer_def)

lemma buffer_inv_links [simp]: "buffer_inv (d \<lparr> db_costLinks := x \<rparr>) = buffer_inv d"
  by (simp add: buffer_inv_def)

lemma flip_inv:
  assumes i: "buffer_inv d" and f: "flipBufferForVariants org vids d = (d', n)"
  shows "buffer_inv d'"
proof -
  let ?f = "\<lambda>b. if becomes_promotable org vids d b then flipped b else b"
  have ids: "distinct (map b_id (db_buffer d))" using i by (simp add: buffer_inv_def wf_tables_def wf_buffer_def ids_ok_def)
  have d': "d' = d \<lparr> db_buffer := map ?f (db_buffer d) \<rparr>" using f flip_result [OF ids] by simp
  have m: "map b_id (map ?f (db_buffer d)) = map b_id (db_buffer d)"
    "map buffer_id (map ?f (db_buffer d)) = map buffer_id (db_buffer d)"
    by (simp_all add: flipped_def buffer_id_def)
  have "wf_tables d'"
    unfolding d' using i
    by (intro wf_tables_buffer) (simp_all only: ids_ok_map [OF m(1)] m(2), simp_all add: buffer_inv_def wf_tables_def wf_buffer_def)
  moreover have "entry_ok (?f b)" if "b \<in> set (db_buffer d)" for b
    using i that entry_ok_status [of b BS_PROMOTING] by (auto simp: buffer_inv_def becomes_promotable_def flipped_def)
  then have "\<forall>b \<in> ?f ` set (db_buffer d). entry_ok b" by blast
  ultimately show ?thesis unfolding buffer_inv_def d' by simp
qed

lemma attach_inv: "attachCostProfiles org pids vids access now d = Inr (r, d') \<Longrightarrow> buffer_inv d \<Longrightarrow> buffer_inv d'"
  by (auto simp: attachCostProfiles_def bindR_eq_Inr Let_def create_links_def split: prod.splits
      intro: flip_inv [rotated])

lemma replace_inv: "replaceCostProfilesForVariants org vids pids access now d = Inr (r, d') \<Longrightarrow> buffer_inv d \<Longrightarrow> buffer_inv d'"
  by (auto simp: replaceCostProfilesForVariants_def bindR_eq_Inr Let_def create_links_def split: prod.splits if_splits
      intro: flip_inv [rotated])

lemma detach_inv: "detachCostProfiles org pids vids access d = Inr (r, d') \<Longrightarrow> buffer_inv d \<Longrightarrow> buffer_inv d'"
  by (auto simp: detachCostProfiles_def bindR_eq_Inr Let_def)

section \<open>The machine\<close>

inductive buffer_step :: "(intake_error \<Rightarrow> string) \<Rightarrow> dec \<Rightarrow> (time \<Rightarrow> int) \<Rightarrow> db \<Rightarrow> db \<Rightarrow> bool"
  for msg :: "intake_error \<Rightarrow> string" and D :: dec and off :: "time \<Rightarrow> int" where
  intake_step: "intakeOrder D off now sid org mo d = (res, d') \<Longrightarrow> buffer_step msg D off d d'"
| promote_step: "buffer_step msg D off d (processBufferPromote msg D off locked now clk d)"
| flush_step: "buffer_step msg D off d (processPastDayBufferFlush msg D off locked now clk d)"
| attach_step: "attachCostProfiles org pids vids access now d = Inr (r, d') \<Longrightarrow> buffer_step msg D off d d'"
| replace_step: "replaceCostProfilesForVariants org vids pids access now d = Inr (q, d') \<Longrightarrow> buffer_step msg D off d d'"
| detach_step: "detachCostProfiles org pids vids access d = Inr (n, d') \<Longrightarrow> buffer_step msg D off d d'"

definition buffer_init :: "db \<Rightarrow> bool" where
  "buffer_init d \<longleftrightarrow> wf_tables d \<and> db_buffer d = []"

lemma buffer_step_inv: "buffer_step msg D off d d' \<Longrightarrow> buffer_inv d \<Longrightarrow> buffer_inv d'"
proof (induction rule: buffer_step.induct)
  case (promote_step d locked now clk)
  then show ?case by (rule promote_tick) (rule promoteOne_inv)
next
  case (flush_step d locked now clk)
  then show ?case by (rule flush_tick) (rule flushOne_inv)
qed (auto intro: intake_inv attach_inv replace_inv detach_inv)

interpretation buffer_sys: invariant_system buffer_init "buffer_step msg D off" buffer_inv
proof
  show "buffer_init s \<Longrightarrow> buffer_inv s" for s by (simp add: buffer_init_def buffer_inv_def)
  show "buffer_inv s \<Longrightarrow> buffer_step msg D off s t \<Longrightarrow> buffer_inv t" for s t by (rule buffer_step_inv)
qed

section \<open>Nothing is lost\<close>

text \<open>An entry is still buffered, with the same order, or its order is in \<open>orders\<close>.\<close>

definition entry_kept :: "db \<Rightarrow> buffer_row \<Rightarrow> bool" where
  "entry_kept d b \<longleftrightarrow>
     (\<exists>b' \<in> set (db_buffer d). b_id b' = b_id b \<and> buffer_id b' = buffer_id b \<and> b_mappedOrder b' = b_mappedOrder b)
   \<or> order_by_key (b_storeId b) (b_platformOrderId b) d \<noteq> None"

definition no_loss :: "db \<Rightarrow> db \<Rightarrow> bool" where
  "no_loss d d' \<longleftrightarrow> (\<forall>b \<in> set (db_buffer d). entry_kept d' b)
     \<and> (\<forall>sid pid. order_by_key sid pid d \<noteq> None \<longrightarrow> order_by_key sid pid d' \<noteq> None)"

lemma no_loss_refl [simp]: "no_loss d d"
  by (auto simp: no_loss_def entry_kept_def)

lemma no_loss_trans: "no_loss a b \<Longrightarrow> no_loss b c \<Longrightarrow> no_loss a c"
  unfolding no_loss_def
proof (elim conjE, intro conjI)
  assume a: "\<forall>x \<in> set (db_buffer a). entry_kept b x" and b: "\<forall>x \<in> set (db_buffer b). entry_kept c x"
    and k: "\<forall>sid pid. order_by_key sid pid b \<noteq> None \<longrightarrow> order_by_key sid pid c \<noteq> None"
  show "\<forall>x \<in> set (db_buffer a). entry_kept c x"
  proof
    fix x assume "x \<in> set (db_buffer a)"
    then have "entry_kept b x" using a by blast
    then show "entry_kept c x" unfolding entry_kept_def
    proof
      assume "\<exists>y \<in> set (db_buffer b). b_id y = b_id x \<and> buffer_id y = buffer_id x \<and> b_mappedOrder y = b_mappedOrder x"
      then obtain y where y: "y \<in> set (db_buffer b)" "b_id y = b_id x" "buffer_id y = buffer_id x" "b_mappedOrder y = b_mappedOrder x"
        by blast
      have "entry_kept c y" using b y(1) by blast
      then show "(\<exists>b' \<in> set (db_buffer c). b_id b' = b_id x \<and> buffer_id b' = buffer_id x \<and> b_mappedOrder b' = b_mappedOrder x)
          \<or> order_by_key (b_storeId x) (b_platformOrderId x) c \<noteq> None"
        using y by (auto simp: entry_kept_def buffer_id_def)
    next
      assume "order_by_key (b_storeId x) (b_platformOrderId x) b \<noteq> None"
      then show "(\<exists>b' \<in> set (db_buffer c). b_id b' = b_id x \<and> buffer_id b' = buffer_id x \<and> b_mappedOrder b' = b_mappedOrder x)
          \<or> order_by_key (b_storeId x) (b_platformOrderId x) c \<noteq> None"
        using k by blast
    qed
  qed
qed blast

lemma update_entry_no_loss:
  assumes "\<And>b. b_id (g b) = b_id b \<and> buffer_id (g b) = buffer_id b \<and> b_mappedOrder (g b) = b_mappedOrder b"
  shows "no_loss d (update_entry bid g d)"
  unfolding no_loss_def
proof (intro conjI ballI allI impI)
  fix b assume b: "b \<in> set (db_buffer d)"
  let ?b = "if b_id b = bid then g b else b"
  have "?b \<in> set (db_buffer (update_entry bid g d))" using b by (simp add: set_update_where)
  moreover have "b_id ?b = b_id b" "buffer_id ?b = buffer_id b" "b_mappedOrder ?b = b_mappedOrder b"
    using assms by simp_all
  ultimately show "entry_kept (update_entry bid g d) b" unfolding entry_kept_def by blast
next
  fix s p assume "order_by_key s p d \<noteq> None"
  then show "order_by_key s p (update_entry bid g d) \<noteq> None" by (simp add: order_by_key_def)
qed

lemma graduate_no_loss:
  assumes g: "graduate D off clk excl e d = Inr d'" and i: "buffer_inv d"
    and e: "find_entry bid d = Some e"
  shows "no_loss d d'"
proof -
  obtain d1 where u: "upsertOrderWithSnapshot D off clk (b_storeId e) (b_organizationId e) (b_mappedOrder e)
      \<lparr> uo_profitExclusion = excl, uo_promotedFromBuffer = True \<rparr> d = Inr d1"
    and d': "d' = delete_buffer (\<lambda>b. b_id b = b_id e) d1"
    by (rule graduateE [OF g])
  have wf: "wf_db d" using i by (simp add: buffer_inv_def wf_tables_def)
  have orders: "order_by_key s p d' = order_by_key s p d1" for s p unfolding d' by (simp add: order_by_key_def)
  have "mo_platformOrderId (b_mappedOrder e) = b_platformOrderId e"
    using i find_entry_Some [OF e] by (auto simp: buffer_inv_def entry_ok_def)
  then have own: "order_by_key (b_storeId e) (b_platformOrderId e) d1 \<noteq> None" using upsert_present [OF u wf] by simp
  have "entry_kept d' b" if b: "b \<in> set (db_buffer d)" for b
  proof (cases "b_id b = b_id e")
    case True
    then have "b = e" using buffer_unique [OF i e b] find_entry_Some [OF e] by simp
    then show ?thesis using own orders by (simp add: entry_kept_def)
  next
    case False
    then have "b \<in> set (db_buffer d')" using b upsert_buffer [OF u] unfolding d' by simp
    then show ?thesis unfolding entry_kept_def by blast
  qed
  moreover have "order_by_key s p d \<noteq> None \<Longrightarrow> order_by_key s p d' \<noteq> None" for s p
    using upsert_keeps_keys [OF u wf] unfolding orders by blast
  ultimately show ?thesis unfolding no_loss_def by blast
qed

lemma promoteOne_no_loss: "buffer_inv d \<Longrightarrow> no_loss d (promoteOne msg D off locked now clk d bid)"
  by (rule promoteOneE [of msg D off locked now clk d bid])
    (auto simp: buffer_id_def set_failed_def intro: graduate_no_loss intro!: update_entry_no_loss)

lemma flushOne_no_loss: "buffer_inv d \<Longrightarrow> no_loss d (snd (flushOne msg D off locked clk d bid))"
  by (rule flushOneE [of msg D off locked clk d bid])
    (auto simp: buffer_id_def set_failed_def intro: graduate_no_loss intro!: update_entry_no_loss)

lemma promote_tick_no_loss:
  "buffer_inv d \<Longrightarrow> buffer_inv (processBufferPromote msg D off locked now clk d) \<and> no_loss d (processBufferPromote msg D off locked now clk d)"
  by (rule promote_tick [where I = "\<lambda>x. buffer_inv x \<and> no_loss d x"])
    (auto intro: promoteOne_inv no_loss_trans [OF _ promoteOne_no_loss])

lemma flush_tick_no_loss:
  "buffer_inv d \<Longrightarrow> buffer_inv (processPastDayBufferFlush msg D off locked now clk d) \<and> no_loss d (processPastDayBufferFlush msg D off locked now clk d)"
  by (rule flush_tick [where I = "\<lambda>x. buffer_inv x \<and> no_loss d x"])
    (auto intro: flushOne_inv no_loss_trans [OF _ flushOne_no_loss])

end
