(* ===== verification/Order_Claims.thy ===== *)
theory Order_Claims
  imports Buffer_Life
begin

text \<open>
  The properties of the way of an order into the system: the intake, the stock, the buffer, the
  costs that release it; with witnesses on a small shop.
\<close>

section \<open>The intake\<close>

text \<open>C34: Where an order ends. A persisted order is in \<open>orders\<close>; a buffered one is not in \<open>orders\<close> and has
  exactly one buffer entry, PENDING, with the event's snapshot; a repeated delivery leaves exactly
  one entry, with the new snapshot when it says so; a split ghost is in neither table. The ids and
  composite keys of all tables stay unique and no item loses its order.\<close>
theorem intake_outcome:
  assumes "intakeOrder D off now sid org mo d = (Inr out, d')" and "wf_tables d"
  shows "wf_tables d' \<and>
    (case out of
       Persisted why \<Rightarrow> order_by_key sid (mo_platformOrderId mo) d' \<noteq> None
     | Buffered \<Rightarrow> \<not> list_ex (is_ghost org sid (mo_platformOrderId mo)) (db_orders d')
         \<and> (\<exists>b. filter (buffer_key sid (mo_platformOrderId mo)) (db_buffer d') = [b]
               \<and> b_mappedOrder b = mo \<and> b_status b = BS_PENDING)
     | BufferedDeduped refreshed \<Rightarrow> db_orders d' = db_orders d
         \<and> \<not> list_ex (is_ghost org sid (mo_platformOrderId mo)) (db_orders d')
         \<and> (\<exists>b. filter (buffer_key sid (mo_platformOrderId mo)) (db_buffer d') = [b]
               \<and> (refreshed \<longrightarrow> b_mappedOrder b = mo \<and> b_status b = BS_PENDING))
     | Dematerialized a n \<Rightarrow> \<not> list_ex (is_ghost org sid (mo_platformOrderId mo)) (db_orders d')
         \<and> \<not> list_ex (is_buffered org sid (mo_platformOrderId mo)) (db_buffer d'))"
  using intake_tables [OF assms] intake_post_holds [OF assms] by (simp add: intake_post_def Let_def)


section \<open>Stock\<close>

lemma sold_nonneg: "\<forall>l \<in> set (mo_lines mo). 0 \<le> ml_quantity l \<Longrightarrow> 0 \<le> sold sid mo d vid"
  unfolding sold_def by (rule sold_units_nonneg) (auto simp: order_drops_def line_drop_def)

lemma intake_drop:
  assumes i: "intakeOrder D off now sid org mo d = (Inr out, d')" and wf: "wf_tables d"
    and new: "order_by_key sid (mo_platformOrderId mo) d = None"
    and out: "out = Buffered \<or> (\<exists>why. out = Persisted why)"
    and today: "isOrderOnBusinessToday off now (mo_orderDate mo)" "mo_status mo \<noteq> OS_CANCELLED"
    and lid: "\<forall>l \<in> set (mo_lines mo). ml_platformLineId l \<noteq> None" "distinct (map ml_platformLineId (mo_lines mo))"
  shows "db_variants d' = foldl drop_stock (db_variants d) (order_drops sid (mo_lines mo) d)"
  using i
proof (cases rule: intakeE)
  case (ghost o')
  then show ?thesis using out by (elim dematerializeE) auto
next
  case (direct excl why)
  from direct(3) show ?thesis
  proof (cases rule: persistE)
    case written
    have "should_decrement off now mo (no_opts \<lparr> uo_profitExclusion := excl \<rparr>)"
      using today by (simp add: should_decrement_def no_opts_def)
    then show ?thesis using upsert_new_drop [OF written(2) new _ _ _ lid] wf by (simp add: wf_tables_def)
  qed simp
next
  case (buffer t o')
  from buffer(5) show ?thesis
  proof (cases rule: buffer_orderE)
    case old
    have "wf_buffer d" using wf by (simp add: wf_tables_def)
    then show ?thesis using refreshE [OF old(2,1)] buffer(3) out by fastforce
  next
    case (fresh d1)
    have "db_variants d' = foldl drop_stock (db_variants d1) (order_drops sid (mo_lines mo) d1)"
      unfolding fresh(4) using today by (simp add: decrementBuffered_drop)
    moreover have "db_variants d1 = db_variants d" unfolding fresh(3) by simp
    moreover have "order_drops sid (mo_lines mo) d1 = order_drops sid (mo_lines mo) d"
      by (rule order_drops_keys) (simp add: fresh(3))
    ultimately show ?thesis by simp
  qed
qed (use today in simp_all)

lemma order_drops_nonneg: "\<forall>l \<in> set ls. 0 \<le> ml_quantity l \<Longrightarrow> \<forall>x \<in> set (order_drops sid ls d). 0 \<le> snd x"
  by (auto simp: order_drops_def line_drop_def)

text \<open>C36: A sale of today lowers the stock once, and by the same amount whichever way it goes: an order
  that is new, whether written directly or buffered, takes from every variant the units its lines
  sell of it, down to zero; and its later promotion or flush out of the buffer moves no stock.\<close>
theorem stock_drops_once:
  assumes "intakeOrder D off now sid org mo d = (Inr out, d')" and "wf_tables d"
    and "order_by_key sid (mo_platformOrderId mo) d = None"
    and "out = Buffered \<or> (\<exists>why. out = Persisted why)"
    and "isOrderOnBusinessToday off now (mo_orderDate mo)" and "mo_status mo \<noteq> OS_CANCELLED"
    and "\<forall>l \<in> set (mo_lines mo). ml_platformLineId l \<noteq> None" and "distinct (map ml_platformLineId (mo_lines mo))"
    and "\<forall>l \<in> set (mo_lines mo). 0 \<le> ml_quantity l" and "\<forall>v \<in> set (db_variants d). 0 \<le> v_quantity v"
  shows "db_variants d' = map (\<lambda>v. v \<lparr> v_quantity := max (v_quantity v - sold sid mo d (v_id v)) 0 \<rparr>) (db_variants d)
     \<and> db_variants (processPastDayBufferFlush msg D off locked now2 clk2
          (processBufferPromote msg D off locked now1 clk1 d')) = db_variants d'"
  using intake_drop [OF assms(1-8)] drops_quantity [OF order_drops_nonneg [OF assms(9)] assms(10)]
  by (simp add: ticks_stock sold_def)

lemma attach_effect:
  assumes a: "attachCostProfiles org pids vids access now d = Inr (r, d')" and i: "buffer_inv d"
  shows "d' = (create_links (new_links org pids vids now) d)
      \<lparr> db_buffer := map (\<lambda>b. if becomes_promotable org vids (create_links (new_links org pids vids now) d) b
          then flipped b else b) (db_buffer d) \<rparr>"
    and "ar_promoted r = length (filter (becomes_promotable org vids (create_links (new_links org pids vids now) d)) (db_buffer d))"
proof -
  let ?d = "create_links (new_links org pids vids now) d"
  have b: "db_buffer ?d = db_buffer d" by (simp add: create_links_def)
  have "distinct (map b_id (db_buffer ?d))" unfolding b using i by (simp add: buffer_inv_def wf_tables_def wf_buffer_def ids_ok_def)
  note fr = flip_result [OF this, of org vids]
  have "flipBufferForVariants org vids ?d = (d', ar_promoted r)"
    using a by (auto simp: attachCostProfiles_def bindR_eq_Inr Let_def split: prod.splits)
  then show "d' = ?d \<lparr> db_buffer := map (\<lambda>b. if becomes_promotable org vids ?d b then flipped b else b) (db_buffer d) \<rparr>"
    and "ar_promoted r = length (filter (becomes_promotable org vids ?d) (db_buffer d))"
    unfolding fr b by simp_all
qed


section \<open>The buffer\<close>

text \<open>C38: In every state the intake, the cost attachments and the two ticks can reach together, the retry
  counters of the buffer are in range: an entry fails at most four times, it is permanently failed
  exactly after the fourth, a failed one has been tried and knows when; every entry buffers the
  order it is filed under, and no two entries share an id or an order.\<close>
theorem buffer_reachable:
  assumes "reach buffer_init (buffer_step msg D off) d"
  shows "(\<forall>b \<in> set (db_buffer d). b_attempts b \<le> 4
       \<and> (b_status b = BS_PERMANENT_FAILED \<longleftrightarrow> b_attempts b = 4)
       \<and> (b_status b = BS_FAILED \<longrightarrow> b_attempts b \<in> {1, 2, 3} \<and> b_lastFailedAt b \<noteq> None)
       \<and> mo_platformOrderId (b_mappedOrder b) = b_platformOrderId b)
     \<and> distinct (map b_id (db_buffer d)) \<and> distinct (map buffer_id (db_buffer d))"
proof -
  have i: "buffer_inv d" by (rule buffer_sys.inv_reach [OF assms])
  have "b_attempts b \<in> {1, 2, 3}" if "entry_ok b" "b_status b = BS_FAILED" for b
    using that by (simp add: entry_ok_def MAX_ATTEMPTS_3) linarith
  then show ?thesis
    using i by (auto simp: buffer_inv_def entry_ok_def MAX_ATTEMPTS_3 wf_tables_def wf_buffer_def ids_ok_def)
qed

text \<open>C39: A promotion tick and a flush tick lose nothing: every buffered order is afterwards still
  buffered as it was, or has its row in \<open>orders\<close> (the row is written and the entry deleted in one
  transaction), and no order that was in \<open>orders\<close> disappears; whatever transactions fail and
  whichever rows other workers hold.\<close>
theorem graduation_no_loss:
  assumes "reach buffer_init (buffer_step msg D off) d"
    and "d' = processBufferPromote msg D off locked now clk d
       \<or> d' = processPastDayBufferFlush msg D off locked now clk d"
  shows "(\<forall>b \<in> set (db_buffer d).
        (\<exists>b' \<in> set (db_buffer d'). b_id b' = b_id b \<and> b_storeId b' = b_storeId b
             \<and> b_platformOrderId b' = b_platformOrderId b \<and> b_mappedOrder b' = b_mappedOrder b)
      \<or> order_by_key (b_storeId b) (b_platformOrderId b) d' \<noteq> None)
    \<and> (\<forall>sid pid. order_by_key sid pid d \<noteq> None \<longrightarrow> order_by_key sid pid d' \<noteq> None)"
proof -
  have i: "buffer_inv d" by (rule buffer_sys.inv_reach [OF assms(1)])
  have nl: "no_loss d d'" using assms(2) promote_tick_no_loss [OF i] flush_tick_no_loss [OF i] by blast
  have "(\<exists>b' \<in> set (db_buffer d'). b_id b' = b_id b \<and> b_storeId b' = b_storeId b
             \<and> b_platformOrderId b' = b_platformOrderId b \<and> b_mappedOrder b' = b_mappedOrder b)
      \<or> order_by_key (b_storeId b) (b_platformOrderId b) d' \<noteq> None" if "b \<in> set (db_buffer d)" for b
  proof -
    have "entry_kept d' b" using nl that unfolding no_loss_def by blast
    then show ?thesis unfolding entry_kept_def buffer_id_def by blast
  qed
  with nl show ?thesis unfolding no_loss_def by blast
qed

text \<open>The retry schedule: a failed entry is retried after its first, second and third failure when 5,
  15 and 45 minutes have passed, never after a fourth; an entry that is eligible stays so; and the
  coarse query that selects the candidates of a tick misses no eligible entry.\<close>
theorem retry_schedule:
  assumes "b_status e = BS_FAILED" and "b_lastFailedAt e = Some t"
  shows "(eligible now e \<longleftrightarrow>
       b_attempts e = 1 \<and> t + 5 * 60000 \<le> now \<or> b_attempts e = 2 \<and> t + 15 * 60000 \<le> now
     \<or> b_attempts e = 3 \<and> t + 45 * 60000 \<le> now)
   \<and> (eligible now e \<and> now \<le> now' \<longrightarrow> eligible now' e)
   \<and> (eligible now e \<longrightarrow> promote_candidate now e)"
proof -
  have due: "eligible n e \<longleftrightarrow>
       b_attempts e = 1 \<and> t + 5 * 60000 \<le> n \<or> b_attempts e = 2 \<and> t + 15 * 60000 \<le> n
     \<or> b_attempts e = 3 \<and> t + 45 * 60000 \<le> n" for n
  proof -
    consider "b_attempts e = 0" | "b_attempts e = 1" | "b_attempts e = 2" | "b_attempts e = 3" | "b_attempts e > 3"
      by linarith
    then show ?thesis using assms
      by cases (auto simp: eligible_def isRetryDue_def MAX_ATTEMPTS_3 RETRY_BACKOFF_MINUTES_def Let_def numeral_2_eq_2 numeral_3_eq_3)
  qed
  have "eligible now e \<and> now \<le> now' \<longrightarrow> eligible now' e" unfolding due by auto
  moreover have "eligible now e \<longrightarrow> promote_candidate now e"
    unfolding due using assms by (auto simp: promote_candidate_def MAX_ATTEMPTS_3 RETRY_BACKOFF_MINUTES_def)
  ultimately show ?thesis using due [of now] by blast
qed

section \<open>Costs\<close>

text \<open>Attaching costs releases exactly the buffered orders it completes: of the organization's
  PENDING entries those that sell an attached variant and are calculable with the new links become
  PROMOTING, every other entry stays as it is, and the number reported is the number released.\<close>
theorem attach_releases_exactly:
  assumes "attachCostProfiles org pids vids access now d = Inr (r, d')" and "buffer_inv d"
  shows "db_buffer d' = map (\<lambda>b. if becomes_promotable org vids d' b then b \<lparr> b_status := BS_PROMOTING \<rparr> else b)
           (db_buffer d)
       \<and> ar_promoted r = length (filter (becomes_promotable org vids d') (db_buffer d))"
proof -
  let ?d = "create_links (new_links org pids vids now) d"
  note eff = attach_effect [OF assms]
  have v: "db_variants d' = db_variants ?d" unfolding eff(1) by simp
  have "promotable sid d' b = promotable sid ?d b" for sid b unfolding eff(1) by simp
  then have "becomes_promotable org vids d' = becomes_promotable org vids ?d"
    unfolding becomes_promotable_def v by simp
  moreover have "db_buffer d' = map (\<lambda>b. if becomes_promotable org vids ?d b then flipped b else b) (db_buffer d)"
    by (subst eff(1)) simp
  ultimately show ?thesis using eff(2) by (simp add: flipped_def)
qed

lemma add_links_set: "set ls \<subseteq> set (foldl add_link ls xs)" "set (foldl add_link ls xs) \<subseteq> set ls \<union> set xs"
  by (rule foldl_inv [where I = "\<lambda>k. set ls \<subseteq> set k"], auto simp: add_link_def)
    (rule foldl_inv [where I = "\<lambda>k. set k \<subseteq> set ls \<union> set xs", THEN subsetD, THEN UnE], auto simp: add_link_def split: if_splits)

lemma has_link_mono: "set ls \<subseteq> set ks \<Longrightarrow> has_link l ls \<Longrightarrow> has_link l ks"
  by (auto simp: has_link_def list_ex_iff)

lemma add_links_has: "x \<in> set xs \<Longrightarrow> has_link x (foldl add_link ls xs)"
proof (induction xs arbitrary: ls)
  case (Cons y ys)
  show ?case
  proof (cases "x = y")
    case True
    have "has_link y (add_link ls y)" by (auto simp: add_link_def has_link_def)
    then show ?thesis using True add_links_set(1) [of "add_link ls y" ys] has_link_mono by simp
  next
    case False
    then show ?thesis using Cons by simp
  qed
qed simp

text \<open>C40: A cost is attached within one store and by a member who may see it: when the attachment
  succeeds, every link it adds joins a profile and a variant of the caller's organization and of
  one store the caller has access to, and the profile is not archived; no link is removed, and
  every pair asked for is linked.\<close>
theorem attach_isolated:
  assumes "attachCostProfiles org pids vids access now d = Inr (r, d')" and "buffer_inv d"
    and "distinct (map cp_id (db_costProfiles d))" and "distinct (map v_id (db_variants d))"
  shows "(\<forall>l \<in> set (db_costLinks d') - set (db_costLinks d). cl_organizationId l = org
      \<and> (\<exists>p \<in> set (db_costProfiles d). \<exists>v \<in> set (db_variants d).
            cp_id p = cl_profileId l \<and> v_id v = cl_variantId l \<and> cp_organizationId p = org
          \<and> v_organizationId v = org \<and> cp_storeId p = v_storeId v \<and> may_access access (v_storeId v)
          \<and> cp_archivedAt p = None))
    \<and> set (db_costLinks d) \<subseteq> set (db_costLinks d')
    \<and> (\<forall>pid \<in> set pids. \<forall>vid \<in> set vids. \<exists>l \<in> set (db_costLinks d'). cl_profileId l = pid \<and> cl_variantId l = vid)"
proof -
  have g: "guardProfiles org pids access d = Inr ()" "guardVariants org vids access d = Inr ()"
    "assertSameStore org pids vids d = Inr ()"
    using assms(1) by (auto simp: attachCostProfiles_def bindR_eq_Inr)
  have links: "db_costLinks d' = foldl add_link (db_costLinks d) (new_links org pids vids now)"
    unfolding attach_effect(1) [OF assms(1,2)] by (simp add: create_links_def)
  have new: "cl_organizationId l = org \<and> cl_profileId l \<in> set pids \<and> cl_variantId l \<in> set vids"
    if "l \<in> set (new_links org pids vids now)" for l
    using that by (auto simp: new_links_def)
  have "cl_organizationId l = org
      \<and> (\<exists>p \<in> set (db_costProfiles d). \<exists>v \<in> set (db_variants d).
            cp_id p = cl_profileId l \<and> v_id v = cl_variantId l \<and> cp_organizationId p = org
          \<and> v_organizationId v = org \<and> cp_storeId p = v_storeId v \<and> may_access access (v_storeId v)
          \<and> cp_archivedAt p = None)"
    if l: "l \<in> set (db_costLinks d') - set (db_costLinks d)" for l
  proof -
    have n: "l \<in> set (new_links org pids vids now)" using l add_links_set(2) unfolding links by blast
    obtain p where p: "p \<in> set (db_costProfiles d)" "cp_id p = cl_profileId l" "cp_organizationId p = org" "cp_archivedAt p = None"
      using guard_rows_all [OF g(1) assms(3)] new [OF n] by blast
    obtain v where v: "v \<in> set (db_variants d)" "v_id v = cl_variantId l" "v_organizationId v = org" "may_access access (v_storeId v)"
      using variant_rows_all [OF g(2) assms(4)] new [OF n] by blast
    have "cp_storeId p = v_storeId v" using one_store [OF g(3) p(1) _ p(3) v(1) _ v(3)] new [OF n] p(2) v(2) by simp
    then show ?thesis using new [OF n] p v by blast
  qed
  moreover have "set (db_costLinks d) \<subseteq> set (db_costLinks d')" unfolding links by (rule add_links_set)
  moreover have "\<exists>l \<in> set (db_costLinks d'). cl_profileId l = pid \<and> cl_variantId l = vid"
    if "pid \<in> set pids" "vid \<in> set vids" for pid vid
  proof -
    have "\<lparr> cl_variantId = vid, cl_profileId = pid, cl_organizationId = org, cl_attachedAt = now \<rparr> \<in> set (new_links org pids vids now)"
      using that by (auto simp: new_links_def)
    from add_links_has [OF this, of "db_costLinks d"] show ?thesis unfolding links by (auto simp: has_link_def list_ex_iff)
  qed
  ultimately show ?thesis by blast
qed

section \<open>Witnesses\<close>

text \<open>A shop with one product variant of ten units and a cost profile that is not attached to it yet.\<close>

definition shop_db :: db where
  "shop_db = empty_db \<lparr> db_stores := [example_store \<lparr> s_defaultCarrierId := None \<rparr>],
     db_variants := [\<lparr> v_id = 7, v_organizationId = 1, v_storeId = 1, v_productId = 3, v_platformVariantId = 70, v_barcode = ''869'',
        v_salePrice = 100, v_listPrice = 120,
        v_isDigital = False, v_dimensionalWeight = None, v_syncedDimensionalWeight = 1, v_quantity = 10,
        v_syncedCommissionRate = None, v_listing = blank_variant_listing, v_lastSyncedAt = 0, v_delistedAt = None \<rparr>],
     db_products := [\<lparr> p_id = 3, p_organizationId = 1, p_storeId = 1, p_platformContentId = 30, p_listing = blank_product_listing, p_images = [],
        p_lastSyncedAt = 0, p_totalStock = 10, p_minSalePrice = Some 100, p_maxSalePrice = Some 100 \<rparr>],
     db_costProfiles := [\<lparr> cp_id = 8, cp_organizationId = 1, cp_storeId = 1, cp_name = ''cost'', cp_amountGross = 30,
        cp_vatRate = 20, cp_currency = TRY, cp_fxRateMode = FX_AUTO, cp_manualFxRate = None, cp_archivedAt = None \<rparr>],
     db_feeDefs := [example_def 1 FS_TRENDYOL PLATFORM_SERVICE 0 None, example_def 2 FS_ALL STOPPAGE 0 None] \<rparr>"

lemma shop_wf: "wf_tables shop_db" "buffer_inv shop_db"
  by (simp_all add: wf_tables_def wf_db_def wf_fees_def one_estimate_def ids_ok_def items_fk_def wf_buffer_def
      buffer_inv_def shop_db_def empty_db_def)

abbreviation shop_event :: mapped_order where
  "shop_event \<equiv> example_mapped 10 OS_PENDING"

text \<open>Decimal arithmetic that never rounds.\<close>

definition exact_dec :: dec where
  "exact_dec = \<lparr> rnd = (\<lambda>x. x), div0 = (\<lambda>x. 0), dps = (\<lambda>n x. x), fixed = (\<lambda>n x. []), tonum = (\<lambda>x. x) \<rparr>"

definition shop_buffered :: "(intake_error + intake_outcome) \<times> db" where
  "shop_buffered = intakeOrder exact_dec (\<lambda>_. 0) 5 1 1 shop_event shop_db"

lemma shop_buffered_run: "intakeOrder exact_dec (\<lambda>_. 0) 5 1 1 shop_event shop_db = (Inr Buffered, snd shop_buffered)"
proof -
  have "fst shop_buffered = Inr Buffered" by code_simp
  then show ?thesis unfolding shop_buffered_def by (metis prod.collapse)
qed

lemma intake_outcome_witness:
  "wf_tables (snd shop_buffered)
   \<and> (\<exists>b. filter (buffer_key 1 ''77'') (db_buffer (snd shop_buffered)) = [b] \<and> b_mappedOrder b = shop_event)"
proof -
  have "mo_platformOrderId shop_event = ''77''" by (simp add: example_mapped_def)
  then show ?thesis using intake_outcome [OF shop_buffered_run shop_wf(1)] unfolding intake_outcome.case by metis
qed


lemma shop_event_lines: "\<forall>l \<in> set (mo_lines shop_event). ml_platformLineId l \<noteq> None"
  "distinct (map ml_platformLineId (mo_lines shop_event))" "\<forall>l \<in> set (mo_lines shop_event). 0 \<le> ml_quantity l"
  "mo_status shop_event \<noteq> OS_CANCELLED" "\<not> mo_dematerialized shop_event"
  "order_by_key 1 (mo_platformOrderId shop_event) shop_db = None" "\<forall>v \<in> set (db_variants shop_db). 0 \<le> v_quantity v"
  by (simp_all add: example_mapped_def example_line_def order_by_key_def shop_db_def empty_db_def)

lemma shop_today: "isOrderOnBusinessToday (\<lambda>_. 0) 5 (mo_orderDate shop_event)" "isOrderOnBusinessToday (\<lambda>_. 0) 9 (mo_orderDate shop_event)"
  by code_simp+

lemma shop_sold: "sold 1 shop_event shop_db 7 = 2"
  by code_simp

lemma stock_drops_once_witness: "map v_quantity (db_variants (snd shop_buffered)) = [8]"
proof -
  have "db_variants (snd shop_buffered) = map (\<lambda>v. v \<lparr> v_quantity := max (v_quantity v - sold 1 shop_event shop_db (v_id v)) 0 \<rparr>) (db_variants shop_db)"
    using stock_drops_once [OF shop_buffered_run shop_wf(1) shop_event_lines(6) _ shop_today(1) shop_event_lines(4,1,2,3,7)] by simp
  then show ?thesis using shop_sold by (simp add: shop_db_def)
qed

definition shop_attached :: "attach_error + attach_result \<times> db" where
  "shop_attached = attachCostProfiles 1 [8] [7] None 6 (snd shop_buffered)"

lemma shop_attach_run: "attachCostProfiles 1 [8] [7] None 6 (snd shop_buffered) = Inr (fst (projr shop_attached), snd (projr shop_attached))"
proof -
  have "\<not> isl shop_attached" by code_simp
  then show ?thesis unfolding shop_attached_def by simp
qed

definition shop_twice :: "(intake_error + intake_outcome) \<times> db" where
  "shop_twice = intakeOrder exact_dec (\<lambda>_. 0) 9 1 1 shop_event (snd (projr shop_attached))"

lemma shop_buffered_inv: "buffer_inv (snd shop_buffered)"
  by (rule intake_inv [OF shop_buffered_run shop_wf(2)])

lemma attach_releases_exactly_witness:
  "map b_status (db_buffer (snd (projr shop_attached))) = [BS_PROMOTING] \<and> ar_promoted (fst (projr shop_attached)) = 1"
proof -
  have all: "length (db_buffer (snd shop_buffered)) = 1
      \<and> list_all (becomes_promotable 1 [7] (snd (projr shop_attached))) (db_buffer (snd shop_buffered))"
    by code_simp
  then obtain b where "db_buffer (snd shop_buffered) = [b]" by (cases "db_buffer (snd shop_buffered)") auto
  then show ?thesis
    using attach_releases_exactly [OF shop_attach_run shop_buffered_inv] all by simp
qed

lemma attach_isolated_witness: "\<exists>l \<in> set (db_costLinks (snd (projr shop_attached))). cl_profileId l = 8 \<and> cl_variantId l = 7"
proof -
  have v: "map v_id (db_variants (snd shop_buffered)) = [7]" "map cp_id (db_costProfiles (snd shop_buffered)) = [8]"
    by code_simp+
  show ?thesis
    using attach_isolated [OF shop_attach_run shop_buffered_inv] v by simp
qed

lemma shop_twice_run: "intakeOrder exact_dec (\<lambda>_. 0) 9 1 1 shop_event (snd (projr shop_attached)) = (Inr (Persisted R_calculable), snd shop_twice)"
proof -
  have "fst shop_twice = Inr (Persisted R_calculable)" by code_simp
  then show ?thesis unfolding shop_twice_def by (metis prod.collapse)
qed


lemma shop_reach: "reach buffer_init (buffer_step msg D (\<lambda>_. 0)) shop_db"
  by (rule reach_init) (simp add: buffer_init_def shop_wf, simp add: shop_db_def empty_db_def)

lemma shop_buffered_reach: "reach buffer_init (buffer_step (\<lambda>_. []) exact_dec (\<lambda>_. 0)) (snd shop_buffered)"
  by (rule reach_step [OF shop_reach intake_step [OF shop_buffered_run]])

lemma buffer_reachable_witness: "distinct (map buffer_id (db_buffer (snd shop_buffered)))"
  using buffer_reachable [OF shop_buffered_reach] by blast

lemma shop_entry: "db_buffer (snd shop_buffered) = [hd (db_buffer (snd shop_buffered))]"
proof -
  have "length (db_buffer (snd shop_buffered)) = 1" by code_simp
  then show ?thesis by (cases "db_buffer (snd shop_buffered)") auto
qed

lemma graduation_no_loss_witness:
  "(\<exists>b'. b' \<in> set (db_buffer (processBufferPromote (\<lambda>_. []) exact_dec (\<lambda>_. 0) (\<lambda>_. False) 9 9 (snd shop_buffered)))
      \<and> b_id b' = b_id (hd (db_buffer (snd shop_buffered))))
   \<or> (\<exists>r. order_by_key (b_storeId (hd (db_buffer (snd shop_buffered)))) (b_platformOrderId (hd (db_buffer (snd shop_buffered))))
       (processBufferPromote (\<lambda>_. []) exact_dec (\<lambda>_. 0) (\<lambda>_. False) 9 9 (snd shop_buffered)) = Some r)"
proof -
  have "hd (db_buffer (snd shop_buffered)) \<in> set (db_buffer (snd shop_buffered))" by (subst (2) shop_entry) simp
  then show ?thesis
    using graduation_no_loss [OF shop_buffered_reach disjI1 [OF refl], of "\<lambda>_. False" 9 9] by blast
qed

lemma retry_schedule_witness:
  "eligible 900000 ((new_buffer_row 1 1 1 0 shop_event) \<lparr> b_status := BS_FAILED, b_attempts := 2, b_lastFailedAt := Some 0 \<rparr>)
   \<and> \<not> eligible 800000 ((new_buffer_row 1 1 1 0 shop_event) \<lparr> b_status := BS_FAILED, b_attempts := 2, b_lastFailedAt := Some 0 \<rparr>)"
  using retry_schedule [of "(new_buffer_row 1 1 1 0 shop_event) \<lparr> b_status := BS_FAILED, b_attempts := 2, b_lastFailedAt := Some 0 \<rparr>" 0] by simp

end
