(* ===== verification/Breakdown.thy ===== *)
theory Breakdown
  imports Estimate_Values
begin

text \<open>
  The profit breakdown an order shows: \<open>src/packages/profit/src/build-profit-breakdown.ts\<close> and
  the input \<open>src/apps/api/src/services/order.service.ts\<close> builds for it from the stored rows. The
  engine's profit and net VAT are read from the order; everything else is summed again from the
  items and the fee rows. The terms are kept as numbers in \<open>display_terms\<close> before \<open>toFixed\<close>
  prints them, so that the closing property can be stated on them: cost, marketplace fees, taxes
  and profit add up to the sale.
\<close>

section \<open>The input\<close>

record breakdown_item =
  bi_quantity :: int
  bi_lineListGross :: "rat option"
  bi_lineSaleGross :: "rat option"
  bi_lineSellerDiscountGross :: "rat option"
  bi_saleVatRate :: rat
  bi_commissionGross :: rat
  bi_refundedCommissionGross :: rat
  bi_commissionVatRate :: rat
  bi_unitCostSnapshotGross :: "rat option"
  bi_unitCostSnapshotVatRate :: rat

record breakdown_fee =
  bf_feeType :: order_fee_type
  bf_direction :: order_fee_direction
  bf_amountGross :: rat
  bf_vatRate :: rat
  bf_source :: order_fee_source

record breakdown_input =
  bd_saleGross :: rat
  bd_saleVat :: rat
  bd_listGross :: rat
  bd_sellerDiscountGross :: rat
  bd_items :: "breakdown_item list"
  bd_fees :: "breakdown_fee list"
  bd_netProfit :: rat
  bd_netVat :: rat
  bd_saleMarginPct :: "rat option"
  bd_costMarkupPct :: "rat option"

section \<open>The terms\<close>

definition add_breakdown_item :: "dec \<Rightarrow> item_totals \<Rightarrow> breakdown_item \<Rightarrow> item_totals" where
  "add_breakdown_item D t i =
     (let unitCost = dmul D (or_zero (bi_unitCostSnapshotGross i)) (of_int (bi_quantity i));
          effComm = dsub D (bi_commissionGross i) (bi_refundedCommissionGross i)
      in \<lparr> it_costGross = dadd D (it_costGross t) unitCost,
           it_costVat = dadd D (it_costVat t) (grossToVat D unitCost (bi_unitCostSnapshotVatRate i)),
           it_commissionGross = dadd D (it_commissionGross t) effComm,
           it_commissionVat = dadd D (it_commissionVat t) (grossToVat D effComm (bi_commissionVatRate i)) \<rparr>)"

definition breakdown_totals :: "dec \<Rightarrow> breakdown_item list \<Rightarrow> item_totals" where
  "breakdown_totals D items =
     foldl (add_breakdown_item D)
       \<lparr> it_costGross = 0, it_costVat = 0, it_commissionGross = 0, it_commissionVat = 0 \<rparr> items"

definition signed_fee :: "breakdown_fee \<Rightarrow> rat" where
  "signed_fee f = (if bf_direction f = DEBIT then bf_amountGross f else - bf_amountGross f)"

definition signed_fee_vat :: "dec \<Rightarrow> breakdown_fee \<Rightarrow> rat" where
  "signed_fee_vat D f =
     dmul D (grossToVat D \<bar>signed_fee f\<bar> (bf_vatRate f)) (if bf_direction f = DEBIT then 1 else -1)"

definition feeAgg :: "dec \<Rightarrow> breakdown_fee list \<Rightarrow> order_fee_type \<Rightarrow> money_pair" where
  "feeAgg D fees ty =
     foldl (\<lambda>p f. if bf_feeType f \<noteq> ty then p
                  else \<lparr> mp_gross = dadd D (mp_gross p) (signed_fee f),
                         mp_vat = dadd D (mp_vat p) (signed_fee_vat D f) \<rparr>)
       \<lparr> mp_gross = 0, mp_vat = 0 \<rparr> fees"

definition breakdown_return_row :: "breakdown_fee \<Rightarrow> return_fee_row" where
  "breakdown_return_row f =
     \<lparr> rf_feeType = bf_feeType f, rf_source = bf_source f, rf_amountGross = bf_amountGross f,
       rf_vatRate = bf_vatRate f \<rparr>"

definition breakdown_legs :: "dec \<Rightarrow> breakdown_fee list \<Rightarrow> return_legs" where
  "breakdown_legs D fees =
     resolveReturnLegs D (map breakdown_return_row
       (filter (\<lambda>f. bf_feeType f \<in> set RETURN_FEE_TYPES) fees))"

record display_terms =
  dt_sale :: money_pair
  dt_cost :: money_pair
  dt_commission :: money_pair
  dt_shipping :: money_pair
  dt_outbound :: money_pair
  dt_return :: money_pair
  dt_platformService :: money_pair
  dt_international :: money_pair
  dt_overseasReturn :: money_pair
  dt_stoppage :: rat
  dt_marketplaceFees :: rat
  dt_taxes :: rat
  dt_totalDeductions :: rat

definition add_pair :: "dec \<Rightarrow> money_pair \<Rightarrow> money_pair \<Rightarrow> money_pair" where
  "add_pair D a b =
     \<lparr> mp_gross = dadd D (mp_gross a) (mp_gross b), mp_vat = dadd D (mp_vat a) (mp_vat b) \<rparr>"

definition breakdown_terms :: "dec \<Rightarrow> breakdown_input \<Rightarrow> display_terms" where
  "breakdown_terms D b =
     (let t = breakdown_totals D (bd_items b);
          shipping = feeAgg D (bd_fees b) SHIPPING;
          platformService = feeAgg D (bd_fees b) PLATFORM_SERVICE;
          internationalService = feeAgg D (bd_fees b) INTERNATIONAL_SERVICE;
          overseasReturnOperation = feeAgg D (bd_fees b) OVERSEAS_RETURN_OPERATION;
          stoppage = feeAgg D (bd_fees b) STOPPAGE;
          legs = breakdown_legs D (bd_fees b);
          dispSale = sub_pair D \<lparr> mp_gross = bd_saleGross b, mp_vat = bd_saleVat b \<rparr> (rl_refundDeduction legs);
          dispCost = sub_pair D \<lparr> mp_gross = it_costGross t, mp_vat = it_costVat t \<rparr> (rl_costReturn legs);
          dispCommission = sub_pair D \<lparr> mp_gross = it_commissionGross t, mp_vat = it_commissionVat t \<rparr>
            (rl_commissionRefund legs);
          dispShipping = add_pair D shipping (rl_returnShipping legs);
          dispStoppage = max 0 (dsub D (mp_gross stoppage) (mp_gross (rl_stoppageRefund legs)));
          marketplaceFees = dadd D (dadd D (dadd D (dadd D (mp_gross dispCommission) (mp_gross dispShipping))
            (mp_gross platformService)) (mp_gross internationalService)) (mp_gross overseasReturnOperation);
          taxes = dadd D dispStoppage (bd_netVat b)
      in \<lparr> dt_sale = dispSale, dt_cost = dispCost, dt_commission = dispCommission,
           dt_shipping = dispShipping, dt_outbound = shipping, dt_return = rl_returnShipping legs,
           dt_platformService = platformService, dt_international = internationalService,
           dt_overseasReturn = overseasReturnOperation, dt_stoppage = dispStoppage,
           dt_marketplaceFees = marketplaceFees, dt_taxes = taxes,
           dt_totalDeductions = dadd D (dadd D (mp_gross dispCost) marketplaceFees) taxes \<rparr>)"

section \<open>The view\<close>

record breakdown_view =
  bv_listGross :: string
  bv_sellerDiscountGross :: string
  bv_saleGross :: string
  bv_saleVat :: string
  bv_costGross :: string
  bv_costVat :: string
  bv_commissionGross :: string
  bv_commissionVat :: string
  bv_shippingGross :: string
  bv_shippingVat :: string
  bv_outboundShippingGross :: string
  bv_outboundShippingVat :: string
  bv_returnShippingGross :: string
  bv_returnShippingVat :: string
  bv_platformServiceGross :: string
  bv_platformServiceVat :: string
  bv_internationalServiceGross :: string
  bv_internationalServiceVat :: string
  bv_overseasReturnOperationGross :: string
  bv_overseasReturnOperationVat :: string
  bv_stoppage :: string
  bv_netVat :: string
  bv_netProfit :: string
  bv_saleMarginPct :: string
  bv_costMarkupPct :: string
  bv_marketplaceFeesGross :: string
  bv_taxesGross :: string
  bv_totalDeductionsGross :: string

text \<open>The dash of a missing percentage, as its UTF-8 bytes.\<close>

definition em_dash :: string where "em_dash = [CHR 0xE2, CHR 0x80, CHR 0x94]"

definition pct_text :: "dec \<Rightarrow> rat option \<Rightarrow> string" where
  "pct_text D p = (case p of None \<Rightarrow> em_dash | Some x \<Rightarrow> fixed D 2 x)"

definition buildProfitBreakdown :: "dec \<Rightarrow> breakdown_input \<Rightarrow> breakdown_view" where
  "buildProfitBreakdown D b =
     (let t = breakdown_terms D b;
          gross = (\<lambda>p. fixed D 2 (mp_gross p));
          vat = (\<lambda>p. fixed D 2 (dps D 2 (mp_vat p)))
      in \<lparr> bv_listGross = fixed D 2 (bd_listGross b),
           bv_sellerDiscountGross = fixed D 2 (bd_sellerDiscountGross b),
           bv_saleGross = gross (dt_sale t), bv_saleVat = vat (dt_sale t),
           bv_costGross = gross (dt_cost t), bv_costVat = vat (dt_cost t),
           bv_commissionGross = gross (dt_commission t), bv_commissionVat = vat (dt_commission t),
           bv_shippingGross = gross (dt_shipping t), bv_shippingVat = vat (dt_shipping t),
           bv_outboundShippingGross = gross (dt_outbound t), bv_outboundShippingVat = vat (dt_outbound t),
           bv_returnShippingGross = gross (dt_return t), bv_returnShippingVat = vat (dt_return t),
           bv_platformServiceGross = gross (dt_platformService t),
           bv_platformServiceVat = vat (dt_platformService t),
           bv_internationalServiceGross = gross (dt_international t),
           bv_internationalServiceVat = vat (dt_international t),
           bv_overseasReturnOperationGross = gross (dt_overseasReturn t),
           bv_overseasReturnOperationVat = vat (dt_overseasReturn t),
           bv_stoppage = fixed D 2 (dt_stoppage t), bv_netVat = fixed D 2 (bd_netVat b),
           bv_netProfit = fixed D 2 (bd_netProfit b),
           bv_saleMarginPct = pct_text D (bd_saleMarginPct b),
           bv_costMarkupPct = pct_text D (bd_costMarkupPct b),
           bv_marketplaceFeesGross = fixed D 2 (dt_marketplaceFees t),
           bv_taxesGross = fixed D 2 (dt_taxes t),
           bv_totalDeductionsGross = fixed D 2 (dt_totalDeductions t) \<rparr>)"

section \<open>The order detail\<close>

text \<open>
  The order service passes the stored rows on; \<open>Number(rate)\<close> followed by \<open>new Decimal\<close> gives a
  rate of two decimals back unchanged. The fees are the estimated ones of every type and the
  return rows of every source; the rows of the database stand for the order they were captured in.
\<close>

definition detail_item :: "item_row \<Rightarrow> breakdown_item" where
  "detail_item i =
     \<lparr> bi_quantity = i_quantity i, bi_lineListGross = Some (i_lineListGross i),
       bi_lineSaleGross = Some (i_lineSaleGross i),
       bi_lineSellerDiscountGross = Some (i_lineSellerDiscountGross i),
       bi_saleVatRate = i_saleVatRate i, bi_commissionGross = i_commissionGross i,
       bi_refundedCommissionGross = i_refundedCommissionGross i,
       bi_commissionVatRate = i_commissionVatRate i,
       bi_unitCostSnapshotGross = i_unitCostSnapshotGross i,
       bi_unitCostSnapshotVatRate = or_zero (i_unitCostSnapshotVatRate i) \<rparr>"

definition detail_fee :: "fee_row \<Rightarrow> breakdown_fee" where
  "detail_fee f =
     \<lparr> bf_feeType = f_feeType f, bf_direction = f_direction f, bf_amountGross = f_amountGross f,
       bf_vatRate = f_vatRate f, bf_source = f_source f \<rparr>"

definition shown_fee :: "fee_row \<Rightarrow> bool" where
  "shown_fee f \<longleftrightarrow> f_source f = ESTIMATE \<or> f_feeType f \<in> set RETURN_FEE_TYPES"

definition detail_input :: "id \<Rightarrow> db \<Rightarrow> breakdown_input option" where
  "detail_input oid d =
     (case find_order oid d of
        None \<Rightarrow> None
      | Some r \<Rightarrow>
          (case (o_estimatedNetProfit r, o_estimatedNetVat r, o_saleGross r, o_saleVat r) of
             (Some np, Some nv, Some g, Some v) \<Rightarrow>
               Some \<lparr> bd_saleGross = g, bd_saleVat = v, bd_listGross = or_zero (o_listGross r),
                      bd_sellerDiscountGross = or_zero (o_sellerDiscountGross r),
                      bd_items = map detail_item (sort_key i_id (order_items oid d)),
                      bd_fees = map detail_fee
                        (filter (\<lambda>f. f_orderId f = oid \<and> shown_fee f) (db_fees d)),
                      bd_netProfit = np, bd_netVat = nv,
                      bd_saleMarginPct = o_estimatedSaleMarginPct r,
                      bd_costMarkupPct = o_estimatedCostMarkupPct r \<rparr>
           | _ \<Rightarrow> None))"

definition detail_breakdown :: "dec \<Rightarrow> id \<Rightarrow> db \<Rightarrow> breakdown_view option" where
  "detail_breakdown D oid d = map_option (buildProfitBreakdown D) (detail_input oid d)"

section \<open>The terms are those of the engine\<close>

lemma feeAgg_sums:
  "feeAgg D fees ty =
     \<lparr> mp_gross = dsum D signed_fee 0 (filter (\<lambda>f. bf_feeType f = ty) fees),
       mp_vat = dsum D (signed_fee_vat D) 0 (filter (\<lambda>f. bf_feeType f = ty) fees) \<rparr>"
proof -
  have "foldl (\<lambda>p f. if bf_feeType f \<noteq> ty then p
                  else \<lparr> mp_gross = dadd D (mp_gross p) (signed_fee f),
                         mp_vat = dadd D (mp_vat p) (signed_fee_vat D f) \<rparr>)
       \<lparr> mp_gross = a, mp_vat = b \<rparr> fees
    = \<lparr> mp_gross = dsum D signed_fee a (filter (\<lambda>f. bf_feeType f = ty) fees),
        mp_vat = dsum D (signed_fee_vat D) b (filter (\<lambda>f. bf_feeType f = ty) fees) \<rparr>" for a b
    by (induction fees arbitrary: a b) simp_all
  then show ?thesis by (simp add: feeAgg_def)
qed

lemma breakdown_totals_detail:
  "breakdown_totals D (map detail_item items) = sum_items D (estimated_commission D) items"
proof -
  have "add_breakdown_item D t (detail_item i) = add_item D (estimated_commission D) t i" for t i
    by (simp add: add_breakdown_item_def add_item_def detail_item_def estimated_commission_def Let_def)
  then have "foldl (add_breakdown_item D) t (map detail_item items)
      = foldl (add_item D (estimated_commission D)) t items" for t
    by (induction items arbitrary: t) simp_all
  then show ?thesis by (simp add: breakdown_totals_def sum_items_def)
qed

lemma breakdown_legs_detail:
  "breakdown_legs D (map detail_fee (filter (\<lambda>f. f_orderId f = oid \<and> shown_fee f) fees)) =
   resolveReturnLegs D (map to_return_row (filter (\<lambda>f. f_orderId f = oid \<and> f_feeType f \<in> set RETURN_FEE_TYPES) fees))"
proof -
  have "map breakdown_return_row (filter (\<lambda>f. bf_feeType f \<in> set RETURN_FEE_TYPES)
      (map detail_fee (filter (\<lambda>f. f_orderId f = oid \<and> shown_fee f) fees)))
    = map to_return_row (filter (\<lambda>f. f_orderId f = oid \<and> f_feeType f \<in> set RETURN_FEE_TYPES) fees)"
    by (induction fees) (auto simp: shown_fee_def detail_fee_def breakdown_return_row_def to_return_row_def)
  then show ?thesis by (simp add: breakdown_legs_def)
qed

text \<open>The rows one forward fee type shows: the order's estimates of the type.\<close>

definition forward_rows :: "id \<Rightarrow> order_fee_type \<Rightarrow> db \<Rightarrow> fee_row list" where
  "forward_rows oid ty d = filter (\<lambda>f. f_orderId f = oid \<and> f_source f = ESTIMATE \<and> f_feeType f = ty) (db_fees d)"

lemma shown_forward:
  assumes "ty \<notin> set RETURN_FEE_TYPES"
  shows "filter (\<lambda>f. bf_feeType f = ty) (map detail_fee (filter (\<lambda>f. f_orderId f = oid \<and> shown_fee f) (db_fees d)))
       = map detail_fee (forward_rows oid ty d)"
proof -
  have "filter (\<lambda>f. bf_feeType f = ty) (map detail_fee (filter (\<lambda>f. f_orderId f = oid \<and> shown_fee f) fs))
      = map detail_fee (filter (\<lambda>f. f_orderId f = oid \<and> f_source f = ESTIMATE \<and> f_feeType f = ty) fs)" for fs
    using assms by (induction fs) (auto simp: shown_fee_def detail_fee_def)
  then show ?thesis by (simp add: forward_rows_def)
qed

lemma forward_fee_rows:
  assumes "ty \<in> set PROFIT_FEE_TYPES"
  shows "forward_rows oid ty d = filter (\<lambda>f. f_feeType f = ty) (estimate_fee_rows oid d)"
  using assms by (auto simp: forward_rows_def estimate_fee_rows_def intro: filter_cong)

lemma sum_by_type:
  fixes g :: "fee_row \<Rightarrow> rat"
  assumes "\<forall>f \<in> set fs. f_feeType f \<in> set PROFIT_FEE_TYPES"
  shows "(\<Sum>f\<leftarrow>fs. g f) = (\<Sum>f\<leftarrow>filter (\<lambda>f. f_feeType f = SHIPPING) fs. g f)
    + (\<Sum>f\<leftarrow>filter (\<lambda>f. f_feeType f = PLATFORM_SERVICE) fs. g f)
    + (\<Sum>f\<leftarrow>filter (\<lambda>f. f_feeType f = INTERNATIONAL_SERVICE) fs. g f)
    + (\<Sum>f\<leftarrow>filter (\<lambda>f. f_feeType f = OVERSEAS_RETURN_OPERATION) fs. g f)"
  using assms by (induction fs) (auto simp: PROFIT_FEE_TYPES_def)

lemma length_by_type:
  assumes "\<forall>f \<in> set fs. f_feeType f \<in> set PROFIT_FEE_TYPES"
  shows "length fs = length (filter (\<lambda>f. f_feeType f = SHIPPING) fs)
    + length (filter (\<lambda>f. f_feeType f = PLATFORM_SERVICE) fs)
    + length (filter (\<lambda>f. f_feeType f = INTERNATIONAL_SERVICE) fs)
    + length (filter (\<lambda>f. f_feeType f = OVERSEAS_RETURN_OPERATION) fs)"
  using assms by (induction fs) (auto simp: PROFIT_FEE_TYPES_def)

lemma signed_total_forward:
  "signed_total pf_gross (map (to_profit_fee D) fs) = - (\<Sum>f\<leftarrow>fs. signed_fee (detail_fee f))"
proof (induction fs)
  case (Cons f fs)
  then show ?case
    by (cases "f_direction f") (simp_all add: signed_total_def to_profit_fee_def signed_fee_def detail_fee_def)
qed (simp add: signed_total_def)

lemma one_estimate_rows:
  assumes "one_estimate d" and "wf_fees d"
  shows "forward_rows oid ty d = (case find_estimate oid ty d of None \<Rightarrow> [] | Some f \<Rightarrow> [f])"
proof -
  let ?P = "\<lambda>f. f_orderId f = oid \<and> f_feeType f = ty \<and> f_source f = ESTIMATE"
  have one: "distinct (map (\<lambda>f. (f_orderId f, f_feeType f)) (filter (\<lambda>f. f_source f = ESTIMATE) fs)) \<Longrightarrow>
     filter ?P fs = (case find ?P fs of None \<Rightarrow> [] | Some f \<Rightarrow> [f])" for fs
  proof (induction fs)
    case (Cons f fs)
    show ?case
    proof (cases "?P f")
      case True
      then have "\<not> ?P g" if "g \<in> set fs" for g using Cons.prems that True by (auto simp: image_iff) metis
      then have "filter ?P fs = []" by (simp add: filter_empty_conv)
      with True show ?thesis by simp
    next
      case False
      have "distinct (map (\<lambda>f. (f_orderId f, f_feeType f)) (filter (\<lambda>f. f_source f = ESTIMATE) fs))"
        using Cons.prems by (simp split: if_splits)
      from Cons.IH [OF this] False show ?thesis by auto
    qed
  qed simp
  have "forward_rows oid ty d = filter ?P (db_fees d)"
    unfolding forward_rows_def by (rule filter_cong) auto
  with one assms show ?thesis by (simp add: one_estimate_def find_estimate_def)
qed

section \<open>Closing\<close>

context decimal_lib
begin

lemma forward_sum_near:
  assumes "\<forall>f \<in> set fs. \<bar>f_amountGross f\<bar> \<le> 10 ^ 10" and "length fs \<le> 40"
  shows "\<bar>dsum D signed_fee 0 (map detail_fee fs) - (\<Sum>f\<leftarrow>fs. signed_fee (detail_fee f))\<bar> \<le> of_nat (length fs) * dec_eps"
    and "\<bar>\<Sum>f\<leftarrow>fs. signed_fee (detail_fee f)\<bar> \<le> of_nat (length fs) * 10 ^ 10"
proof -
  have abs: "\<bar>signed_fee (detail_fee f)\<bar> = \<bar>f_amountGross f\<bar>" for f
    by (simp add: signed_fee_def detail_fee_def)
  have total: "(\<Sum>f\<leftarrow>fs. \<bar>signed_fee (detail_fee f)\<bar>) \<le> of_nat (length fs) * 10 ^ 10"
    by (rule abs_total_bound) (use assms in \<open>auto simp: abs\<close>)
  have n40: "(of_nat (length fs) :: rat) \<le> 40" using assms(2) by simp
  have n: "of_nat (length fs) * dec_eps \<le> 1"
    using assms(2) by (simp add: dec_eps_def)
  have le: "(\<Sum>x\<leftarrow>map detail_fee fs. \<bar>signed_fee x\<bar>) \<le> 40 * 10 ^ 10"
    using total n40 by (simp add: o_def)
  have "\<bar>dsum D signed_fee 0 (map detail_fee fs) - (0 + (\<Sum>x\<leftarrow>map detail_fee fs. signed_fee x))\<bar>
      \<le> 0 + of_nat (length (map detail_fee fs)) * dec_eps"
    by (rule dsum_near) (use le n in simp_all)
  then show "\<bar>dsum D signed_fee 0 (map detail_fee fs) - (\<Sum>f\<leftarrow>fs. signed_fee (detail_fee f))\<bar> \<le> of_nat (length fs) * dec_eps"
    by (simp add: o_def)
  have "\<bar>\<Sum>f\<leftarrow>fs. signed_fee (detail_fee f)\<bar> \<le> (\<Sum>f\<leftarrow>fs. \<bar>signed_fee (detail_fee f)\<bar>)"
    by (induction fs) (auto intro: order_trans [OF abs_triangle_ineq])
  with total show "\<bar>\<Sum>f\<leftarrow>fs. signed_fee (detail_fee f)\<bar> \<le> of_nat (length fs) * 10 ^ 10" by simp
qed

lemma marketplace_near:
  assumes ty: "\<forall>f \<in> set fs. f_feeType f \<in> set PROFIT_FEE_TYPES"
    and amt: "\<forall>f \<in> set fs. \<bar>f_amountGross f\<bar> \<le> 10 ^ 10" and len: "length fs \<le> 40"
    and K: "\<bar>K\<bar> \<le> 10 ^ 10" and R: "\<bar>R\<bar> \<le> 10 ^ 10"
  defines "S \<equiv> \<lambda>ty. dsum D signed_fee 0 (map detail_fee (filter (\<lambda>f. f_feeType f = ty) fs))"
  shows "\<bar>dadd D (dadd D (dadd D (dadd D K (dadd D (S SHIPPING) R)) (S PLATFORM_SERVICE)) (S INTERNATIONAL_SERVICE))
            (S OVERSEAS_RETURN_OPERATION) - (K + R + (\<Sum>f\<leftarrow>fs. signed_fee (detail_fee f)))\<bar> \<le> 45 * dec_eps
    \<and> \<bar>\<Sum>f\<leftarrow>fs. signed_fee (detail_fee f)\<bar> \<le> 40 * 10 ^ 10"
proof -
  define T where "T = (\<lambda>ty. \<Sum>f\<leftarrow>filter (\<lambda>f. f_feeType f = ty) fs. signed_fee (detail_fee f))"
  define n where "n = (\<lambda>ty. of_nat (length (filter (\<lambda>f. f_feeType f = ty) fs)) :: rat)"
  have small: "length (filter (\<lambda>f. f_feeType f = ty) fs) \<le> 40" for ty
    using len le_trans length_filter_le by blast
  have near: "\<bar>S ty - T ty\<bar> \<le> n ty * dec_eps" "\<bar>T ty\<bar> \<le> n ty * 10 ^ 10" "0 \<le> n ty" for ty
    using forward_sum_near [of "filter (\<lambda>f. f_feeType f = ty) fs"] amt small
    unfolding S_def T_def n_def by simp_all
  have total: "(\<Sum>f\<leftarrow>fs. signed_fee (detail_fee f)) = T SHIPPING + T PLATFORM_SERVICE + T INTERNATIONAL_SERVICE
      + T OVERSEAS_RETURN_OPERATION"
    unfolding T_def by (rule sum_by_type [OF ty])
  have "n SHIPPING + n PLATFORM_SERVICE + n INTERNATIONAL_SERVICE + n OVERSEAS_RETURN_OPERATION = of_nat (length fs)"
    unfolding n_def length_by_type [OF ty] by simp
  then have sum_n: "n SHIPPING + n PLATFORM_SERVICE + n INTERNATIONAL_SERVICE + n OVERSEAS_RETURN_OPERATION \<le> 40"
    using len by simp
  have eps: "dec_eps = 1 / 200000000" by (simp add: dec_eps_def)
  have pw: "(10::rat) ^ 10 = 10000000000" "(10::rat) ^ 12 = 1000000000000" by simp_all
  note nn = near(3) [of SHIPPING] near(3) [of PLATFORM_SERVICE] near(3) [of INTERNATIONAL_SERVICE]
    near(3) [of OVERSEAS_RETURN_OPERATION]
  have tt: "\<bar>T ty\<bar> \<le> 10000000000 * n ty" for ty using near(2) [of ty] by simp
  have ne: "n ty * dec_eps = n ty / 200000000" for ty by (simp add: eps)
  note bounds = nn tt [of SHIPPING] tt [of PLATFORM_SERVICE] tt [of INTERNATIONAL_SERVICE]
    tt [of OVERSEAS_RETURN_OPERATION] ne [of SHIPPING] ne [of PLATFORM_SERVICE]
    ne [of INTERNATIONAL_SERVICE] ne [of OVERSEAS_RETURN_OPERATION] sum_n K R eps pw
  have 1: "\<bar>dadd D (S SHIPPING) R - (T SHIPPING + R)\<bar> \<le> n SHIPPING * dec_eps + 0 + dec_eps"
    by (rule dadd_near [OF near(1)]) (use bounds in linarith)+
  have 2: "\<bar>dadd D K (dadd D (S SHIPPING) R) - (K + (T SHIPPING + R))\<bar>
      \<le> 0 + (n SHIPPING * dec_eps + 0 + dec_eps) + dec_eps"
    by (rule dadd_near [OF _ 1]) (use bounds in linarith)+
  note 3 = dadd_near [OF 2 near(1) [of PLATFORM_SERVICE]]
  note 4 = dadd_near [OF 3 near(1) [of INTERNATIONAL_SERVICE]]
  note 5 = dadd_near [OF 4 near(1) [of OVERSEAS_RETURN_OPERATION]]
  have 6: "\<bar>dadd D (dadd D (dadd D (dadd D K (dadd D (S SHIPPING) R)) (S PLATFORM_SERVICE)) (S INTERNATIONAL_SERVICE))
      (S OVERSEAS_RETURN_OPERATION) - (K + (T SHIPPING + R) + T PLATFORM_SERVICE + T INTERNATIONAL_SERVICE
      + T OVERSEAS_RETURN_OPERATION)\<bar> \<le> 45 * dec_eps"
    by (rule order_trans [OF 5]) (use bounds in linarith)+
  show ?thesis unfolding total using 6 bounds by linarith
qed

end

lemma effective_net_vat_stored:
  assumes "decimal_lib D" and "bounded_input i"
  shows "\<bar>dps D 2 (pb_netVat (computeProfit D i)) - effective_net_vat i (vat_spec i)\<bar> \<le> 1 / 200 + 44 * dec_eps"
    and "\<bar>effective_net_vat i (vat_spec i)\<bar> \<le> 44 * 10 ^ 10"
proof -
  have n: "(of_nat (length (pi_fees i)) + 4) * dec_eps \<le> 44 * dec_eps"
    using assms(2) by (intro mult_right_mono) (simp_all add: bounded_input_def dec_eps_def)
  note near = effective_net_vat_near [OF decimal_lib.raw_net_vat_near(1) [OF assms], of i]
  have "pb_netVat (computeProfit D i) = effective_net_vat i (raw_net_vat D i (sum_fees D (pi_fees i)))"
    by (simp add: computeProfit_def Let_def)
  then show "\<bar>dps D 2 (pb_netVat (computeProfit D i)) - effective_net_vat i (vat_spec i)\<bar> \<le> 1 / 200 + 44 * dec_eps"
    using near(1) n dps_near [OF assms(1), of "pb_netVat (computeProfit D i)"] by linarith
  show "\<bar>effective_net_vat i (vat_spec i)\<bar> \<le> 44 * 10 ^ 10"
    using decimal_lib.raw_net_vat_near(2) [OF assms] near(2) by linarith
qed

text \<open>A value of a \<open>Decimal(12, 2)\<close> column.\<close>

definition money_column :: "rat \<Rightarrow> bool" where
  "money_column x \<longleftrightarrow> on_grid 2 x \<and> \<bar>x\<bar> \<le> 10 ^ 10"

lemma shown_stoppage:
  assumes "decimal_lib D" and "one_estimate d" and "wf_fees d"
    and "\<forall>f \<in> set (db_fees d). money_column (f_amountGross f)"
    and "\<forall>f \<in> set (forward_rows oid STOPPAGE d). f_direction f = DEBIT"
  shows "dsum D signed_fee 0 (map detail_fee (forward_rows oid STOPPAGE d))
    = (case find_estimate oid STOPPAGE d of Some f \<Rightarrow> f_amountGross f | None \<Rightarrow> 0)"
proof (cases "find_estimate oid STOPPAGE d")
  case None
  then show ?thesis by (simp add: one_estimate_rows [OF assms(2,3)])
next
  case (Some f)
  have "on_grid 2 (f_amountGross f)" "\<bar>f_amountGross f\<bar> \<le> 10 ^ 10"
    using find_estimate_Some [OF Some] assms(4) by (auto simp: money_column_def)
  then have "dadd D 0 (f_amountGross f) = f_amountGross f"
    using decimal_lib.dadd_exact [OF assms(1), of 2 0 "f_amountGross f"] by simp
  moreover have "f_direction f = DEBIT" using assms(5) Some by (simp add: one_estimate_rows [OF assms(2,3)])
  ultimately show ?thesis
    using Some by (simp add: one_estimate_rows [OF assms(2,3)] signed_fee_def detail_fee_def)
qed

text \<open>What the terms of the detail are, read off the input the engine folded.\<close>

lemma detail_terms:
  assumes lib: "decimal_lib D" and one: "one_estimate d" and wf: "wf_fees d"
    and col: "\<forall>f \<in> set (db_fees d). money_column (f_amountGross f)"
    and deb: "\<forall>f \<in> set (forward_rows oid STOPPAGE d). f_direction f = DEBIT"
    and b: "bd_saleGross b = g" "bd_saleVat b = v" "bd_items b = map detail_item (order_items oid d)"
      "bd_fees b = map detail_fee (filter (\<lambda>f. f_orderId f = oid \<and> shown_fee f) (db_fees d))"
    and oid: "o_id r = oid" and i: "i = folded_estimate D r g v (order_items oid d) ps d"
  defines "t \<equiv> breakdown_terms D b" and "fs \<equiv> estimate_fee_rows oid d"
    and "R \<equiv> mp_gross (rl_returnShipping (resolveReturnLegs D (map to_return_row (estimate_return_rows oid d))))"
    and "S \<equiv> \<lambda>ty. dsum D signed_fee 0 (map detail_fee (filter (\<lambda>f. f_feeType f = ty) (estimate_fee_rows oid d)))"
  shows "dt_sale t = pi_sale i" "dt_cost t = pi_cost i" "dt_stoppage t = pi_stoppage i"
    "dt_marketplaceFees t = dadd D (dadd D (dadd D (dadd D (mp_gross (pi_commission i)) (dadd D (S SHIPPING) R))
        (S PLATFORM_SERVICE)) (S INTERNATIONAL_SERVICE)) (S OVERSEAS_RETURN_OPERATION)"
    "dt_taxes t = dadd D (pi_stoppage i) (bd_netVat b)"
    "signed_total pf_gross (pi_fees i) = - (R + (\<Sum>f\<leftarrow>fs. signed_fee (detail_fee f)))"
    "\<And>f. f \<in> set fs \<Longrightarrow> to_profit_fee D f \<in> set (pi_fees i)" "length fs \<le> length (pi_fees i)"
    "R = 0 \<or> (\<exists>x \<in> set (pi_fees i). pf_gross x = R)"
proof -
  have legs: "breakdown_legs D (bd_fees b) = resolveReturnLegs D (map to_return_row (estimate_return_rows oid d))"
    unfolding b(4) breakdown_legs_detail estimate_return_rows_def ..
  have totals: "breakdown_totals D (bd_items b) = sum_items D (estimated_commission D) (order_items oid d)"
    unfolding b(3) by (rule breakdown_totals_detail)
  have agg: "mp_gross (feeAgg D (bd_fees b) ty) = S ty" if "ty \<in> set PROFIT_FEE_TYPES" for ty
  proof -
    have "ty \<notin> set RETURN_FEE_TYPES" using that by (auto simp: PROFIT_FEE_TYPES_def RETURN_FEE_TYPES_def)
    then show ?thesis
      unfolding feeAgg_sums b(4) shown_forward [OF \<open>ty \<notin> _\<close>] forward_fee_rows [OF that] S_def by simp
  qed
  have fwd: "mp_gross (feeAgg D (bd_fees b) SHIPPING) = S SHIPPING"
    "mp_gross (feeAgg D (bd_fees b) PLATFORM_SERVICE) = S PLATFORM_SERVICE"
    "mp_gross (feeAgg D (bd_fees b) INTERNATIONAL_SERVICE) = S INTERNATIONAL_SERVICE"
    "mp_gross (feeAgg D (bd_fees b) OVERSEAS_RETURN_OPERATION) = S OVERSEAS_RETURN_OPERATION"
    by (intro agg; simp add: PROFIT_FEE_TYPES_def)+
  have "STOPPAGE \<notin> set RETURN_FEE_TYPES" by (simp add: RETURN_FEE_TYPES_def)
  then have stop: "mp_gross (feeAgg D (bd_fees b) STOPPAGE) =
      (case find_estimate oid STOPPAGE d of Some f \<Rightarrow> f_amountGross f | None \<Rightarrow> 0)"
    unfolding feeAgg_sums b(4) shown_forward [OF \<open>STOPPAGE \<notin> _\<close>] using shown_stoppage [OF lib one wf col deb] by simp
  note sel = i oid breakdown_terms_def Let_def legs totals b(1,2) folded_estimate_def estimate_input_def fwd
  show "dt_sale t = pi_sale i" "dt_cost t = pi_cost i" "dt_stoppage t = pi_stoppage i"
    "dt_marketplaceFees t = dadd D (dadd D (dadd D (dadd D (mp_gross (pi_commission i)) (dadd D (S SHIPPING) R))
        (S PLATFORM_SERVICE)) (S INTERNATIONAL_SERVICE)) (S OVERSEAS_RETURN_OPERATION)"
    "dt_taxes t = dadd D (pi_stoppage i) (bd_netVat b)"
    unfolding t_def R_def by (simp_all add: sel stop add_pair_def)
  have fees: "pi_fees i = map (to_profit_fee D) fs @ (if R = 0 then [] else
      [return_shipping_fee (resolveReturnLegs D (map to_return_row (estimate_return_rows oid d)))])"
    unfolding i folded_estimate_def foldReturnLegs_sel by (simp add: estimate_input_def Let_def oid fs_def R_def)
  show "signed_total pf_gross (pi_fees i) = - (R + (\<Sum>f\<leftarrow>fs. signed_fee (detail_fee f)))"
    unfolding fees using signed_total_forward [of D fs]
    by (simp add: signed_total_def return_shipping_fee_def R_def)
  show "\<And>f. f \<in> set fs \<Longrightarrow> to_profit_fee D f \<in> set (pi_fees i)" "length fs \<le> length (pi_fees i)"
    "R = 0 \<or> (\<exists>x \<in> set (pi_fees i). pf_gross x = R)"
    unfolding fees by (simp_all add: return_shipping_fee_def R_def)
qed

text \<open>C7: The breakdown an order shows after its estimate closes: product cost, marketplace fees, taxes
  and the stored net profit add up to the sale net of refunds, within the two cent roundings of
  the stored profit and net VAT, although the profit was computed by the engine and the other
  terms are summed again from the items and fee rows.\<close>
theorem breakdown_closes:
  assumes "decimal_lib D" and "applyEstimateOnOrderCreate D off oid d = Inr d'" and "wf_fees d" and "one_estimate d"
    and "find_order oid d = Some r" and "o_profitExcludedAt r = None"
    and "o_saleGross r = Some g" and "o_saleVat r = Some v" and "all_costs_known (order_items oid d)"
    and "sorted (map i_id (order_items oid d))"
    and "\<And>ps. bounded_input (folded_estimate D r g v (order_items oid d) ps d')"
    and "\<forall>f \<in> set (db_fees d'). money_column (f_amountGross f)"
    and "\<forall>f \<in> set (forward_rows oid STOPPAGE d'). f_direction f = DEBIT"
  shows "\<exists>b. detail_input oid d' = Some b \<and>
     (let t = breakdown_terms D b
      in \<bar>mp_gross (dt_sale t) - (mp_gross (dt_cost t) + dt_marketplaceFees t + dt_taxes t + bd_netProfit b)\<bar>
           \<le> 1 / 100 + 1 / 10 ^ 5)"
proof -
  obtain ps r1 where r1: "static r r1"
    "find_order oid d' = Some (set_estimate D
       (computeProfit D (folded_estimate D r g v (order_items oid d) ps d')) r1)"
    using apply_row [OF assms(2,5,6,3)] assms(7-9) by metis
  define i where "i = folded_estimate D r g v (order_items oid d) ps d'"
  have k: "keeps oid d d'" by (rule apply_keeps [OF assms(2,3)])
  have wf: "wf_fees d'" "one_estimate d'" using k assms(3,4) by (simp_all add: keeps_def)
  have items: "order_items oid d' = order_items oid d"
    using k by (simp add: keeps_def ref_eq_def order_items_def)
  have srt: "sort_key i_id (order_items oid d) = order_items oid d"
    using assms(10) by (simp add: sort_key_id_if_sorted)
  define b where "b = \<lparr> bd_saleGross = g, bd_saleVat = v, bd_listGross = or_zero (o_listGross r1),
      bd_sellerDiscountGross = or_zero (o_sellerDiscountGross r1),
      bd_items = map detail_item (order_items oid d),
      bd_fees = map detail_fee (filter (\<lambda>f. f_orderId f = oid \<and> shown_fee f) (db_fees d')),
      bd_netProfit = dps D 2 (pb_netProfit (computeProfit D i)), bd_netVat = dps D 2 (pb_netVat (computeProfit D i)),
      bd_saleMarginPct = map_option (dps D 4) (pb_saleMarginPct (computeProfit D i)),
      bd_costMarkupPct = map_option (dps D 4) (pb_costMarkupPct (computeProfit D i)) \<rparr>"
  have input: "detail_input oid d' = Some b"
    using r1 assms(7,8) by (simp add: detail_input_def set_estimate_def static_def items srt b_def i_def)
  have bd: "bounded_input i" unfolding i_def by (rule assms(11))
  have bsel: "bd_saleGross b = g" "bd_saleVat b = v" "bd_items b = map detail_item (order_items oid d')"
      "bd_fees b = map detail_fee (filter (\<lambda>f. f_orderId f = oid \<and> shown_fee f) (db_fees d'))"
    by (simp_all add: b_def items)
  have oid: "o_id r = oid" using find_order_id [OF assms(5)] by simp
  have ii: "i = folded_estimate D r g v (order_items oid d') ps d'" by (simp add: i_def items)
  let ?fs = "estimate_fee_rows oid d'"
  let ?R = "mp_gross (rl_returnShipping (resolveReturnLegs D (map to_return_row (estimate_return_rows oid d'))))"
  note t = detail_terms [OF assms(1) wf(2,1) assms(12,13) bsel oid ii]
  have amt: "\<bar>mp_gross (pi_commission i)\<bar> \<le> 10 ^ 10" "\<bar>pi_stoppage i\<bar> \<le> 10 ^ 10"
    "\<forall>x \<in> set (pi_fees i). \<bar>pf_gross x\<bar> \<le> 10 ^ 10" "length (pi_fees i) \<le> 40"
    using bd by (simp_all add: bounded_input_def list_all_iff)
  have R: "\<bar>?R\<bar> \<le> 10 ^ 10" using t(9) amt(3) by auto
  have fs: "\<forall>f \<in> set ?fs. f_feeType f \<in> set PROFIT_FEE_TYPES" "length ?fs \<le> 40"
    using amt(4) t(8) by (auto simp: estimate_fee_rows_def)
  have "pf_gross (to_profit_fee D f) = f_amountGross f" for f by (simp add: to_profit_fee_def)
  then have small: "\<forall>f \<in> set ?fs. \<bar>f_amountGross f\<bar> \<le> 10 ^ 10" using t(7) amt(3) by metis
  note mf = decimal_lib.marketplace_near [OF assms(1) fs(1) small fs(2) amt(1) R, folded t(4)]
  note ev = effective_net_vat_stored [OF assms(1) bd]
  have nv: "\<bar>bd_netVat b\<bar> \<le> 450000000000"
  proof -
    have "bd_netVat b = dps D 2 (pb_netVat (computeProfit D i))" by (simp add: b_def)
    moreover have "44 * dec_eps \<le> 1" "(10::rat) ^ 10 = 10000000000" by (simp_all add: dec_eps_def)
    ultimately show ?thesis using ev by linarith
  qed
  have tax: "\<bar>dt_taxes (breakdown_terms D b) - (pi_stoppage i + bd_netVat b)\<bar> \<le> 0 + 0 + dec_eps"
    unfolding t(5) by (rule decimal_lib.dadd_near [OF assms(1)])
      (use amt(2) nv in simp_all)
  have n: "(2 * of_nat (length (pi_fees i)) + 10) * dec_eps \<le> 90 * dec_eps"
    using amt(4) by (intro mult_right_mono) (simp_all add: dec_eps_def)
  have np: "\<bar>bd_netProfit b - profit_spec i\<bar> \<le> 1 / 200 + 90 * dec_eps"
    using stored_profit_near [OF assms(1) bd] n by (simp add: b_def)
  have spec: "profit_spec i = mp_gross (pi_sale i) - mp_gross (pi_cost i) - mp_gross (pi_commission i)
      - (?R + (\<Sum>f\<leftarrow>?fs. signed_fee (detail_fee f))) - pi_stoppage i - effective_net_vat i (vat_spec i)"
    unfolding profit_spec_def t(6) by simp
  have "bd_netVat b = dps D 2 (pb_netVat (computeProfit D i))" by (simp add: b_def)
  then have "\<bar>mp_gross (dt_sale (breakdown_terms D b)) - (mp_gross (dt_cost (breakdown_terms D b))
      + dt_marketplaceFees (breakdown_terms D b) + dt_taxes (breakdown_terms D b) + bd_netProfit b)\<bar>
      \<le> 1 / 100 + 180 * dec_eps"
    using mf [THEN conjunct1] tax np spec ev(1) unfolding t(1,2) by linarith
  then show ?thesis using input by (auto simp: Let_def dec_eps_def)
qed

lemma breakdown_closes_witness:
  "\<exists>b. detail_input 9 estimate_out = Some b \<and>
     (let t = breakdown_terms dec20 b
      in \<bar>mp_gross (dt_sale t) - (mp_gross (dt_cost t) + dt_marketplaceFees t + dt_taxes t + bd_netProfit b)\<bar>
           \<le> 1 / 100 + 1 / 10 ^ 5)"
proof -
  have fees: "db_fees estimate_out = db_fees estimate_d3" by (simp add: estimate_out_def)
  have row: "find_order 9 estimate_db = Some (example_order 9)" "order_items 9 estimate_db = [example_item]"
    by (simp_all add: find_order_def order_items_def estimate_db_eval)
  have order: "o_profitExcludedAt (example_order 9) = None" "o_saleGross (example_order 9) = Some 120"
    "o_saleVat (example_order 9) = Some 20"
    by (simp_all add: example_order_def del: One_nat_def)
  have costs: "all_costs_known (order_items 9 estimate_db)" by (simp add: row all_costs_known_def example_item_def)
  have bounded: "bounded_input (folded_estimate dec20 (example_order 9) 120 20 (order_items 9 estimate_db) ps estimate_out)" for ps
    unfolding row(2) folded_estimate_fees [OF fees] example_input_of by (simp add: bounded_input_def)
  have amounts: "map f_amountGross (db_fees estimate_out) = [12.5, 1]"
    "map f_direction (db_fees estimate_out) = [DEBIT, DEBIT]"
    by (simp_all add: fees estimate_d3_def new_estimate_def)
  have "money_column 12.5" "money_column 1"
    using on_gridI [of 2 1250] on_gridI [of 2 100] by (simp_all add: money_column_def)
  then have "\<forall>x \<in> set (map f_amountGross (db_fees estimate_out)). money_column x"
    unfolding amounts(1) by simp
  then have col: "\<forall>f \<in> set (db_fees estimate_out). money_column (f_amountGross f)" by simp
  have deb: "\<forall>f \<in> set (forward_rows 9 STOPPAGE estimate_out). f_direction f = DEBIT"
    using amounts(2) by (auto simp: forward_rows_def map_eq_Cons_conv)
  show ?thesis
    by (rule breakdown_closes [OF dec20.decimal_lib_axioms example_estimate example_wf row(1) order costs _ bounded col deb])
      (simp add: row)
qed

end
