(* ===== verification/Settlement_Api.thy ===== *)
theory Settlement_Api
  imports Sync_Worker Order_Write
begin

text \<open>
  The marketplace's financial rows: the wire shape of \<open>src/packages/marketplace/src/trendyol/settlements.ts\<close>,
  the paging and the window check of its generators, and the classification of
  \<open>settlements-dispatcher.ts\<close>, which turns the type asked for (and, for deduction invoices, the
  Turkish label of the answer) into what a row is about. The HTTP client is a parameter: a function
  from a page to its response or to what it throws.
\<close>

section \<open>Rows\<close>

datatype settlement_type =
    TxSale | TxReturn | TxDiscount | TxDiscountCancel | TxCoupon | TxCouponCancel
  | TxProvisionPositive | TxProvisionNegative | TxManualRefund | TxManualRefundCancel
  | TxTYDiscount | TxTYDiscountCancel | TxTYCoupon | TxTYCouponCancel
  | TxSellerRevenuePositive | TxSellerRevenueNegative | TxCommissionPositive | TxCommissionNegative
  | TxSellerRevenuePositiveCancel | TxSellerRevenueNegativeCancel
  | TxCommissionPositiveCancel | TxCommissionNegativeCancel

datatype other_financial_type =
    OfStoppage | OfCashAdvance | OfWireTransfer | OfIncomingTransfer | OfReturnInvoice
  | OfCommissionAgreementInvoice | OfPaymentOrder | OfDeductionInvoices | OfFinancialItem

text \<open>
  A transaction. \<open>shipmentPackageId\<close> is kept as the text its number prints to, the form the orders
  and claims are matched by. Amounts are the rationals the JSON numbers denote; the handlers write
  them to columns of two decimals, which hold the marketplace's cents exactly.
\<close>

record financial_tx =
  tx_id :: string
  tx_barcode :: "string option"
  tx_transactionType :: string
  tx_description :: "string option"
  tx_debt :: rat
  tx_credit :: "rat option"
  tx_commissionAmount :: "rat option"
  tx_commissionInvoiceSerialNumber :: "string option"
  tx_orderNumber :: "string option"
  tx_paymentOrderId :: "int option"
  tx_paymentDate :: "time option"
  tx_shipmentPackageId :: "string option"

record cargo_invoice_item =
  ca_shipmentPackageType :: string
  ca_parcelUniqueId :: int
  ca_orderNumber :: string
  ca_amount :: rat
  ca_itemDesi :: rat

section \<open>Classification of settlements\<close>

datatype semantics = SaleUpdate | DiscountUpdate | CouponUpdate

datatype settlement_target =
    OrderItemUpdate semantics
  | OrderFeeInsert order_fee_type order_fee_direction
  | Compensating
  | NoOp

fun classifySettlementTransaction :: "settlement_type \<Rightarrow> settlement_target" where
  "classifySettlementTransaction TxSale = OrderItemUpdate SaleUpdate"
| "classifySettlementTransaction TxDiscount = OrderItemUpdate DiscountUpdate"
| "classifySettlementTransaction TxCoupon = OrderItemUpdate CouponUpdate"
| "classifySettlementTransaction TxDiscountCancel = Compensating"
| "classifySettlementTransaction TxCouponCancel = Compensating"
| "classifySettlementTransaction TxTYDiscount = NoOp"
| "classifySettlementTransaction TxTYDiscountCancel = NoOp"
| "classifySettlementTransaction TxTYCoupon = NoOp"
| "classifySettlementTransaction TxTYCouponCancel = NoOp"
| "classifySettlementTransaction TxReturn = OrderFeeInsert REFUND_DEDUCTION DEBIT"
| "classifySettlementTransaction TxProvisionPositive = OrderFeeInsert PROVISION_ADJUSTMENT CREDIT"
| "classifySettlementTransaction TxProvisionNegative = OrderFeeInsert PROVISION_ADJUSTMENT DEBIT"
| "classifySettlementTransaction TxManualRefund = OrderFeeInsert MANUAL_REFUND DEBIT"
| "classifySettlementTransaction TxManualRefundCancel = OrderFeeInsert MANUAL_REFUND CREDIT"
| "classifySettlementTransaction TxSellerRevenuePositive = OrderFeeInsert REVENUE_ADJUSTMENT CREDIT"
| "classifySettlementTransaction TxSellerRevenueNegative = OrderFeeInsert REVENUE_ADJUSTMENT DEBIT"
| "classifySettlementTransaction TxSellerRevenuePositiveCancel = OrderFeeInsert REVENUE_ADJUSTMENT DEBIT"
| "classifySettlementTransaction TxSellerRevenueNegativeCancel = OrderFeeInsert REVENUE_ADJUSTMENT CREDIT"
| "classifySettlementTransaction TxCommissionPositive = OrderFeeInsert COMMISSION_ADJUSTMENT DEBIT"
| "classifySettlementTransaction TxCommissionNegative = OrderFeeInsert COMMISSION_ADJUSTMENT CREDIT"
| "classifySettlementTransaction TxCommissionPositiveCancel = OrderFeeInsert COMMISSION_ADJUSTMENT CREDIT"
| "classifySettlementTransaction TxCommissionNegativeCancel = OrderFeeInsert COMMISSION_ADJUSTMENT DEBIT"

section \<open>Classification of the other financial rows\<close>

datatype deduction_class =
    PlatformServiceFee | CargoInvoice | Advertising | CommissionInvoice
  | Penalty order_fee_type | NotificationFee | UnknownLabel string

text \<open>The labels are Turkish; their letters outside ASCII stand as UTF-8 bytes.\<close>

definition fatura :: "string \<Rightarrow> string" where       \<comment> \<open>the invoice of something\<close>
  "fatura s = s @ '' Faturas'' @ [CHR 0xC4, CHR 0xB1]"

definition urun :: string where                    \<comment> \<open>product\<close>
  "urun = [CHR 0xC3, CHR 0x9C] @ ''r'' @ [CHR 0xC3, CHR 0xBC] @ ''n''"

definition DEDUCTION_INVOICE_LABELS :: "(string \<times> deduction_class) list" where
  "DEDUCTION_INVOICE_LABELS =
     [(''Platform Hizmet Bedeli'', PlatformServiceFee),
      (''Kargo Fatura'', CargoInvoice),
      (fatura ''Kargo'', CargoInvoice),
      (''Reklam Bedeli'', Advertising),
      (fatura ''Komisyon'', CommissionInvoice),
      (fatura (''Kusurlu '' @ urun), Penalty PENALTY_DEFECTIVE),
      (fatura (''Yanl'' @ [CHR 0xC4, CHR 0xB1, CHR 0xC5, CHR 0x9F] @ '' '' @ urun), Penalty PENALTY_WRONG_PRODUCT),
      (fatura (''Eksik '' @ urun), Penalty PENALTY_MISSING_PRODUCT),
      (''Termin Gecikme Bedeli'', Penalty PENALTY_LATE_DELIVERY),
      (fatura ''Tedarik Edememe'', Penalty PENALTY_SUPPLY_FAILURE),
      (fatura (''M'' @ [CHR 0xC3, CHR 0xBC, CHR 0xC5, CHR 0x9F] @ ''teri Duyurular'' @ [CHR 0xC4, CHR 0xB1]), NotificationFee)]"

definition classifyDeductionInvoice :: "string \<Rightarrow> deduction_class" where
  "classifyDeductionInvoice label =
     (case map_of DEDUCTION_INVOICE_LABELS label of Some c \<Rightarrow> c | None \<Rightarrow> UnknownLabel label)"

definition getCargoInvoiceSerial :: "other_financial_type \<Rightarrow> financial_tx \<Rightarrow> string option" where
  "getCargoInvoiceSerial ty row =
     (if ty \<noteq> OfDeductionInvoices then None
      else if classifyDeductionInvoice (tx_transactionType row) = CargoInvoice then Some (tx_id row)
      else None)"

datatype other_financial_target =
    PaymentOrderCycle
  | OrgPeriodFeeAudit order_fee_type
  | DeductionInvoice deduction_class
  | AuditLogRaw

definition classifyOtherFinancialTransaction :: "other_financial_type \<Rightarrow> financial_tx \<Rightarrow> other_financial_target" where
  "classifyOtherFinancialTransaction ty row =
     (case ty of
        OfPaymentOrder \<Rightarrow> PaymentOrderCycle
      | OfStoppage \<Rightarrow> OrgPeriodFeeAudit STOPPAGE
      | OfDeductionInvoices \<Rightarrow> DeductionInvoice (classifyDeductionInvoice (tx_transactionType row))
      | _ \<Rightarrow> AuditLogRaw)"

section \<open>Fetching\<close>

definition FINANCIAL_WINDOW_MAX_DAYS :: int where "FINANCIAL_WINDOW_MAX_DAYS = 15"

definition assertWindow :: "time \<Rightarrow> time \<Rightarrow> bool" where
  "assertWindow startDate endDate \<longleftrightarrow>
     0 \<le> endDate - startDate \<and> endDate - startDate \<le> FINANCIAL_WINDOW_MAX_DAYS * day_ms"

record 'a api_page =
  pg_totalElements :: nat
  pg_content :: "'a list"

text \<open>
  The loop of the generators. The rows are handed on as they come, so an error after some pages
  leaves the rows before it processed: the result is the rows and what ended them.
\<close>

function fetch_rows ::
  "(nat \<Rightarrow> thrown + 'a api_page) \<Rightarrow> nat \<Rightarrow> nat \<Rightarrow> nat option \<Rightarrow> 'a list \<times> thrown option" where
  "fetch_rows api page processedSoFar tot =
     (case api page of
        Inl e \<Rightarrow> ([], Some e)
      | Inr res \<Rightarrow>
          let t = (case tot of None \<Rightarrow> pg_totalElements res | Some t \<Rightarrow> t);
              content = pg_content res
          in if content = [] then ([], None)
             else if t \<le> processedSoFar + length content then (content, None)
             else (let (rest, e) = fetch_rows api (page + 1) (processedSoFar + length content) (Some t)
                   in (content @ rest, e)))"
  by pat_completeness auto
termination
proof (relation "measures [\<lambda>(api, page, n, tot). if tot = None then 1 else 0,
                           \<lambda>(api, page, n, tot). the tot - n]")
qed (auto split: option.splits simp flip: length_greater_0_conv)

declare fetch_rows.simps [simp del]

definition window_error :: thrown where
  "window_error = Thrown None (Some ''Financial endpoint window'') None"

definition fetch_window :: "(nat \<Rightarrow> thrown + 'a api_page) \<Rightarrow> time \<Rightarrow> time \<Rightarrow> 'a list \<times> thrown option" where
  "fetch_window api startDate endDate =
     (if assertWindow startDate endDate then fetch_rows api 0 0 None else ([], Some window_error))"

text \<open>The pages of an endpoint that serves the list \<open>xs\<close> in pages of \<open>n\<close> are fetched as that list.\<close>

definition serves :: "nat \<Rightarrow> 'a list \<Rightarrow> (nat \<Rightarrow> thrown + 'a api_page) \<Rightarrow> bool" where
  "serves n xs api \<longleftrightarrow>
     (\<forall>page. api page = Inr \<lparr> pg_totalElements = length xs, pg_content = take n (drop (page * n) xs) \<rparr>)"

lemma fetch_rows_serves:
  assumes "serves n xs api" and "0 < n" and "tot = None \<or> tot = Some (length xs)"
    and "page * n \<le> length xs"
  shows "fetch_rows api page (page * n) tot = (drop (page * n) xs, None)"
  using assms(3,4)
proof (induction "length xs - page * n" arbitrary: page tot rule: less_induct)
  case less
  have api: "api page = Inr \<lparr> pg_totalElements = length xs, pg_content = take n (drop (page * n) xs) \<rparr>"
    using assms(1) by (simp add: serves_def)
  have t: "(case tot of None \<Rightarrow> pg_totalElements \<lparr> pg_totalElements = length xs, pg_content = c \<rparr> | Some t \<Rightarrow> t) = length xs"
    for c :: "'a list" using less.prems(1) by auto
  show ?case
  proof (cases "page * n + n < length xs")
    case True
    have len: "length (take n (drop (page * n) xs)) = n" using True by simp
    have "fetch_rows api (page + 1) ((page + 1) * n) (Some (length xs)) = (drop ((page + 1) * n) xs, None)"
      by (rule less.hyps) (use True assms(2) in \<open>simp_all add: algebra_simps\<close>)
    then have rec: "fetch_rows api (Suc page) (page * n + n) (Some (length xs)) = (drop (page * n + n) xs, None)"
      by (simp add: algebra_simps)
    have "take n (drop (page * n) xs) @ drop (page * n + n) xs = drop (page * n) xs"
      by (metis append_take_drop_id drop_drop add.commute)
    with True assms(2) rec len show ?thesis
      by (subst fetch_rows.simps) (auto simp add: api Let_def t simp del: api_page.simps(1) split del: option.split)
  next
    case False
    show ?thesis
    proof (cases "page * n < length xs")
      case True
      with False assms(2) show ?thesis
        by (subst fetch_rows.simps) (auto simp add: api Let_def t simp del: api_page.simps(1) split del: option.split)
    next
      case beyond: False
      with less.prems(2) show ?thesis by (subst fetch_rows.simps) (simp add: api)
    qed
  qed
qed

lemma fetch_all:
  assumes "serves n xs api" and "0 < n"
  shows "fetch_rows api 0 0 None = (xs, None)"
  using fetch_rows_serves [OF assms, of None 0] by simp

end
