(* ===== verification/Settlement.thy ===== *)
theory Settlement
  imports Settlement_Api Settled
begin

text \<open>
  The settlement handlers, \<open>src/apps/sync-worker/src/handlers/settlements\<close>: what a financial row
  writes. Sale and discount rows write the marketplace's commission to an order line; a return
  row writes the legs of a returned unit; a cargo invoice writes its parcels; a payment order
  confirms the deterministic estimates of its orders; \<open>tryFinalizeReconciliation\<close> settles an order
  once no estimate waits for its real value. Each row runs in a transaction of its own: \<open>Inl\<close> is
  what it throws, and then nothing of it is kept.
\<close>

section \<open>Results\<close>

datatype skip_reason = SparseField | NoOrder | NoVariant | NoItem | NoOrdersInCycle

datatype settlement_result = Applied | Skipped "skip_reason option"

fun nat_text :: "nat \<Rightarrow> string" where
  "nat_text n = (if n < 10 then [char_of (48 + n)] else nat_text (n div 10) @ [char_of (48 + n mod 10)])"

declare nat_text.simps [simp del]

definition int_text :: "int \<Rightarrow> string" where
  "int_text k = (if k < 0 then ''-'' @ nat_text (nat (- k)) else nat_text (nat k))"

section \<open>Sale and discount\<close>

definition item_of_variant :: "id \<Rightarrow> id \<Rightarrow> db \<Rightarrow> item_row option" where
  "item_of_variant oid vid d =
     find (\<lambda>i. i_orderId i = oid \<and> i_productVariantId i = Some vid) (db_items d)"

text \<open>The order line a row is about, with the commission it carries.\<close>

definition locate_line :: "id \<Rightarrow> financial_tx \<Rightarrow> db \<Rightarrow> skip_reason + (order_row \<times> item_row \<times> rat)" where
  "locate_line sid row d =
     (case (tx_shipmentPackageId row, tx_barcode row, tx_commissionAmount row) of
        (Some pid, Some bc, Some ca) \<Rightarrow>
          (case order_by_key sid pid d of
             None \<Rightarrow> Inl NoOrder
           | Some r \<Rightarrow>
               (case variant_by_barcode sid bc d of
                  None \<Rightarrow> Inl NoVariant
                | Some v \<Rightarrow>
                    (case item_of_variant (o_id r) (v_id v) d of
                       None \<Rightarrow> Inl NoItem
                     | Some i \<Rightarrow> Inr (r, i, ca))))
      | _ \<Rightarrow> Inl SparseField)"

definition settle_line :: "dec \<Rightarrow> financial_tx \<Rightarrow> rat \<Rightarrow> item_row \<Rightarrow> item_row" where
  "settle_line D row ca i =
     (let quantity = of_int (i_quantity i)
      in i \<lparr> i_settledCommissionGross := Some (dmul D ca quantity),
             i_settledSaleAmount :=
               (case tx_credit row of Some c \<Rightarrow> Some (dmul D c quantity) | None \<Rightarrow> i_settledSaleAmount i),
             i_commissionInvoiceSerialNumber :=
               (case tx_commissionInvoiceSerialNumber row of Some s \<Rightarrow> Some s
                | None \<Rightarrow> i_commissionInvoiceSerialNumber i) \<rparr>)"

text \<open>The payment order is stamped once: the update keeps a row that already has one.\<close>

definition stamp_payment :: "financial_tx \<Rightarrow> id \<Rightarrow> db \<Rightarrow> db" where
  "stamp_payment row oid d =
     (case (tx_paymentOrderId row, tx_paymentDate row) of
        (Some po, Some pd) \<Rightarrow>
          update_order oid (\<lambda>r. if o_paymentOrderId r = None
            then r \<lparr> o_paymentOrderId := Some po, o_paymentDate := Some pd \<rparr> else r) d
      | _ \<Rightarrow> d)"

definition handleSale :: "dec \<Rightarrow> id \<Rightarrow> financial_tx \<Rightarrow> db \<Rightarrow> settlement_result \<times> db" where
  "handleSale D sid row d =
     (case locate_line sid row d of
        Inl why \<Rightarrow> (Skipped (Some why), d)
      | Inr (r, i, ca) \<Rightarrow>
          (Applied, stamp_payment row (o_id r) (update_item (i_id i) (settle_line D row ca) d)))"

definition handleDiscount :: "dec \<Rightarrow> id \<Rightarrow> financial_tx \<Rightarrow> db \<Rightarrow> settlement_result \<times> db" where
  "handleDiscount D sid row d =
     (case locate_line sid row d of
        Inl why \<Rightarrow> (Skipped (Some why), d)
      | Inr (r, i, ca) \<Rightarrow>
          (Applied, update_item (i_id i)
             (\<lambda>x. x \<lparr> i_refundedCommissionGross := dmul D ca (of_int (i_quantity i)) \<rparr>) d))"

section \<open>Returns\<close>

definition has_barcode :: "string \<Rightarrow> db \<Rightarrow> item_row \<Rightarrow> bool" where
  "has_barcode bc d i \<longleftrightarrow> map_option v_barcode (item_variant i d) = Some bc"

text \<open>
  The order of a return: by the package, else by the claim whose return parcel it is, else by the
  order number and barcode when exactly one order has both.
\<close>

definition return_order :: "id \<Rightarrow> string \<Rightarrow> string \<Rightarrow> string option \<Rightarrow> db \<Rightarrow> order_row option" where
  "return_order sid pid bc orderNumber d =
     (case order_by_key sid pid d of
        Some r \<Rightarrow> Some r
      | None \<Rightarrow>
          (case Option.bind (find (\<lambda>c. oc_storeId c = sid \<and> oc_orderShipmentPackageId c = Some pid) (db_claims d))
                  (\<lambda>c. find_order (oc_orderId c) d) of
             Some r \<Rightarrow> Some r
           | None \<Rightarrow>
               (case orderNumber of
                  None \<Rightarrow> None
                | Some n \<Rightarrow>
                    (case filter (\<lambda>r. o_storeId r = sid \<and> o_platformOrderNumber r = n
                              \<and> list_ex (has_barcode bc d) (order_items (o_id r) d)) (db_orders d) of
                       [r] \<Rightarrow> Some r
                     | _ \<Rightarrow> None))))"

definition leg_of :: "id \<Rightarrow> string \<Rightarrow> fee_row \<Rightarrow> bool" where
  "leg_of oid tid f \<longleftrightarrow> f_orderId f = oid \<and> f_source f = SETTLEMENT \<and> f_trendyolTransactionId f = Some tid"

definition existing_legs :: "id \<Rightarrow> string \<Rightarrow> db \<Rightarrow> fee_row list" where
  "existing_legs oid tid d = filter (leg_of oid tid) (db_fees d)"

text \<open>The returned unit: the one earlier legs are linked to, else the oldest unit of the line without a fee.\<close>

definition claim_unit :: "id \<Rightarrow> string \<Rightarrow> item_row \<Rightarrow> db \<Rightarrow> id option" where
  "claim_unit oid tid i d =
     (case List.map_filter f_orderClaimItemId (existing_legs oid tid d) of
        c # _ \<Rightarrow> Some c
      | [] \<Rightarrow>
          map_option ci_id
            (find (\<lambda>c. ci_orderItemId c = Some (i_id i) \<and> claim_item_of oid d c
                     \<and> \<not> list_ex (\<lambda>f. f_orderClaimItemId f = Some (ci_id c)) (db_fees d)) (db_claimItems d)))"

definition settlement_leg ::
  "order_row \<Rightarrow> string \<Rightarrow> id option \<Rightarrow> order_fee_type \<Rightarrow> order_fee_direction \<Rightarrow> rat \<Rightarrow> rat \<Rightarrow> string \<Rightarrow> id \<Rightarrow> fee_row" where
  "settlement_leg r tid unit ty dir gross vat name fid =
     \<lparr> f_id = fid, f_orderId = o_id r, f_organizationId = o_organizationId r, f_feeDefinitionId = None,
       f_feeType = ty, f_source = SETTLEMENT, f_direction = dir, f_amountGross = gross, f_vatRate = vat,
       f_displayName = Some name, f_confirmedAt = None, f_confirmedBy = None,
       f_trendyolTransactionId = Some tid, f_invoiceSerialNumber = None, f_parcelUniqueId = None,
       f_orderClaimItemId = unit \<rparr>"

definition has_leg :: "order_fee_type \<Rightarrow> fee_row list \<Rightarrow> bool" where
  "has_leg ty legs \<longleftrightarrow> list_ex (\<lambda>f. f_feeType f = ty) legs"

definition refund_leg :: "order_row \<Rightarrow> item_row \<Rightarrow> financial_tx \<Rightarrow> id option \<Rightarrow> id \<Rightarrow> fee_row" where
  "refund_leg r i row unit =
     settlement_leg r (tx_id row) unit REFUND_DEDUCTION DEBIT (tx_debt row) (i_saleVatRate i)
       ([CHR 0xC4, CHR 0xB0] @ ''ade kesintisi'')"

definition commission_leg :: "order_row \<Rightarrow> financial_tx \<Rightarrow> id option \<Rightarrow> rat \<Rightarrow> rat \<Rightarrow> id \<Rightarrow> fee_row" where
  "commission_leg r row unit ca vat =
     settlement_leg r (tx_id row) unit COMMISSION_REFUND CREDIT ca vat ''Komisyon iadesi''"

definition cost_leg :: "order_row \<Rightarrow> item_row \<Rightarrow> financial_tx \<Rightarrow> id option \<Rightarrow> rat \<Rightarrow> id \<Rightarrow> fee_row" where
  "cost_leg r i row unit cost =
     settlement_leg r (tx_id row) unit COST_RETURN CREDIT cost (or_zero (i_unitCostSnapshotVatRate i)) ''Maliyet iadesi''"

text \<open>Each leg is written when it is missing and its amount is known.\<close>

definition commission_stage ::
  "order_row \<Rightarrow> financial_tx \<Rightarrow> fee_row list \<Rightarrow> id option \<Rightarrow> db \<Rightarrow> profit_error + (bool \<times> db)" where
  "commission_stage r row legs unit d =
     (case tx_commissionAmount row of
        Some ca \<Rightarrow>
          if has_leg COMMISSION_REFUND legs then Inr (False, d)
          else bindR (resolveFeeDefinition d TRENDYOL COMMISSION_INVOICE (o_orderDate r)) (\<lambda>fd.
                 Inr (True, create_fee (commission_leg r row unit ca (fd_defaultVatRate fd)) d))
      | None \<Rightarrow> Inr (False, d))"

definition refund_stage ::
  "order_row \<Rightarrow> item_row \<Rightarrow> financial_tx \<Rightarrow> fee_row list \<Rightarrow> id option \<Rightarrow> db \<Rightarrow> bool \<times> db" where
  "refund_stage r i row legs unit d =
     (if has_leg REFUND_DEDUCTION legs then (False, d) else (True, create_fee (refund_leg r i row unit) d))"

definition cost_stage ::
  "order_row \<Rightarrow> item_row \<Rightarrow> financial_tx \<Rightarrow> fee_row list \<Rightarrow> id option \<Rightarrow> db \<Rightarrow> bool \<times> db" where
  "cost_stage r i row legs unit d =
     (case i_unitCostSnapshotGross i of
        Some cost \<Rightarrow>
          if has_leg COST_RETURN legs then (False, d) else (True, create_fee (cost_leg r i row unit cost) d)
      | None \<Rightarrow> (False, d))"

definition link_unit :: "id \<Rightarrow> string \<Rightarrow> id option \<Rightarrow> db \<Rightarrow> db" where
  "link_unit oid tid unit d =
     (case unit of
        None \<Rightarrow> d
      | Some c \<Rightarrow>
          d \<lparr> db_fees := update_where (\<lambda>f. leg_of oid tid f \<and> f_orderClaimItemId f = None)
                           (\<lambda>f. f \<lparr> f_orderClaimItemId := Some c \<rparr>) (db_fees d) \<rparr>)"

definition write_legs ::
  "order_row \<Rightarrow> item_row \<Rightarrow> financial_tx \<Rightarrow> db \<Rightarrow> profit_error + (bool \<times> db)" where
  "write_legs r i row d =
     (let legs = existing_legs (o_id r) (tx_id row) d;
          unit = claim_unit (o_id r) (tx_id row) i d;
          (w1, d1) = refund_stage r i row legs unit d
      in bindR (commission_stage r row legs unit d1) (\<lambda>(w2, d2).
           let (w3, d3) = cost_stage r i row legs unit d2
           in Inr (w1 \<or> w2 \<or> w3, link_unit (o_id r) (tx_id row) unit d3)))"

definition handleReturn :: "dec \<Rightarrow> id \<Rightarrow> financial_tx \<Rightarrow> db \<Rightarrow> profit_error + (settlement_result \<times> db)" where
  "handleReturn D sid row d =
     (case (tx_shipmentPackageId row, tx_barcode row) of
        (Some pid, Some bc) \<Rightarrow>
          (case return_order sid pid bc (tx_orderNumber row) d of
             None \<Rightarrow> Inr (Skipped (Some NoOrder), d)
           | Some r \<Rightarrow>
               (case variant_by_barcode sid bc d of
                  None \<Rightarrow> Inr (Skipped (Some NoVariant), d)
                | Some v \<Rightarrow>
                    (case item_of_variant (o_id r) (v_id v) d of
                       None \<Rightarrow> Inr (Skipped (Some NoItem), d)
                     | Some i \<Rightarrow>
                         bindR (write_legs r i row d) (\<lambda>(wrote, d1).
                           if \<not> wrote then Inr (Skipped None, d1)
                           else if o_settledNetProfit r \<noteq> None
                                then Inr (Applied, snd (recomputeSettledProfit D (o_id r) d1))
                                else Inr (Applied, d1)))))
      | _ \<Rightarrow> Inr (Skipped (Some SparseField), d))"

section \<open>Finalization\<close>

definition unresolved :: "id \<Rightarrow> db \<Rightarrow> fee_row \<Rightarrow> bool" where
  "unresolved oid d f \<longleftrightarrow>
     f_orderId f = oid \<and> f_source f = ESTIMATE \<and> f_confirmedAt f = None
     \<and> (f_feeType f = SHIPPING \<longrightarrow>
          \<not> list_ex (\<lambda>g. f_orderId g = oid \<and> f_source g = CARGO_INVOICE \<and> f_feeType g = SHIPPING) (db_fees d))"

definition hasUnresolvedEstimateFee :: "id \<Rightarrow> db \<Rightarrow> bool" where
  "hasUnresolvedEstimateFee oid d \<longleftrightarrow> list_ex (unresolved oid d) (db_fees d)"

definition set_fully :: "order_row \<Rightarrow> order_row" where
  "set_fully r = r \<lparr> o_reconciliationStatus := FULLY_SETTLED \<rparr>"

definition tryFinalizeReconciliation :: "dec \<Rightarrow> id \<Rightarrow> db \<Rightarrow> bool \<times> db" where
  "tryFinalizeReconciliation D oid d =
     (case find_order oid d of
        None \<Rightarrow> (False, d)
      | Some r \<Rightarrow>
          if o_paymentOrderId r = None then (False, d)
          else if hasUnresolvedEstimateFee oid d then (o_reconciliationStatus r = FULLY_SETTLED, d)
          else (let (res, d1) = recomputeSettledProfit D oid d
                in if (case res of Inl _ \<Rightarrow> True | Inr _ \<Rightarrow> False) \<and> o_profitExcludedAt r = None
                   then (o_reconciliationStatus r = FULLY_SETTLED, d1)
                   else (True, if o_reconciliationStatus r \<noteq> FULLY_SETTLED
                               then update_order oid set_fully d1 else d1)))"

section \<open>Payment orders\<close>

definition CONFIRMABLE_FEE_TYPES :: "order_fee_type list" where
  "CONFIRMABLE_FEE_TYPES = [PLATFORM_SERVICE, STOPPAGE, INTERNATIONAL_SERVICE, OVERSEAS_RETURN_OPERATION]"

definition SELLER_CARGO_CONFIRMABLE :: "order_fee_type list" where
  "SELLER_CARGO_CONFIRMABLE = CONFIRMABLE_FEE_TYPES @ [SHIPPING]"

definition confirmable_types :: "order_row \<Rightarrow> db \<Rightarrow> order_fee_type list" where
  "confirmable_types r d =
     (if o_usesSellerCargoAgreement r
         \<and> \<not> list_ex (\<lambda>f. f_orderId f = o_id r \<and> f_source f = CARGO_INVOICE \<and> f_feeType f = SHIPPING) (db_fees d)
      then SELLER_CARGO_CONFIRMABLE else CONFIRMABLE_FEE_TYPES)"

definition confirm_fees :: "id \<Rightarrow> order_fee_type list \<Rightarrow> time \<Rightarrow> string \<Rightarrow> db \<Rightarrow> db" where
  "confirm_fees oid types now who d =
     d \<lparr> db_fees := update_where
           (\<lambda>f. f_orderId f = oid \<and> f_source f = ESTIMATE \<and> f_feeType f \<in> set types \<and> f_confirmedAt f = None)
           (\<lambda>f. f \<lparr> f_confirmedAt := Some now, f_confirmedBy := Some who \<rparr>) (db_fees d) \<rparr>"

definition settle_order :: "dec \<Rightarrow> time \<Rightarrow> string \<Rightarrow> db \<Rightarrow> order_row \<Rightarrow> db" where
  "settle_order D now who d r =
     snd (tryFinalizeReconciliation D (o_id r) (confirm_fees (o_id r) (confirmable_types r d) now who d))"

definition cycle_orders :: "id \<Rightarrow> int \<Rightarrow> db \<Rightarrow> order_row list" where
  "cycle_orders sid po d = filter (\<lambda>r. o_storeId r = sid \<and> o_paymentOrderId r = Some po) (db_orders d)"

definition handlePaymentOrderEntry :: "dec \<Rightarrow> time \<Rightarrow> id \<Rightarrow> financial_tx \<Rightarrow> db \<Rightarrow> settlement_result \<times> db" where
  "handlePaymentOrderEntry D now sid row d =
     (case tx_paymentOrderId row of
        None \<Rightarrow> (Skipped (Some SparseField), d)
      | Some po \<Rightarrow>
          (case cycle_orders sid po d of
             [] \<Rightarrow> (Skipped (Some NoOrdersInCycle), d)
           | rs \<Rightarrow> (Applied, foldl (settle_order D now (''PaymentOrder:'' @ int_text po)) d rs)))"

section \<open>Period fees\<close>

definition insertOrgPeriodFee ::
  "id \<Rightarrow> id \<Rightarrow> order_fee_type \<Rightarrow> financial_tx \<Rightarrow> rat \<Rightarrow> rat option \<Rightarrow> db \<Rightarrow> settlement_result \<times> db" where
  "insertOrgPeriodFee sid org ty row gross vat d =
     (case (tx_paymentOrderId row, tx_paymentDate row) of
        (Some po, Some pd) \<Rightarrow>
          if list_ex (\<lambda>p. pe_storeId p = sid \<and> pe_feeType p = ty \<and> pe_trendyolTransactionId p = Some (tx_id row))
               (db_orgPeriodFees d)
          then (Skipped None, d)
          else (Applied, d \<lparr> db_orgPeriodFees := db_orgPeriodFees d @
                  [\<lparr> pe_id = db_nextId d, pe_organizationId = org, pe_storeId = sid, pe_paymentOrderId = po,
                     pe_paymentDate = pd, pe_feeType = ty, pe_source = SETTLEMENT, pe_amountGross = gross,
                     pe_vatRate = or_zero vat,
                     pe_invoiceSerialNumber = tx_commissionInvoiceSerialNumber row,
                     pe_description = tx_description row,
                     pe_trendyolTransactionId = Some (tx_id row) \<rparr>],
                db_nextId := Suc (db_nextId d) \<rparr>)
      | _ \<Rightarrow> (Skipped (Some SparseField), d))"

definition handlePsf :: "id \<Rightarrow> id \<Rightarrow> financial_tx \<Rightarrow> db \<Rightarrow> settlement_result \<times> db" where
  "handlePsf sid org row = insertOrgPeriodFee sid org PLATFORM_SERVICE row (tx_debt row) (Some 20)"

definition handleStoppage :: "id \<Rightarrow> id \<Rightarrow> financial_tx \<Rightarrow> db \<Rightarrow> settlement_result \<times> db" where
  "handleStoppage sid org row = insertOrgPeriodFee sid org STOPPAGE row (tx_debt row) None"

definition handleAdvertising :: "id \<Rightarrow> id \<Rightarrow> financial_tx \<Rightarrow> db \<Rightarrow> settlement_result \<times> db" where
  "handleAdvertising sid org row = insertOrgPeriodFee sid org ADVERTISING row (tx_debt row) (Some 0)"

end
