(* ===== verification/Settlement_Cron.thy ===== *)
theory Settlement_Cron
  imports Settlement
begin

text \<open>
  The rest of the settlement handlers, the commission and cargo invoices, the dispatch of a row
  to its handler (\<open>dispatcher.ts\<close>), the status bump, and one chunk of the settlement job
  (\<open>cron.ts\<close>): the windows of the scan, a heartbeat for each, every row in a transaction of its
  own. The chunk is a \<open>handler\<close> of the worker of \<open>Sync_Worker\<close>.
\<close>

section \<open>Commission invoices\<close>

definition commissionVatDivisor :: "dec \<Rightarrow> rat \<Rightarrow> rat" where
  "commissionVatDivisor D rate = dadd D 1 (ddiv D rate 100)"

definition new_invoice ::
  "id \<Rightarrow> id \<Rightarrow> id \<Rightarrow> string \<Rightarrow> time \<Rightarrow> rat \<Rightarrow> rat \<Rightarrow> int \<Rightarrow> commission_invoice_row" where
  "new_invoice nid org sid serial pd net vat po =
     \<lparr> in_id = nid, in_organizationId = org, in_storeId = sid, in_trendyolSerialNumber = serial,
       in_periodStart = pd, in_periodEnd = pd, in_totalNet = net, in_totalVat = vat,
       in_paymentOrderId = Some po, in_paymentDate = Some pd \<rparr>"

definition invoice_key :: "id \<Rightarrow> string \<Rightarrow> commission_invoice_row \<Rightarrow> bool" where
  "invoice_key sid serial n \<longleftrightarrow> in_storeId n = sid \<and> in_trendyolSerialNumber n = serial"

definition upsert_invoice ::
  "id \<Rightarrow> id \<Rightarrow> string \<Rightarrow> time \<Rightarrow> rat \<Rightarrow> rat \<Rightarrow> int \<Rightarrow> db \<Rightarrow> id \<times> db" where
  "upsert_invoice org sid serial pd net vat po d =
     (case find (invoice_key sid serial) (db_commissionInvoices d) of
        Some n \<Rightarrow>
          (in_id n, d \<lparr> db_commissionInvoices := update_where (invoice_key sid serial)
             (\<lambda>n. n \<lparr> in_totalNet := net, in_totalVat := vat, in_paymentOrderId := Some po,
                      in_paymentDate := Some pd \<rparr>) (db_commissionInvoices d) \<rparr>)
      | None \<Rightarrow>
          (db_nextId d, d \<lparr> db_commissionInvoices :=
             db_commissionInvoices d @ [new_invoice (db_nextId d) org sid serial pd net vat po],
             db_nextId := Suc (db_nextId d) \<rparr>))"

text \<open>The items of the invoice: its serial, its store, its organization (the order's, which an item copies).\<close>

definition invoiced_item :: "id \<Rightarrow> id \<Rightarrow> string \<Rightarrow> db \<Rightarrow> item_row \<Rightarrow> bool" where
  "invoiced_item sid org serial d i \<longleftrightarrow>
     (case find_order (i_orderId i) d of
        Some r \<Rightarrow> o_organizationId r = org \<and> o_storeId r = sid | None \<Rightarrow> False)
     \<and> i_commissionInvoiceSerialNumber i = Some serial \<and> i_commissionInvoiceId i = None"

definition handleCommissionInvoice ::
  "dec \<Rightarrow> id \<Rightarrow> id \<Rightarrow> financial_tx \<Rightarrow> db \<Rightarrow> profit_error + (settlement_result \<times> db)" where
  "handleCommissionInvoice D sid org row d =
     (case (tx_paymentOrderId row, tx_paymentDate row) of
        (Some po, Some pd) \<Rightarrow>
          bindR (resolveFeeDefinition d TRENDYOL COMMISSION_INVOICE pd) (\<lambda>fd.
            let gross = tx_debt row;
                net = dps D 2 (ddiv D gross (commissionVatDivisor D (fd_defaultVatRate fd)));
                vat = dsub D gross net;
                (nid, d1) = upsert_invoice org sid (tx_id row) pd net vat po d
            in Inr (Applied, d1 \<lparr> db_items := update_where (invoiced_item sid org (tx_id row) d1)
                     (\<lambda>i. i \<lparr> i_commissionInvoiceId := Some nid \<rparr>) (db_items d1) \<rparr>))
      | _ \<Rightarrow> Inr (Skipped (Some SparseField), d))"

section \<open>Cargo invoices\<close>

definition PACKAGE_TYPE_TO_FEE :: "(string \<times> order_fee_type) list" where
  "PACKAGE_TYPE_TO_FEE =
     [(''G'' @ [CHR 0xC3, CHR 0xB6] @ ''nderi Kargo Bedeli'', SHIPPING),
      ([CHR 0xC4, CHR 0xB0] @ ''ade Kargo Bedeli'', RETURN_SHIPPING)]"

record cargo_result =
  cg_writtenFees :: nat
  cg_dedupedItems :: nat
  cg_unmatchedItems :: nat
  cg_ambiguousItems :: nat
  cg_unknownTypeItems :: nat

definition matchOrder :: "id \<Rightarrow> id \<Rightarrow> cargo_invoice_item \<Rightarrow> db \<Rightarrow> order_row option \<times> bool" where
  "matchOrder sid org item d =
     (case find (\<lambda>r. o_organizationId r = org \<and> o_storeId r = sid
                   \<and> o_cargoTrackingNumber r = Some (ca_parcelUniqueId item)) (db_orders d) of
        Some r \<Rightarrow> (Some r, False)
      | None \<Rightarrow>
          (case filter (\<lambda>r. o_organizationId r = org \<and> o_storeId r = sid
                   \<and> o_platformOrderNumber r = ca_orderNumber item) (db_orders d) of
             [r] \<Rightarrow> (Some r, False)
           | rs \<Rightarrow> (None, 1 < length rs)))"

definition cargo_fee ::
  "order_row \<Rightarrow> id \<Rightarrow> order_fee_type \<Rightarrow> fee_definition_row \<Rightarrow> string \<Rightarrow> cargo_invoice_item \<Rightarrow> id \<Rightarrow> fee_row" where
  "cargo_fee r org ty fd serial item fid =
     \<lparr> f_id = fid, f_orderId = o_id r, f_organizationId = org, f_feeDefinitionId = Some (fd_id fd),
       f_feeType = ty, f_source = CARGO_INVOICE, f_direction = DEBIT, f_amountGross = ca_amount item,
       f_vatRate = fd_defaultVatRate fd, f_displayName = Some (ca_shipmentPackageType item),
       f_confirmedAt = None, f_confirmedBy = None, f_trendyolTransactionId = None,
       f_invoiceSerialNumber = Some serial, f_parcelUniqueId = Some (ca_parcelUniqueId item),
       f_orderClaimItemId = None \<rparr>"

definition same_parcel :: "id \<Rightarrow> string \<Rightarrow> cargo_invoice_item \<Rightarrow> fee_row \<Rightarrow> bool" where
  "same_parcel oid serial item f \<longleftrightarrow>
     f_orderId f = oid \<and> f_source f = CARGO_INVOICE \<and> f_invoiceSerialNumber f = Some serial
     \<and> f_parcelUniqueId f = Some (ca_parcelUniqueId item)"

definition cargo_item ::
  "dec \<Rightarrow> id \<Rightarrow> id \<Rightarrow> string \<Rightarrow> cargo_result \<times> db \<Rightarrow> cargo_invoice_item \<Rightarrow> profit_error + (cargo_result \<times> db)" where
  "cargo_item D sid org serial s item =
     (let (res, d) = s in
      case map_of PACKAGE_TYPE_TO_FEE (ca_shipmentPackageType item) of
        None \<Rightarrow> Inr (res \<lparr> cg_unknownTypeItems := cg_unknownTypeItems res + 1 \<rparr>, d)
      | Some ty \<Rightarrow>
          (case matchOrder sid org item d of
             (None, True) \<Rightarrow> Inr (res \<lparr> cg_ambiguousItems := cg_ambiguousItems res + 1 \<rparr>, d)
           | (None, False) \<Rightarrow> Inr (res \<lparr> cg_unmatchedItems := cg_unmatchedItems res + 1 \<rparr>, d)
           | (Some r, _) \<Rightarrow>
               if list_ex (same_parcel (o_id r) serial item) (db_fees d)
               then Inr (res \<lparr> cg_dedupedItems := cg_dedupedItems res + 1 \<rparr>, d)
               else bindR (resolveFeeDefinition d TRENDYOL ty (o_orderDate r)) (\<lambda>fd.
                      Inr (res \<lparr> cg_writtenFees := cg_writtenFees res + 1 \<rparr>,
                           snd (tryFinalizeReconciliation D (o_id r)
                                  (create_fee (cargo_fee r org ty fd serial item) d))))))"

definition no_cargo :: cargo_result where
  "no_cargo = \<lparr> cg_writtenFees = 0, cg_dedupedItems = 0, cg_unmatchedItems = 0, cg_ambiguousItems = 0,
                cg_unknownTypeItems = 0 \<rparr>"

definition handleCargoInvoiceItems ::
  "dec \<Rightarrow> id \<Rightarrow> id \<Rightarrow> financial_tx \<Rightarrow> cargo_invoice_item list \<Rightarrow> db \<Rightarrow> profit_error + (cargo_result \<times> db)" where
  "handleCargoInvoiceItems D sid org row items d =
     foldR (cargo_item D sid org (tx_id row)) (no_cargo, d) items"

section \<open>Dispatch\<close>

definition dispatchSettlementRow ::
  "dec \<Rightarrow> id \<Rightarrow> settlement_type \<Rightarrow> financial_tx \<Rightarrow> db \<Rightarrow> profit_error + db" where
  "dispatchSettlementRow D sid ty row d =
     (case classifySettlementTransaction ty of
        OrderItemUpdate SaleUpdate \<Rightarrow> Inr (snd (handleSale D sid row d))
      | OrderItemUpdate DiscountUpdate \<Rightarrow> Inr (snd (handleDiscount D sid row d))
      | OrderItemUpdate CouponUpdate \<Rightarrow> Inr d
      | OrderFeeInsert feeType _ \<Rightarrow>
          if feeType = REFUND_DEDUCTION then bindR (handleReturn D sid row d) (\<lambda>x. Inr (snd x)) else Inr d
      | Compensating \<Rightarrow> Inr d
      | NoOp \<Rightarrow> Inr d)"

definition dispatchOtherFinancialRow ::
  "dec \<Rightarrow> time \<Rightarrow> id \<Rightarrow> id \<Rightarrow> other_financial_type \<Rightarrow> financial_tx \<Rightarrow> db \<Rightarrow> profit_error + db" where
  "dispatchOtherFinancialRow D now sid org ty row d =
     (case classifyOtherFinancialTransaction ty row of
        PaymentOrderCycle \<Rightarrow> Inr (snd (handlePaymentOrderEntry D now sid row d))
      | OrgPeriodFeeAudit _ \<Rightarrow> Inr (snd (handleStoppage sid org row d))
      | DeductionInvoice sub \<Rightarrow>
          (case sub of
             PlatformServiceFee \<Rightarrow> Inr (snd (handlePsf sid org row d))
           | Advertising \<Rightarrow> Inr (snd (handleAdvertising sid org row d))
           | CommissionInvoice \<Rightarrow> bindR (handleCommissionInvoice D sid org row d) (\<lambda>x. Inr (snd x))
           | _ \<Rightarrow> Inr d)
      | AuditLogRaw \<Rightarrow> Inr d)"

definition settled_fee :: "id \<Rightarrow> fee_row \<Rightarrow> bool" where
  "settled_fee oid f \<longleftrightarrow> f_orderId f = oid \<and> f_source f \<in> {SETTLEMENT, CARGO_INVOICE}"

definition bumpReconciliationStatusForStore :: "id \<Rightarrow> db \<Rightarrow> db" where
  "bumpReconciliationStatusForStore sid d =
     d \<lparr> db_orders := update_where
           (\<lambda>r. o_storeId r = sid \<and> o_reconciliationStatus r = NOT_SETTLED
                \<and> (o_paymentOrderId r \<noteq> None \<or> list_ex (settled_fee (o_id r)) (db_fees d)))
           (\<lambda>r. r \<lparr> o_reconciliationStatus := PARTIALLY_SETTLED \<rparr>) (db_orders d) \<rparr>"

section \<open>The scan\<close>

definition SCAN_WINDOW_DAYS :: int where "SCAN_WINDOW_DAYS = 60"

definition SETTLEMENT_TYPES :: "settlement_type list" where
  "SETTLEMENT_TYPES = [TxSale, TxDiscount, TxReturn]"

definition OTHER_FINANCIAL_TYPES :: "other_financial_type list" where
  "OTHER_FINANCIAL_TYPES = [OfPaymentOrder, OfStoppage, OfDeductionInvoices]"

definition computeOrdersCutoffMs :: "nat \<Rightarrow> time \<Rightarrow> time \<Rightarrow> time" where
  "computeOrdersCutoffMs historicalBackfillDays storeCreatedAt endDate =
     (if historicalBackfillDays = 0 then storeCreatedAt
      else max storeCreatedAt (endDate - int historicalBackfillDays * day_ms))"

definition chunk_end :: "time \<Rightarrow> nat \<Rightarrow> time" where
  "chunk_end endMs k = endMs - int k * FINANCIAL_WINDOW_MAX_DAYS * day_ms"

definition scan_windows :: "time \<Rightarrow> time \<Rightarrow> (time \<times> time) list" where
  "scan_windows endMs start =
     map (\<lambda>k. (max (chunk_end endMs k - FINANCIAL_WINDOW_MAX_DAYS * day_ms) start, chunk_end endMs k))
       (takeWhile (\<lambda>k. start < chunk_end endMs k)
          [0..<nat ((SCAN_WINDOW_DAYS + FINANCIAL_WINDOW_MAX_DAYS - 1) div FINANCIAL_WINDOW_MAX_DAYS)])"

text \<open>
  What the chunk reads of the world beside the database: the clock (read once), the marketplace and
  the environment. An action is a step that may throw; the rows before it stay written.
\<close>

record settlement_env =
  sx_dec :: dec
  sx_backfillDays :: nat
  sx_credentials :: "store_row \<Rightarrow> thrown + unit"
  sx_settlements :: "settlement_type \<Rightarrow> time \<Rightarrow> time \<Rightarrow> nat \<Rightarrow> thrown + financial_tx api_page"
  sx_otherFinancials :: "other_financial_type \<Rightarrow> time \<Rightarrow> time \<Rightarrow> nat \<Rightarrow> thrown + financial_tx api_page"
  sx_cargoItems :: "string \<Rightarrow> thrown + cargo_invoice_item list"
  sx_libMsg :: "sync_error \<Rightarrow> string"

type_synonym 's action = "'s \<Rightarrow> thrown option \<times> 's"

fun run_actions :: "'s action list \<Rightarrow> 's action" where
  "run_actions [] s = (None, s)"
| "run_actions (f # fs) s = (case f s of (Some e, s') \<Rightarrow> (Some e, s') | (None, s') \<Rightarrow> run_actions fs s')"

record chunk_state =
  ck_db :: db
  ck_queue :: sync_queue
  ck_processed :: nat

definition beat :: "settlement_env \<Rightarrow> time \<Rightarrow> id \<Rightarrow> string \<Rightarrow> chunk_state action" where
  "beat E now lid w s =
     (case heartbeat lid w now (ck_queue s) of
        Inl e \<Rightarrow> (Some (thrown_of (sx_libMsg E) e), s)
      | Inr q \<Rightarrow> (None, s \<lparr> ck_queue := q \<rparr>))"

text \<open>A row in its own transaction: an error is logged and leaves the state as it was.\<close>

definition try_row :: "(db \<Rightarrow> 'e + db) \<Rightarrow> chunk_state \<Rightarrow> chunk_state" where
  "try_row step s =
     (case step (ck_db s) of
        Inl e \<Rightarrow> s
      | Inr d \<Rightarrow> s \<lparr> ck_db := d, ck_processed := ck_processed s + 1 \<rparr>)"

definition settlement_row :: "settlement_env \<Rightarrow> store_row \<Rightarrow> settlement_type \<Rightarrow> chunk_state \<Rightarrow> financial_tx \<Rightarrow> chunk_state" where
  "settlement_row E st ty s row = try_row (dispatchSettlementRow (sx_dec E) (s_id st) ty row) s"

definition other_row ::
  "settlement_env \<Rightarrow> time \<Rightarrow> store_row \<Rightarrow> id \<Rightarrow> other_financial_type \<Rightarrow> chunk_state \<Rightarrow> financial_tx \<Rightarrow> chunk_state" where
  "other_row E now st org ty s row =
     (case getCargoInvoiceSerial ty row of
        Some serial \<Rightarrow>
          (case sx_cargoItems E serial of
             Inl e \<Rightarrow> s
           | Inr items \<Rightarrow>
               try_row (\<lambda>d. bindR (handleCargoInvoiceItems (sx_dec E) (s_id st) org row items d) (\<lambda>x. Inr (snd x))) s)
      | None \<Rightarrow> try_row (dispatchOtherFinancialRow (sx_dec E) now (s_id st) org ty row) s)"

definition scan_rows :: "(chunk_state \<Rightarrow> 'a \<Rightarrow> chunk_state) \<Rightarrow> 'a list \<times> thrown option \<Rightarrow> chunk_state action" where
  "scan_rows step fetched s = (snd fetched, foldl step s (fst fetched))"

definition window_actions ::
  "settlement_env \<Rightarrow> time \<Rightarrow> store_row \<Rightarrow> id \<Rightarrow> id \<Rightarrow> string \<Rightarrow> time \<times> time \<Rightarrow> chunk_state action list" where
  "window_actions E now st org lid w win =
     (let (a, b) = win in
      beat E now lid w
      # concat (map (\<lambda>ty. [beat E now lid w,
                          scan_rows (settlement_row E st ty) (fetch_window (sx_settlements E ty a b) a b)])
                 SETTLEMENT_TYPES)
      @ concat (map (\<lambda>ty. [beat E now lid w,
                          scan_rows (other_row E now st org ty) (fetch_window (sx_otherFinancials E ty a b) a b)])
                 OTHER_FINANCIAL_TYPES))"

definition scan_start :: "settlement_env \<Rightarrow> time \<Rightarrow> store_row \<Rightarrow> time" where
  "scan_start E now st =
     max (now - SCAN_WINDOW_DAYS * day_ms) (computeOrdersCutoffMs (sx_backfillDays E) (s_createdAt st) now)"

definition store_missing :: thrown where
  "store_missing = Thrown (Some ''P2025'') (Some ''No Store found'') None"

record settlement_world =
  sw_db :: db
  sw_now :: time

definition processSettlementsChunk :: "settlement_env \<Rightarrow> settlement_world handler" where
  "processSettlementsChunk E l cursor w s =
     (let (W, q) = s; now = sw_now W in
      case find_store (l_storeId l) (sw_db W) of
        None \<Rightarrow> (Inl store_missing, s)
      | Some st \<Rightarrow>
          (case sx_credentials E st of
             Inl e \<Rightarrow> (Inl e, s)
           | Inr _ \<Rightarrow>
               (let (err, t) = run_actions
                      (concat (map (window_actions E now st (s_organizationId st) (l_id l) w)
                                 (scan_windows now (scan_start E now st))))
                      \<lparr> ck_db = sw_db W, ck_queue = q, ck_processed = 0 \<rparr>
                in case err of
                     Some e \<Rightarrow> (Inl e, W \<lparr> sw_db := ck_db t \<rparr>, ck_queue t)
                   | None \<Rightarrow> (Inr (Done (int (ck_processed t))),
                              W \<lparr> sw_db := bumpReconciliationStatusForStore (s_id st) (ck_db t) \<rparr>, ck_queue t))))"

end
