(* ===== verification/Settlement_Props.thy ===== *)
theory Settlement_Props
  imports Settlement_Cron
begin

text \<open>
  The settlement job as a transition system: every handler, and with them a whole chunk, is a
  sequence of the elementary writes of \<open>ledger_step\<close>, so an invariant is proved once, write by
  write, with the locale \<open>invariant_system\<close>. The invariants: an order that is fully settled has a
  payment order, no estimate that waits for its real value, and a settled profit (or is excluded);
  the partial unique indexes of the fee table hold.
\<close>

section \<open>The elementary writes\<close>

text \<open>A rewriting of an item's settlement columns.\<close>

definition keeps_line :: "(item_row \<Rightarrow> item_row) \<Rightarrow> bool" where
  "keeps_line g \<longleftrightarrow>
     (\<forall>i. i_id (g i) = i_id i \<and> i_orderId (g i) = i_orderId i \<and> i_productVariantId (g i) = i_productVariantId i
        \<and> i_quantity (g i) = i_quantity i \<and> i_unitCostSnapshotGross (g i) = i_unitCostSnapshotGross i
        \<and> i_unitCostSnapshotVatRate (g i) = i_unitCostSnapshotVatRate i)"

definition leg_missing :: "order_fee_type \<Rightarrow> id \<Rightarrow> string \<Rightarrow> db \<Rightarrow> bool" where
  "leg_missing ty oid tid d \<longleftrightarrow> (\<forall>f \<in> set (db_fees d). leg_of oid tid f \<longrightarrow> f_feeType f \<noteq> ty)"

inductive ledger_step :: "dec \<Rightarrow> db \<Rightarrow> db \<Rightarrow> bool" for D :: dec where
  line_write: "keeps_line g \<Longrightarrow> ledger_step D d (d \<lparr> db_items := update_where P g (db_items d) \<rparr>)"
| payment_stamp: "ledger_step D d (stamp_payment row oid d)"
| leg_write: "leg_missing ty (o_id r) tid d \<Longrightarrow>
    ledger_step D d (create_fee (settlement_leg r tid unit ty dir gross vat name) d)"
| unit_link: "ledger_step D d (link_unit oid tid unit d)"
| parcel_write: "\<not> list_ex (same_parcel (o_id r) serial item) (db_fees d) \<Longrightarrow>
    ledger_step D d (create_fee (cargo_fee r org ty fd serial item) d)"
| confirm: "set types \<subseteq> set SELLER_CARGO_CONFIRMABLE \<Longrightarrow> ledger_step D d (confirm_fees oid types now who d)"
| recompute: "ledger_step D d (snd (recomputeSettledProfit D oid d))"
| finalize: "ledger_step D d (snd (tryFinalizeReconciliation D oid d))"
| period_write: "ledger_step D d (snd (insertOrgPeriodFee sid org ty row gross vat d))"
| invoice_write: "ledger_step D d (snd (upsert_invoice org sid serial pd net vat po d))"
| bump_status: "ledger_step D d (bumpReconciliationStatusForStore sid d)"

abbreviation ledger_steps :: "dec \<Rightarrow> db \<Rightarrow> db \<Rightarrow> bool" where
  "ledger_steps D \<equiv> steps (ledger_step D)"

lemma ledger_one: "ledger_step D a b \<Longrightarrow> ledger_steps D a b"
  by (rule steps_one)

lemma ledger_two: "ledger_step D a b \<Longrightarrow> ledger_step D b c \<Longrightarrow> ledger_steps D a c"
  by (rule steps_step [OF _ steps_one])

lemma ledger_more: "ledger_steps D a b \<Longrightarrow> ledger_step D b c \<Longrightarrow> ledger_steps D a c"
  by (rule steps_trans [OF _ steps_one])

section \<open>Every handler is a sequence of them\<close>

lemma sale_steps: "ledger_steps D d (snd (handleSale D sid row d))"
proof (cases "locate_line sid row d")
  case (Inl e)
  then show ?thesis by (simp add: handleSale_def steps_refl)
next
  case (Inr x)
  obtain r i ca where x: "x = (r, i, ca)" by (cases x)
  have "keeps_line (settle_line D row ca)"
    by (simp add: keeps_line_def settle_line_def Let_def)
  then have "ledger_step D d (update_item (i_id i) (settle_line D row ca) d)"
    unfolding update_item_def by (rule line_write)
  from ledger_two [OF this payment_stamp] show ?thesis
    using Inr x by (simp add: handleSale_def)
qed

lemma discount_steps: "ledger_steps D d (snd (handleDiscount D sid row d))"
proof (cases "locate_line sid row d")
  case (Inl e)
  then show ?thesis by (simp add: handleDiscount_def steps_refl)
next
  case (Inr x)
  obtain r i ca where x: "x = (r, i, ca)" by (cases x)
  have "ledger_step D d (update_item (i_id i)
      (\<lambda>x. x \<lparr> i_refundedCommissionGross := dmul D ca (of_int (i_quantity i)) \<rparr>) d)"
    unfolding update_item_def by (rule line_write) (simp add: keeps_line_def)
  then show ?thesis using Inr x by (simp add: handleDiscount_def ledger_one)
qed

lemma leg_missing_legs: "leg_missing ty oid tid d \<longleftrightarrow> \<not> has_leg ty (existing_legs oid tid d)"
  by (auto simp: leg_missing_def has_leg_def existing_legs_def list_ex_iff)

lemma leg_missing_create:
  "leg_missing ty oid tid d \<Longrightarrow> ty' \<noteq> ty \<Longrightarrow>
   leg_missing ty oid tid (create_fee (settlement_leg r tid unit ty' dir gross vat name) d)"
  by (auto simp: leg_missing_def create_fee_def settlement_leg_def)

lemma refund_stage_cases:
  obtains "has_leg REFUND_DEDUCTION legs" "refund_stage r i row legs unit d = (False, d)"
  | "\<not> has_leg REFUND_DEDUCTION legs" "refund_stage r i row legs unit d = (True, create_fee (refund_leg r i row unit) d)"
  by (auto simp: refund_stage_def)

lemma commission_stage_cases:
  assumes "commission_stage r row legs unit d = Inr (w, d')"
  obtains "\<not> w" "d' = d" "has_leg COMMISSION_REFUND legs \<or> tx_commissionAmount row = None"
  | ca vat where "w" "\<not> has_leg COMMISSION_REFUND legs" "tx_commissionAmount row = Some ca"
      "d' = create_fee (commission_leg r row unit ca vat) d"
  using assms by (auto simp: commission_stage_def bindR_eq_Inr split: option.splits if_splits)

lemma cost_stage_cases:
  obtains "cost_stage r i row legs unit d = (False, d)"
      "has_leg COST_RETURN legs \<or> i_unitCostSnapshotGross i = None"
  | c where "\<not> has_leg COST_RETURN legs" "i_unitCostSnapshotGross i = Some c"
      "cost_stage r i row legs unit d = (True, create_fee (cost_leg r i row unit c) d)"
  by (cases "i_unitCostSnapshotGross i") (auto simp: cost_stage_def)

lemma write_legs_steps:
  assumes "write_legs r i row d = Inr (w, d')"
  shows "ledger_steps D d d'"
proof -
  let ?legs = "existing_legs (o_id r) (tx_id row) d" and ?unit = "claim_unit (o_id r) (tx_id row) i d"
  obtain w1 d1 w2 d2 w3 d3 where s: "refund_stage r i row ?legs ?unit d = (w1, d1)"
    "commission_stage r row ?legs ?unit d1 = Inr (w2, d2)" "cost_stage r i row ?legs ?unit d2 = (w3, d3)"
    "d' = link_unit (o_id r) (tx_id row) ?unit d3"
  proof -
    obtain w1 d1 where 1: "refund_stage r i row ?legs ?unit d = (w1, d1)" by (cases "refund_stage r i row ?legs ?unit d")
    obtain w2 d2 where 2: "commission_stage r row ?legs ?unit d1 = Inr (w2, d2)"
      using assms 1 by (auto simp: write_legs_def Let_def bindR_eq_Inr)
    obtain w3 d3 where 3: "cost_stage r i row ?legs ?unit d2 = (w3, d3)" by (cases "cost_stage r i row ?legs ?unit d2")
    show thesis by (rule that [OF 1 2 3]) (use assms 1 2 3 in \<open>simp add: write_legs_def Let_def\<close>)
  qed
  let ?M = "\<lambda>ty d. has_leg ty ?legs \<or> leg_missing ty (o_id r) (tx_id row) d"
  have m0: "?M ty d" for ty by (simp add: leg_missing_legs)
  have 1: "ledger_steps D d d1 \<and> ?M COMMISSION_REFUND d1 \<and> ?M COST_RETURN d1"
    using m0 s(1) by (cases rule: refund_stage_cases [of ?legs r i row ?unit d])
      (auto simp: refund_leg_def leg_missing_legs [symmetric] steps_refl
        intro!: ledger_one leg_write leg_missing_create)
  have 2: "ledger_steps D d1 d2 \<and> ?M COST_RETURN d2"
    using 1 by (cases rule: commission_stage_cases [OF s(2)])
      (auto simp: commission_leg_def steps_refl intro!: ledger_one leg_write leg_missing_create)
  have 3: "ledger_steps D d2 d3"
    using 2 s(3) by (cases rule: cost_stage_cases [of r i row ?legs ?unit d2])
      (auto simp: cost_leg_def steps_refl intro!: ledger_one leg_write)
  show ?thesis
    using 1 2 ledger_more [OF 3 unit_link] unfolding s(4) by (blast intro: steps_trans)
qed

lemma return_steps:
  assumes "handleReturn D sid row d = Inr (res, d')"
  shows "ledger_steps D d d'"
  using assms
  by (auto simp: handleReturn_def bindR_eq_Inr steps_refl split: option.splits if_splits
      dest!: write_legs_steps [where D = D] intro: ledger_more recompute)

lemma payment_steps: "ledger_steps D d (snd (handlePaymentOrderEntry D now sid row d))"
proof -
  have one: "ledger_steps D d (settle_order D now who d r)" for d r who
  proof -
    have "set (confirmable_types r d) \<subseteq> set SELLER_CARGO_CONFIRMABLE"
      by (auto simp: confirmable_types_def SELLER_CARGO_CONFIRMABLE_def)
    from ledger_two [OF confirm [OF this] finalize] show ?thesis by (simp add: settle_order_def)
  qed
  have "ledger_steps D d (foldl (settle_order D now who) d rs)" for who rs
    by (induction rs arbitrary: d) (auto simp: steps_refl intro: steps_trans one)
  then show ?thesis
    by (auto simp: handlePaymentOrderEntry_def steps_refl simp del: foldl_Cons split: option.split list.split)
qed

lemma cargo_item_steps:
  assumes "cargo_item D sid org serial (res, d) item = Inr (res', d')"
  shows "ledger_steps D d d'"
  using assms
  by (auto simp: cargo_item_def bindR_eq_Inr steps_refl split: option.splits prod.splits bool.splits if_splits
      intro!: ledger_two [OF parcel_write finalize])

lemma cargo_steps:
  assumes "handleCargoInvoiceItems D sid org row items d = Inr x"
  shows "ledger_steps D d (snd x)"
proof -
  have "foldR (cargo_item D sid org (tx_id row)) (no_cargo, d) items = Inr x"
    using assms by (simp add: handleCargoInvoiceItems_def)
  then show ?thesis
  proof (rule foldR_invariant [where I = "\<lambda>s. ledger_steps D d (snd s)"])
    fix s item s'
    assume "ledger_steps D d (snd s)" "cargo_item D sid org (tx_id row) s item = Inr s'"
    then show "ledger_steps D d (snd s')"
      using cargo_item_steps by (metis prod.collapse steps_trans)
  qed (simp add: steps_refl)
qed

lemma commission_invoice_steps:
  assumes "handleCommissionInvoice D sid org row d = Inr x"
  shows "ledger_steps D d (snd x)"
proof -
  have line: "ledger_step D d1 (d1 \<lparr> db_items := update_where P (\<lambda>i. i \<lparr> i_commissionInvoiceId := Some nid \<rparr>) (db_items d1) \<rparr>)"
    for d1 P nid by (rule line_write) (simp add: keeps_line_def)
  have "ledger_steps D d (d1 \<lparr> db_items := update_where P (\<lambda>i. i \<lparr> i_commissionInvoiceId := Some nid \<rparr>) (db_items d1) \<rparr>)"
    if "upsert_invoice org sid serial pd net vat po d = (nid, d1)" for serial pd net vat po nid d1 P
    using ledger_two [OF invoice_write line] that by (metis snd_conv)
  note upd = this
  show ?thesis
  proof (cases "tx_paymentOrderId row = None \<or> tx_paymentDate row = None")
    case True
    then show ?thesis using assms by (auto simp: handleCommissionInvoice_def steps_refl split: option.splits)
  next
    case False
    then obtain po pd where "tx_paymentOrderId row = Some po" "tx_paymentDate row = Some pd" by auto
    then obtain net vat nid d1 where "upsert_invoice org sid (tx_id row) pd net vat po d = (nid, d1)"
      "x = (Applied, d1 \<lparr> db_items := update_where (invoiced_item sid org (tx_id row) d1)
             (\<lambda>i. i \<lparr> i_commissionInvoiceId := Some nid \<rparr>) (db_items d1) \<rparr>)"
      using assms by (auto simp: handleCommissionInvoice_def Let_def bindR_eq_Inr split: prod.splits)
        (metis surj_pair)
    then show ?thesis using upd by simp
  qed
qed

lemma settlement_row_steps:
  assumes "dispatchSettlementRow D sid ty row d = Inr d'"
  shows "ledger_steps D d d'"
  using assms sale_steps [of D d sid row] discount_steps [of D d sid row]
  by (auto simp: dispatchSettlementRow_def bindR_eq_Inr steps_refl return_steps
      split: settlement_target.splits semantics.splits if_splits)

lemma other_row_steps:
  assumes "dispatchOtherFinancialRow D now sid org ty row d = Inr d'"
  shows "ledger_steps D d d'"
  using assms payment_steps [of D d now sid row] commission_invoice_steps [of D sid org row d]
    ledger_one [OF period_write, of D d]
  by (auto simp: dispatchOtherFinancialRow_def bindR_eq_Inr steps_refl handleStoppage_def handlePsf_def
      handleAdvertising_def split: other_financial_target.splits deduction_class.splits)

section \<open>A chunk\<close>

lemma try_row_steps:
  assumes "\<And>d d'. step d = Inr d' \<Longrightarrow> ledger_steps D d d'"
  shows "ledger_steps D (ck_db s) (ck_db (try_row step s))"
  using assms by (auto simp: try_row_def steps_refl split: sum.split)

lemma settlement_row_chunk: "ledger_steps (sx_dec E) (ck_db s) (ck_db (settlement_row E st ty s row))"
  unfolding settlement_row_def by (rule try_row_steps) (rule settlement_row_steps)

lemma other_row_chunk: "ledger_steps (sx_dec E) (ck_db s) (ck_db (other_row E now st org ty s row))"
proof (cases "getCargoInvoiceSerial ty row")
  case None
  then show ?thesis unfolding other_row_def by (simp add: try_row_steps other_row_steps)
next
  case (Some serial)
  show ?thesis
  proof (cases "sx_cargoItems E serial")
    case (Inl e)
    with Some show ?thesis by (simp add: other_row_def steps_refl)
  next
    case (Inr items)
    have "ledger_steps (sx_dec E) d d'"
      if "bindR (handleCargoInvoiceItems (sx_dec E) (s_id st) org row items d) (\<lambda>x. Inr (snd x)) = Inr d'" for d d'
      using that by (auto simp: bindR_eq_Inr dest: cargo_steps)
    with Some Inr show ?thesis by (simp add: other_row_def try_row_steps)
  qed
qed

lemma scan_rows_steps:
  assumes "\<And>s row. ledger_steps D (ck_db s) (ck_db (step s row))"
  shows "ledger_steps D (ck_db s) (ck_db (snd (scan_rows step fetched s)))"
proof -
  have "ledger_steps D (ck_db s) (ck_db (foldl step s rows))" for rows
    by (induction rows arbitrary: s) (auto simp: steps_refl intro: steps_trans assms)
  then show ?thesis by (simp add: scan_rows_def)
qed

lemma beat_db: "ck_db (snd (beat E now lid w s)) = ck_db s"
  by (simp add: beat_def split: sum.split)

lemma run_actions_steps:
  assumes "\<And>f s. f \<in> set fs \<Longrightarrow> ledger_steps D (ck_db s) (ck_db (snd (f s)))"
  shows "ledger_steps D (ck_db s) (ck_db (snd (run_actions fs s)))"
  using assms
proof (induction fs arbitrary: s)
  case (Cons f fs)
  obtain e s' where f: "f s = (e, s')" by (cases "f s")
  then have "ledger_steps D (ck_db s) (ck_db s')" using Cons.prems [of f s] by simp
  with Cons f show ?case by (cases e) (auto intro: steps_trans)
qed (simp add: steps_refl)

lemma window_actions_steps:
  assumes "f \<in> set (window_actions E now st org lid w win)"
  shows "ledger_steps (sx_dec E) (ck_db s) (ck_db (snd (f s)))"
  using assms
  by (auto simp: window_actions_def SETTLEMENT_TYPES_def OTHER_FINANCIAL_TYPES_def beat_db steps_refl
      intro!: scan_rows_steps settlement_row_chunk other_row_chunk split: prod.splits)

lemma chunk_steps:
  assumes "processSettlementsChunk E l cursor w (W, q) = (res, W', q')"
  shows "ledger_steps (sx_dec E) (sw_db W) (sw_db W')"
proof -
  have run: "ledger_steps (sx_dec E) (sw_db W)
      (ck_db (snd (run_actions (concat (map (window_actions E now st org lid w) wins))
        \<lparr> ck_db = sw_db W, ck_queue = q, ck_processed = 0 \<rparr>)))" for now st org lid wins
    using run_actions_steps [of "concat (map (window_actions E now st org lid w) wins)" "sx_dec E"
        "\<lparr> ck_db = sw_db W, ck_queue = q, ck_processed = 0 \<rparr>"]
    by (auto intro: window_actions_steps)
  have "ledger_steps (sx_dec E) (sw_db W) (sw_db W')"
    if "run_actions fs \<lparr> ck_db = sw_db W, ck_queue = q, ck_processed = 0 \<rparr> = (err, t)"
      "ledger_steps (sx_dec E) (sw_db W) (ck_db t)"
      "sw_db W' = ck_db t \<or> (\<exists>sid. sw_db W' = bumpReconciliationStatusForStore sid (ck_db t))" for fs err t
    using that ledger_more [OF that(2) bump_status] by auto
  note fin = this
  show ?thesis
    using assms fin run
    by (auto simp: processSettlementsChunk_def Let_def steps_refl split: option.splits sum.splits prod.splits)
      (metis snd_conv)+
qed

section \<open>What a write does to the fees and the orders\<close>

text \<open>
  A fee is rewritten by a link or a confirmation: its keys stay, a confirmation is only added, and
  only to a type that a payment order may confirm.
\<close>

definition fee_rewrite :: "(fee_row \<Rightarrow> fee_row) \<Rightarrow> bool" where
  "fee_rewrite h \<longleftrightarrow>
     (\<forall>f. f_orderId (h f) = f_orderId f \<and> f_feeType (h f) = f_feeType f \<and> f_source (h f) = f_source f
        \<and> f_trendyolTransactionId (h f) = f_trendyolTransactionId f
        \<and> f_invoiceSerialNumber (h f) = f_invoiceSerialNumber f \<and> f_parcelUniqueId (h f) = f_parcelUniqueId f
        \<and> (f_confirmedAt (h f) = f_confirmedAt f
           \<or> f_confirmedAt f = None \<and> f_feeType f \<in> set SELLER_CARGO_CONFIRMABLE))"

definition new_fee_ok :: "db \<Rightarrow> fee_row \<Rightarrow> bool" where
  "new_fee_ok d f \<longleftrightarrow>
     f_source f = SETTLEMENT \<and> (\<exists>tid. f_trendyolTransactionId f = Some tid \<and> leg_missing (f_feeType f) (f_orderId f) tid d)
   \<or> f_source f = CARGO_INVOICE
     \<and> (\<forall>g \<in> set (db_fees d). \<not> (f_orderId g = f_orderId f \<and> f_source g = CARGO_INVOICE
          \<and> f_invoiceSerialNumber g = f_invoiceSerialNumber f \<and> f_parcelUniqueId g = f_parcelUniqueId f))"

lemma fee_rewriteD:
  assumes "fee_rewrite h"
  shows "f_orderId (h f) = f_orderId f" "f_feeType (h f) = f_feeType f" "f_source (h f) = f_source f"
    and "f_confirmedAt (h f) = None \<Longrightarrow> f_confirmedAt f = None"
    and "f_feeType f \<notin> set SELLER_CARGO_CONFIRMABLE \<Longrightarrow> f_confirmedAt (h f) = f_confirmedAt f"
  using assms unfolding fee_rewrite_def by metis+

lemma recompute_fees [simp]: "db_fees (snd (recomputeSettledProfit D oid d)) = db_fees d"
  using recompute_db_cases [of D oid d] by (auto simp: update_order_def)

lemma finalize_fees [simp]: "db_fees (snd (tryFinalizeReconciliation D oid d)) = db_fees d"
proof -
  obtain res d1 where res: "recomputeSettledProfit D oid d = (res, d1)" by (cases "recomputeSettledProfit D oid d")
  have "db_fees (snd (recomputeSettledProfit D oid d)) = db_fees d" by simp
  then have "db_fees d1 = db_fees d" using res by simp
  then show ?thesis
    by (auto simp: tryFinalizeReconciliation_def res update_order_def split: option.split)
qed

lemma step_fees:
  assumes "ledger_step D d d'"
  obtains h where "fee_rewrite h" and "db_fees d' = map h (db_fees d)"
  | f where "new_fee_ok d f" and "db_fees d' = db_fees d @ [f]"
  using assms
proof (cases rule: ledger_step.cases)
  case (unit_link oid tid unit)
  let ?h = "\<lambda>f. case unit of None \<Rightarrow> f
    | Some c \<Rightarrow> if leg_of oid tid f \<and> f_orderClaimItemId f = None then f \<lparr> f_orderClaimItemId := Some c \<rparr> else f"
  have "fee_rewrite ?h" "db_fees d' = map ?h (db_fees d)"
    by (auto simp: fee_rewrite_def unit_link link_unit_def update_where_def split: option.split)
  then show thesis by (rule that(1))
next
  case (confirm types oid now who)
  let ?h = "\<lambda>f. if f_orderId f = oid \<and> f_source f = ESTIMATE \<and> f_feeType f \<in> set types \<and> f_confirmedAt f = None
    then f \<lparr> f_confirmedAt := Some now, f_confirmedBy := Some who \<rparr> else f"
  have "fee_rewrite ?h" "db_fees d' = map ?h (db_fees d)"
    using confirm(2) by (auto simp: fee_rewrite_def confirm(1) confirm_fees_def update_where_def)
  then show thesis by (rule that(1))
next
  case (leg_write ty r tid unit dir gross vat name)
  show thesis
    by (rule that(2)) (use leg_write in \<open>auto simp: new_fee_ok_def create_fee_def settlement_leg_def\<close>)
next
  case (parcel_write r serial item org ty fd)
  show thesis
    by (rule that(2)) (use parcel_write in \<open>auto simp: new_fee_ok_def create_fee_def cargo_fee_def list_ex_iff same_parcel_def\<close>)
next
  case (period_write sid org ty row gross vat)
  have "db_fees d' = map (\<lambda>f. f) (db_fees d)"
    by (simp add: period_write insertOrgPeriodFee_def split: option.split)
  then show thesis by (rule that(1) [rotated]) (simp add: fee_rewrite_def)
next
  case (invoice_write org sid serial pd net vat po)
  have "db_fees d' = map (\<lambda>f. f) (db_fees d)"
    by (simp add: invoice_write upsert_invoice_def split: option.split)
  then show thesis by (rule that(1) [rotated]) (simp add: fee_rewrite_def)
next
  case (payment_stamp row oid)
  have "db_fees d' = map (\<lambda>f. f) (db_fees d)"
    by (simp add: payment_stamp stamp_payment_def update_order_def split: option.split)
  then show thesis by (rule that(1) [rotated]) (simp add: fee_rewrite_def)
qed (rule that(1) [of "\<lambda>f. f"]; simp add: fee_rewrite_def bumpReconciliationStatusForStore_def)+

text \<open>An order row is rewritten in its settlement columns only, and it becomes fully settled only past the gate.\<close>

definition gate_open :: "id \<Rightarrow> db \<Rightarrow> order_row \<Rightarrow> bool" where
  "gate_open oid d r \<longleftrightarrow> o_paymentOrderId r \<noteq> None \<and> \<not> hasUnresolvedEstimateFee oid d
     \<and> (o_settledNetProfit r \<noteq> None \<or> o_profitExcludedAt r \<noteq> None)"

definition order_rewrite :: "db \<Rightarrow> (order_row \<Rightarrow> order_row) \<Rightarrow> bool" where
  "order_rewrite d h \<longleftrightarrow>
     (\<forall>r \<in> set (db_orders d). o_id (h r) = o_id r \<and> o_profitExcludedAt (h r) = o_profitExcludedAt r
        \<and> (o_paymentOrderId r \<noteq> None \<longrightarrow> o_paymentOrderId (h r) = o_paymentOrderId r)
        \<and> (o_settledNetProfit r \<noteq> None \<longrightarrow> o_settledNetProfit (h r) \<noteq> None)
        \<and> (o_reconciliationStatus (h r) = FULLY_SETTLED \<longrightarrow>
             o_reconciliationStatus r = FULLY_SETTLED \<or> gate_open (o_id r) d (h r)))"

lemma order_rewrite_id: "order_rewrite d (\<lambda>r. r)"
  by (simp add: order_rewrite_def)

lemma recompute_orders:
  assumes "recomputeSettledProfit D oid d = (res, d1)"
  obtains h where "db_orders d1 = map h (db_orders d)"
    and "\<And>r. o_id (h r) = o_id r \<and> o_profitExcludedAt (h r) = o_profitExcludedAt r
       \<and> o_paymentOrderId (h r) = o_paymentOrderId r \<and> o_reconciliationStatus (h r) = o_reconciliationStatus r
       \<and> (o_settledNetProfit r \<noteq> None \<longrightarrow> o_settledNetProfit (h r) \<noteq> None)"
    and "\<And>r v. res = Inr v \<Longrightarrow> o_id r = oid \<Longrightarrow> o_settledNetProfit (h r) \<noteq> None"
proof (cases res)
  case (Inl e)
  then have "d1 = d"
    using assms by (auto simp: recomputeSettledProfit_def Let_def split: option.splits if_splits)
  then show thesis using Inl by (intro that [of "\<lambda>r. r"]) simp_all
next
  case (Inr v)
  then obtain b where d1: "d1 = update_order oid (set_settled D b) d"
    using assms by (auto simp: recomputeSettledProfit_def Let_def split: option.splits if_splits)
  show thesis
    by (rule that [of "\<lambda>r. if o_id r = oid then set_settled D b r else r"])
      (auto simp: d1 update_order_def update_where_def set_settled_def)
qed

lemma hasUnresolved_fees: "db_fees e = db_fees d \<Longrightarrow> hasUnresolvedEstimateFee oid e = hasUnresolvedEstimateFee oid d"
  by (simp add: hasUnresolvedEstimateFee_def unresolved_def cong: list_ex_cong)

lemma finalize_orders:
  assumes ids: "distinct (map o_id (db_orders d))"
  obtains h where "order_rewrite d h" and "db_orders (snd (tryFinalizeReconciliation D oid d)) = map h (db_orders d)"
proof (cases "find_order oid d")
  case None
  then show thesis by (intro that [of "\<lambda>r. r"] order_rewrite_id) (simp add: tryFinalizeReconciliation_def)
next
  case (Some r)
  show thesis
  proof (cases "o_paymentOrderId r = None \<or> hasUnresolvedEstimateFee oid d")
    case True
    then show thesis
      by (intro that [of "\<lambda>r. r"] order_rewrite_id) (auto simp: tryFinalizeReconciliation_def Some)
  next
    case False
    obtain res d1 where res: "recomputeSettledProfit D oid d = (res, d1)" by (cases "recomputeSettledProfit D oid d")
    obtain h where h: "db_orders d1 = map h (db_orders d)"
      "\<And>r. o_id (h r) = o_id r \<and> o_profitExcludedAt (h r) = o_profitExcludedAt r
         \<and> o_paymentOrderId (h r) = o_paymentOrderId r \<and> o_reconciliationStatus (h r) = o_reconciliationStatus r
         \<and> (o_settledNetProfit r \<noteq> None \<longrightarrow> o_settledNetProfit (h r) \<noteq> None)"
      "\<And>r v. res = Inr v \<Longrightarrow> o_id r = oid \<Longrightarrow> o_settledNetProfit (h r) \<noteq> None"
      using recompute_orders [OF res] by metis
    show thesis
    proof (cases "(case res of Inl _ \<Rightarrow> True | Inr _ \<Rightarrow> False) \<and> o_profitExcludedAt r = None \<or> o_reconciliationStatus r = FULLY_SETTLED")
      case True
      then have "db_orders (snd (tryFinalizeReconciliation D oid d)) = map h (db_orders d)"
        using False res h(1) by (auto simp: tryFinalizeReconciliation_def Some Let_def)
      then show thesis by (rule that [rotated]) (use h(2) in \<open>auto simp: order_rewrite_def\<close>)
    next
      case go: False
      let ?g = "\<lambda>x. if o_id x = oid then set_fully x else x"
      have eq: "db_orders (snd (tryFinalizeReconciliation D oid d)) = map (\<lambda>r. ?g (h r)) (db_orders d)"
        using False res h(1) go
        by (auto simp: tryFinalizeReconciliation_def Some Let_def update_order_def update_where_def)
      have "gate_open oid d (set_fully (h x))" if "x \<in> set (db_orders d)" "o_id x = oid" for x
      proof -
        have "x = r"
          using that find_order_id [OF Some] ids by (metis distinct_map inj_onD)
        moreover have "o_settledNetProfit (h r) \<noteq> None \<or> o_profitExcludedAt r \<noteq> None"
          using go h(3) [of _ r] find_order_id [OF Some] by (cases res) auto
        ultimately show ?thesis using False h(2) [of r] by (auto simp: gate_open_def set_fully_def)
      qed
      then have "order_rewrite d (\<lambda>r. ?g (h r))"
        using h(2) by (auto simp: order_rewrite_def set_fully_def)
      then show thesis using eq by (rule that)
    qed
  qed
qed

lemma step_orders:
  assumes "ledger_step D d d'" and "distinct (map o_id (db_orders d))"
  obtains h where "order_rewrite d h" and "db_orders d' = map h (db_orders d)"
  using assms(1)
proof (cases rule: ledger_step.cases)
  case (payment_stamp row oid)
  let ?h = "\<lambda>r. case (tx_paymentOrderId row, tx_paymentDate row) of
      (Some po, Some pd) \<Rightarrow> if o_id r = oid then (if o_paymentOrderId r = None
            then r \<lparr> o_paymentOrderId := Some po, o_paymentDate := Some pd \<rparr> else r) else r
    | _ \<Rightarrow> r"
  have "order_rewrite d ?h" "db_orders d' = map ?h (db_orders d)"
    by (auto simp: order_rewrite_def payment_stamp stamp_payment_def update_order_def update_where_def
        split: option.split)
  then show thesis by (rule that)
next
  case (recompute oid)
  obtain res d1 where res: "recomputeSettledProfit D oid d = (res, d1)" by (cases "recomputeSettledProfit D oid d")
  obtain h where h: "db_orders d1 = map h (db_orders d)"
    "\<And>r. o_id (h r) = o_id r \<and> o_profitExcludedAt (h r) = o_profitExcludedAt r
       \<and> o_paymentOrderId (h r) = o_paymentOrderId r \<and> o_reconciliationStatus (h r) = o_reconciliationStatus r
       \<and> (o_settledNetProfit r \<noteq> None \<longrightarrow> o_settledNetProfit (h r) \<noteq> None)"
    using recompute_orders [OF res] by metis
  show thesis by (rule that [of h]) (use h res recompute in \<open>auto simp: order_rewrite_def\<close>)
next
  case (finalize oid)
  then show thesis using finalize_orders [OF assms(2), of D oid] that by metis
next
  case (bump_status sid)
  let ?P = "\<lambda>r. o_storeId r = sid \<and> o_reconciliationStatus r = NOT_SETTLED
                \<and> (o_paymentOrderId r \<noteq> None \<or> list_ex (settled_fee (o_id r)) (db_fees d))"
  let ?h = "\<lambda>r. if ?P r then r \<lparr> o_reconciliationStatus := PARTIALLY_SETTLED \<rparr> else r"
  have "order_rewrite d ?h" "db_orders d' = map ?h (db_orders d)"
    by (auto simp: order_rewrite_def bump_status bumpReconciliationStatusForStore_def update_where_def)
  then show thesis by (rule that)
qed (rule that [of "\<lambda>r. r"];
     simp add: order_rewrite_id create_fee_def link_unit_def confirm_fees_def insertOrgPeriodFee_def upsert_invoice_def
       split: option.split)+

section \<open>Invariants\<close>

text \<open>The partial unique indexes of the fee table, \<open>supabase/sql/check-constraints.sql\<close>.\<close>

definition leg_key :: "fee_row \<Rightarrow> id \<times> order_fee_type \<times> string option" where
  "leg_key f = (f_orderId f, f_feeType f, f_trendyolTransactionId f)"

definition parcel_key :: "fee_row \<Rightarrow> id \<times> string option \<times> int option" where
  "parcel_key f = (f_orderId f, f_invoiceSerialNumber f, f_parcelUniqueId f)"

definition settlement_legs :: "fee_row list \<Rightarrow> fee_row list" where
  "settlement_legs fs = filter (\<lambda>f. f_source f = SETTLEMENT \<and> f_trendyolTransactionId f \<noteq> None) fs"

definition invoice_parcels :: "fee_row list \<Rightarrow> fee_row list" where
  "invoice_parcels fs =
     filter (\<lambda>f. f_source f = CARGO_INVOICE \<and> f_invoiceSerialNumber f \<noteq> None \<and> f_parcelUniqueId f \<noteq> None) fs"

definition fee_keys_unique :: "db \<Rightarrow> bool" where
  "fee_keys_unique d \<longleftrightarrow>
     distinct (map leg_key (settlement_legs (db_fees d))) \<and> distinct (map parcel_key (invoice_parcels (db_fees d)))"

text \<open>
  Beside the orders of \<open>X\<close>, those that were fully settled before, an order is fully settled only past
  the gate. (A claim may put an estimated leg on a settled order, so \<open>X\<close> need not be past it.)
\<close>

definition settled_past_gate :: "id set \<Rightarrow> db \<Rightarrow> bool" where
  "settled_past_gate X d \<longleftrightarrow>
     (\<forall>r \<in> set (db_orders d). o_reconciliationStatus r = FULLY_SETTLED \<longrightarrow> o_id r \<in> X \<or> gate_open (o_id r) d r)"

definition fully_settled :: "db \<Rightarrow> id set" where
  "fully_settled d = o_id ` {r \<in> set (db_orders d). o_reconciliationStatus r = FULLY_SETTLED}"

definition ledger_ok :: "id set \<Rightarrow> db \<Rightarrow> bool" where
  "ledger_ok X d \<longleftrightarrow> distinct (map o_id (db_orders d)) \<and> fee_keys_unique d \<and> settled_past_gate X d"

lemma map_keeps: "(\<And>x. k (h x) = k x) \<Longrightarrow> map k (map h xs) = map k xs"
  by simp

lemma rewrite_legs:
  assumes "fee_rewrite h"
  shows "map leg_key (settlement_legs (map h fs)) = map leg_key (settlement_legs fs)"
    and "map parcel_key (invoice_parcels (map h fs)) = map parcel_key (invoice_parcels fs)"
  using assms
  by (simp_all add: settlement_legs_def invoice_parcels_def leg_key_def parcel_key_def fee_rewrite_def
      filter_map o_def)

lemma unresolved_mono:
  assumes "ledger_step D d d'" and "hasUnresolvedEstimateFee oid d'"
  shows "hasUnresolvedEstimateFee oid d"
proof (rule step_fees [OF assms(1)])
  fix h assume h: "fee_rewrite h" "db_fees d' = map h (db_fees d)"
  obtain f where f: "f \<in> set (db_fees d)" "unresolved oid d' (h f)"
    using assms(2) by (auto simp: hasUnresolvedEstimateFee_def h(2) list_ex_iff)
  have "unresolved oid d f"
    using f(2) by (auto simp: unresolved_def h(2) list_ex_iff fee_rewriteD [OF h(1)])
  with f(1) show ?thesis by (auto simp: hasUnresolvedEstimateFee_def list_ex_iff)
next
  fix f assume f: "new_fee_ok d f" "db_fees d' = db_fees d @ [f]"
  then have "f_source f \<noteq> ESTIMATE" by (auto simp: new_fee_ok_def)
  then show ?thesis
    using assms(2) by (auto simp: hasUnresolvedEstimateFee_def unresolved_def f(2) list_ex_iff)
qed

lemma fee_keys_step:
  assumes "ledger_step D d d'" and "fee_keys_unique d"
  shows "fee_keys_unique d'"
proof (rule step_fees [OF assms(1)])
  fix h assume "fee_rewrite h" "db_fees d' = map h (db_fees d)"
  then show ?thesis using assms(2) rewrite_legs [of h "db_fees d"] by (simp add: fee_keys_unique_def)
next
  fix f assume f: "new_fee_ok d f" "db_fees d' = db_fees d @ [f]"
  show ?thesis
    using assms(2) f(1)
    by (auto simp: fee_keys_unique_def f(2) settlement_legs_def invoice_parcels_def new_fee_ok_def leg_key_def
        parcel_key_def leg_missing_def leg_of_def)
qed

lemma gate_step:
  assumes "ledger_step D d d'" and "distinct (map o_id (db_orders d))" and "settled_past_gate X d"
  shows "settled_past_gate X d'"
proof -
  obtain h where h: "order_rewrite d h" "db_orders d' = map h (db_orders d)"
    using step_orders [OF assms(1,2)] by metis
  have mono: "\<not> hasUnresolvedEstimateFee oid d \<Longrightarrow> \<not> hasUnresolvedEstimateFee oid d'" for oid
    using unresolved_mono [OF assms(1)] by blast
  have "o_id (h r) \<in> X \<or> gate_open (o_id (h r)) d' (h r)"
    if r: "r \<in> set (db_orders d)" and full: "o_reconciliationStatus (h r) = FULLY_SETTLED" for r
  proof -
    have "o_id r \<in> X \<or> gate_open (o_id r) d (h r)"
      using h(1) r full assms(3) by (auto simp: order_rewrite_def settled_past_gate_def gate_open_def)
    then show ?thesis using mono h(1) r by (auto simp: gate_open_def order_rewrite_def)
  qed
  then show ?thesis by (auto simp: settled_past_gate_def h(2))
qed

lemma order_ids_step:
  assumes "ledger_step D d d'" and "distinct (map o_id (db_orders d))"
  shows "map o_id (db_orders d') = map o_id (db_orders d)"
proof -
  obtain h where h: "order_rewrite d h" "db_orders d' = map h (db_orders d)"
    using step_orders [OF assms] by metis
  then show ?thesis by (auto simp: order_rewrite_def)
qed

interpretation ledger_sys: invariant_system "ledger_ok X" "ledger_step D" "ledger_ok X" for X D
  by unfold_locales
    (use fee_keys_step gate_step order_ids_step in \<open>auto simp: ledger_ok_def\<close>)

text \<open>
  An order with an estimate that no payment order confirms and no cargo invoice replaces: a leg
  of a return estimated on a claim is one.
\<close>

definition stuck_estimate :: "id \<Rightarrow> fee_row \<Rightarrow> bool" where
  "stuck_estimate oid f \<longleftrightarrow> f_orderId f = oid \<and> f_source f = ESTIMATE \<and> f_confirmedAt f = None
     \<and> f_feeType f \<notin> set SELLER_CARGO_CONFIRMABLE"

definition blocked :: "id \<Rightarrow> db \<Rightarrow> bool" where
  "blocked oid d \<longleftrightarrow> distinct (map o_id (db_orders d)) \<and> list_ex (stuck_estimate oid) (db_fees d)
     \<and> (\<forall>r \<in> set (db_orders d). o_id r = oid \<longrightarrow> o_reconciliationStatus r \<noteq> FULLY_SETTLED)"

lemma stuck_unresolved: "list_ex (stuck_estimate oid) (db_fees d) \<Longrightarrow> hasUnresolvedEstimateFee oid d"
  by (auto simp: hasUnresolvedEstimateFee_def unresolved_def stuck_estimate_def list_ex_iff
      SELLER_CARGO_CONFIRMABLE_def)

lemma blocked_step:
  assumes "ledger_step D d d'" and "blocked oid d"
  shows "blocked oid d'"
proof -
  have ids: "distinct (map o_id (db_orders d))" using assms(2) by (simp add: blocked_def)
  obtain h where h: "order_rewrite d h" "db_orders d' = map h (db_orders d)"
    using step_orders [OF assms(1) ids] by metis
  have stuck: "list_ex (stuck_estimate oid) (db_fees d')"
  proof (rule step_fees [OF assms(1)])
    fix g assume g: "fee_rewrite g" "db_fees d' = map g (db_fees d)"
    have "stuck_estimate oid f \<Longrightarrow> stuck_estimate oid (g f)" for f
      by (simp add: stuck_estimate_def fee_rewriteD [OF g(1)])
    then show ?thesis using assms(2) by (auto simp: blocked_def g(2) list_ex_iff)
  qed (use assms(2) in \<open>simp add: blocked_def\<close>)
  have "hasUnresolvedEstimateFee oid d" using assms(2) by (intro stuck_unresolved) (simp add: blocked_def)
  then have "o_reconciliationStatus (h r) \<noteq> FULLY_SETTLED" if "r \<in> set (db_orders d)" "o_id r = oid" for r
    using that h(1) assms(2) by (auto simp: order_rewrite_def blocked_def gate_open_def)
  moreover have "o_id (h r) = o_id r" if "r \<in> set (db_orders d)" for r
    using that h(1) by (simp add: order_rewrite_def)
  moreover have "distinct (map o_id (db_orders d'))" using order_ids_step [OF assms(1) ids] ids by simp
  ultimately show ?thesis using stuck by (auto simp: blocked_def h(2))
qed

interpretation blocked_sys: invariant_system "blocked oid" "ledger_step D" "blocked oid" for oid D
  by unfold_locales (auto intro: blocked_step)

end
