(* ===== verification/Settlement_Claims.thy ===== *)
theory Settlement_Claims
  imports Settlement_Props Claim_Return "HOL-Library.Multiset"
begin

text \<open>
  The properties of the settlement job: a chunk keeps the gate of full settlement and the unique
  keys of the fee table, a row delivered again changes nothing, the windows of the scan cover it,
  an estimated return leg keeps an order from ever settling, and a late cargo invoice is counted
  beside the confirmed estimate.
\<close>

section \<open>A row delivered again\<close>

lemma stamp_items: "stamp_payment row oid (d \<lparr> db_items := X \<rparr>) = (stamp_payment row oid d) \<lparr> db_items := X \<rparr>"
  by (simp add: stamp_payment_def update_order_def split: option.split)

lemma stamp_sel [simp]:
  "db_items (stamp_payment row oid d) = db_items d" "db_variants (stamp_payment row oid d) = db_variants d"
  by (simp_all add: stamp_payment_def update_order_def split: option.split)

lemma stamp_twice: "stamp_payment row oid (stamp_payment row oid d) = stamp_payment row oid d"
  by (auto simp: stamp_payment_def update_order_def update_where_def split: option.split)

lemma stamp_order_by_key:
  "order_by_key sid pid (stamp_payment row oid d) = map_option
     (\<lambda>r. case (tx_paymentOrderId row, tx_paymentDate row) of
        (Some po, Some pd) \<Rightarrow> if o_id r = oid \<and> o_paymentOrderId r = None
            then r \<lparr> o_paymentOrderId := Some po, o_paymentDate := Some pd \<rparr> else r
      | _ \<Rightarrow> r) (order_by_key sid pid d)"
proof (cases "(tx_paymentOrderId row, tx_paymentDate row)")
  case (Pair a b)
  show ?thesis
  proof (cases a; cases b)
    fix po pd assume ab: "a = Some po" "b = Some pd"
    let ?g = "\<lambda>r. if o_paymentOrderId r = None then r \<lparr> o_paymentOrderId := Some po, o_paymentDate := Some pd \<rparr> else r"
    have "find (is_order sid pid) (update_where (\<lambda>r. o_id r = oid) ?g (db_orders d)) =
        map_option (\<lambda>r. if o_id r = oid then ?g r else r) (find (is_order sid pid) (db_orders d))"
      by (rule find_update_where_same) (simp add: is_order_def)
    then show ?thesis
      using Pair ab by (simp add: stamp_payment_def order_by_key_def update_order_def)
        (rule arg_cong [where f = "\<lambda>h. map_option h _"], auto)
  qed (use Pair in \<open>simp_all add: stamp_payment_def option.map_id0 [unfolded id_def]\<close>)
qed

lemma locate_again:
  assumes "locate_line sid row d = Inr (r, i, ca)" and "keeps_line g"
  obtains r' where "locate_line sid row (stamp_payment row oid (update_item (i_id i) g d)) = Inr (r', g i, ca)"
    and "o_id r' = o_id r"
    and "locate_line sid row (update_item (i_id i) g d) = Inr (r, g i, ca)"
proof -
  obtain pid bc v where l: "tx_shipmentPackageId row = Some pid" "tx_barcode row = Some bc"
    "tx_commissionAmount row = Some ca" "order_by_key sid pid d = Some r" "variant_by_barcode sid bc d = Some v"
    "item_of_variant (o_id r) (v_id v) d = Some i"
    using assms(1) by (auto simp: locate_line_def split: option.splits)
  have items: "item_of_variant oid' vid (update_item (i_id i) g d) =
      map_option (\<lambda>x. if i_id x = i_id i then g x else x) (item_of_variant oid' vid d)" for oid' vid
    unfolding item_of_variant_def update_item_def
    by simp (rule find_update_where_same, use assms(2) in \<open>simp add: keeps_line_def\<close>)
  have same: "item_of_variant oid' vid (stamp_payment row oid e) = item_of_variant oid' vid e"
    "variant_by_barcode sid bc (stamp_payment row oid e) = variant_by_barcode sid bc e"
    "variant_by_barcode sid bc (update_item iid g e) = variant_by_barcode sid bc e"
    "order_by_key sid pid (update_item iid g e) = order_by_key sid pid e" for oid' vid e iid
    by (simp_all add: item_of_variant_def variant_by_barcode_def order_by_key_def update_item_def)
  obtain r' where r': "order_by_key sid pid (stamp_payment row oid (update_item (i_id i) g d)) = Some r'" "o_id r' = o_id r"
    unfolding stamp_order_by_key same using l(4) by (auto split: option.splits)
  show thesis
    by (rule that [of r']) (use l r' in \<open>simp_all add: locate_line_def same items\<close>)
qed

lemma update_where_twice:
  assumes "\<And>x. g (g x) = g x" and "\<And>x. P (g x) = P x"
  shows "update_where P g (update_where P g xs) = update_where P g xs"
  using assms by (simp add: update_where_def)

lemma update_item_twice:
  assumes "\<And>x. g (g x) = g x" and "keeps_line g"
  shows "update_item iid g (update_item iid g d) = update_item iid g d"
  using assms by (simp add: update_item_def keeps_line_def update_where_def)

lemma sale_twice: "handleSale D sid row (snd (handleSale D sid row d)) = (fst (handleSale D sid row d), snd (handleSale D sid row d))"
proof (cases "locate_line sid row d")
  case (Inl e)
  then show ?thesis by (simp add: handleSale_def)
next
  case (Inr x)
  obtain r i ca where x: "x = (r, i, ca)" by (cases x)
  let ?g = "settle_line D row ca"
  have g: "keeps_line ?g" "?g (?g x) = ?g x" for x
    by (simp_all add: keeps_line_def settle_line_def Let_def split: option.split)
  obtain r' where r': "locate_line sid row (stamp_payment row (o_id r) (update_item (i_id i) ?g d)) = Inr (r', ?g i, ca)"
    "o_id r' = o_id r"
    using locate_again [OF Inr [unfolded x] g(1), of "o_id r"] by metis
  have "i_id (?g i) = i_id i" using g(1) by (simp add: keeps_line_def)
  moreover have "update_item (i_id i) ?g (stamp_payment row (o_id r) (update_item (i_id i) ?g d)) =
      stamp_payment row (o_id r) (update_item (i_id i) ?g d)"
    using update_where_twice [OF g(2), of "\<lambda>x. i_id x = i_id i" "db_items d"] g(1)
    by (simp add: update_item_def stamp_items keeps_line_def)
  ultimately show ?thesis using Inr x r' by (simp add: handleSale_def stamp_twice)
qed

lemma discount_twice: "handleDiscount D sid row (snd (handleDiscount D sid row d)) =
    (fst (handleDiscount D sid row d), snd (handleDiscount D sid row d))"
proof (cases "locate_line sid row d")
  case (Inl e)
  then show ?thesis by (simp add: handleDiscount_def)
next
  case (Inr x)
  obtain r i ca where x: "x = (r, i, ca)" by (cases x)
  let ?g = "\<lambda>x. x \<lparr> i_refundedCommissionGross := dmul D ca (of_int (i_quantity i)) \<rparr>"
  have g: "keeps_line ?g" by (simp add: keeps_line_def)
  have "locate_line sid row (update_item (i_id i) ?g d) = Inr (r, ?g i, ca)"
    using locate_again [OF Inr [unfolded x] g] by metis
  then show ?thesis
    using Inr x update_item_twice [OF _ g] by (simp add: handleDiscount_def)
qed

text \<open>What \<open>write_legs\<close> leaves: every leg it can write is there, and linked if any unit was found.\<close>

lemma link_twice:
  assumes "\<And>f. f \<in> set (db_fees d) \<Longrightarrow> leg_of oid tid f \<Longrightarrow> f_orderClaimItemId f \<noteq> None"
  shows "link_unit oid tid unit d = d"
proof -
  have "update_where (\<lambda>f. leg_of oid tid f \<and> f_orderClaimItemId f = None) g (db_fees d) = db_fees d" for g
    by (rule update_where_id) (use assms in blast)
  then show ?thesis by (simp add: link_unit_def split: option.split)
qed

lemma link_fees:
  "set (db_fees (link_unit oid tid unit d)) = (\<lambda>f. case unit of None \<Rightarrow> f
     | Some c \<Rightarrow> if leg_of oid tid f \<and> f_orderClaimItemId f = None then f \<lparr> f_orderClaimItemId := Some c \<rparr> else f) ` set (db_fees d)"
  by (auto simp: link_unit_def set_update_where split: option.split)

lemma has_leg_existing: "has_leg ty (existing_legs oid tid d) \<longleftrightarrow> (\<exists>f \<in> set (db_fees d). leg_of oid tid f \<and> f_feeType f = ty)"
  by (auto simp: has_leg_def existing_legs_def list_ex_iff)

lemma link_has_leg: "has_leg ty (existing_legs oid tid (link_unit oid tid unit d)) = has_leg ty (existing_legs oid tid d)"
  by (auto simp: has_leg_existing link_fees leg_of_def split: option.split)

lemma create_has_leg: "has_leg ty (existing_legs oid tid (create_fee mk d)) \<longleftrightarrow>
    has_leg ty (existing_legs oid tid d) \<or> leg_of oid tid (mk (db_nextId d)) \<and> f_feeType (mk (db_nextId d)) = ty"
  by (auto simp: has_leg_existing create_fee_def)

lemma write_legs_stages:
  assumes "write_legs r i row d = Inr (w, d')"
  defines "legs \<equiv> existing_legs (o_id r) (tx_id row) d" and "unit \<equiv> claim_unit (o_id r) (tx_id row) i d"
  obtains w1 d1 w2 d2 w3 d3 where "refund_stage r i row legs unit d = (w1, d1)"
    "commission_stage r row legs unit d1 = Inr (w2, d2)" "cost_stage r i row legs unit d2 = (w3, d3)"
    "d' = link_unit (o_id r) (tx_id row) unit d3" "w = (w1 \<or> w2 \<or> w3)"
proof -
  obtain w1 d1 where 1: "refund_stage r i row legs unit d = (w1, d1)" by (cases "refund_stage r i row legs unit d")
  obtain w2 d2 where 2: "commission_stage r row legs unit d1 = Inr (w2, d2)"
    using assms 1 by (auto simp: write_legs_def Let_def bindR_eq_Inr)
  obtain w3 d3 where 3: "cost_stage r i row legs unit d2 = (w3, d3)" by (cases "cost_stage r i row legs unit d2")
  show thesis by (rule that [OF 1 2 3]) (use assms 1 2 3 in \<open>simp_all add: write_legs_def Let_def\<close>)
qed

text \<open>The fees a stage adds: legs of the row, with the chosen unit.\<close>

definition adds_legs :: "id \<Rightarrow> string \<Rightarrow> id option \<Rightarrow> db \<Rightarrow> db \<Rightarrow> bool" where
  "adds_legs oid tid unit d e \<longleftrightarrow>
     (\<exists>fs. e = d \<lparr> db_fees := db_fees d @ fs, db_nextId := db_nextId e \<rparr>
        \<and> (\<forall>f \<in> set fs. leg_of oid tid f \<and> f_orderClaimItemId f = unit))"

lemma adds_refl: "adds_legs oid tid unit d d"
  unfolding adds_legs_def by (rule exI [of _ "[]"]) simp

lemma adds_trans:
  assumes "adds_legs oid tid unit a b" and "adds_legs oid tid unit b c"
  shows "adds_legs oid tid unit a c"
proof -
  obtain fs where fs: "b = a \<lparr> db_fees := db_fees a @ fs, db_nextId := db_nextId b \<rparr>"
    "\<forall>f \<in> set fs. leg_of oid tid f \<and> f_orderClaimItemId f = unit"
    using assms(1) unfolding adds_legs_def by blast
  obtain gs where gs: "c = b \<lparr> db_fees := db_fees b @ gs, db_nextId := db_nextId c \<rparr>"
    "\<forall>f \<in> set gs. leg_of oid tid f \<and> f_orderClaimItemId f = unit"
    using assms(2) unfolding adds_legs_def by blast
  have "db_fees b = db_fees a @ fs" by (subst fs(1)) simp
  then have "c = a \<lparr> db_fees := db_fees a @ (fs @ gs), db_nextId := db_nextId c \<rparr>"
    by (subst gs(1), subst (1) fs(1)) simp
  then show ?thesis unfolding adds_legs_def using fs(2) gs(2) by (intro exI [of _ "fs @ gs"]) auto
qed

lemma adds_create:
  "adds_legs (o_id r) tid unit d (create_fee (settlement_leg r tid unit ty dir gross vat name) d)"
  by (auto simp: adds_legs_def create_fee_def settlement_leg_def leg_of_def)


lemma refund_stage_adds:
  assumes "refund_stage r i row (existing_legs (o_id r) (tx_id row) d) unit d = (w, e)"
  shows "adds_legs (o_id r) (tx_id row) unit d e" and "has_leg REFUND_DEDUCTION (existing_legs (o_id r) (tx_id row) e)"
    and "has_leg ty (existing_legs (o_id r) (tx_id row) d) \<Longrightarrow> has_leg ty (existing_legs (o_id r) (tx_id row) e)"
  using assms
  by (auto simp: refund_stage_def refund_leg_def adds_refl adds_create create_has_leg settlement_leg_def leg_of_def
      split: if_splits)

lemma commission_stage_adds:
  assumes "commission_stage r row (existing_legs (o_id r) (tx_id row) d0) unit d = Inr (w, e)"
  shows "adds_legs (o_id r) (tx_id row) unit d e"
    and "has_leg COMMISSION_REFUND (existing_legs (o_id r) (tx_id row) d0) \<Longrightarrow> e = d"
    and "\<not> has_leg COMMISSION_REFUND (existing_legs (o_id r) (tx_id row) d0) \<Longrightarrow> tx_commissionAmount row \<noteq> None \<Longrightarrow>
      has_leg COMMISSION_REFUND (existing_legs (o_id r) (tx_id row) e)"
    and "has_leg ty (existing_legs (o_id r) (tx_id row) d) \<Longrightarrow> has_leg ty (existing_legs (o_id r) (tx_id row) e)"
  using commission_stage_cases [OF assms]
  by (cases; simp add: commission_leg_def adds_refl adds_create create_has_leg settlement_leg_def leg_of_def)+

lemma cost_stage_adds:
  assumes "cost_stage r i row (existing_legs (o_id r) (tx_id row) d0) unit d = (w, e)"
  shows "adds_legs (o_id r) (tx_id row) unit d e"
    and "has_leg COST_RETURN (existing_legs (o_id r) (tx_id row) d0) \<Longrightarrow> e = d"
    and "\<not> has_leg COST_RETURN (existing_legs (o_id r) (tx_id row) d0) \<Longrightarrow> i_unitCostSnapshotGross i \<noteq> None \<Longrightarrow>
      has_leg COST_RETURN (existing_legs (o_id r) (tx_id row) e)"
    and "has_leg ty (existing_legs (o_id r) (tx_id row) d) \<Longrightarrow> has_leg ty (existing_legs (o_id r) (tx_id row) e)"
  using assms
  by (auto simp: cost_stage_def cost_leg_def adds_refl adds_create create_has_leg settlement_leg_def leg_of_def
      split: if_splits option.splits)

lemma write_legs_result:
  assumes "write_legs r i row d = Inr (w, d')"
  obtains e where "adds_legs (o_id r) (tx_id row) (claim_unit (o_id r) (tx_id row) i d) d e"
    "d' = link_unit (o_id r) (tx_id row) (claim_unit (o_id r) (tx_id row) i d) e"
    "has_leg REFUND_DEDUCTION (existing_legs (o_id r) (tx_id row) e)"
    "tx_commissionAmount row \<noteq> None \<Longrightarrow> has_leg COMMISSION_REFUND (existing_legs (o_id r) (tx_id row) e)"
    "i_unitCostSnapshotGross i \<noteq> None \<Longrightarrow> has_leg COST_RETURN (existing_legs (o_id r) (tx_id row) e)"
proof (rule write_legs_stages [OF assms])
  fix w1 d1 w2 d2 w3 d3
  let ?legs = "existing_legs (o_id r) (tx_id row) d" and ?unit = "claim_unit (o_id r) (tx_id row) i d"
  assume s: "refund_stage r i row ?legs ?unit d = (w1, d1)" "commission_stage r row ?legs ?unit d1 = Inr (w2, d2)"
    "cost_stage r i row ?legs ?unit d2 = (w3, d3)" and d': "d' = link_unit (o_id r) (tx_id row) ?unit d3"
  note r = refund_stage_adds [OF s(1)] and c = commission_stage_adds [OF s(2)] and k = cost_stage_adds [OF s(3)]
  show thesis
  proof (rule that [OF adds_trans [OF adds_trans [OF r(1) c(1)] k(1)] d'])
    show "has_leg REFUND_DEDUCTION (existing_legs (o_id r) (tx_id row) d3)" using r(2) by (intro k(4) c(4))
    show "has_leg COMMISSION_REFUND (existing_legs (o_id r) (tx_id row) d3)" if "tx_commissionAmount row \<noteq> None"
      using that r(3) c k by metis
    show "has_leg COST_RETURN (existing_legs (o_id r) (tx_id row) d3)" if "i_unitCostSnapshotGross i \<noteq> None"
      using that r(3) c(4) k by metis
  qed
qed


lemma find_map: "(\<And>x. Q (h x) = Q x) \<Longrightarrow> find Q (map h xs) = map_option h (find Q xs)"
  by (induction xs) auto

lemma filter_single_map:
  "(case map h xs of [r] \<Rightarrow> Some r | _ \<Rightarrow> None) = map_option h (case xs of [r] \<Rightarrow> Some r | _ \<Rightarrow> None)"
  by (auto split: list.split)

text \<open>A rewriting of the orders that a return does not look at, beside what it does not touch.\<close>

definition return_view :: "(order_row \<Rightarrow> order_row) \<Rightarrow> db \<Rightarrow> db \<Rightarrow> bool" where
  "return_view h d e \<longleftrightarrow>
     db_orders e = map h (db_orders d) \<and> db_items e = db_items d \<and> db_variants e = db_variants d
     \<and> db_claims e = db_claims d \<and> db_claimItems e = db_claimItems d
     \<and> (\<forall>r. o_id (h r) = o_id r \<and> o_storeId (h r) = o_storeId r \<and> o_platformOrderId (h r) = o_platformOrderId r
          \<and> o_platformOrderNumber (h r) = o_platformOrderNumber r)"

lemma return_view_order:
  assumes "return_view h d e"
  shows "return_order sid pid bc n e = map_option h (return_order sid pid bc n d)"
proof -
  have h: "db_orders e = map h (db_orders d)" "\<And>r. o_id (h r) = o_id r" "\<And>r. o_storeId (h r) = o_storeId r"
    "\<And>r. o_platformOrderId (h r) = o_platformOrderId r" "\<And>r. o_platformOrderNumber (h r) = o_platformOrderNumber r"
    "db_claims e = db_claims d"
    using assms by (simp_all add: return_view_def)
  have 1: "order_by_key sid pid e = map_option h (order_by_key sid pid d)"
    unfolding order_by_key_def h(1) by (rule find_map) (simp add: is_order_def h)
  have 2: "find_order oid e = map_option h (find_order oid d)" for oid
    unfolding find_order_def h(1) by (rule find_map) (simp add: h)
  have barcode: "has_barcode bc e = has_barcode bc d" "order_items oid e = order_items oid d" for oid
    using assms by (simp_all add: fun_eq_iff return_view_def has_barcode_def item_variant_def find_variant_def order_items_def
        split: option.split)
  have 3: "filter (\<lambda>r. o_storeId r = sid \<and> o_platformOrderNumber r = m
        \<and> list_ex (has_barcode bc e) (order_items (o_id r) e)) (db_orders e) =
      map h (filter (\<lambda>r. o_storeId r = sid \<and> o_platformOrderNumber r = m
        \<and> list_ex (has_barcode bc d) (order_items (o_id r) d)) (db_orders d))" for m
    by (simp add: h filter_map o_def barcode)
  show ?thesis
    unfolding return_order_def 3 filter_single_map
    by (simp add: 1 2 h(6) split: option.split bind_split)
qed

lemma link_sel [simp]:
  "db_orders (link_unit oid tid unit d) = db_orders d" "db_items (link_unit oid tid unit d) = db_items d"
  "db_variants (link_unit oid tid unit d) = db_variants d" "db_claims (link_unit oid tid unit d) = db_claims d"
  "db_claimItems (link_unit oid tid unit d) = db_claimItems d"
  by (simp_all add: link_unit_def split: option.split)

lemma adds_sel:
  assumes "adds_legs oid tid unit d e"
  shows "db_orders e = db_orders d \<and> db_items e = db_items d \<and> db_variants e = db_variants d
     \<and> db_claims e = db_claims d \<and> db_claimItems e = db_claimItems d"
proof -
  obtain fs where fs: "e = d \<lparr> db_fees := db_fees d @ fs, db_nextId := db_nextId e \<rparr>"
    using assms unfolding adds_legs_def by blast
  show ?thesis by (subst (1 2 3 4 5) fs) simp
qed

lemma adds_fees:
  assumes "adds_legs oid tid unit d e"
  obtains fs where "db_fees e = db_fees d @ fs" and "\<And>f. f \<in> set fs \<Longrightarrow> leg_of oid tid f \<and> f_orderClaimItemId f = unit"
proof -
  obtain fs where fs: "e = d \<lparr> db_fees := db_fees d @ fs, db_nextId := db_nextId e \<rparr>"
    "\<forall>f \<in> set fs. leg_of oid tid f \<and> f_orderClaimItemId f = unit"
    using assms unfolding adds_legs_def by blast
  have "db_fees e = db_fees d @ fs" by (subst fs(1)) simp
  then show thesis using fs(2) by (intro that [of fs]) auto
qed


lemma claim_unit_cong:
  assumes "db_fees e = db_fees d" and "db_claims e = db_claims d" and "db_claimItems e = db_claimItems d"
  shows "claim_unit oid tid i e = claim_unit oid tid i d"
proof -
  have items: "claim_item_of oid e = claim_item_of oid d"
    using assms(2) by (simp add: fun_eq_iff claim_item_of_def find_claim_def)
  show ?thesis unfolding claim_unit_def existing_legs_def assms items ..
qed

lemma claim_unit_None:
  assumes "claim_unit oid tid i d = None" and "adds_legs oid tid None d e"
  shows "claim_unit oid tid i e = None"
proof -
  obtain fs where fs: "db_fees e = db_fees d @ fs" "\<And>f. f \<in> set fs \<Longrightarrow> f_orderClaimItemId f = None"
    using adds_fees [OF assms(2)] by metis
  have none: "List.map_filter f_orderClaimItemId (existing_legs oid tid d) = []"
    using assms(1) by (simp add: claim_unit_def split: list.splits)
  then have "List.map_filter f_orderClaimItemId (existing_legs oid tid e) = []"
    using fs by (auto simp: existing_legs_def List.map_filter_def filter_empty_conv)
  moreover have "list_ex (\<lambda>f. f_orderClaimItemId f = Some c) (db_fees e) = list_ex (\<lambda>f. f_orderClaimItemId f = Some c) (db_fees d)" for c
    using fs by (auto simp: list_ex_iff)
  moreover have "claim_item_of oid e = claim_item_of oid d"
    using adds_sel [OF assms(2)] by (simp add: fun_eq_iff claim_item_of_def find_claim_def)
  ultimately show ?thesis
    using assms(1) none adds_sel [OF assms(2)] by (simp add: claim_unit_def)
qed

lemma link_stable:
  assumes "adds_legs oid tid (claim_unit oid tid i d) d e"
    and x: "db_fees x = db_fees (link_unit oid tid (claim_unit oid tid i d) e)" "db_claims x = db_claims e" "db_claimItems x = db_claimItems e"
  shows "link_unit oid tid (claim_unit oid tid i x) x = x"
proof (cases "claim_unit oid tid i d")
  case None
  then have "claim_unit oid tid i e = None" "db_fees x = db_fees e"
    using claim_unit_None assms(1) x(1) by (simp_all add: link_unit_def)
  then have "claim_unit oid tid i x = None" using x claim_unit_cong by metis
  then show ?thesis by (simp add: link_unit_def)
next
  case (Some c)
  show ?thesis
  proof (rule link_twice)
    fix f assume "f \<in> set (db_fees x)" and leg: "leg_of oid tid f"
    then obtain g where "f = (if leg_of oid tid g \<and> f_orderClaimItemId g = None then g \<lparr> f_orderClaimItemId := Some c \<rparr> else g)"
      unfolding x(1) link_fees Some option.case by blast
    with leg show "f_orderClaimItemId f \<noteq> None" by (auto split: if_splits)
  qed
qed

lemma write_legs_done:
  assumes "has_leg REFUND_DEDUCTION (existing_legs (o_id r) (tx_id row) x)"
    and "tx_commissionAmount row \<noteq> None \<Longrightarrow> has_leg COMMISSION_REFUND (existing_legs (o_id r) (tx_id row) x)"
    and "i_unitCostSnapshotGross i \<noteq> None \<Longrightarrow> has_leg COST_RETURN (existing_legs (o_id r) (tx_id row) x)"
    and "link_unit (o_id r) (tx_id row) (claim_unit (o_id r) (tx_id row) i x) x = x"
  shows "write_legs r i row x = Inr (False, x)"
proof -
  have "commission_stage r row (existing_legs (o_id r) (tx_id row) x) unit d = Inr (False, d)" for unit d
    using assms(2) by (auto simp: commission_stage_def split: option.split)
  moreover have "cost_stage r i row (existing_legs (o_id r) (tx_id row) x) unit d = (False, d)" for unit d
    using assms(3) by (auto simp: cost_stage_def split: option.split)
  ultimately show ?thesis
    using assms(1,4) by (simp add: write_legs_def refund_stage_def Let_def)
qed

text \<open>The legs a return wrote are all there when it comes again, in any state with the same fees and claims.\<close>

lemma write_legs_again:
  assumes "write_legs r i row d = Inr (w, d1)"
    and "db_fees x = db_fees d1" and "db_claims x = db_claims d1" and "db_claimItems x = db_claimItems d1"
    and "o_id r' = o_id r"
  shows "write_legs r' i row x = Inr (False, x)"
proof (rule write_legs_result [OF assms(1)])
  let ?unit = "claim_unit (o_id r) (tx_id row) i d"
  fix e assume e: "adds_legs (o_id r) (tx_id row) ?unit d e" "d1 = link_unit (o_id r) (tx_id row) ?unit e"
    and has: "has_leg REFUND_DEDUCTION (existing_legs (o_id r) (tx_id row) e)"
      "tx_commissionAmount row \<noteq> None \<Longrightarrow> has_leg COMMISSION_REFUND (existing_legs (o_id r) (tx_id row) e)"
      "i_unitCostSnapshotGross i \<noteq> None \<Longrightarrow> has_leg COST_RETURN (existing_legs (o_id r) (tx_id row) e)"
  have "existing_legs (o_id r) (tx_id row) x = existing_legs (o_id r) (tx_id row) d1"
    by (simp add: existing_legs_def assms(2))
  then have leg: "has_leg ty (existing_legs (o_id r) (tx_id row) x) = has_leg ty (existing_legs (o_id r) (tx_id row) e)" for ty
    by (simp add: e(2) link_has_leg)
  have "link_unit (o_id r) (tx_id row) (claim_unit (o_id r) (tx_id row) i x) x = x"
    by (rule link_stable [OF e(1)]) (simp_all add: assms(2-4) e(2))
  then show ?thesis
    by (intro write_legs_done) (simp_all add: assms(5) leg has)
qed

lemma write_legs_view:
  assumes "write_legs r i row d = Inr (w, d1)"
  shows "return_view (\<lambda>r. r) d d1"
proof (rule write_legs_result [OF assms])
  fix e assume "adds_legs (o_id r) (tx_id row) (claim_unit (o_id r) (tx_id row) i d) d e"
    "d1 = link_unit (o_id r) (tx_id row) (claim_unit (o_id r) (tx_id row) i d) e"
  then show ?thesis using adds_sel by (simp add: return_view_def)
qed

lemma recompute_view:
  obtains h where "return_view h d (snd (recomputeSettledProfit D oid d))"
    and "db_fees (snd (recomputeSettledProfit D oid d)) = db_fees d"
proof (cases "snd (recomputeSettledProfit D oid d) = d")
  case True
  then show thesis by (intro that [of "\<lambda>r. r"]) (simp_all add: return_view_def)
next
  case False
  then obtain b where b: "snd (recomputeSettledProfit D oid d) = update_order oid (set_settled D b) d"
    using recompute_db_cases [of D oid d] by blast
  show thesis
    by (rule that [of "\<lambda>r. if o_id r = oid then set_settled D b r else r"])
      (simp_all add: b return_view_def update_order_def update_where_def set_settled_def)
qed

lemma return_view_trans:
  "return_view g a b \<Longrightarrow> return_view h b c \<Longrightarrow> return_view (\<lambda>r. h (g r)) a c"
  by (simp add: return_view_def)

lemma return_view_item:
  assumes "return_view h d e"
  shows "item_of_variant oid vid e = item_of_variant oid vid d" "variant_by_barcode sid bc e = variant_by_barcode sid bc d"
  using assms by (simp_all add: return_view_def item_of_variant_def variant_by_barcode_def)

lemma handle_return_twice:
  assumes "handleReturn D sid row d = Inr (res, d')"
  shows "\<exists>res'. handleReturn D sid row d' = Inr (res', d')"
proof (cases "d' = d")
  case True
  then show ?thesis using assms by blast
next
  case False
  obtain pid bc r v i w d1 where l: "tx_shipmentPackageId row = Some pid" "tx_barcode row = Some bc"
    "return_order sid pid bc (tx_orderNumber row) d = Some r" "variant_by_barcode sid bc d = Some v"
    "item_of_variant (o_id r) (v_id v) d = Some i" and w: "write_legs r i row d = Inr (w, d1)"
    and d': "d' = d1 \<or> d' = snd (recomputeSettledProfit D (o_id r) d1)"
    using assms False by (auto simp: handleReturn_def bindR_eq_Inr split: option.splits if_splits)
  obtain h where h: "return_view h d d'" "db_fees d' = db_fees d1" "db_claims d' = db_claims d1"
    "db_claimItems d' = db_claimItems d1"
  proof (cases "d' = d1")
    case True
    then show thesis using write_legs_view [OF w] that by blast
  next
    case False
    then have eq: "d' = snd (recomputeSettledProfit D (o_id r) d1)" using d' by blast
    obtain h where v: "return_view h d1 d'" "db_fees d' = db_fees d1"
      unfolding eq by (rule recompute_view)
    have "db_claims d' = db_claims d1" "db_claimItems d' = db_claimItems d1"
      using v(1) by (simp_all add: return_view_def)
    with v(2) show thesis by (rule that [OF return_view_trans [OF write_legs_view [OF w] v(1)]])
  qed
  have "o_id (h r) = o_id r" using h(1) by (simp add: return_view_def)
  then have "write_legs (h r) i row d' = Inr (False, d')"
    by (rule write_legs_again [OF w h(2-4)])
  then have "handleReturn D sid row d' = Inr (Skipped None, d')"
    using l \<open>o_id (h r) = o_id r\<close>
    by (simp add: handleReturn_def return_view_order [OF h(1)] return_view_item [OF h(1)])
  then show ?thesis by blast
qed

lemma period_twice:
  "snd (insertOrgPeriodFee sid org ty row gross vat (snd (insertOrgPeriodFee sid org ty row gross vat d))) =
   snd (insertOrgPeriodFee sid org ty row gross vat d)"
  by (simp add: insertOrgPeriodFee_def list_ex_iff split: option.split)


section \<open>A concrete state\<close>

text \<open>A shipped order of a seller-cargo store in a payment cycle, with its shipping estimate.\<close>

definition ledger_order :: order_row where
  "ledger_order = (example_order 9) \<lparr> o_usesSellerCargoAgreement := True, o_paymentOrderId := Some 7,
     o_cargoTrackingNumber := Some 77 \<rparr>"

definition ledger_db :: db where
  "ledger_db = cover_db \<lparr> db_orders := [ledger_order], db_items := [example_item \<lparr> i_productVariantId := Some 7 \<rparr>],
     db_variants := [\<lparr> v_id = 7, v_organizationId = 1, v_storeId = 1, v_productId = 3, v_platformVariantId = 70, v_barcode = ''869'',
        v_salePrice = 100, v_listPrice = 120,
        v_isDigital = False, v_dimensionalWeight = None, v_syncedDimensionalWeight = 1, v_quantity = 10,
        v_syncedCommissionRate = None, v_listing = blank_variant_listing, v_lastSyncedAt = 0, v_delistedAt = None \<rparr>],
     db_fees := [new_estimate 9 1 SHIPPING DEBIT None 40 20 ''x'' 60] \<rparr>"

definition ledger_tx :: financial_tx where
  "ledger_tx = \<lparr> tx_id = ''t'', tx_barcode = Some ''869'', tx_transactionType = ''Iade'', tx_description = None,
     tx_debt = 60, tx_credit = Some 0, tx_commissionAmount = None, tx_commissionInvoiceSerialNumber = None,
     tx_orderNumber = Some ''n'', tx_paymentOrderId = Some 7, tx_paymentDate = Some 5,
     tx_shipmentPackageId = Some ''p'' \<rparr>"

definition ledger_env :: settlement_env where
  "ledger_env = \<lparr> sx_dec = dec20, sx_backfillDays = 0, sx_credentials = (\<lambda>_. Inr ()),
     sx_settlements = (\<lambda>_ _ _ _. Inr \<lparr> pg_totalElements = 1, pg_content = [ledger_tx] \<rparr>),
     sx_otherFinancials = (\<lambda>_ _ _ _. Inr \<lparr> pg_totalElements = 0, pg_content = [] \<rparr>),
     sx_cargoItems = (\<lambda>_. Inr []), sx_libMsg = (\<lambda>_. ''message'') \<rparr>"

lemma ledger_rows:
  "db_orders ledger_db = [ledger_order]" "db_fees ledger_db = [new_estimate 9 1 SHIPPING DEBIT None 40 20 ''x'' 60]"
  "db_feeDefs ledger_db = db_feeDefs cover_db"
  by (simp_all add: ledger_db_def)

lemma ledger_order_sel:
  "o_id ledger_order = 9" "o_organizationId ledger_order = 1" "o_storeId ledger_order = 1" "o_orderDate ledger_order = 0"
  "o_cargoTrackingNumber ledger_order = Some 77" "o_usesSellerCargoAgreement ledger_order"
  "o_reconciliationStatus ledger_order = NOT_SETTLED"
  by (simp_all add: ledger_order_def example_order_def)

abbreviation ledger_log :: sync_log where
  "ledger_log \<equiv> new_log 70 1 1 SETTLEMENTS CRON 0"

abbreviation ledger_queue :: sync_queue where
  "ledger_queue \<equiv> \<lparr> q_logs = [], q_nextId = 0 \<rparr>"

lemmas ledger_eval = ledger_db_def ledger_order_def ledger_tx_def cover_db_def estimate_db_eval new_estimate_def

section \<open>Properties\<close>

text \<open>C14: A settlement row is safe to deliver again: whatever a sale, discount or return row wrote, the same
  row applied to the result writes nothing more, with no leg, link, commission or payment stamp
  changed a second time. (The scan reads the last sixty days on every run, so every row comes many
  times.)\<close>
theorem settlement_replay:
  assumes "dispatchSettlementRow D sid ty row d = Inr d'"
  shows "dispatchSettlementRow D sid ty row d' = Inr d'"
proof -
  consider "classifySettlementTransaction ty = OrderItemUpdate SaleUpdate"
    | "classifySettlementTransaction ty = OrderItemUpdate DiscountUpdate"
    | dir where "classifySettlementTransaction ty = OrderFeeInsert REFUND_DEDUCTION dir"
    | "\<And>e. dispatchSettlementRow D sid ty row e = Inr e"
    by (cases ty) (auto simp: dispatchSettlementRow_def)
  then show ?thesis
  proof cases
    case 3
    then obtain res where "handleReturn D sid row d = Inr (res, d')"
      using assms by (auto simp: dispatchSettlementRow_def bindR_eq_Inr)
    then obtain res' where "handleReturn D sid row d' = Inr (res', d')"
      using handle_return_twice by blast
    with 3 show ?thesis by (simp add: dispatchSettlementRow_def)
  qed (use assms sale_twice discount_twice in \<open>auto simp: dispatchSettlementRow_def\<close>)
qed

lemma settlement_replay_witness:
  "\<exists>d'. dispatchSettlementRow dec20 1 TxReturn ledger_tx ledger_db = Inr d' \<and> length (db_fees d') = 3
     \<and> dispatchSettlementRow dec20 1 TxReturn ledger_tx d' = Inr d'"
proof -
  have "\<exists>d'. dispatchSettlementRow dec20 1 TxReturn ledger_tx ledger_db = Inr d' \<and> length (db_fees d') = 3"
    by (simp add: dispatchSettlementRow_def handleReturn_def return_order_def order_by_key_def is_order_def
        variant_by_barcode_def item_of_variant_def write_legs_def refund_stage_def commission_stage_def cost_stage_def
        existing_legs_def claim_unit_def has_leg_def leg_of_def link_unit_def create_fee_def Let_def
        List.map_filter_simps ledger_eval)
  then show ?thesis using settlement_replay by blast
qed

definition chunk_db :: "settlement_world \<times> sync_queue \<Rightarrow> db" where
  "chunk_db s = sw_db (fst s)"

abbreviation chunk_out :: "settlement_env \<Rightarrow> sync_log \<Rightarrow> decoded_cursor \<Rightarrow> string \<Rightarrow> settlement_world \<times> sync_queue \<Rightarrow> settlement_world \<times> sync_queue" where
  "chunk_out E l cursor w s \<equiv> snd (processSettlementsChunk E l cursor w s)"

lemma chunk_out_steps: "ledger_steps (sx_dec E) (chunk_db s) (chunk_db (chunk_out E l cursor w s))"
proof -
  obtain W q res W' q' where "s = (W, q)" "processSettlementsChunk E l cursor w (W, q) = (res, W', q')"
    by (metis surj_pair)
  with chunk_steps [OF this(2)] show ?thesis by (simp add: chunk_db_def)
qed

text \<open>C13: A chunk of the settlement job, whatever the marketplace answers and wherever it fails, settles an
  order fully only past the gate: with a payment order, no estimate that waits for its real value,
  and a settled profit unless the order is excluded. It keeps the unique keys of the fee table (one
  leg of a type for a transaction, one fee for a parcel of an invoice).\<close>
theorem settlement_chunk_safe:
  assumes "distinct (map o_id (db_orders (chunk_db s)))" and "fee_keys_unique (chunk_db s)"
  shows "fee_keys_unique (chunk_db (chunk_out E l cursor w s))
    \<and> settled_past_gate (fully_settled (chunk_db s)) (chunk_db (chunk_out E l cursor w s))"
proof -
  have "ledger_ok (fully_settled (chunk_db s)) (chunk_db s)"
    using assms by (auto simp: ledger_ok_def settled_past_gate_def fully_settled_def)
  then have "ledger_ok (fully_settled (chunk_db s)) (chunk_db (chunk_out E l cursor w s))"
    by (rule ledger_sys.inv_steps [OF chunk_out_steps])
  then show ?thesis by (simp add: ledger_ok_def)
qed

lemma settlement_chunk_safe_witness:
  "fee_keys_unique (chunk_db (chunk_out ledger_env ledger_log (DRaw None) ''w'' (\<lparr> sw_db = ledger_db, sw_now = 100 * day_ms \<rparr>, ledger_queue)))"
proof -
  have "distinct (map o_id (db_orders (chunk_db (\<lparr> sw_db = ledger_db, sw_now = 100 * day_ms \<rparr>, ledger_queue))))"
    "fee_keys_unique (chunk_db (\<lparr> sw_db = ledger_db, sw_now = 100 * day_ms \<rparr>, ledger_queue))"
    by (simp_all add: chunk_db_def fee_keys_unique_def settlement_legs_def invoice_parcels_def ledger_eval)
  from settlement_chunk_safe [OF this] show ?thesis by blast
qed

text \<open>The windows of the scan leave no gap: every instant after the start of the scan (sixty days
  back, or the backfill cutoff of the store when that is later) and up to now lies in one of them;
  each is inside the scan and passes the endpoint's limit of fifteen days, so no fetch is refused.\<close>
theorem scan_windows_cover:
  assumes "scan_start E now st < t" and "t \<le> now"
  shows "list_ex (\<lambda>(a, b). a \<le> t \<and> t \<le> b) (scan_windows now (scan_start E now st))
    \<and> list_all (\<lambda>(a, b). assertWindow a b \<and> scan_start E now st \<le> a \<and> b \<le> now)
        (scan_windows now (scan_start E now st))"
proof -
  let ?s = "scan_start E now st"
  have start: "now - 60 * day_ms \<le> ?s" by (simp add: scan_start_def SCAN_WINDOW_DAYS_def)
  have day: "0 < day_ms" by (simp add: day_ms_def)
  have upt: "[0..<nat ((SCAN_WINDOW_DAYS + FINANCIAL_WINDOW_MAX_DAYS - 1) div FINANCIAL_WINDOW_MAX_DAYS)] = [0, 1, 2, 3]"
    by (simp add: SCAN_WINDOW_DAYS_def FINANCIAL_WINDOW_MAX_DAYS_def upt_rec)
  have windows: "scan_windows now ?s = map (\<lambda>k. (max (now - int k * 15 * day_ms - 15 * day_ms) ?s, now - int k * 15 * day_ms))
      (takeWhile (\<lambda>k. ?s < now - int k * 15 * day_ms) [0, 1, 2, 3])"
    unfolding scan_windows_def upt unfolding chunk_end_def FINANCIAL_WINDOW_MAX_DAYS_def ..
  have "list_ex (\<lambda>(a, b). a \<le> t \<and> t \<le> b) (scan_windows now ?s)"
    unfolding windows using assms start day by (simp split del: if_split) (auto simp: max_def)
  moreover have "list_all (\<lambda>(a, b). assertWindow a b \<and> ?s \<le> a \<and> b \<le> now) (scan_windows now ?s)"
    unfolding windows using start day
    by (auto simp: assertWindow_def FINANCIAL_WINDOW_MAX_DAYS_def max_def algebra_simps)
  ultimately show ?thesis ..
qed
lemma scan_windows_cover_witness:
  "list_ex (\<lambda>(a, b). a \<le> 60 * day_ms \<and> 60 * day_ms \<le> b)
     (scan_windows (100 * day_ms) (scan_start ledger_env (100 * day_ms) example_store))"
  using scan_windows_cover [of ledger_env "100 * day_ms" example_store "60 * day_ms"]
  by (simp add: scan_start_def SCAN_WINDOW_DAYS_def computeOrdersCutoffMs_def ledger_env_def example_store_def day_ms_def)

text \<open>C16: A cargo invoice that arrives after the payment order confirmed the shipping estimate of a
  seller-cargo order is counted beside it: the settled profit of the order then charges both the
  confirmed estimate and the invoiced parcel. (Inside one window the payment orders are read before
  the deduction invoices, so this is the normal order of the two.)\<close>
theorem late_cargo_counts_twice:
  assumes "find_order oid d = Some r" and "o_usesSellerCargoAgreement r"
    and "f \<in> set (db_fees d)" and "unresolved oid d f" and "f_feeType f = SHIPPING"
    and "map_of PACKAGE_TYPE_TO_FEE (ca_shipmentPackageType item) = Some SHIPPING"
    and "cargo_item D sid org serial (res, settle_order D now who d r) item = Inr (res', d')"
    and "fst (matchOrder sid org item (settle_order D now who d r)) = Some r'" and "o_id r' = oid"
    and "cg_writtenFees res' = cg_writtenFees res + 1"
  shows "{# f_amountGross f, ca_amount item #} \<subseteq>#
    image_mset f_amountGross (filter_mset (\<lambda>g. f_feeType g = SHIPPING) (mset (settled_fee_rows oid d')))"
proof -
  let ?d1 = "settle_order D now who d r" and ?conf = "\<lambda>g. g \<lparr> f_confirmedAt := Some now, f_confirmedBy := Some who \<rparr>"
  have oid: "o_id r = oid" using find_order_id [OF assms(1)] by blast
  have u: "f_orderId f = oid" "f_source f = ESTIMATE" "f_confirmedAt f = None"
    "\<not> list_ex (\<lambda>g. f_orderId g = oid \<and> f_source g = CARGO_INVOICE \<and> f_feeType g = SHIPPING) (db_fees d)"
    using assms(4,5) by (simp_all add: unresolved_def)
  have types: "SHIPPING \<in> set (confirmable_types r d)"
    using assms(2) u(4) by (simp add: confirmable_types_def oid SELLER_CARGO_CONFIRMABLE_def)
  have "?conf f \<in> set (db_fees ?d1)"
    using assms(3,5) types u by (force simp: settle_order_def confirm_fees_def set_update_where oid)
  moreover obtain fd where fees: "db_fees d' = db_fees ?d1 @ [cargo_fee r' org SHIPPING fd serial item (db_nextId ?d1)]"
    using assms(6-8,10)
    by (auto simp: cargo_item_def bindR_eq_Inr create_fee_def split: option.splits prod.splits bool.splits if_splits)
  ultimately have "?conf f \<in># mset (db_fees ?d1)" by simp
  have in_rows: "?conf f \<in> set (settled_fee_rows oid ?d1)"
    using \<open>?conf f \<in> set (db_fees ?d1)\<close> assms(5) u
    by (simp add: settled_fee_rows_def confirmed_fee_def PROFIT_FEE_TYPES_def)
  have rows: "settled_fee_rows oid d' = settled_fee_rows oid ?d1 @ [cargo_fee r' org SHIPPING fd serial item (db_nextId ?d1)]"
    using assms(9) by (simp add: settled_fee_rows_def fees cargo_fee_def confirmed_fee_def PROFIT_FEE_TYPES_def)
  have "{# ?conf f #} \<subseteq># filter_mset (\<lambda>g. f_feeType g = SHIPPING) (mset (settled_fee_rows oid ?d1))"
    using in_rows assms(5) by simp
  then have "image_mset f_amountGross {# ?conf f #} \<subseteq># image_mset f_amountGross
      (filter_mset (\<lambda>g. f_feeType g = SHIPPING) (mset (settled_fee_rows oid ?d1)))"
    by (rule image_mset_subseteq_mono)
  then show ?thesis by (simp add: rows cargo_fee_def add.commute)
qed

definition ledger_parcel :: cargo_invoice_item where
  "ledger_parcel = \<lparr> ca_shipmentPackageType = ''G'' @ [CHR 0xC3, CHR 0xB6] @ ''nderi Kargo Bedeli'', ca_parcelUniqueId = 77,
     ca_orderNumber = ''n'', ca_amount = 45, ca_itemDesi = 3 \<rparr>"

text \<open>Finalizing an order keeps the keys an invoice line is matched by.\<close>

lemma finalize_keys:
  obtains h where "db_orders (snd (tryFinalizeReconciliation D oid d)) = map h (db_orders d)"
    and "\<And>r. o_id (h r) = o_id r \<and> o_organizationId (h r) = o_organizationId r \<and> o_storeId (h r) = o_storeId r
      \<and> o_cargoTrackingNumber (h r) = o_cargoTrackingNumber r \<and> o_platformOrderNumber (h r) = o_platformOrderNumber r
      \<and> o_orderDate (h r) = o_orderDate r"
proof -
  obtain res d1 where res: "recomputeSettledProfit D oid d = (res, d1)" by (cases "recomputeSettledProfit D oid d")
  have d1: "d1 = d \<or> (\<exists>b. d1 = update_order oid (set_settled D b) d)"
    using recompute_db_cases [of D oid d] res by simp
  have "\<exists>h. db_orders d1 = map h (db_orders d) \<and> (\<forall>r. o_id (h r) = o_id r \<and> o_organizationId (h r) = o_organizationId r
      \<and> o_storeId (h r) = o_storeId r \<and> o_cargoTrackingNumber (h r) = o_cargoTrackingNumber r
      \<and> o_platformOrderNumber (h r) = o_platformOrderNumber r \<and> o_orderDate (h r) = o_orderDate r)"
    using d1
  proof
    assume "d1 = d"
    then show ?thesis by (intro exI [of _ "\<lambda>r. r"]) simp
  next
    assume "\<exists>b. d1 = update_order oid (set_settled D b) d"
    then obtain b where "d1 = update_order oid (set_settled D b) d" ..
    then show ?thesis
      by (intro exI [of _ "\<lambda>r. if o_id r = oid then set_settled D b r else r"])
        (simp add: update_order_def update_where_def set_settled_def)
  qed
  then obtain h where h: "db_orders d1 = map h (db_orders d)" "\<forall>r. o_id (h r) = o_id r
      \<and> o_organizationId (h r) = o_organizationId r
      \<and> o_storeId (h r) = o_storeId r \<and> o_cargoTrackingNumber (h r) = o_cargoTrackingNumber r
      \<and> o_platformOrderNumber (h r) = o_platformOrderNumber r \<and> o_orderDate (h r) = o_orderDate r" by blast
  consider "snd (tryFinalizeReconciliation D oid d) = d" | "snd (tryFinalizeReconciliation D oid d) = d1"
    | "snd (tryFinalizeReconciliation D oid d) = update_order oid set_fully d1"
  proof -
    have "snd (tryFinalizeReconciliation D oid d) \<in> {d, d1, update_order oid set_fully d1}"
      by (simp add: tryFinalizeReconciliation_def res split: option.split)
    then show thesis using that by blast
  qed
  then show thesis
  proof cases
    case 1
    then show thesis by (intro that [of "\<lambda>r. r"]) simp_all
  next
    case 2
    then show thesis using that [of h] h by simp
  next
    case 3
    then show thesis
      by (intro that [of "\<lambda>r. if o_id (h r) = oid then set_fully (h r) else h r"])
        (use h in \<open>simp_all add: update_order_def update_where_def set_fully_def\<close>)
  qed
qed

lemma finalize_feeDefs: "db_feeDefs (snd (tryFinalizeReconciliation D oid d)) = db_feeDefs d"
proof -
  obtain res d1 where res: "recomputeSettledProfit D oid d = (res, d1)" by (cases "recomputeSettledProfit D oid d")
  then have "db_feeDefs d1 = db_feeDefs d"
    using recompute_db_cases [of D oid d] by (auto simp: update_order_def)
  then show ?thesis
    by (auto simp: tryFinalizeReconciliation_def res update_order_def split: option.split)
qed

lemma finalize_match:
  assumes "db_orders d = [r]" and "o_organizationId r = org" "o_storeId r = sid"
    and "o_cargoTrackingNumber r = Some (ca_parcelUniqueId item)"
  obtains r' where "matchOrder sid org item (snd (tryFinalizeReconciliation D oid d)) = (Some r', False)"
    and "o_id r' = o_id r" and "o_orderDate r' = o_orderDate r"
proof (rule finalize_keys [of D oid d])
  fix h assume h: "db_orders (snd (tryFinalizeReconciliation D oid d)) = map h (db_orders d)"
    and keys: "\<And>r. o_id (h r) = o_id r \<and> o_organizationId (h r) = o_organizationId r \<and> o_storeId (h r) = o_storeId r
      \<and> o_cargoTrackingNumber (h r) = o_cargoTrackingNumber r \<and> o_platformOrderNumber (h r) = o_platformOrderNumber r
      \<and> o_orderDate (h r) = o_orderDate r"
  show thesis
    by (rule that [of "h r"]) (simp_all add: matchOrder_def h assms keys)
qed

lemma late_cargo_counts_twice_witness:
  "\<exists>res d'. cargo_item dec20 1 1 ''kf'' (no_cargo, settle_order dec20 50 ''PaymentOrder:7'' ledger_db ledger_order) ledger_parcel
       = Inr (res, d')
     \<and> {# 40, 45 #} \<subseteq>#
       image_mset f_amountGross (filter_mset (\<lambda>g. f_feeType g = SHIPPING) (mset (settled_fee_rows 9 d')))"
proof -
  let ?f = "new_estimate 9 1 SHIPPING DEBIT None 40 20 ''x'' 60"
  define d1 where "d1 = settle_order dec20 50 ''PaymentOrder:7'' ledger_db ledger_order"
  have f: "?f \<in> set (db_fees ledger_db)" "f_feeType ?f = SHIPPING" "f_amountGross ?f = 40" "f_source ?f = ESTIMATE"
    by (simp_all add: ledger_rows new_estimate_def)
  have o: "find_order 9 ledger_db = Some ledger_order" by (simp add: find_order_def ledger_rows ledger_order_sel)
  have u: "unresolved 9 ledger_db ?f" by (simp add: unresolved_def ledger_rows new_estimate_def)
  have p: "map_of PACKAGE_TYPE_TO_FEE (ca_shipmentPackageType ledger_parcel) = Some SHIPPING" "ca_amount ledger_parcel = 45"
    by (simp_all add: PACKAGE_TYPE_TO_FEE_def ledger_parcel_def)
  obtain r' where r': "matchOrder 1 1 ledger_parcel d1 = (Some r', False)" "o_id r' = 9" "o_orderDate r' = 0"
  proof (rule finalize_match [of "confirm_fees 9 (confirmable_types ledger_order ledger_db) 50 ''PaymentOrder:7'' ledger_db"
      ledger_order 1 1 ledger_parcel dec20 9])
    fix r' assume "matchOrder 1 1 ledger_parcel (snd (tryFinalizeReconciliation dec20 9
        (confirm_fees 9 (confirmable_types ledger_order ledger_db) 50 ''PaymentOrder:7'' ledger_db))) = (Some r', False)"
      "o_id r' = o_id ledger_order" "o_orderDate r' = o_orderDate ledger_order"
    then show thesis using that [of r'] by (simp add: d1_def settle_order_def ledger_order_sel del: One_nat_def)
  qed (simp_all add: confirm_fees_def ledger_rows ledger_order_sel ledger_parcel_def)
  have "db_feeDefs d1 = db_feeDefs cover_db"
    by (simp add: d1_def settle_order_def finalize_feeDefs confirm_fees_def ledger_rows)
  then have "resolveFeeDefinition d1 TRENDYOL SHIPPING 0 = resolveFeeDefinition cover_db TRENDYOL SHIPPING 0"
    by (rule resolveFeeDefinition_cong)
  moreover have "\<exists>fd. resolveFeeDefinition cover_db TRENDYOL SHIPPING 0 = Inr fd"
    by (simp add: resolveFeeDefinition_def in_force_def cover_db_def estimate_db_eval)
  moreover have "f_source x = ESTIMATE" if "x \<in> set (db_fees d1)" for x
    using that f(4) by (auto simp: d1_def settle_order_def confirm_fees_def set_update_where ledger_rows)
  then have "\<not> list_ex (same_parcel 9 ''kf'' ledger_parcel) (db_fees d1)"
    by (auto simp: list_ex_iff same_parcel_def)
  ultimately obtain res d' where run: "cargo_item dec20 1 1 ''kf'' (no_cargo, d1) ledger_parcel = Inr (res, d')"
    "cg_writtenFees res = cg_writtenFees no_cargo + 1"
    using r' p by (auto simp: cargo_item_def)
  have "{# f_amountGross ?f, ca_amount ledger_parcel #} \<subseteq>#
       image_mset f_amountGross (filter_mset (\<lambda>g. f_feeType g = SHIPPING) (mset (settled_fee_rows 9 d')))"
    by (rule late_cargo_counts_twice [OF o ledger_order_sel(6) f(1) u f(2) p(1) run(1) [unfolded d1_def] _ r'(2) run(2)])
      (use r'(1) in \<open>simp add: d1_def\<close>)
  then show ?thesis using run(1) f(3) p(2) by (auto simp: d1_def)
qed

text \<open>C15: An estimate of a type that no payment order confirms keeps its order from ever settling: while the
  job runs, chunk after chunk with any answers of the marketplace, the order does not become
  fully settled and the estimate stays unconfirmed. The legs of a return estimated on a claim are
  such estimates.\<close>
theorem return_estimate_blocks:
  assumes "blocked oid (chunk_db s)"
  shows "blocked oid (chunk_db (foldl (\<lambda>s (E, l, cursor, w, now). chunk_out E l cursor w ((fst s) \<lparr> sw_now := now \<rparr>, snd s)) s runs))"
  using assms
proof (induction runs arbitrary: s)
  case (Cons x runs)
  obtain E l cursor w now where x: "x = (E, l, cursor, w, now)" by (cases x)
  have "blocked oid (chunk_db (fst s \<lparr> sw_now := now \<rparr>, snd s))"
    using Cons.prems by (simp add: chunk_db_def)
  from blocked_sys.inv_steps [OF chunk_out_steps this]
  show ?case using Cons.IH x by simp
qed simp
lemma return_estimate_blocks_witness:
  "blocked 9 (chunk_db (chunk_out ledger_env ledger_log (DRaw None) ''w''
     (\<lparr> sw_db = writeLegIfPositive dec20 ledger_order REFUND_DEDUCTION \<lparr> lg_gross = 60, lg_vatRate = Some 20 \<rparr> ledger_db,
        sw_now = 100 * day_ms \<rparr>, ledger_queue)))"
proof -
  have "blocked 9 (chunk_db (\<lparr> sw_db = writeLegIfPositive dec20 ledger_order REFUND_DEDUCTION
      \<lparr> lg_gross = 60, lg_vatRate = Some 20 \<rparr> ledger_db, sw_now = 0 \<rparr>, ledger_queue))"
    by (simp add: chunk_db_def blocked_def stuck_estimate_def writeLegIfPositive_def upsertReturnEstimateFee_def
        upsert_estimate_def new_leg_def
        SELLER_CARGO_CONFIRMABLE_def CONFIRMABLE_FEE_TYPES_def create_fee_def find_estimate_def ledger_rows
        ledger_order_sel new_estimate_def dec_eval)
  from return_estimate_blocks [OF this, of "[(ledger_env, ledger_log, DRaw None, ''w'', 100 * day_ms)]"] show ?thesis by simp
qed

end
