(* ===== verification/Claim_Sync.thy ===== *)
theory Claim_Sync
  imports Settlement_Cron Claim_Return Order_Write_Props
begin

text \<open>
  The claims job: the wire shape of a return request and its mapping
  (\<open>src/packages/marketplace/src/trendyol/claims.ts\<close>), and the scan of the last sixty days that
  upserts every claim and its units, and estimates the return of an order once a unit is accepted
  (\<open>src/apps/sync-worker/src/handlers/claims.ts\<close>).
\<close>

section \<open>The wire\<close>

text \<open>
  An optional field is missing or null, one \<open>None\<close>. The ids \<open>orderLine.id\<close> and \<open>cargoTrackingNumber\<close>
  are numbers the mapper prints and the upsert reads back with \<open>BigInt\<close>; they stay numbers.
\<close>

record claim_reason =
  cr_code :: "string option"
  cr_name :: "string option"

record claim_item_wire =
  wi_id :: string
  wi_customerReason :: "claim_reason option"
  wi_trendyolReason :: "claim_reason option"
  wi_status :: string
  wi_resolved :: "bool option"
  wi_acceptedBySeller :: "bool option"
  wi_autoApproveDate :: "time option"

record claim_line_group =
  wg_orderLineId :: "int option"
  wg_claimItems :: "claim_item_wire list option"

record claim_wire =
  wc_id :: string
  wc_orderNumber :: string
  wc_claimDate :: time
  wc_lastModifiedDate :: "time option"
  wc_cargoTrackingNumber :: "int option"
  wc_cargoProviderName :: "string option"
  wc_orderShipmentPackageId :: "int option"
  wc_orderOutboundPackageId :: "int option"
  wc_items :: "claim_line_group list option"

section \<open>Mapping\<close>

record mapped_claim_item =
  mi_trendyolClaimItemId :: string
  mi_orderLineId :: "int option"
  mi_reasonCode :: string
  mi_reasonName :: string
  mi_status :: string
  mi_acceptedBySeller :: bool
  mi_autoApproveDate :: "time option"
  mi_resolved :: bool

record mapped_claim =
  mc_trendyolClaimId :: string
  mc_orderNumber :: string
  mc_orderOutboundPackageId :: "string option"
  mc_orderShipmentPackageId :: "string option"
  mc_claimDate :: time
  mc_lastModifiedDate :: "time option"
  mc_cargoProviderName :: "string option"
  mc_cargoTrackingNumber :: "int option"
  mc_resolved :: bool
  mc_items :: "mapped_claim_item list"

definition isTerminalClaimItemStatus :: "string \<Rightarrow> bool" where
  "isTerminalClaimItemStatus status \<longleftrightarrow> status \<in> {''Accepted'', ''Rejected'', ''Cancelled''}"

definition UNKNOWN_REASON_CODE :: string where "UNKNOWN_REASON_CODE = ''UNKNOWN''"

definition hasReasonCode :: "claim_reason option \<Rightarrow> bool" where
  "hasReasonCode reason \<longleftrightarrow>
     (case reason of None \<Rightarrow> False
      | Some r \<Rightarrow> (case cr_code r of None \<Rightarrow> False | Some code \<Rightarrow> code \<noteq> ''''))"

definition claim_reason_of :: "claim_item_wire \<Rightarrow> claim_reason option" where
  "claim_reason_of ci =
     (if hasReasonCode (wi_customerReason ci) then wi_customerReason ci
      else if hasReasonCode (wi_trendyolReason ci) then wi_trendyolReason ci
      else None)"

definition map_claim_item :: "int option \<Rightarrow> claim_item_wire \<Rightarrow> mapped_claim_item" where
  "map_claim_item orderLineId ci =
     (let reason = claim_reason_of ci
      in \<lparr> mi_trendyolClaimItemId = wi_id ci, mi_orderLineId = orderLineId,
           mi_reasonCode = (case Option.bind reason cr_code of Some code \<Rightarrow> code | None \<Rightarrow> UNKNOWN_REASON_CODE),
           mi_reasonName = (case Option.bind reason cr_name of Some name \<Rightarrow> name | None \<Rightarrow> ''''),
           mi_status = wi_status ci, mi_acceptedBySeller = (wi_acceptedBySeller ci = Some True),
           mi_autoApproveDate = wi_autoApproveDate ci, mi_resolved = (wi_resolved ci = Some True) \<rparr>)"

definition or_empty :: "'a list option \<Rightarrow> 'a list" where
  "or_empty xs = (case xs of None \<Rightarrow> [] | Some ys \<Rightarrow> ys)"

definition map_claim_items :: "claim_wire \<Rightarrow> mapped_claim_item list" where
  "map_claim_items claim =
     concat (map (\<lambda>g. map (map_claim_item (wg_orderLineId g)) (or_empty (wg_claimItems g)))
       (or_empty (wc_items claim)))"

definition mapTrendyolClaim :: "claim_wire \<Rightarrow> mapped_claim" where
  "mapTrendyolClaim claim =
     (let items = map_claim_items claim
      in \<lparr> mc_trendyolClaimId = wc_id claim, mc_orderNumber = wc_orderNumber claim,
           mc_orderOutboundPackageId = map_option int_text (wc_orderOutboundPackageId claim),
           mc_orderShipmentPackageId = map_option int_text (wc_orderShipmentPackageId claim),
           mc_claimDate = wc_claimDate claim, mc_lastModifiedDate = wc_lastModifiedDate claim,
           mc_cargoProviderName = wc_cargoProviderName claim,
           mc_cargoTrackingNumber = wc_cargoTrackingNumber claim,
           mc_resolved = (items \<noteq> [] \<and> list_all (\<lambda>i. isTerminalClaimItemStatus (mi_status i)) items),
           mc_items = items \<rparr>)"

section \<open>The upsert of a claim\<close>

text \<open>
  What an upsert throws: an error of the estimate, or the unique key (order, claim id), which a
  moved claim would break.
\<close>

datatype claim_error = ClaimEstimate profit_error | ClaimKeyTaken

datatype upsert_outcome = Written | Unmatched

definition claim_order :: "id \<Rightarrow> mapped_claim \<Rightarrow> db \<Rightarrow> order_row option" where
  "claim_order sid claim d =
     (case mc_orderOutboundPackageId claim of
        Some pid \<Rightarrow> order_by_key sid pid d
      | None \<Rightarrow>
          (case filter (\<lambda>r. o_storeId r = sid \<and> o_platformOrderNumber r = mc_orderNumber claim) (db_orders d) of
             [r] \<Rightarrow> Some r
           | _ \<Rightarrow> None))"

definition claim_key :: "id \<Rightarrow> string \<Rightarrow> claim_row \<Rightarrow> bool" where
  "claim_key oid tid c \<longleftrightarrow> oc_orderId c = oid \<and> oc_trendyolClaimId c = tid"

definition elsewhere :: "id \<Rightarrow> string \<Rightarrow> id \<Rightarrow> claim_row \<Rightarrow> bool" where
  "elsewhere sid tid oid c \<longleftrightarrow> oc_trendyolClaimId c = tid \<and> oc_orderId c \<noteq> oid \<and> oc_storeId c = sid"

definition move_claim :: "id \<Rightarrow> id \<Rightarrow> order_row \<Rightarrow> db \<Rightarrow> db" where
  "move_claim sid cid r d =
     d \<lparr> db_claims := update_where (\<lambda>c. oc_id c = cid)
           (\<lambda>c. c \<lparr> oc_orderId := o_id r, oc_organizationId := o_organizationId r, oc_storeId := sid \<rparr>) (db_claims d),
         db_claimItems := update_where (\<lambda>i. ci_claimId i = cid) (\<lambda>i. i \<lparr> ci_orderItemId := None \<rparr>) (db_claimItems d) \<rparr>"

definition reanchor :: "id \<Rightarrow> string \<Rightarrow> order_row \<Rightarrow> db \<Rightarrow> claim_error + db" where
  "reanchor sid tid r d =
     (case find (elsewhere sid tid (o_id r)) (db_claims d) of
        None \<Rightarrow> Inr d
      | Some e \<Rightarrow>
          if list_ex (claim_key (o_id r) tid) (db_claims d) then Inl ClaimKeyTaken
          else Inr (move_claim sid (oc_id e) r d))"

definition orElse :: "'a option \<Rightarrow> 'a option \<Rightarrow> 'a option" where
  "orElse new old = (case new of Some x \<Rightarrow> Some x | None \<Rightarrow> old)"

definition new_claim :: "id \<Rightarrow> mapped_claim \<Rightarrow> order_row \<Rightarrow> id \<Rightarrow> claim_row" where
  "new_claim sid claim r cid =
     \<lparr> oc_id = cid, oc_organizationId = o_organizationId r, oc_storeId = sid, oc_orderId = o_id r,
       oc_trendyolClaimId = mc_trendyolClaimId claim, oc_claimDate = mc_claimDate claim,
       oc_cargoProviderName = mc_cargoProviderName claim, oc_cargoTrackingNumber = mc_cargoTrackingNumber claim,
       oc_resolved = mc_resolved claim, oc_orderShipmentPackageId = mc_orderShipmentPackageId claim,
       oc_orderOutboundPackageId = mc_orderOutboundPackageId claim \<rparr>"

definition refresh_claim :: "mapped_claim \<Rightarrow> claim_row \<Rightarrow> claim_row" where
  "refresh_claim claim c =
     c \<lparr> oc_cargoProviderName := orElse (mc_cargoProviderName claim) (oc_cargoProviderName c),
         oc_cargoTrackingNumber := orElse (mc_cargoTrackingNumber claim) (oc_cargoTrackingNumber c),
         oc_resolved := (if mc_items claim \<noteq> [] then mc_resolved claim else oc_resolved c),
         oc_orderShipmentPackageId := orElse (mc_orderShipmentPackageId claim) (oc_orderShipmentPackageId c),
         oc_orderOutboundPackageId := orElse (mc_orderOutboundPackageId claim) (oc_orderOutboundPackageId c) \<rparr>"

definition upsert_claim_row :: "id \<Rightarrow> mapped_claim \<Rightarrow> order_row \<Rightarrow> db \<Rightarrow> id \<times> db" where
  "upsert_claim_row sid claim r d =
     (case find (claim_key (o_id r) (mc_trendyolClaimId claim)) (db_claims d) of
        Some c \<Rightarrow>
          (oc_id c, d \<lparr> db_claims := update_where (claim_key (o_id r) (mc_trendyolClaimId claim)) (refresh_claim claim) (db_claims d) \<rparr>)
      | None \<Rightarrow>
          (db_nextId d, d \<lparr> db_claims := db_claims d @ [new_claim sid claim r (db_nextId d)],
             db_nextId := Suc (db_nextId d) \<rparr>))"

definition line_item :: "id \<Rightarrow> mapped_claim_item \<Rightarrow> db \<Rightarrow> id option" where
  "line_item oid item d =
     (case mi_orderLineId item of
        None \<Rightarrow> None
      | Some l \<Rightarrow> map_option i_id (find (\<lambda>i. i_orderId i = oid \<and> i_platformLineId i = Some l) (db_items d)))"

definition new_claim_item :: "id \<Rightarrow> id option \<Rightarrow> mapped_claim_item \<Rightarrow> id \<Rightarrow> claim_item_row" where
  "new_claim_item cid orderItemId item i =
     \<lparr> ci_id = i, ci_claimId = cid, ci_orderItemId = orderItemId, ci_trendyolClaimItemId = mi_trendyolClaimItemId item,
       ci_reasonCode = mi_reasonCode item, ci_reasonName = mi_reasonName item, ci_status = mi_status item,
       ci_acceptedBySeller = mi_acceptedBySeller item, ci_autoApproveDate = mi_autoApproveDate item,
       ci_resolved = mi_resolved item \<rparr>"

definition refresh_claim_item :: "id option \<Rightarrow> mapped_claim_item \<Rightarrow> claim_item_row \<Rightarrow> claim_item_row" where
  "refresh_claim_item orderItemId item c =
     c \<lparr> ci_status := mi_status item, ci_acceptedBySeller := mi_acceptedBySeller item,
         ci_autoApproveDate := mi_autoApproveDate item, ci_resolved := mi_resolved item,
         ci_reasonCode := (if mi_reasonCode item \<noteq> UNKNOWN_REASON_CODE then mi_reasonCode item else ci_reasonCode c),
         ci_reasonName := (if mi_reasonCode item \<noteq> UNKNOWN_REASON_CODE then mi_reasonName item else ci_reasonName c),
         ci_orderItemId := orElse orderItemId (ci_orderItemId c) \<rparr>"

definition item_key :: "id \<Rightarrow> string \<Rightarrow> claim_item_row \<Rightarrow> bool" where
  "item_key cid tid c \<longleftrightarrow> ci_claimId c = cid \<and> ci_trendyolClaimItemId c = tid"

definition upsert_claim_item :: "id \<Rightarrow> id \<Rightarrow> db \<Rightarrow> mapped_claim_item \<Rightarrow> db" where
  "upsert_claim_item oid cid d item =
     (let orderItemId = line_item oid item d; key = item_key cid (mi_trendyolClaimItemId item)
      in if list_ex key (db_claimItems d)
         then d \<lparr> db_claimItems := update_where key (refresh_claim_item orderItemId item) (db_claimItems d) \<rparr>
         else d \<lparr> db_claimItems := db_claimItems d @ [new_claim_item cid orderItemId item (db_nextId d)],
                  db_nextId := Suc (db_nextId d) \<rparr>)"

definition upsertClaim ::
  "dec \<Rightarrow> (time \<Rightarrow> int) \<Rightarrow> id \<Rightarrow> mapped_claim \<Rightarrow> db \<Rightarrow> claim_error + (upsert_outcome \<times> db)" where
  "upsertClaim D off sid claim d =
     (case claim_order sid claim d of
        None \<Rightarrow> Inr (Unmatched, d)
      | Some r \<Rightarrow>
          bindR (reanchor sid (mc_trendyolClaimId claim) r d) (\<lambda>d1.
            let (cid, d2) = upsert_claim_row sid claim r d1;
                d3 = foldl (upsert_claim_item (o_id r) cid) d2 (mc_items claim)
            in if list_ex (\<lambda>i. mi_status i = ''Accepted'') (mc_items claim)
               then (case estimateReturnOnClaim D off (o_id r) d3 of
                       Inl e \<Rightarrow> Inl (ClaimEstimate e)
                     | Inr d4 \<Rightarrow> Inr (Written, d4))
               else Inr (Written, d3)))"

section \<open>The scan\<close>

definition CLAIM_SCAN_WINDOW_DAYS :: int where "CLAIM_SCAN_WINDOW_DAYS = 60"

definition HEARTBEAT_EVERY_N_CLAIMS :: nat where "HEARTBEAT_EVERY_N_CLAIMS = 25"

record claims_env =
  cx_dec :: dec
  cx_off :: "time \<Rightarrow> int"
  cx_backfillDays :: nat
  cx_credentials :: "store_row \<Rightarrow> thrown + unit"
  cx_claims :: "time \<Rightarrow> time \<Rightarrow> nat \<Rightarrow> thrown + claim_wire api_page"
  cx_claimError :: "claim_error \<Rightarrow> thrown"
  cx_syncMsg :: "sync_error \<Rightarrow> string"

record claims_scan =
  cs_db :: db
  cs_queue :: sync_queue
  cs_written :: nat
  cs_unmatched :: nat
  cs_failed :: nat
  cs_processed :: nat
  cs_lastError :: "thrown option"

definition count_claim :: "claims_env \<Rightarrow> id \<Rightarrow> claim_wire \<Rightarrow> claims_scan \<Rightarrow> claims_scan" where
  "count_claim E sid raw s =
     (case upsertClaim (cx_dec E) (cx_off E) sid (mapTrendyolClaim raw) (cs_db s) of
        Inl e \<Rightarrow> s \<lparr> cs_failed := cs_failed s + 1, cs_lastError := Some (cx_claimError E e) \<rparr>
      | Inr (Written, d) \<Rightarrow> s \<lparr> cs_db := d, cs_written := cs_written s + 1 \<rparr>
      | Inr (Unmatched, d) \<Rightarrow> s \<lparr> cs_db := d, cs_unmatched := cs_unmatched s + 1 \<rparr>)"

definition claim_tick :: "claims_env \<Rightarrow> time \<Rightarrow> id \<Rightarrow> string \<Rightarrow> claims_scan action" where
  "claim_tick E now lid w s =
     (if cs_processed s mod HEARTBEAT_EVERY_N_CLAIMS = 0
      then (case heartbeat lid w now (cs_queue s) of
              Inl e \<Rightarrow> (Some (thrown_of (cx_syncMsg E) e), s)
            | Inr q \<Rightarrow> (None, s \<lparr> cs_queue := q \<rparr>))
      else (None, s))"

definition claim_action :: "claims_env \<Rightarrow> time \<Rightarrow> id \<Rightarrow> id \<Rightarrow> string \<Rightarrow> claim_wire \<Rightarrow> claims_scan action" where
  "claim_action E now sid lid w raw s =
     (case claim_tick E now lid w (s \<lparr> cs_processed := cs_processed s + 1 \<rparr>) of
        (Some e, s1) \<Rightarrow> (Some e, s1)
      | (None, s1) \<Rightarrow> (None, count_claim E sid raw s1))"

definition claims_start :: "claims_env \<Rightarrow> time \<Rightarrow> store_row \<Rightarrow> time" where
  "claims_start E now st =
     max (now - CLAIM_SCAN_WINDOW_DAYS * day_ms) (computeOrdersCutoffMs (cx_backfillDays E) (s_createdAt st) now)"

definition no_claims :: "db \<Rightarrow> sync_queue \<Rightarrow> claims_scan" where
  "no_claims d q = \<lparr> cs_db = d, cs_queue = q, cs_written = 0, cs_unmatched = 0, cs_failed = 0,
                     cs_processed = 0, cs_lastError = None \<rparr>"

definition scan_claims ::
  "claims_env \<Rightarrow> time \<Rightarrow> store_row \<Rightarrow> id \<Rightarrow> string \<Rightarrow> db \<Rightarrow> sync_queue \<Rightarrow> thrown option \<times> claims_scan" where
  "scan_claims E now st lid w d q =
     (let (rows, fetched) = fetch_rows (cx_claims E (claims_start E now st) now) 0 0 None;
          (err, s) = run_actions (map (claim_action E now (s_id st) lid w) rows) (no_claims d q)
      in (case err of
            Some e \<Rightarrow> Some e
          | None \<Rightarrow>
              (case fetched of
                 Some e \<Rightarrow> Some e
               | None \<Rightarrow> if 0 < cs_failed s \<and> cs_written s = 0 \<and> cs_unmatched s = 0 then cs_lastError s else None),
          s))"

definition processClaimsChunk :: "claims_env \<Rightarrow> settlement_world handler" where
  "processClaimsChunk E l cursor w s =
     (let (W, q) = s; now = sw_now W in
      case find_store (l_storeId l) (sw_db W) of
        None \<Rightarrow> (Inl store_missing, s)
      | Some st \<Rightarrow>
          (case cx_credentials E st of
             Inl e \<Rightarrow> (Inl e, s)
           | Inr _ \<Rightarrow>
               (let (err, t) = scan_claims E now st (l_id l) w (sw_db W) q
                in (case err of Some e \<Rightarrow> Inl e | None \<Rightarrow> Inr (Done (int (cs_written t))),
                    W \<lparr> sw_db := cs_db t \<rparr>, cs_queue t))))"

end
