(* ===== verification/Claim_Sync_Props.thy ===== *)
theory Claim_Sync_Props
  imports Claim_Sync
begin

text \<open>
  What a claim's upsert does to the tables: the keys of the claims and their units, their tenancy and
  the links to order lines are invariants; a claim delivered again changes nothing.
\<close>

section \<open>The estimate of a return leaves the keys of the orders\<close>

lemma return_strip:
  assumes "estimateReturnOnClaim D off oid d = Inr d'"
  shows "ref_eq d d'" and "map strip (db_orders d') = map strip (db_orders d)"
proof -
  have "ref_eq d d' \<and> map strip (db_orders d') = map strip (db_orders d)"
  proof (cases "case find_order oid d of None \<Rightarrow> True | Some r \<Rightarrow> o_profitExcludedAt r \<noteq> None \<or> accepted_items oid d = []")
    case True
    then show ?thesis using return_skip [OF assms] by simp
  next
    case False
    then obtain r where r: "find_order oid d = Some r" "o_profitExcludedAt r = None" "accepted_items oid d \<noteq> []"
      by (auto split: option.splits)
    obtain s d1 where run: "return_stage D r (order_items oid d) s (accepted_qty (accepted_items oid d)) d = Inr d1"
      "applyEstimateOnOrderCreate D off oid d1 = Inr d'"
      using return_InrE [OF assms r] by metis
    have "ref_eq d d1" "db_orders d1 = db_orders d"
      using return_rows.rows_keeps [OF run(1)] return_rows.rows_orders [OF run(1)] by (auto simp: keeps_def)
    then show ?thesis using apply_strip [OF run(2)] ref_eq_trans by metis
  qed
  then show "ref_eq d d'" and "map strip (db_orders d') = map strip (db_orders d)" by blast+
qed

lemma strip_number: "strip r' = strip r \<Longrightarrow> o_platformOrderNumber r' = o_platformOrderNumber r"
  by (drule arg_cong [where f = o_platformOrderNumber]) (simp add: strip_def)

text \<open>The columns of an order a claim reads.\<close>

definition order_ref :: "order_row \<Rightarrow> id \<times> id \<times> id \<times> string \<times> string" where
  "order_ref r = (o_id r, o_organizationId r, o_storeId r, o_platformOrderId r, o_platformOrderNumber r)"

lemma order_ref_strip: "map strip xs = map strip ys \<Longrightarrow> map order_ref xs = map order_ref ys"
proof (induction xs arbitrary: ys)
  case (Cons x xs)
  then obtain y zs where ys: "ys = y # zs" "strip x = strip y" "map strip xs = map strip zs" by (cases ys) auto
  then show ?case using Cons.IH [OF ys(3)] strip_sel(1-4) [OF ys(2)] strip_number [OF ys(2)] by (simp add: order_ref_def)
qed simp

lemma find_ref:
  assumes "map order_ref xs = map order_ref ys" and "\<And>x y. order_ref x = order_ref y \<Longrightarrow> P x = P y"
  shows "map_option order_ref (find P xs) = map_option order_ref (find P ys)"
  using assms(1)
proof (induction xs arbitrary: ys)
  case (Cons x xs)
  then obtain y zs where ys: "ys = y # zs" "order_ref x = order_ref y" "map order_ref xs = map order_ref zs" by (cases ys) auto
  then show ?case using Cons.IH [OF ys(3)] assms(2) [OF ys(2)] by simp
qed simp

lemma filter_ref:
  assumes "map order_ref xs = map order_ref ys" and "\<And>x y. order_ref x = order_ref y \<Longrightarrow> P x = P y"
  shows "map order_ref (filter P xs) = map order_ref (filter P ys)"
  using assms(1)
proof (induction xs arbitrary: ys)
  case (Cons x xs)
  then obtain y zs where ys: "ys = y # zs" "order_ref x = order_ref y" "map order_ref xs = map order_ref zs" by (cases ys) auto
  then show ?case using Cons.IH [OF ys(3)] assms(2) [OF ys(2)] by simp
qed simp

lemma claim_order_ref:
  assumes "map order_ref (db_orders e) = map order_ref (db_orders d)"
  shows "map_option order_ref (claim_order sid claim e) = map_option order_ref (claim_order sid claim d)"
proof -
  have single: "map order_ref xs = map order_ref ys \<Longrightarrow>
      map_option order_ref (case xs of [r] \<Rightarrow> Some r | _ \<Rightarrow> None) = map_option order_ref (case ys of [r] \<Rightarrow> Some r | _ \<Rightarrow> None)" for xs ys
    by (cases xs; cases ys; cases "tl xs"; cases "tl ys") auto
  show ?thesis
  proof (cases "mc_orderOutboundPackageId claim")
    case None
    show ?thesis unfolding claim_order_def None option.case
      by (rule single, rule filter_ref [OF assms]) (auto simp: order_ref_def)
  next
    case (Some pid)
    show ?thesis unfolding claim_order_def Some option.case order_by_key_def
      by (rule find_ref [OF assms]) (auto simp: order_ref_def is_order_def)
  qed
qed

lemma claim_order_Some:
  assumes "claim_order sid claim d = Some r"
  shows "r \<in> set (db_orders d)" and "o_storeId r = sid"
proof -
  have "r \<in> set (db_orders d) \<and> o_storeId r = sid"
  proof (cases "mc_orderOutboundPackageId claim")
    case None
    then have "filter (\<lambda>r. o_storeId r = sid \<and> o_platformOrderNumber r = mc_orderNumber claim) (db_orders d) = [r]"
      using assms by (simp add: claim_order_def split: list.splits)
    then have "r \<in> set (filter (\<lambda>r. o_storeId r = sid \<and> o_platformOrderNumber r = mc_orderNumber claim) (db_orders d))"
      by simp
    then show ?thesis by simp
  next
    case (Some pid)
    then show ?thesis using assms find_Some_in
      by (fastforce simp: claim_order_def order_by_key_def is_order_def find_Some_iff)
  qed
  then show "r \<in> set (db_orders d)" and "o_storeId r = sid" by blast+
qed

section \<open>Invariants of the claims\<close>

text \<open>One row for a return in a store, the unique keys of the tables, fresh ids.\<close>

definition claim_keys :: "db \<Rightarrow> bool" where
  "claim_keys d \<longleftrightarrow>
     distinct (map oc_id (db_claims d)) \<and> (\<forall>c \<in> set (db_claims d). oc_id c < db_nextId d)
   \<and> distinct (map (\<lambda>c. (oc_storeId c, oc_trendyolClaimId c)) (db_claims d))
   \<and> distinct (map (\<lambda>c. (oc_orderId c, oc_trendyolClaimId c)) (db_claims d))
   \<and> distinct (map (\<lambda>i. (ci_claimId i, ci_trendyolClaimItemId i)) (db_claimItems d))"

text \<open>A claim carries the store and the organization of its order.\<close>

definition claim_tenancy :: "db \<Rightarrow> bool" where
  "claim_tenancy d \<longleftrightarrow>
     (\<forall>c \<in> set (db_claims d). \<exists>r \<in> set (db_orders d).
        o_id r = oc_orderId c \<and> o_storeId r = oc_storeId c \<and> o_organizationId r = oc_organizationId c)"

text \<open>A unit is linked to a line of its claim's order only.\<close>

definition unit_link :: "db \<Rightarrow> claim_item_row \<Rightarrow> bool" where
  "unit_link d u \<longleftrightarrow>
     (\<forall>x. ci_orderItemId u = Some x \<longrightarrow>
        (\<exists>c \<in> set (db_claims d). oc_id c = ci_claimId u \<and> (\<exists>i \<in> set (db_items d). i_id i = x \<and> i_orderId i = oc_orderId c)))"

definition claims_ok :: "db \<Rightarrow> bool" where
  "claims_ok d \<longleftrightarrow> claim_keys d \<and> claim_tenancy d \<and> (\<forall>u \<in> set (db_claimItems d). unit_link d u)"


lemma distinct_update_where:
  assumes "distinct (map k xs)" and "\<And>x y. x \<in> set xs \<Longrightarrow> y \<in> set xs \<Longrightarrow> P x \<Longrightarrow> P y \<Longrightarrow> x = y"
    and "\<And>x y. x \<in> set xs \<Longrightarrow> y \<in> set xs \<Longrightarrow> P x \<Longrightarrow> \<not> P y \<Longrightarrow> k (g x) \<noteq> k y"
  shows "distinct (map k (update_where P g xs))"
  using assms
proof (induction xs)
  case (Cons x xs)
  have tl: "distinct (map k (update_where P g xs))" by (rule Cons.IH) (use Cons.prems in auto)
  have ne: "k (if P x then g x else x) \<noteq> k (if P y then g y else y)" if "y \<in> set xs" for y
  proof -
    have "x \<noteq> y" "k x \<noteq> k y" using Cons.prems(1) that by auto
    then show ?thesis using Cons.prems(2) [of x y] Cons.prems(3) [of x y] Cons.prems(3) [of y x] that by (cases "P x"; cases "P y") auto
  qed
  then have "k (if P x then g x else x) \<notin> k ` set (update_where P g xs)"
    unfolding set_update_where image_image by blast
  with tl show ?case by (simp split del: if_split)
qed simp

lemma in_update_whereE:
  assumes "x \<in> set (update_where P f xs)"
  obtains y where "y \<in> set xs" and "x = (if P y then f y else y)"
  using assms unfolding set_update_where by blast

lemma list_ex_update: "(\<And>x. Q (f x) = Q x) \<Longrightarrow> list_ex Q (update_where P f xs) = list_ex Q xs"
  by (induction xs) auto

lemma claim_same_id:
  assumes "claim_keys d" and "x \<in> set (db_claims d)" "y \<in> set (db_claims d)" and "oc_id x = oc_id y"
  shows "x = y"
  using assms by (auto simp: claim_keys_def distinct_map dest: inj_onD)


lemma reanchor_cases:
  assumes "reanchor sid tid r d = Inr d1"
  obtains "d1 = d" "\<And>c. c \<in> set (db_claims d) \<Longrightarrow> \<not> elsewhere sid tid (o_id r) c"
  | e where "e \<in> set (db_claims d)" "elsewhere sid tid (o_id r) e" "find (elsewhere sid tid (o_id r)) (db_claims d) = Some e"
      "\<And>c. c \<in> set (db_claims d) \<Longrightarrow> \<not> claim_key (o_id r) tid c" "d1 = move_claim sid (oc_id e) r d"
proof (cases "find (elsewhere sid tid (o_id r)) (db_claims d)")
  case None
  then have "d1 = d" using assms by (simp add: reanchor_def)
  moreover have "\<not> elsewhere sid tid (o_id r) c" if "c \<in> set (db_claims d)" for c
    using None that by (simp add: find_None_iff)
  ultimately show thesis by (rule that(1))
next
  case (Some e)
  then show thesis
    using assms that(2) [of e] find_Some_in [OF Some]
    by (auto simp: reanchor_def list_ex_iff split: if_splits)
qed

lemma move_sel [simp]:
  "db_orders (move_claim sid cid r d) = db_orders d" "db_items (move_claim sid cid r d) = db_items d"
  "db_nextId (move_claim sid cid r d) = db_nextId d"
  by (simp_all add: move_claim_def)

lemma move_keys:
  assumes "claim_keys d" and e: "e \<in> set (db_claims d)" "elsewhere sid tid (o_id r) e"
    and free: "\<And>c. c \<in> set (db_claims d) \<Longrightarrow> \<not> claim_key (o_id r) tid c"
  shows "claim_keys (move_claim sid (oc_id e) r d)"
proof -
  note k = assms(1) [unfolded claim_keys_def]
  let ?g = "\<lambda>c. c \<lparr> oc_orderId := o_id r, oc_organizationId := o_organizationId r, oc_storeId := sid \<rparr>"
  have one: "x = e" if "x \<in> set (db_claims d)" "oc_id x = oc_id e" for x
    using claim_same_id [OF assms(1) that(1) e(1)] that(2) by blast
  have "distinct (map (\<lambda>c. (oc_storeId c, oc_trendyolClaimId c)) (update_where (\<lambda>c. oc_id c = oc_id e) ?g (db_claims d)))"
  proof (rule distinct_update_where)
    fix x y assume "x \<in> set (db_claims d)" "y \<in> set (db_claims d)" "oc_id x = oc_id e" "oc_id y \<noteq> oc_id e"
    moreover have "distinct (map (\<lambda>c. (oc_storeId c, oc_trendyolClaimId c)) (db_claims d))" using k by blast
    ultimately show "(oc_storeId (?g x), oc_trendyolClaimId (?g x)) \<noteq> (oc_storeId y, oc_trendyolClaimId y)"
      using one [of x] e by (auto simp: elsewhere_def distinct_map dest: inj_onD)
  qed (use k one in auto)
  moreover have "distinct (map (\<lambda>c. (oc_orderId c, oc_trendyolClaimId c)) (update_where (\<lambda>c. oc_id c = oc_id e) ?g (db_claims d)))"
  proof (rule distinct_update_where)
    fix x y assume "x \<in> set (db_claims d)" "y \<in> set (db_claims d)" "oc_id x = oc_id e" "oc_id y \<noteq> oc_id e"
    then show "(oc_orderId (?g x), oc_trendyolClaimId (?g x)) \<noteq> (oc_orderId y, oc_trendyolClaimId y)"
      using one [of x] free [of y] e(2) by (auto simp: claim_key_def elsewhere_def)
  qed (use k one in auto)
  moreover have "map oc_id (update_where (\<lambda>c. oc_id c = oc_id e) ?g (db_claims d)) = map oc_id (db_claims d)"
    by (rule map_update_where) simp
  moreover have "map (\<lambda>i. (ci_claimId i, ci_trendyolClaimItemId i))
      (update_where (\<lambda>i. ci_claimId i = oc_id e) (\<lambda>i. i \<lparr> ci_orderItemId := None \<rparr>) (db_claimItems d)) =
      map (\<lambda>i. (ci_claimId i, ci_trendyolClaimItemId i)) (db_claimItems d)"
    by (rule map_update_where) simp
  ultimately show ?thesis
    using k by (auto simp: claim_keys_def move_claim_def set_update_where)
qed

lemma move_ok:
  assumes ok: "claims_ok d" and r: "r \<in> set (db_orders d)" "o_storeId r = sid"
    and e: "e \<in> set (db_claims d)" "elsewhere sid tid (o_id r) e"
    and free: "\<And>c. c \<in> set (db_claims d) \<Longrightarrow> \<not> claim_key (o_id r) tid c"
  shows "claims_ok (move_claim sid (oc_id e) r d)"
proof -
  let ?d = "move_claim sid (oc_id e) r d"
  have "claim_tenancy ?d"
    using ok r by (auto simp: claims_ok_def claim_tenancy_def move_claim_def set_update_where)
  moreover have "unit_link ?d u" if mem: "u \<in> set (db_claimItems ?d)" for u
  proof -
    obtain v where v: "v \<in> set (db_claimItems d)" "u = (if ci_claimId v = oc_id e then v \<lparr> ci_orderItemId := None \<rparr> else v)"
      using mem by (auto simp: move_claim_def elim: in_update_whereE)
    show ?thesis
    proof (cases "ci_claimId v = oc_id e")
      case True
      then show ?thesis using v by (simp add: unit_link_def)
    next
      case False
      show ?thesis unfolding unit_link_def
      proof (intro allI impI)
        fix x assume "ci_orderItemId u = Some x"
        then obtain c i where c: "c \<in> set (db_claims d)" "oc_id c = ci_claimId u" and i: "i \<in> set (db_items d)" "i_id i = x" "i_orderId i = oc_orderId c"
          using ok v False by (force simp: claims_ok_def unit_link_def)
        have "c \<in> set (db_claims ?d)"
          using c v False by (force simp: move_claim_def set_update_where)
        then show "\<exists>c \<in> set (db_claims ?d). oc_id c = ci_claimId u \<and> (\<exists>i \<in> set (db_items ?d). i_id i = x \<and> i_orderId i = oc_orderId c)"
          using c(2) i by auto
      qed
    qed
  qed
  ultimately show ?thesis
    using move_keys [OF _ e free] ok by (auto simp: claims_ok_def)
qed


lemma reanchor_ok:
  assumes run: "reanchor sid tid r d = Inr d1" and ok: "claims_ok d" and r: "r \<in> set (db_orders d)" "o_storeId r = sid"
  shows "claims_ok d1" and "\<And>c. c \<in> set (db_claims d1) \<Longrightarrow> \<not> elsewhere sid tid (o_id r) c"
    and "db_orders d1 = db_orders d" "db_items d1 = db_items d" "db_fees d1 = db_fees d" "db_nextId d1 = db_nextId d"
proof -
  have "claims_ok d1 \<and> (\<forall>c \<in> set (db_claims d1). \<not> elsewhere sid tid (o_id r) c) \<and> db_orders d1 = db_orders d
    \<and> db_items d1 = db_items d \<and> db_fees d1 = db_fees d \<and> db_nextId d1 = db_nextId d"
  proof (rule reanchor_cases [OF run])
    assume "d1 = d" "\<And>c. c \<in> set (db_claims d) \<Longrightarrow> \<not> elsewhere sid tid (o_id r) c"
    then show ?thesis using ok by blast
  next
    fix e assume e: "e \<in> set (db_claims d)" "elsewhere sid tid (o_id r) e"
      and free: "\<And>c. c \<in> set (db_claims d) \<Longrightarrow> \<not> claim_key (o_id r) tid c" and d1: "d1 = move_claim sid (oc_id e) r d"
    have ok1: "claims_ok d1" unfolding d1 by (rule move_ok [OF ok r e free])
    have "\<not> elsewhere sid tid (o_id r) c" if mem: "c \<in> set (db_claims d1)" for c
    proof -
      obtain b where b: "b \<in> set (db_claims d)" "c = (if oc_id b = oc_id e
          then b \<lparr> oc_orderId := o_id r, oc_organizationId := o_organizationId r, oc_storeId := sid \<rparr> else b)"
        using mem by (auto simp: d1 move_claim_def elim: in_update_whereE)
      have "b = e" if "oc_storeId b = oc_storeId e" "oc_trendyolClaimId b = oc_trendyolClaimId e"
        using ok b(1) e(1) that by (auto simp: claims_ok_def claim_keys_def distinct_map dest: inj_onD)
      then show ?thesis using b(2) e(2) by (auto simp: elsewhere_def)
    qed
    then show ?thesis using ok1 by (simp add: d1 move_claim_def)
  qed
  then show "claims_ok d1" and "\<And>c. c \<in> set (db_claims d1) \<Longrightarrow> \<not> elsewhere sid tid (o_id r) c"
    and "db_orders d1 = db_orders d" "db_items d1 = db_items d" "db_fees d1 = db_fees d" "db_nextId d1 = db_nextId d" by blast+
qed

lemma refresh_sel [simp]:
  "oc_id (refresh_claim claim c) = oc_id c" "oc_storeId (refresh_claim claim c) = oc_storeId c"
  "oc_orderId (refresh_claim claim c) = oc_orderId c" "oc_organizationId (refresh_claim claim c) = oc_organizationId c"
  "oc_trendyolClaimId (refresh_claim claim c) = oc_trendyolClaimId c" "oc_claimDate (refresh_claim claim c) = oc_claimDate c"
  by (simp_all add: refresh_claim_def)

text \<open>The claims of a table, up to the columns a refresh writes.\<close>

definition claim_ref :: "claim_row \<Rightarrow> id \<times> id \<times> id \<times> id \<times> string" where
  "claim_ref c = (oc_id c, oc_storeId c, oc_organizationId c, oc_orderId c, oc_trendyolClaimId c)"

lemma claims_ok_ref:
  assumes "map claim_ref (db_claims e) = map claim_ref (db_claims d)" and "db_claimItems e = db_claimItems d"
    and "db_orders e = db_orders d" "db_items e = db_items d" "db_nextId d \<le> db_nextId e" and ok: "claims_ok d"
  shows "claims_ok e"
proof -
  have proj: "map (f \<circ> claim_ref) (db_claims e) = map (f \<circ> claim_ref) (db_claims d)" for f :: "_ \<Rightarrow> 'x"
    using arg_cong [OF assms(1), of "map f"] by simp
  have "map oc_id (db_claims e) = map oc_id (db_claims d)"
    "map (\<lambda>c. (oc_storeId c, oc_trendyolClaimId c)) (db_claims e) = map (\<lambda>c. (oc_storeId c, oc_trendyolClaimId c)) (db_claims d)"
    "map (\<lambda>c. (oc_orderId c, oc_trendyolClaimId c)) (db_claims e) = map (\<lambda>c. (oc_orderId c, oc_trendyolClaimId c)) (db_claims d)"
    using proj [of fst] proj [of "\<lambda>(i, s, g, r, t). (s, t)"] proj [of "\<lambda>(i, s, g, r, t). (r, t)"]
    by (simp_all add: claim_ref_def o_def)
  moreover have set: "claim_ref ` set (db_claims e) = claim_ref ` set (db_claims d)"
    using arg_cong [OF assms(1), of set] by simp
  have backward: "\<exists>b \<in> set (db_claims d). claim_ref b = claim_ref c" if "c \<in> set (db_claims e)" for c
    using that set by (metis image_iff)
  have forward: "\<exists>b \<in> set (db_claims e). claim_ref b = claim_ref c" if "c \<in> set (db_claims d)" for c
    using that set by (metis image_iff)
  moreover have "\<forall>c \<in> set (db_claims e). oc_id c < db_nextId e"
    using backward ok assms(5) by (fastforce simp: claim_ref_def claims_ok_def claim_keys_def)
  moreover have "claim_tenancy e"
    unfolding claim_tenancy_def
  proof
    fix c assume "c \<in> set (db_claims e)"
    then obtain b where b: "b \<in> set (db_claims d)" "claim_ref b = claim_ref c" using backward by blast
    have "\<exists>r \<in> set (db_orders d). o_id r = oc_orderId b \<and> o_storeId r = oc_storeId b \<and> o_organizationId r = oc_organizationId b"
      using ok b(1) by (simp add: claims_ok_def claim_tenancy_def)
    with b(2) show "\<exists>r \<in> set (db_orders e). o_id r = oc_orderId c \<and> o_storeId r = oc_storeId c \<and> o_organizationId r = oc_organizationId c"
      by (simp add: claim_ref_def assms(3))
  qed
  moreover have "unit_link e u" if "u \<in> set (db_claimItems e)" for u
    unfolding unit_link_def
  proof (intro allI impI)
    fix x assume "ci_orderItemId u = Some x"
    moreover have "unit_link d u" using ok that assms(2) by (simp add: claims_ok_def)
    ultimately obtain c i where c: "c \<in> set (db_claims d)" "oc_id c = ci_claimId u"
      and i: "i \<in> set (db_items d)" "i_id i = x" "i_orderId i = oc_orderId c"
      unfolding unit_link_def by blast
    obtain b where "b \<in> set (db_claims e)" "oc_id b = ci_claimId u" "oc_orderId b = oc_orderId c"
      using forward [OF c(1)] c(2) by (auto simp: claim_ref_def)
    then show "\<exists>c \<in> set (db_claims e). oc_id c = ci_claimId u \<and> (\<exists>i \<in> set (db_items e). i_id i = x \<and> i_orderId i = oc_orderId c)"
      using i by (intro bexI [of _ b]) (auto simp: assms(4))
  qed
  ultimately show ?thesis using ok assms(2) by (simp add: claims_ok_def claim_keys_def)
qed


lemma row_ok:
  assumes run: "upsert_claim_row sid claim r d = (cid, e)" and ok: "claims_ok d"
    and r: "r \<in> set (db_orders d)" "o_storeId r = sid"
    and free: "\<And>c. c \<in> set (db_claims d) \<Longrightarrow> \<not> elsewhere sid (mc_trendyolClaimId claim) (o_id r) c"
  shows "claims_ok e" and "\<exists>c \<in> set (db_claims e). oc_id c = cid \<and> oc_orderId c = o_id r \<and> oc_trendyolClaimId c = mc_trendyolClaimId claim"
    and "db_orders e = db_orders d" "db_items e = db_items d" "db_fees e = db_fees d" "db_nextId d \<le> db_nextId e"
proof -
  let ?tid = "mc_trendyolClaimId claim"
  have "claims_ok e \<and> (\<exists>c \<in> set (db_claims e). oc_id c = cid \<and> oc_orderId c = o_id r \<and> oc_trendyolClaimId c = ?tid)
    \<and> db_orders e = db_orders d \<and> db_items e = db_items d \<and> db_fees e = db_fees d \<and> db_nextId d \<le> db_nextId e"
  proof (cases "find (claim_key (o_id r) ?tid) (db_claims d)")
    case (Some c)
    have e: "cid = oc_id c" "e = d \<lparr> db_claims := update_where (claim_key (o_id r) ?tid) (refresh_claim claim) (db_claims d) \<rparr>"
      using run Some by (auto simp: upsert_claim_row_def)
    have c: "c \<in> set (db_claims d)" "claim_key (o_id r) ?tid c" using find_Some_in [OF Some] by auto
    have "claims_ok e"
      by (rule claims_ok_ref [OF _ _ _ _ _ ok]) (simp_all add: e(2) claim_ref_def map_update_where)
    moreover have "refresh_claim claim c \<in> set (db_claims e)"
      using c by (force simp: e(2) set_update_where)
    ultimately show ?thesis using c(2) e by (auto simp: claim_key_def intro!: bexI [of _ "refresh_claim claim c"])
  next
    case None
    let ?c = "new_claim sid claim r (db_nextId d)"
    have e: "cid = db_nextId d" "e = d \<lparr> db_claims := db_claims d @ [?c], db_nextId := Suc (db_nextId d) \<rparr>"
      using run None by (auto simp: upsert_claim_row_def)
    note k = ok [unfolded claims_ok_def claim_keys_def]
    have none: "\<not> claim_key (o_id r) ?tid c" if "c \<in> set (db_claims d)" for c
      using None that by (simp add: find_None_iff)
    have new: "oc_trendyolClaimId c \<noteq> ?tid \<or> oc_storeId c \<noteq> sid \<and> oc_orderId c \<noteq> o_id r" if "c \<in> set (db_claims d)" for c
      using none [OF that] free [OF that] by (auto simp: claim_key_def elsewhere_def)
    have "claim_keys e"
      using k new by (fastforce simp: claim_keys_def e(2) new_claim_def)
    moreover have "claim_tenancy e"
      using ok r by (auto simp: claims_ok_def claim_tenancy_def e(2) new_claim_def)
    moreover have "unit_link e u" if "u \<in> set (db_claimItems e)" for u
      using ok that by (force simp: claims_ok_def unit_link_def e(2))
    ultimately show ?thesis using e by (simp add: claims_ok_def new_claim_def)
  qed
  then show "claims_ok e" and "\<exists>c \<in> set (db_claims e). oc_id c = cid \<and> oc_orderId c = o_id r \<and> oc_trendyolClaimId c = ?tid"
    and "db_orders e = db_orders d" "db_items e = db_items d" "db_fees e = db_fees d" "db_nextId d \<le> db_nextId e" by blast+
qed

lemma line_item_Some:
  "line_item oid item d = Some x \<Longrightarrow> \<exists>i \<in> set (db_items d). i_id i = x \<and> i_orderId i = oid"
  by (auto simp: line_item_def split: option.splits dest: find_Some_in)

lemma unit_sel [simp]:
  "ci_claimId (refresh_claim_item x item c) = ci_claimId c"
  "ci_trendyolClaimItemId (refresh_claim_item x item c) = ci_trendyolClaimItemId c"
  "ci_id (refresh_claim_item x item c) = ci_id c"
  by (simp_all add: refresh_claim_item_def)

lemma item_frame [simp]:
  "db_claims (upsert_claim_item oid cid d item) = db_claims d" "db_orders (upsert_claim_item oid cid d item) = db_orders d"
  "db_items (upsert_claim_item oid cid d item) = db_items d" "db_fees (upsert_claim_item oid cid d item) = db_fees d"
  "db_nextId d \<le> db_nextId (upsert_claim_item oid cid d item)"
  by (simp_all add: upsert_claim_item_def Let_def)

lemma item_ok:
  assumes ok: "claims_ok d" and c: "\<exists>c \<in> set (db_claims d). oc_id c = cid \<and> oc_orderId c = oid"
  shows "claims_ok (upsert_claim_item oid cid d item)"
proof -
  let ?e = "upsert_claim_item oid cid d item" and ?key = "item_key cid (mi_trendyolClaimItemId item)"
  have keys: "claim_keys ?e"
  proof (cases "list_ex ?key (db_claimItems d)")
    case True
    then have "map (\<lambda>i. (ci_claimId i, ci_trendyolClaimItemId i)) (db_claimItems ?e) =
        map (\<lambda>i. (ci_claimId i, ci_trendyolClaimItemId i)) (db_claimItems d)"
      by (simp add: upsert_claim_item_def Let_def map_update_where)
    then show ?thesis using ok item_frame(5) [of d oid cid item]
      by (auto simp: claims_ok_def claim_keys_def simp del: item_frame(5) intro: less_le_trans)
  next
    case False
    then show ?thesis using ok
      by (auto simp: claims_ok_def claim_keys_def upsert_claim_item_def Let_def new_claim_item_def list_ex_iff item_key_def less_Suc_eq)
  qed
  have "unit_link ?e u" if mem: "u \<in> set (db_claimItems ?e)" for u
  proof -
    have cases: "u \<in> set (db_claimItems d) \<or> u = new_claim_item cid (line_item oid item d) item (db_nextId d)
        \<or> (\<exists>v \<in> set (db_claimItems d). ?key v \<and> u = refresh_claim_item (line_item oid item d) item v)"
      using mem by (auto simp: upsert_claim_item_def Let_def set_update_where split: if_splits)
    have "unit_link d u" if u: "ci_claimId u = cid" "ci_orderItemId u = line_item oid item d" for u
      unfolding unit_link_def
    proof (intro allI impI)
      fix x assume "ci_orderItemId u = Some x"
      then obtain i where i: "i \<in> set (db_items d)" "i_id i = x" "i_orderId i = oid"
        using line_item_Some [of oid item d x] u(2) by auto
      obtain b where "b \<in> set (db_claims d)" "oc_id b = cid" "oc_orderId b = oid" using c by blast
      then show "\<exists>c \<in> set (db_claims d). oc_id c = ci_claimId u \<and> (\<exists>i \<in> set (db_items d). i_id i = x \<and> i_orderId i = oc_orderId c)"
        using i u(1) by (intro bexI [of _ b]) auto
    qed
    note fresh = this
    have "unit_link d u" if v: "v \<in> set (db_claimItems d)" "?key v" "u = refresh_claim_item (line_item oid item d) item v" for v
    proof (cases "line_item oid item d")
      case None
      then have "ci_orderItemId u = ci_orderItemId v" by (simp add: v(3) refresh_claim_item_def orElse_def)
      moreover have "unit_link d v" using ok v(1) by (simp add: claims_ok_def)
      ultimately show ?thesis using v(3) by (simp add: unit_link_def)
    next
      case (Some x)
      then show ?thesis using v by (intro fresh) (simp_all add: refresh_claim_item_def orElse_def item_key_def)
    qed
    moreover have "unit_link d u" if "u = new_claim_item cid (line_item oid item d) item (db_nextId d)"
      using that by (intro fresh) (simp_all add: new_claim_item_def)
    moreover have "unit_link d u" if "u \<in> set (db_claimItems d)"
      using ok that by (simp add: claims_ok_def)
    ultimately have "unit_link d u" using cases by blast
    then show ?thesis by (simp add: unit_link_def)
  qed
  then show ?thesis using keys ok by (simp add: claims_ok_def claim_tenancy_def)
qed

lemma items_ok:
  assumes "claims_ok d" and "\<exists>c \<in> set (db_claims d). oc_id c = cid \<and> oc_orderId c = oid"
  shows "claims_ok (foldl (upsert_claim_item oid cid) d items)
    \<and> db_claims (foldl (upsert_claim_item oid cid) d items) = db_claims d
    \<and> db_orders (foldl (upsert_claim_item oid cid) d items) = db_orders d
    \<and> db_items (foldl (upsert_claim_item oid cid) d items) = db_items d
    \<and> db_fees (foldl (upsert_claim_item oid cid) d items) = db_fees d
    \<and> db_nextId d \<le> db_nextId (foldl (upsert_claim_item oid cid) d items)"
  using assms
proof (induction items arbitrary: d)
  case (Cons item items)
  have "claims_ok (upsert_claim_item oid cid d item)" by (rule item_ok [OF Cons.prems])
  from Cons.IH [OF this] Cons.prems(2) item_frame(5) [of d oid cid item] show ?case by (auto simp del: item_frame(5))
qed simp


lemma write_leg_next: "db_nextId d \<le> db_nextId (writeLegIfPositive D r ty leg d)"
  "db_nextId d \<le> db_nextId (upsertReturnEstimateFee D r a d)"
  by (simp_all add: writeLegIfPositive_def upsertReturnEstimateFee_def upsert_estimate_next)

lemma return_stage_next:
  assumes "return_stage D r items s qty d = Inr d'"
  shows "db_nextId d \<le> db_nextId d'"
proof (cases "isMicroExport r")
  case True
  then show ?thesis using assms
    by (auto simp: return_stage_def micro_return_def bindR_eq_Inr write_op_def upsert_estimate_next delete_fee_def
        split: option.splits)
next
  case False
  let ?L = "leg_sums_of D items qty"
  define d3 where "d3 = writeLegIfPositive D r COST_RETURN (ls_cost ?L)
    (writeLegIfPositive D r COMMISSION_REFUND (ls_commission ?L) (writeLegIfPositive D r REFUND_DEDUCTION (ls_refund ?L) d))"
  obtain d4 where d4: "stoppage_refund_stage D r s (ls_refund ?L) d3 = Inr d4" "return_shipping_stage D r s d4 = Inr d'"
    using assms False by (auto simp: return_stage_def domestic_return_def Let_def bindR_eq_Inr d3_def)
  have "db_nextId d \<le> db_nextId d3" unfolding d3_def by (intro order_trans [OF _ write_leg_next(1)] order_refl)
  also have "db_nextId d3 \<le> db_nextId d4"
    using d4(1) by (auto simp: stoppage_refund_stage_def bindR_eq_Inr Let_def write_leg_next split: if_splits)
  also have "db_nextId d4 \<le> db_nextId d'"
    using d4(2) by (auto simp: return_shipping_stage_def bindR_eq_Inr Let_def write_leg_next split: sum.splits)
  finally show ?thesis .
qed

lemma return_next:
  assumes "estimateReturnOnClaim D off oid d = Inr d'"
  shows "db_nextId d \<le> db_nextId d'"
proof (cases "case find_order oid d of None \<Rightarrow> True | Some r \<Rightarrow> o_profitExcludedAt r \<noteq> None \<or> accepted_items oid d = []")
  case True
  then show ?thesis using return_skip [OF assms] by simp
next
  case False
  then obtain r where r: "find_order oid d = Some r" "o_profitExcludedAt r = None" "accepted_items oid d \<noteq> []"
    by (auto split: option.splits)
  obtain s d1 where "return_stage D r (order_items oid d) s (accepted_qty (accepted_items oid d)) d = Inr d1"
    "applyEstimateOnOrderCreate D off oid d1 = Inr d'"
    using return_InrE [OF assms r] by metis
  then show ?thesis using return_stage_next apply_next order_trans by blast
qed

lemma claims_ok_orders:
  assumes "claims_ok d" and "ref_eq d e" and "map order_ref (db_orders e) = map order_ref (db_orders d)"
    and "db_nextId d \<le> db_nextId e"
  shows "claims_ok e"
proof -
  have eq: "db_claims e = db_claims d" "db_claimItems e = db_claimItems d" "db_items e = db_items d"
    using assms(2) by (simp_all add: ref_eq_def)
  have "claim_tenancy e"
    unfolding claim_tenancy_def eq
  proof
    fix c assume "c \<in> set (db_claims d)"
    then obtain r where r: "r \<in> set (db_orders d)" "o_id r = oc_orderId c" "o_storeId r = oc_storeId c" "o_organizationId r = oc_organizationId c"
      using assms(1) by (auto simp: claims_ok_def claim_tenancy_def)
    have "order_ref r \<in> order_ref ` set (db_orders e)"
      using r(1) arg_cong [OF assms(3), of set] by simp
    then show "\<exists>r \<in> set (db_orders e). o_id r = oc_orderId c \<and> o_storeId r = oc_storeId c \<and> o_organizationId r = oc_organizationId c"
      using r by (auto simp: order_ref_def)
  qed
  then show ?thesis
    using assms(1,4) eq by (auto simp: claims_ok_def claim_keys_def unit_link_def)
qed

text \<open>The stages of a written claim.\<close>

lemma upsert_stages:
  assumes "upsertClaim D off sid claim d = Inr (Written, d')" and ok: "claims_ok d"
  obtains r d1 cid d2 d3 where "claim_order sid claim d = Some r" "r \<in> set (db_orders d)" "o_storeId r = sid"
    "reanchor sid (mc_trendyolClaimId claim) r d = Inr d1" "claims_ok d1"
    "\<And>c. c \<in> set (db_claims d1) \<Longrightarrow> \<not> elsewhere sid (mc_trendyolClaimId claim) (o_id r) c"
    "upsert_claim_row sid claim r d1 = (cid, d2)" "claims_ok d2"
    "\<exists>c \<in> set (db_claims d2). oc_id c = cid \<and> oc_orderId c = o_id r \<and> oc_trendyolClaimId c = mc_trendyolClaimId claim"
    "d3 = foldl (upsert_claim_item (o_id r) cid) d2 (mc_items claim)" "claims_ok d3"
    "db_claims d3 = db_claims d2" "db_orders d3 = db_orders d" "db_items d3 = db_items d" "db_fees d3 = db_fees d"
    "db_nextId d \<le> db_nextId d3"
    "if list_ex (\<lambda>i. mi_status i = ''Accepted'') (mc_items claim)
     then estimateReturnOnClaim D off (o_id r) d3 = Inr d' else d' = d3"
proof -
  obtain r where r: "claim_order sid claim d = Some r" using assms(1) by (auto simp: upsertClaim_def split: option.splits)
  note r1 = claim_order_Some [OF r]
  obtain d1 where d1: "reanchor sid (mc_trendyolClaimId claim) r d = Inr d1"
    using assms(1) r by (auto simp: upsertClaim_def bindR_eq_Inr)
  note a = reanchor_ok [OF d1 ok r1]
  obtain cid d2 where d2: "upsert_claim_row sid claim r d1 = (cid, d2)" by (cases "upsert_claim_row sid claim r d1")
  note b = row_ok [OF d2 a(1) _ r1(2) a(2), unfolded a(3-6), OF r1(1)]
  let ?d3 = "foldl (upsert_claim_item (o_id r) cid) d2 (mc_items claim)"
  have c: "\<exists>c \<in> set (db_claims d2). oc_id c = cid \<and> oc_orderId c = o_id r" using b(2) by blast
  note i = items_ok [OF b(1) c, of "mc_items claim"]
  have "if list_ex (\<lambda>i. mi_status i = ''Accepted'') (mc_items claim)
     then estimateReturnOnClaim D off (o_id r) ?d3 = Inr d' else d' = ?d3"
    using assms(1) r d1 d2 by (auto simp: upsertClaim_def Let_def split: if_splits sum.splits)
  with r r1 d1 a(1,2) d2 b(1,2) show thesis using i b(3-6) by (intro that [of r d1 cid d2 ?d3]) auto
qed

lemma unmatched_same:
  assumes "upsertClaim D off sid claim d = Inr (Unmatched, d')"
  shows "d' = d"
proof (cases "claim_order sid claim d")
  case None
  then show ?thesis using assms by (simp add: upsertClaim_def)
next
  case (Some r)
  then obtain d1 where d1: "reanchor sid (mc_trendyolClaimId claim) r d = Inr d1"
    using assms by (auto simp: upsertClaim_def bindR_eq_Inr)
  obtain cid d2 where "upsert_claim_row sid claim r d1 = (cid, d2)" by (cases "upsert_claim_row sid claim r d1")
  then show ?thesis using assms Some d1 by (auto simp: upsertClaim_def Let_def split: if_splits sum.splits)
qed

lemma upsert_ok:
  assumes run: "upsertClaim D off sid claim d = Inr (res, d')" and ok: "claims_ok d"
  shows "claims_ok d'"
proof (cases res)
  case Unmatched
  then show ?thesis using unmatched_same [of D off sid claim d d'] run ok by simp
next
  case Written
  show ?thesis
  proof (rule upsert_stages [OF run [unfolded Written] ok])
    fix r d3 assume d3: "claims_ok d3"
      and fin: "if list_ex (\<lambda>i. mi_status i = ''Accepted'') (mc_items claim)
         then estimateReturnOnClaim D off (o_id r) d3 = Inr d' else d' = d3"
    show ?thesis
    proof (cases "list_ex (\<lambda>i. mi_status i = ''Accepted'') (mc_items claim)")
      case True
      then have run: "estimateReturnOnClaim D off (o_id r) d3 = Inr d'" using fin by simp
      show ?thesis
        by (rule claims_ok_orders [OF d3 return_strip(1) [OF run] order_ref_strip [OF return_strip(2) [OF run]] return_next [OF run]])
    qed (use d3 fin in simp)
  qed
qed


section \<open>A claim delivered again\<close>

lemma orElse_twice [simp]: "orElse x (orElse x y) = orElse x y" "orElse x x = x"
  by (simp_all add: orElse_def split: option.split)

lemma refresh_twice [simp]: "refresh_claim claim (refresh_claim claim c) = refresh_claim claim c"
  by (simp add: refresh_claim_def)

lemma refresh_new [simp]: "refresh_claim claim (new_claim sid claim r cid) = new_claim sid claim r cid"
  by (simp add: refresh_claim_def new_claim_def)

lemma unit_twice [simp]: "refresh_claim_item x item (refresh_claim_item x item u) = refresh_claim_item x item u"
  by (simp add: refresh_claim_item_def)

lemma unit_new [simp]: "refresh_claim_item x item (new_claim_item cid x item i) = new_claim_item cid x item i"
  by (simp add: refresh_claim_item_def new_claim_item_def)

definition row_written :: "mapped_claim \<Rightarrow> id \<Rightarrow> id \<Rightarrow> db \<Rightarrow> bool" where
  "row_written claim oid cid d \<longleftrightarrow>
     list_ex (claim_key oid (mc_trendyolClaimId claim)) (db_claims d)
   \<and> (\<forall>c \<in> set (db_claims d). claim_key oid (mc_trendyolClaimId claim) c \<longrightarrow> oc_id c = cid \<and> refresh_claim claim c = c)"

lemma row_written_after:
  assumes "upsert_claim_row sid claim r d = (cid, e)" and "claims_ok d"
  shows "row_written claim (o_id r) cid e"
proof -
  let ?key = "claim_key (o_id r) (mc_trendyolClaimId claim)"
  have "inj_on (\<lambda>c. (oc_orderId c, oc_trendyolClaimId c)) (set (db_claims d))"
    using assms(2) by (simp add: claims_ok_def claim_keys_def distinct_map)
  then have one: "x = y" if "x \<in> set (db_claims d)" "y \<in> set (db_claims d)" "?key x" "?key y" for x y
    by (rule inj_onD) (use that in \<open>simp_all add: claim_key_def\<close>)
  show ?thesis
  proof (cases "find ?key (db_claims d)")
    case None
    let ?c = "new_claim sid claim r (db_nextId d)"
    have e: "cid = db_nextId d" "db_claims e = db_claims d @ [?c]"
      using None assms(1) by (auto simp: upsert_claim_row_def)
    have "\<not> ?key c" if "c \<in> set (db_claims d)" for c using None that by (simp add: find_None_iff)
    moreover have "?key ?c" "oc_id ?c = cid" by (simp_all add: claim_key_def new_claim_def e(1))
    ultimately show ?thesis by (auto simp: row_written_def e(2) list_ex_iff)
  next
    case (Some c)
    note c = find_Some_in [OF Some]
    have e: "db_claims e = update_where ?key (refresh_claim claim) (db_claims d)" "cid = oc_id c"
      using assms(1) Some by (auto simp: upsert_claim_row_def)
    have "oc_id x = cid \<and> refresh_claim claim x = x" if x: "x \<in> set (db_claims e)" "?key x" for x
    proof -
      obtain y where y: "y \<in> set (db_claims d)" "x = (if ?key y then refresh_claim claim y else y)"
        using x(1) unfolding e by (rule in_update_whereE)
      have key: "?key y"
      proof (rule ccontr)
        assume "\<not> ?key y"
        then show False using x(2) y(2) by simp
      qed
      have "y = c" by (rule one [OF y(1) _ key]) (use c in auto)
      then show ?thesis using y(2) key e(2) by simp
    qed
    moreover have "list_ex ?key (db_claims e)"
      unfolding e(1) using c by (subst list_ex_update) (auto simp: claim_key_def list_ex_iff)
    ultimately show ?thesis by (simp add: row_written_def)
  qed
qed

lemma row_again:
  assumes "row_written claim oid cid d" and "o_id r = oid"
  shows "upsert_claim_row sid claim r d = (cid, d)"
proof -
  let ?key = "claim_key oid (mc_trendyolClaimId claim)"
  obtain c where c: "find ?key (db_claims d) = Some c"
    using assms(1) by (cases "find ?key (db_claims d)") (auto simp: row_written_def list_ex_iff find_None_iff)
  moreover have "update_where ?key (refresh_claim claim) (db_claims d) = db_claims d"
    by (rule update_where_id) (use assms(1) in \<open>auto simp: row_written_def\<close>)
  ultimately show ?thesis
    using assms find_Some_in [OF c] by (auto simp: upsert_claim_row_def row_written_def)
qed

definition unit_written :: "id \<Rightarrow> id \<Rightarrow> db \<Rightarrow> mapped_claim_item \<Rightarrow> bool" where
  "unit_written oid cid d item \<longleftrightarrow>
     list_ex (item_key cid (mi_trendyolClaimItemId item)) (db_claimItems d)
   \<and> (\<forall>u \<in> set (db_claimItems d). item_key cid (mi_trendyolClaimItemId item) u \<longrightarrow>
        refresh_claim_item (line_item oid item d) item u = u)"

lemma line_item_frame [simp]: "line_item oid item (upsert_claim_item oid' cid d item') = line_item oid item d"
  unfolding line_item_def item_frame ..

lemma unit_written_after: "unit_written oid cid (upsert_claim_item oid cid d item) item"
proof -
  let ?key = "item_key cid (mi_trendyolClaimItemId item)"
  show ?thesis
  proof (cases "list_ex ?key (db_claimItems d)")
    case True
    let ?e = "upsert_claim_item oid cid d item"
    have e: "db_claimItems ?e = update_where ?key (refresh_claim_item (line_item oid item d) item) (db_claimItems d)"
      using True by (simp add: upsert_claim_item_def Let_def)
    have "refresh_claim_item (line_item oid item d) item u = u" if u: "u \<in> set (db_claimItems ?e)" "?key u" for u
    proof -
      obtain v where "u = (if ?key v then refresh_claim_item (line_item oid item d) item v else v)"
        using u(1) unfolding e by (rule in_update_whereE)
      then show ?thesis using u(2) by (auto split: if_splits)
    qed
    moreover have "list_ex ?key (db_claimItems ?e)"
      unfolding e using True by (subst list_ex_update) (auto simp: item_key_def)
    ultimately show ?thesis by (simp add: unit_written_def)
  next
    case False
    let ?e = "upsert_claim_item oid cid d item"
    have e: "db_claimItems ?e = db_claimItems d @ [new_claim_item cid (line_item oid item d) item (db_nextId d)]"
      using False by (simp add: upsert_claim_item_def Let_def)
    have new: "?key (new_claim_item cid (line_item oid item d) item (db_nextId d))"
      by (simp add: item_key_def new_claim_item_def)
    have "refresh_claim_item (line_item oid item d) item u = u" if "u \<in> set (db_claimItems ?e)" "?key u" for u
      using that False unfolding e by (auto simp: list_ex_iff)
    moreover have "list_ex ?key (db_claimItems ?e)" unfolding e using new by simp
    ultimately show ?thesis by (simp add: unit_written_def)
  qed
qed

lemma unit_written_other:
  assumes "unit_written oid cid d item" and ne: "mi_trendyolClaimItemId item' \<noteq> mi_trendyolClaimItemId item"
  shows "unit_written oid cid (upsert_claim_item oid cid d item') item"
proof -
  let ?key = "item_key cid (mi_trendyolClaimItemId item)" and ?key' = "item_key cid (mi_trendyolClaimItemId item')"
  have keys: "filter ?key (db_claimItems (upsert_claim_item oid cid d item')) = filter ?key (db_claimItems d)"
  proof (cases "list_ex ?key' (db_claimItems d)")
    case True
    have "filter ?key (update_where ?key' g xs) = filter ?key xs" if "\<And>u. ?key (g u) = ?key u" for g xs
      using ne that by (induction xs) (auto simp: item_key_def)
    then show ?thesis using True by (simp add: upsert_claim_item_def Let_def item_key_def)
  next
    case False
    then show ?thesis using ne by (simp add: upsert_claim_item_def Let_def item_key_def new_claim_item_def)
  qed
  have ex: "list_ex ?key xs \<longleftrightarrow> filter ?key xs \<noteq> []" for xs by (induction xs) auto
  have all: "(\<forall>u \<in> set xs. ?key u \<longrightarrow> P u) \<longleftrightarrow> list_all P (filter ?key xs)" for xs P
    by (auto simp: list_all_iff)
  show ?thesis
    using assms(1) unfolding unit_written_def line_item_frame ex all unfolding keys .
qed

lemma units_written:
  assumes "distinct (map mi_trendyolClaimItemId items)"
  shows "\<forall>item \<in> set items. unit_written oid cid (foldl (upsert_claim_item oid cid) d items) item"
  using assms
proof (induction items rule: rev_induct)
  case (snoc x items)
  then show ?case using unit_written_after unit_written_other by (auto simp: image_iff)
qed simp

lemma unit_again: "unit_written oid cid d item \<Longrightarrow> upsert_claim_item oid cid d item = d"
  by (auto simp: unit_written_def upsert_claim_item_def Let_def update_where_id)

lemma units_again: "\<forall>item \<in> set items. unit_written oid cid d item \<Longrightarrow> foldl (upsert_claim_item oid cid) d items = d"
  by (induction items) (auto simp: unit_again)


section \<open>The scan\<close>

text \<open>An invariant of the upsert is one of the scan, which only applies upserts.\<close>

lemma run_actions_invariant:
  assumes "\<And>f s. f \<in> set fs \<Longrightarrow> I s \<Longrightarrow> I (snd (f s))" and "I s"
  shows "I (snd (run_actions fs s))"
  using assms
proof (induction fs arbitrary: s)
  case (Cons f fs)
  obtain e s' where f: "f s = (e, s')" by (cases "f s")
  then have "I s'" using Cons.prems(1) [of f s] Cons.prems(2) by simp
  with Cons f show ?case by (cases e) auto
qed simp

lemma claim_tick_db: "cs_db (snd (claim_tick E now lid w s)) = cs_db s"
  by (auto simp: claim_tick_def split: sum.split)

lemma claim_action_db:
  "cs_db (snd (claim_action E now sid lid w raw s)) = cs_db s
   \<or> (\<exists>res. upsertClaim (cx_dec E) (cx_off E) sid (mapTrendyolClaim raw) (cs_db s) = Inr (res, cs_db (snd (claim_action E now sid lid w raw s))))"
proof -
  obtain e t where t: "claim_tick E now lid w (s \<lparr> cs_processed := cs_processed s + 1 \<rparr>) = (e, t)"
    by (cases "claim_tick E now lid w (s \<lparr> cs_processed := cs_processed s + 1 \<rparr>)")
  have db: "cs_db t = cs_db s" using claim_tick_db [of E now lid w "s \<lparr> cs_processed := cs_processed s + 1 \<rparr>"] t by simp
  show ?thesis
  proof (cases e)
    case (Some x)
    then show ?thesis using t db by (simp add: claim_action_def)
  next
    case None
    show ?thesis
    proof (cases "upsertClaim (cx_dec E) (cx_off E) sid (mapTrendyolClaim raw) (cs_db s)")
      case (Inl x)
      then show ?thesis using t db None by (simp add: claim_action_def count_claim_def)
    next
      case (Inr y)
      obtain res d where "y = (res, d)" by (cases y)
      then show ?thesis using t db None Inr by (cases res) (auto simp: claim_action_def count_claim_def)
    qed
  qed
qed

lemma scan_claims_db:
  assumes "\<And>claim res a b. upsertClaim (cx_dec E) (cx_off E) (s_id st) claim a = Inr (res, b) \<Longrightarrow> I a \<Longrightarrow> I b" and "I d"
  shows "I (cs_db (snd (scan_claims E now st lid w d q)))"
proof -
  let ?run = "\<lambda>rows. run_actions (map (claim_action E now (s_id st) lid w) rows) (no_claims d q)"
  have "I (cs_db (snd (?run rows)))" for rows
  proof (rule run_actions_invariant [where I = "\<lambda>s. I (cs_db s)"])
    fix f and s :: claims_scan assume "f \<in> set (map (claim_action E now (s_id st) lid w) rows)" "I (cs_db s)"
    then show "I (cs_db (snd (f s)))"
      using claim_action_db [of E now "s_id st" lid w _ s] assms(1) by (auto, metis)
  qed (simp add: no_claims_def assms(2))
  then show ?thesis
    by (simp add: scan_claims_def split_beta Let_def)
qed

definition claims_db :: "settlement_world \<times> sync_queue \<Rightarrow> db" where
  "claims_db s = sw_db (fst s)"

lemma claims_chunk_db:
  assumes "\<And>claim res a b. upsertClaim (cx_dec E) (cx_off E) (l_storeId l) claim a = Inr (res, b) \<Longrightarrow> I a \<Longrightarrow> I b"
    and "I (claims_db s)"
  shows "I (claims_db (snd (processClaimsChunk E l cursor w s)))"
proof -
  obtain W q where s: "s = (W, q)" by (cases s)
  have d: "I (sw_db W)" using assms(2) by (simp add: s claims_db_def)
  show ?thesis
  proof (cases "find_store (l_storeId l) (sw_db W)")
    case None
    then show ?thesis using d by (simp add: processClaimsChunk_def claims_db_def s)
  next
    case (Some st)
    then have sid: "s_id st = l_storeId l" by (auto simp: find_store_def dest: find_Some_in)
    have "I (cs_db (snd (scan_claims E (sw_now W) st (l_id l) w (sw_db W) q)))"
      by (rule scan_claims_db [where I = I]) (rule assms(1), simp only: sid, assumption, rule d)
    then show ?thesis using d Some
      by (auto simp: processClaimsChunk_def claims_db_def s split_beta Let_def split: sum.split)
  qed
qed

end
