(* ===== verification/Claim_Claims.thy ===== *)
theory Claim_Claims
  imports Claim_Sync_Props
begin

text \<open>
  The properties of the claims job: its invariants over a whole scan, the isolation of stores, the
  replay of a claim, what a scan throws, and what a moved claim leaves behind.
\<close>

section \<open>A claim delivered again\<close>

lemma row_no_elsewhere:
  assumes "upsert_claim_row sid claim r d = (cid, e)"
    and free: "\<And>c. c \<in> set (db_claims d) \<Longrightarrow> \<not> elsewhere sid tid (o_id r) c"
  shows "\<And>c. c \<in> set (db_claims e) \<Longrightarrow> \<not> elsewhere sid tid (o_id r) c"
proof -
  fix c assume mem: "c \<in> set (db_claims e)"
  consider "c = new_claim sid claim r (db_nextId d)" | b where "b \<in> set (db_claims d)" "c = b \<or> c = refresh_claim claim b"
    using mem assms(1) by (auto simp: upsert_claim_row_def set_update_where split: option.splits)
  then show "\<not> elsewhere sid tid (o_id r) c"
  proof cases
    case 1
    then show ?thesis by (simp add: elsewhere_def new_claim_def)
  next
    case (2 b)
    then show ?thesis using free [OF 2(1)] by (auto simp: elsewhere_def)
  qed
qed

lemma claim_written_again:
  assumes run: "upsertClaim D off sid claim d = Inr (Written, d')" and ok: "claims_ok d"
    and fees: "wf_fees d" "one_estimate d" and units: "distinct (map mi_trendyolClaimItemId (mc_items claim))"
  shows "upsertClaim D off sid claim d' = Inr (Written, d')"
proof (rule upsert_stages [OF run ok])
  fix r d1 cid d2 d3
  let ?tid = "mc_trendyolClaimId claim" and ?acc = "list_ex (\<lambda>i. mi_status i = ''Accepted'') (mc_items claim)"
  assume r: "claim_order sid claim d = Some r"
    and free1: "\<And>c. c \<in> set (db_claims d1) \<Longrightarrow> \<not> elsewhere sid ?tid (o_id r) c" and ok1: "claims_ok d1"
    and d2: "upsert_claim_row sid claim r d1 = (cid, d2)" and ok2: "claims_ok d2"
    and d3: "d3 = foldl (upsert_claim_item (o_id r) cid) d2 (mc_items claim)"
      "db_claims d3 = db_claims d2" "db_orders d3 = db_orders d" "db_fees d3 = db_fees d" "db_nextId d \<le> db_nextId d3"
    and fin: "if ?acc then estimateReturnOnClaim D off (o_id r) d3 = Inr d' else d' = d3"
  have eq: "db_claims d' = db_claims d2" "db_claimItems d' = db_claimItems d3" "db_items d' = db_items d3"
    and ref: "map order_ref (db_orders d') = map order_ref (db_orders d)"
  proof -
    have "ref_eq d3 d' \<and> map order_ref (db_orders d') = map order_ref (db_orders d3)"
    proof (cases ?acc)
      case True
      then have run: "estimateReturnOnClaim D off (o_id r) d3 = Inr d'" using fin by simp
      show ?thesis using return_strip(1) [OF run] order_ref_strip [OF return_strip(2) [OF run]] by (rule conjI)
    qed (use fin in simp)
    then show "db_claims d' = db_claims d2" "db_claimItems d' = db_claimItems d3" "db_items d' = db_items d3"
      and "map order_ref (db_orders d') = map order_ref (db_orders d)"
      using d3(2,3) by (simp_all add: ref_eq_def)
  qed
  obtain r' where r': "claim_order sid claim d' = Some r'" "o_id r' = o_id r"
    using claim_order_ref [OF ref, of sid claim] r by (auto simp: order_ref_def)
  have "find (elsewhere sid ?tid (o_id r')) (db_claims d') = None"
    using row_no_elsewhere [OF d2 free1] by (auto simp: find_None_iff eq r'(2))
  then have re: "reanchor sid ?tid r' d' = Inr d'" by (simp add: reanchor_def)
  have "row_written claim (o_id r) cid d'"
    using row_written_after [OF d2 ok1] by (simp add: row_written_def eq)
  then have row: "upsert_claim_row sid claim r' d' = (cid, d')" using r'(2) by (rule row_again)
  have "line_item (o_id r) item d' = line_item (o_id r) item d3" for item
    unfolding line_item_def eq ..
  then have "\<forall>item \<in> set (mc_items claim). unit_written (o_id r) cid d' item"
    using units_written [OF units, of "o_id r" cid d2] by (simp add: unit_written_def eq d3(1))
  then have un: "foldl (upsert_claim_item (o_id r') cid) d' (mc_items claim) = d'"
    unfolding r'(2) by (rule units_again)
  have "wf_fees d3" "one_estimate d3"
    using wf_fees_next [OF fees(1) d3(4,5)] fees(2) d3(4) by (simp_all add: one_estimate_def)
  then have "?acc \<longrightarrow> estimateReturnOnClaim D off (o_id r') d' = Inr d'"
    using fin return_twice unfolding r'(2) by (cases ?acc) auto
  then show ?thesis by (auto simp: upsertClaim_def r'(1) re row un)
qed

section \<open>Properties\<close>

text \<open>C18: A claim is safe to deliver again: the same claim applied to the result of its upsert changes
  nothing, neither a claim, a unit or a link nor an estimated fee of the return (the scan reads the
  last sixty days on every run).\<close>
theorem claim_replay:
  assumes "upsertClaim D off sid claim d = Inr (res, d')" and "claims_ok d" and "wf_fees d" and "one_estimate d"
    and "distinct (map mi_trendyolClaimItemId (mc_items claim))"
  shows "upsertClaim D off sid claim d' = Inr (res, d')"
proof (cases res)
  case Unmatched
  then show ?thesis using assms(1) unmatched_same by metis
next
  case Written
  then show ?thesis using claim_written_again assms by blast
qed

text \<open>C17: A chunk of the claims job keeps the claims in order, whatever the marketplace sends and wherever the
  scan fails: a return has one row in a store even when it is moved to another order, the unique
  keys hold, a claim carries the store and the organization of its order, and a unit is linked only
  to a line of its claim's own order.\<close>
theorem claims_chunk_safe:
  assumes "claims_ok (claims_db s)"
  shows "claims_ok (claims_db (snd (processClaimsChunk E l cursor w s)))"
  by (rule claims_chunk_db [where I = claims_ok]) (use upsert_ok assms in blast)+


section \<open>What a scan keeps\<close>

text \<open>
  Every claim and unit stays, and nothing the marketplace once sent is blanked by a later, sparser
  scan: the return parcel's id (the key the settlement matches a return by), the tracking number
  and the reason of a unit.
\<close>

definition claims_kept :: "db \<Rightarrow> db \<Rightarrow> bool" where
  "claims_kept d e \<longleftrightarrow>
     (\<forall>c \<in> set (db_claims d). \<exists>c' \<in> set (db_claims e).
        oc_id c' = oc_id c \<and> oc_storeId c' = oc_storeId c \<and> oc_trendyolClaimId c' = oc_trendyolClaimId c
      \<and> oc_claimDate c' = oc_claimDate c
      \<and> (oc_orderShipmentPackageId c \<noteq> None \<longrightarrow> oc_orderShipmentPackageId c' \<noteq> None)
      \<and> (oc_cargoTrackingNumber c \<noteq> None \<longrightarrow> oc_cargoTrackingNumber c' \<noteq> None))
   \<and> (\<forall>u \<in> set (db_claimItems d). \<exists>u' \<in> set (db_claimItems e).
        ci_id u' = ci_id u \<and> ci_claimId u' = ci_claimId u \<and> ci_trendyolClaimItemId u' = ci_trendyolClaimItemId u
      \<and> (ci_reasonCode u \<noteq> UNKNOWN_REASON_CODE \<longrightarrow> ci_reasonCode u' \<noteq> UNKNOWN_REASON_CODE))"

lemma kept_refl [simp]: "claims_kept d d"
  by (auto simp: claims_kept_def)

lemma kept_trans:
  assumes "claims_kept a b" and "claims_kept b c"
  shows "claims_kept a c"
  unfolding claims_kept_def
proof (intro conjI ballI)
  fix x assume "x \<in> set (db_claims a)"
  then obtain y where y: "y \<in> set (db_claims b)" "oc_id y = oc_id x" "oc_storeId y = oc_storeId x"
    "oc_trendyolClaimId y = oc_trendyolClaimId x" "oc_claimDate y = oc_claimDate x"
    "oc_orderShipmentPackageId x \<noteq> None \<longrightarrow> oc_orderShipmentPackageId y \<noteq> None"
    "oc_cargoTrackingNumber x \<noteq> None \<longrightarrow> oc_cargoTrackingNumber y \<noteq> None"
    using assms(1) unfolding claims_kept_def by blast
  obtain z where "z \<in> set (db_claims c)" "oc_id z = oc_id y" "oc_storeId z = oc_storeId y"
    "oc_trendyolClaimId z = oc_trendyolClaimId y" "oc_claimDate z = oc_claimDate y"
    "oc_orderShipmentPackageId y \<noteq> None \<longrightarrow> oc_orderShipmentPackageId z \<noteq> None"
    "oc_cargoTrackingNumber y \<noteq> None \<longrightarrow> oc_cargoTrackingNumber z \<noteq> None"
    using assms(2) y(1) unfolding claims_kept_def by blast
  then show "\<exists>z \<in> set (db_claims c). oc_id z = oc_id x \<and> oc_storeId z = oc_storeId x \<and> oc_trendyolClaimId z = oc_trendyolClaimId x
      \<and> oc_claimDate z = oc_claimDate x \<and> (oc_orderShipmentPackageId x \<noteq> None \<longrightarrow> oc_orderShipmentPackageId z \<noteq> None)
      \<and> (oc_cargoTrackingNumber x \<noteq> None \<longrightarrow> oc_cargoTrackingNumber z \<noteq> None)"
    using y by (intro bexI [of _ z]) simp_all
next
  fix x assume "x \<in> set (db_claimItems a)"
  then obtain y where y: "y \<in> set (db_claimItems b)" "ci_id y = ci_id x" "ci_claimId y = ci_claimId x"
    "ci_trendyolClaimItemId y = ci_trendyolClaimItemId x"
    "ci_reasonCode x \<noteq> UNKNOWN_REASON_CODE \<longrightarrow> ci_reasonCode y \<noteq> UNKNOWN_REASON_CODE"
    using assms(1) unfolding claims_kept_def by blast
  obtain z where "z \<in> set (db_claimItems c)" "ci_id z = ci_id y" "ci_claimId z = ci_claimId y"
    "ci_trendyolClaimItemId z = ci_trendyolClaimItemId y"
    "ci_reasonCode y \<noteq> UNKNOWN_REASON_CODE \<longrightarrow> ci_reasonCode z \<noteq> UNKNOWN_REASON_CODE"
    using assms(2) y(1) unfolding claims_kept_def by blast
  then show "\<exists>z \<in> set (db_claimItems c). ci_id z = ci_id x \<and> ci_claimId z = ci_claimId x
      \<and> ci_trendyolClaimItemId z = ci_trendyolClaimItemId x
      \<and> (ci_reasonCode x \<noteq> UNKNOWN_REASON_CODE \<longrightarrow> ci_reasonCode z \<noteq> UNKNOWN_REASON_CODE)"
    using y by (intro bexI [of _ z]) simp_all
qed

lemma update_whereI: "y \<in> set xs \<Longrightarrow> (if P y then f y else y) \<in> set (update_where P f xs)"
  by (auto simp: set_update_where)

lemma reanchor_kept:
  assumes "reanchor sid tid r d = Inr d1" and "claims_ok d"
  shows "claims_kept d d1"
proof (rule reanchor_cases [OF assms(1)])
  fix e assume e: "e \<in> set (db_claims d)" "elsewhere sid tid (o_id r) e" and d1: "d1 = move_claim sid (oc_id e) r d"
  let ?g = "\<lambda>c. c \<lparr> oc_orderId := o_id r, oc_organizationId := o_organizationId r, oc_storeId := sid \<rparr>"
  show ?thesis unfolding claims_kept_def
  proof (intro conjI ballI)
    fix c assume c: "c \<in> set (db_claims d)"
    have mem: "(if oc_id c = oc_id e then ?g c else c) \<in> set (db_claims d1)"
      unfolding d1 move_claim_def using update_whereI [OF c, of "\<lambda>c. oc_id c = oc_id e" ?g] by simp
    have "oc_id c = oc_id e \<Longrightarrow> oc_storeId c = sid"
      using claim_same_id [of d c e] assms(2) c e by (auto simp: claims_ok_def elsewhere_def)
    then show "\<exists>c' \<in> set (db_claims d1). oc_id c' = oc_id c \<and> oc_storeId c' = oc_storeId c
        \<and> oc_trendyolClaimId c' = oc_trendyolClaimId c \<and> oc_claimDate c' = oc_claimDate c
        \<and> (oc_orderShipmentPackageId c \<noteq> None \<longrightarrow> oc_orderShipmentPackageId c' \<noteq> None)
        \<and> (oc_cargoTrackingNumber c \<noteq> None \<longrightarrow> oc_cargoTrackingNumber c' \<noteq> None)"
      by (intro bexI [OF _ mem]) simp
  next
    fix u assume u: "u \<in> set (db_claimItems d)"
    have "(if ci_claimId u = oc_id e then u \<lparr> ci_orderItemId := None \<rparr> else u) \<in> set (db_claimItems d1)"
      unfolding d1 move_claim_def
      using update_whereI [OF u, of "\<lambda>i. ci_claimId i = oc_id e" "\<lambda>i. i \<lparr> ci_orderItemId := None \<rparr>"] by simp
    then show "\<exists>u' \<in> set (db_claimItems d1). ci_id u' = ci_id u \<and> ci_claimId u' = ci_claimId u
        \<and> ci_trendyolClaimItemId u' = ci_trendyolClaimItemId u
        \<and> (ci_reasonCode u \<noteq> UNKNOWN_REASON_CODE \<longrightarrow> ci_reasonCode u' \<noteq> UNKNOWN_REASON_CODE)"
      by (rule bexI [rotated]) simp
  qed
qed simp

lemma row_kept:
  assumes "upsert_claim_row sid claim r d = (cid, e)"
  shows "claims_kept d e"
proof (cases "find (claim_key (o_id r) (mc_trendyolClaimId claim)) (db_claims d)")
  case None
  then show ?thesis using assms by (auto simp: upsert_claim_row_def claims_kept_def)
next
  case (Some x)
  let ?key = "claim_key (o_id r) (mc_trendyolClaimId claim)"
  have e: "db_claims e = update_where ?key (refresh_claim claim) (db_claims d)" "db_claimItems e = db_claimItems d"
    using assms Some by (auto simp: upsert_claim_row_def)
  show ?thesis unfolding claims_kept_def
  proof (intro conjI ballI)
    fix c assume "c \<in> set (db_claims d)"
    from update_whereI [OF this, of ?key "refresh_claim claim"]
    show "\<exists>c' \<in> set (db_claims e). oc_id c' = oc_id c \<and> oc_storeId c' = oc_storeId c
        \<and> oc_trendyolClaimId c' = oc_trendyolClaimId c \<and> oc_claimDate c' = oc_claimDate c
        \<and> (oc_orderShipmentPackageId c \<noteq> None \<longrightarrow> oc_orderShipmentPackageId c' \<noteq> None)
        \<and> (oc_cargoTrackingNumber c \<noteq> None \<longrightarrow> oc_cargoTrackingNumber c' \<noteq> None)"
      unfolding e(1) by (rule bexI [rotated]) (auto simp: refresh_claim_def orElse_def split: option.split)
  qed (auto simp: e(2))
qed

lemma item_kept: "claims_kept d (upsert_claim_item oid cid d item)"
proof (cases "list_ex (item_key cid (mi_trendyolClaimItemId item)) (db_claimItems d)")
  case False
  then show ?thesis by (auto simp: upsert_claim_item_def Let_def claims_kept_def)
next
  case True
  let ?key = "item_key cid (mi_trendyolClaimItemId item)" and ?e = "upsert_claim_item oid cid d item"
  have e: "db_claimItems ?e = update_where ?key (refresh_claim_item (line_item oid item d) item) (db_claimItems d)"
    using True by (simp add: upsert_claim_item_def Let_def)
  show ?thesis unfolding claims_kept_def
  proof (intro conjI ballI)
    fix u assume "u \<in> set (db_claimItems d)"
    from update_whereI [OF this, of ?key "refresh_claim_item (line_item oid item d) item"]
    show "\<exists>u' \<in> set (db_claimItems ?e). ci_id u' = ci_id u \<and> ci_claimId u' = ci_claimId u
        \<and> ci_trendyolClaimItemId u' = ci_trendyolClaimItemId u
        \<and> (ci_reasonCode u \<noteq> UNKNOWN_REASON_CODE \<longrightarrow> ci_reasonCode u' \<noteq> UNKNOWN_REASON_CODE)"
      unfolding e by (rule bexI [rotated]) (auto simp: refresh_claim_item_def)
  qed auto
qed

lemma items_kept: "claims_kept d (foldl (upsert_claim_item oid cid) d items)"
  by (induction items arbitrary: d) (auto intro: kept_trans [OF item_kept])

lemma upsert_kept:
  assumes run: "upsertClaim D off sid claim d = Inr (res, d')" and ok: "claims_ok d"
  shows "claims_kept d d'"
proof (cases res)
  case Unmatched
  then have "d' = d" using run by (intro unmatched_same) simp
  then show ?thesis by simp
next
  case Written
  show ?thesis
  proof (rule upsert_stages [OF run [unfolded Written] ok])
    fix r d1 cid d2 d3
    assume s: "reanchor sid (mc_trendyolClaimId claim) r d = Inr d1" "upsert_claim_row sid claim r d1 = (cid, d2)"
      "d3 = foldl (upsert_claim_item (o_id r) cid) d2 (mc_items claim)"
      and fin: "if list_ex (\<lambda>i. mi_status i = ''Accepted'') (mc_items claim)
         then estimateReturnOnClaim D off (o_id r) d3 = Inr d' else d' = d3"
    have "claims_kept d d3"
      using kept_trans [OF reanchor_kept [OF s(1) ok] kept_trans [OF row_kept [OF s(2)] items_kept]] s(3) by simp
    moreover have "db_claims d' = db_claims d3 \<and> db_claimItems d' = db_claimItems d3"
    proof (cases "list_ex (\<lambda>i. mi_status i = ''Accepted'') (mc_items claim)")
      case True
      then have "estimateReturnOnClaim D off (o_id r) d3 = Inr d'" using fin by simp
      from return_strip(1) [OF this] show ?thesis by (simp add: ref_eq_def)
    qed (use fin in simp)
    ultimately show ?thesis by (simp add: claims_kept_def)
  qed
qed

text \<open>A scan of the claims loses nothing: every claim and unit stays under its id and key, and a scan
  whose answer is sparser than an earlier one blanks neither the return parcel's id, by which the
  settlement finds the order, nor the tracking number, nor a known reason.\<close>
theorem claims_never_blanked:
  assumes "claims_ok (claims_db s)"
  shows "claims_kept (claims_db s) (claims_db (snd (processClaimsChunk E l cursor w s)))"
proof -
  have "claims_ok (claims_db (snd (processClaimsChunk E l cursor w s)))
    \<and> claims_kept (claims_db s) (claims_db (snd (processClaimsChunk E l cursor w s)))"
  proof (rule claims_chunk_db [where I = "\<lambda>d. claims_ok d \<and> claims_kept (claims_db s) d"])
    fix claim res a b
    assume run: "upsertClaim (cx_dec E) (cx_off E) (l_storeId l) claim a = Inr (res, b)"
      and a: "claims_ok a \<and> claims_kept (claims_db s) a"
    show "claims_ok b \<and> claims_kept (claims_db s) b"
      using upsert_ok [OF run] upsert_kept [OF run] a kept_trans by blast
  qed (simp add: assms)
  then show ?thesis by blast
qed


section \<open>Other stores and other orders\<close>

lemma filter_update_out:
  "(\<And>x. x \<in> set xs \<Longrightarrow> P x \<Longrightarrow> \<not> Q x \<and> \<not> Q (f x)) \<Longrightarrow> filter Q (update_where P f xs) = filter Q xs"
  by (induction xs) auto

definition foreign_claims :: "id \<Rightarrow> db \<Rightarrow> claim_row list" where
  "foreign_claims sid d = filter (\<lambda>c. oc_storeId c \<noteq> sid) (db_claims d)"

definition foreign_orders :: "id \<Rightarrow> db \<Rightarrow> order_row list" where
  "foreign_orders sid d = filter (\<lambda>r. o_storeId r \<noteq> sid) (db_orders d)"

lemma same_order_id:
  "distinct (map o_id xs) \<Longrightarrow> x \<in> set xs \<Longrightarrow> y \<in> set xs \<Longrightarrow> o_id x = o_id y \<Longrightarrow> x = y"
  unfolding distinct_map by (blast dest: inj_onD)

lemma claim_store:
  assumes "claims_ok d" and "distinct (map o_id (db_orders d))" and "r \<in> set (db_orders d)"
    and "c \<in> set (db_claims d)" and "oc_orderId c = o_id r"
  shows "oc_storeId c = o_storeId r"
proof -
  obtain q where "q \<in> set (db_orders d)" "o_id q = oc_orderId c" "o_storeId q = oc_storeId c"
    using assms(1,4) by (auto simp: claims_ok_def claim_tenancy_def)
  moreover from this have "q = r" using same_order_id [OF assms(2)] assms(3,5) by simp
  ultimately show ?thesis by simp
qed

lemma reanchor_foreign:
  assumes "reanchor sid tid r d = Inr d1" and "claims_ok d"
  shows "foreign_claims sid d1 = foreign_claims sid d"
proof (rule reanchor_cases [OF assms(1)])
  fix e assume e: "e \<in> set (db_claims d)" "elsewhere sid tid (o_id r) e" and d1: "d1 = move_claim sid (oc_id e) r d"
  have "x = e" if "x \<in> set (db_claims d)" "oc_id x = oc_id e" for x
    using claim_same_id [of d x e] assms(2) that e(1) by (simp add: claims_ok_def)
  then show ?thesis
    unfolding foreign_claims_def d1 move_claim_def using e(2)
    by (simp, intro filter_update_out) (auto simp: elsewhere_def)
qed simp

lemma row_foreign:
  assumes "upsert_claim_row sid claim r d = (cid, e)" and "claims_ok d" "distinct (map o_id (db_orders d))"
    and "r \<in> set (db_orders d)" "o_storeId r = sid"
  shows "foreign_claims sid e = foreign_claims sid d"
proof (cases "find (claim_key (o_id r) (mc_trendyolClaimId claim)) (db_claims d)")
  case None
  then show ?thesis using assms(1) by (auto simp: upsert_claim_row_def foreign_claims_def new_claim_def)
next
  case (Some c)
  have "filter (\<lambda>c. oc_storeId c \<noteq> sid) (update_where (claim_key (o_id r) (mc_trendyolClaimId claim)) (refresh_claim claim) (db_claims d))
    = filter (\<lambda>c. oc_storeId c \<noteq> sid) (db_claims d)"
    by (rule filter_update_out) (use claim_store [OF assms(2-4)] assms(5) in \<open>auto simp: claim_key_def\<close>)
  then show ?thesis using assms(1) Some by (auto simp: upsert_claim_row_def foreign_claims_def)
qed

lemma claim_fees_other:
  assumes "other_fees oid e = other_fees oid d" and "oid' \<noteq> oid"
  shows "order_fees oid' e = order_fees oid' d"
proof -
  have "order_fees oid' x = filter (\<lambda>f. f_orderId f = oid') (other_fees oid x)" for x
    using assms(2) by (auto simp: order_fees_def other_fees_def intro: filter_cong)
  then show ?thesis by (simp add: assms(1))
qed

lemma return_foreign:
  assumes run: "estimateReturnOnClaim D off (o_id r) d = Inr d'" and "wf_fees d" and ids: "distinct (map o_id (db_orders d))"
    and r: "r \<in> set (db_orders d)" "o_storeId r = sid"
  shows "foreign_orders sid d' = foreign_orders sid d" and "map o_id (db_orders d') = map o_id (db_orders d)" and "wf_fees d'"
    and "oid' \<noteq> o_id r \<Longrightarrow> order_fees oid' d' = order_fees oid' d"
proof -
  note k = return_keeps [OF run assms(2), unfolded keeps_def]
  have ref: "map order_ref (db_orders d') = map order_ref (db_orders d)"
    by (rule order_ref_strip [OF return_strip(2) [OF run]])
  have own: "o_storeId x = sid" if "x \<in> set (db_orders e)" "o_id x = o_id r" "e = d \<or> e = d'" for x e
  proof -
    have "order_ref ` set (db_orders e) = order_ref ` set (db_orders d)"
      using that(3)
    proof
      assume "e = d'"
      then show ?thesis using arg_cong [OF ref, of set] by (simp only: set_map)
    next
      assume "e = d"
      then show ?thesis by (simp only:)
    qed
    then have "order_ref x \<in> order_ref ` set (db_orders d)" using that(1) by blast
    then obtain y where y: "y \<in> set (db_orders d)" "order_ref x = order_ref y" by blast
    from y(2) have sel: "o_id x = o_id y" "o_storeId x = o_storeId y" by (simp_all add: order_ref_def)
    have "y = r" by (rule same_order_id [OF ids y(1) r(1)]) (use sel(1) that(2) in simp)
    with sel(2) r(2) show ?thesis by simp
  qed
  have split: "foreign_orders sid e = filter (\<lambda>x. o_storeId x \<noteq> sid) (other_orders (o_id r) e)" if "e = d \<or> e = d'" for e
    unfolding foreign_orders_def other_orders_def filter_filter
    by (rule filter_cong [OF refl]) (use own [OF _ _ that] in blast)
  show "foreign_orders sid d' = foreign_orders sid d" using split [of d] split [of d'] k by simp
  show "map o_id (db_orders d') = map o_id (db_orders d)" "wf_fees d'" using k assms(2) by auto
  show "order_fees oid' d' = order_fees oid' d" if "oid' \<noteq> o_id r"
    by (rule claim_fees_other [OF _ that]) (use k assms(2) in blast)
qed

lemma upsert_isolated:
  assumes run: "upsertClaim D off sid claim d = Inr (res, d')" and ok: "claims_ok d" and wf: "wf_fees d"
    and ids: "distinct (map o_id (db_orders d))"
  shows "foreign_claims sid d' = foreign_claims sid d" and "foreign_orders sid d' = foreign_orders sid d"
    and "wf_fees d'" and "map o_id (db_orders d') = map o_id (db_orders d)"
    and "\<forall>oid. (\<forall>r. claim_order sid claim d = Some r \<longrightarrow> oid \<noteq> o_id r) \<longrightarrow> order_fees oid d' = order_fees oid d"
proof -
  have "foreign_claims sid d' = foreign_claims sid d \<and> foreign_orders sid d' = foreign_orders sid d
    \<and> wf_fees d' \<and> map o_id (db_orders d') = map o_id (db_orders d)
    \<and> (\<forall>oid. (\<forall>r. claim_order sid claim d = Some r \<longrightarrow> oid \<noteq> o_id r) \<longrightarrow> order_fees oid d' = order_fees oid d)"
  proof (cases res)
    case Unmatched
    then have "d' = d" using run by (intro unmatched_same) simp
    then show ?thesis using wf by simp
  next
    case Written
    show ?thesis
    proof (rule upsert_stages [OF run [unfolded Written] ok])
      fix r d1 cid d2 d3
      assume r: "claim_order sid claim d = Some r" "r \<in> set (db_orders d)" "o_storeId r = sid"
        and s: "reanchor sid (mc_trendyolClaimId claim) r d = Inr d1" "upsert_claim_row sid claim r d1 = (cid, d2)"
        and ok1: "claims_ok d1" and eq: "db_claims d3 = db_claims d2" "db_orders d3 = db_orders d" "db_fees d3 = db_fees d"
          "db_nextId d \<le> db_nextId d3"
        and fin: "if list_ex (\<lambda>i. mi_status i = ''Accepted'') (mc_items claim)
           then estimateReturnOnClaim D off (o_id r) d3 = Inr d' else d' = d3"
      have o1: "db_orders d1 = db_orders d" by (rule reanchor_ok(3) [OF s(1) ok r(2,3)])
      have "foreign_claims sid d1 = foreign_claims sid d" by (rule reanchor_foreign [OF s(1) ok])
      moreover have "foreign_claims sid d2 = foreign_claims sid d1"
        by (rule row_foreign [OF s(2) ok1]) (use ids r o1 in simp_all)
      ultimately have c3: "foreign_claims sid d3 = foreign_claims sid d" by (simp add: foreign_claims_def eq(1))
      have wf3: "wf_fees d3" by (rule wf_fees_next [OF wf eq(3,4)])
      have ids3: "distinct (map o_id (db_orders d3))" "r \<in> set (db_orders d3)" using ids r(2) eq(2) by simp_all
      show ?thesis
      proof (cases "list_ex (\<lambda>i. mi_status i = ''Accepted'') (mc_items claim)")
        case True
        then have est: "estimateReturnOnClaim D off (o_id r) d3 = Inr d'" using fin by simp
        note f = return_foreign [OF est wf3 ids3 r(3)]
        have "db_claims d' = db_claims d3" using return_strip(1) [OF est] by (simp add: ref_eq_def)
        then have "foreign_claims sid d' = foreign_claims sid d" using c3 by (simp add: foreign_claims_def)
        then show ?thesis
          using f eq(2,3) r(1) by (simp add: foreign_orders_def order_fees_def)
      next
        case False
        then show ?thesis using fin c3 wf3 eq by (simp add: foreign_orders_def order_fees_def)
      qed
    qed
  qed
  then show "foreign_claims sid d' = foreign_claims sid d" and "foreign_orders sid d' = foreign_orders sid d"
    and "wf_fees d'" and "map o_id (db_orders d') = map o_id (db_orders d)"
    and "\<forall>oid. (\<forall>r. claim_order sid claim d = Some r \<longrightarrow> oid \<noteq> o_id r) \<longrightarrow> order_fees oid d' = order_fees oid d" by blast+
qed


text \<open>C19: A chunk of the claims job stays in its store: no claim and no order of another store changes, and
  no fee of another store's order is written, whatever package ids and order numbers the claims
  carry.\<close>
theorem claims_store_isolated:
  assumes "claims_ok (claims_db s)" and "wf_fees (claims_db s)" and "distinct (map o_id (db_orders (claims_db s)))"
    and "q \<in> set (db_orders (claims_db s))" and "o_storeId q \<noteq> l_storeId l"
  shows "foreign_claims (l_storeId l) (claims_db (snd (processClaimsChunk E l cursor w s))) = foreign_claims (l_storeId l) (claims_db s)
    \<and> foreign_orders (l_storeId l) (claims_db (snd (processClaimsChunk E l cursor w s))) = foreign_orders (l_storeId l) (claims_db s)
    \<and> order_fees (o_id q) (claims_db (snd (processClaimsChunk E l cursor w s))) = order_fees (o_id q) (claims_db s)"
proof -
  let ?sid = "l_storeId l"
  let ?I = "\<lambda>d. claims_ok d \<and> wf_fees d \<and> distinct (map o_id (db_orders d)) \<and> foreign_claims ?sid d = foreign_claims ?sid (claims_db s)
    \<and> foreign_orders ?sid d = foreign_orders ?sid (claims_db s) \<and> order_fees (o_id q) d = order_fees (o_id q) (claims_db s)"
  have "?I (claims_db (snd (processClaimsChunk E l cursor w s)))"
  proof (rule claims_chunk_db [where I = ?I])
    fix claim res a b
    assume run: "upsertClaim (cx_dec E) (cx_off E) ?sid claim a = Inr (res, b)" and a: "?I a"
    note u = upsert_isolated [OF run, of] and ok = upsert_ok [OF run]
    have "q \<in> set (foreign_orders ?sid a)" using a assms(4,5) by (simp add: foreign_orders_def)
    then have q: "q \<in> set (db_orders a)" by (simp add: foreign_orders_def)
    have "o_id q \<noteq> o_id r" if "claim_order ?sid claim a = Some r" for r
      using claim_order_Some [OF that] same_order_id [of "db_orders a" q r] a q assms(5) by auto
    then show "?I b" using u ok a by simp
  qed (use assms in simp)
  then show ?thesis by blast
qed

text \<open>C20: A claim that moves to another order leaves the estimated legs of its return on the order it
  leaves: no fee of that order changes, although no accepted unit remains on it, and estimating its
  return again changes nothing either.\<close>
theorem moved_claim_leaves_legs:
  assumes "upsertClaim D off sid claim d = Inr (Written, d')" and "claims_ok d" and "wf_fees d"
    and "distinct (map o_id (db_orders d))" and "claim_order sid claim d = Some r"
    and "find (elsewhere sid (mc_trendyolClaimId claim) (o_id r)) (db_claims d) = Some e"
    and "filter (\<lambda>c. oc_orderId c = oc_orderId e) (db_claims d) = [e]"
  shows "order_fees (oc_orderId e) d' = order_fees (oc_orderId e) d \<and> accepted_items (oc_orderId e) d' = []
    \<and> (case estimateReturnOnClaim D off (oc_orderId e) d' of Inl x \<Rightarrow> True | Inr d2 \<Rightarrow> d2 = d')"
proof -
  let ?old = "oc_orderId e" and ?tid = "mc_trendyolClaimId claim"
  have e: "e \<in> set (db_claims d)" "elsewhere sid ?tid (o_id r) e" using find_Some_in [OF assms(6)] by auto
  then have ne: "?old \<noteq> o_id r" by (simp add: elsewhere_def)
  have fees: "order_fees ?old d' = order_fees ?old d"
    using upsert_isolated(5) [OF assms(1-4)] assms(5) ne by auto
  have none: "oc_orderId c \<noteq> ?old" if mem: "c \<in> set (db_claims d')" for c
  proof (rule upsert_stages [OF assms(1,2)])
    fix r' d1 cid d2 d3
    assume r': "claim_order sid claim d = Some r'" and s: "reanchor sid ?tid r' d = Inr d1" "upsert_claim_row sid claim r' d1 = (cid, d2)"
      and d3: "db_claims d3 = db_claims d2"
      and fin: "if list_ex (\<lambda>i. mi_status i = ''Accepted'') (mc_items claim)
           then estimateReturnOnClaim D off (o_id r') d3 = Inr d' else d' = d3"
    have r: "r' = r" using r' assms(5) by simp
    have "db_claims d' = db_claims d2"
      using fin d3 return_strip(1) [of D off "o_id r'" d3 d']
      by (cases "list_ex (\<lambda>i. mi_status i = ''Accepted'') (mc_items claim)") (auto simp: ref_eq_def)
    then consider "c = new_claim sid claim r (db_nextId d1)" | b where "b \<in> set (db_claims d1)" "oc_orderId c = oc_orderId b"
      using mem s(2) unfolding r by (auto simp: upsert_claim_row_def set_update_where split: option.splits)
    then show ?thesis
    proof cases
      case 1
      then show ?thesis using ne by (simp add: new_claim_def)
    next
      case (2 b)
      have d1: "d1 = move_claim sid (oc_id e) r d"
        using s(1) assms(6) unfolding r by (auto simp: reanchor_def split: if_splits)
      obtain a where a: "a \<in> set (db_claims d)" "b = (if oc_id a = oc_id e
          then a \<lparr> oc_orderId := o_id r, oc_organizationId := o_organizationId r, oc_storeId := sid \<rparr> else a)"
        using 2(1) by (auto simp: d1 move_claim_def elim: in_update_whereE)
      have "a = e" if "oc_orderId a = ?old"
      proof -
        have "a \<in> set (filter (\<lambda>c. oc_orderId c = ?old) (db_claims d))" using a(1) that by simp
        then show ?thesis by (simp only: assms(7)) simp
      qed
      then show ?thesis using a(2) 2(2) ne by auto
    qed
  qed
  then have acc: "accepted_items ?old d' = []"
    by (auto simp: accepted_items_def claim_item_of_def find_claim_def List.map_filter_def filter_empty_conv dest: find_Some_in)
  then have "case estimateReturnOnClaim D off ?old d' of Inl x \<Rightarrow> True | Inr d2 \<Rightarrow> d2 = d'"
    using return_skip [of D off ?old d'] by (auto split: sum.split option.split)
  then show ?thesis using fees acc by blast
qed

section \<open>The outcome of a scan\<close>

lemma run_actions_complete:
  assumes "run_actions fs s = (None, t)" and "\<And>f s t. f \<in> set fs \<Longrightarrow> f s = (None, t) \<Longrightarrow> Q s \<Longrightarrow> Q t \<and> n t = Suc (n s)" and "Q s"
  shows "Q t \<and> n t = n s + length fs"
  using assms
proof (induction fs arbitrary: s)
  case (Cons f fs)
  obtain e s' where f: "f s = (e, s')" by (cases "f s")
  with Cons.prems(1) have e: "e = None" "run_actions fs s' = (None, t)" by (cases e; simp)+
  then have "Q s' \<and> n s' = Suc (n s)" using Cons.prems(2) [of f s s'] Cons.prems(3) f by simp
  moreover have "Q t \<and> n t = n s' + length fs"
  proof (rule Cons.IH [OF e(2)])
    fix g u v assume "g \<in> set fs" "g u = (None, v)" "Q u"
    then show "Q v \<and> n v = Suc (n u)" using Cons.prems(2) [of g u v] by simp
  qed (use calculation in blast)
  ultimately show ?case by simp
qed simp

definition handled :: "claims_scan \<Rightarrow> nat" where
  "handled s = cs_written s + cs_unmatched s + cs_failed s"

lemma claim_action_count:
  assumes "claim_action E now sid lid w raw s = (None, t)" and "cs_failed s = 0 \<or> cs_lastError s \<noteq> None"
  shows "(cs_failed t = 0 \<or> cs_lastError t \<noteq> None) \<and> handled t = Suc (handled s)"
proof -
  obtain s1 where s1: "claim_tick E now lid w (s \<lparr> cs_processed := cs_processed s + 1 \<rparr>) = (None, s1)" "t = count_claim E sid raw s1"
    using assms(1) by (auto simp: claim_action_def split: prod.splits option.splits)
  have "cs_failed s1 = cs_failed s" "cs_lastError s1 = cs_lastError s" "handled s1 = handled s"
    using s1(1) by (auto simp: claim_tick_def handled_def split: if_splits sum.splits)
  then show ?thesis
    using assms(2) by (auto simp: s1(2) count_claim_def handled_def split: sum.split upsert_outcome.split)
qed

text \<open>A scan that ends without an error has fetched every page and handled every claim, and it does not
  hide a systemic failure: where there were claims, at least one of them was written or had no
  order, so a scan in which each claim failed ends with an error.\<close>
theorem claims_scan_outcome:
  assumes "scan_claims E now st lid w d q = (None, s)"
    and "fetch_rows (cx_claims E (claims_start E now st) now) 0 0 None = (rows, fetched)"
  shows "fetched = None \<and> cs_written s + cs_unmatched s + cs_failed s = length rows
    \<and> (rows = [] \<or> cs_failed s < length rows)"
proof -
  let ?fs = "map (claim_action E now (s_id st) lid w) rows"
  obtain e t where run: "run_actions ?fs (no_claims d q) = (e, t)" by (cases "run_actions ?fs (no_claims d q)")
  have st: "e = None" "fetched = None" "\<not> (0 < cs_failed t \<and> cs_written t = 0 \<and> cs_unmatched t = 0 \<and> cs_lastError t \<noteq> None)" "s = t"
    using assms run by (auto simp: scan_claims_def split: option.splits if_splits)
  have "(cs_failed t = 0 \<or> cs_lastError t \<noteq> None) \<and> handled t = handled (no_claims d q) + length ?fs"
    by (rule run_actions_complete [OF run [unfolded st(1)]])
      (auto simp: no_claims_def dest: claim_action_count)
  then show ?thesis
    using st(2-4) by (auto simp: handled_def no_claims_def)
qed

section \<open>Witnesses\<close>

text \<open>A claim of the example order with one accepted unit, matched by its order number.\<close>

definition example_unit_wire :: claim_item_wire where
  "example_unit_wire = \<lparr> wi_id = ''u'', wi_customerReason = Some \<lparr> cr_code = Some '''', cr_name = Some ''x'' \<rparr>,
     wi_trendyolReason = Some \<lparr> cr_code = Some ''OTHER'', cr_name = Some ''other'' \<rparr>, wi_status = ''Accepted'',
     wi_resolved = Some True, wi_acceptedBySeller = Some True, wi_autoApproveDate = None \<rparr>"

definition example_wire :: claim_wire where
  "example_wire = \<lparr> wc_id = ''c'', wc_orderNumber = ''n'', wc_claimDate = 0, wc_lastModifiedDate = None,
     wc_cargoTrackingNumber = None, wc_cargoProviderName = None, wc_orderShipmentPackageId = None,
     wc_orderOutboundPackageId = None,
     wc_items = Some [\<lparr> wg_orderLineId = None, wg_claimItems = Some [example_unit_wire] \<rparr>] \<rparr>"

definition example_claims_env :: claims_env where
  "example_claims_env = \<lparr> cx_dec = dec20, cx_off = (\<lambda>_. 0), cx_backfillDays = 0, cx_credentials = (\<lambda>_. Inr ()),
     cx_claims = (\<lambda>_ _ _. Inr \<lparr> pg_totalElements = 1, pg_content = [example_wire] \<rparr>),
     cx_claimError = (\<lambda>_. store_missing), cx_syncMsg = (\<lambda>_. ''message'') \<rparr>"

abbreviation claims_log :: "id \<Rightarrow> sync_log" where
  "claims_log sid \<equiv> new_log 70 1 sid CLAIMS CRON 0"

abbreviation no_logs :: sync_queue where
  "no_logs \<equiv> \<lparr> q_logs = [], q_nextId = 0 \<rparr>"

lemma mapped_example:
  "mapTrendyolClaim example_wire = \<lparr> mc_trendyolClaimId = ''c'', mc_orderNumber = ''n'', mc_orderOutboundPackageId = None,
     mc_orderShipmentPackageId = None, mc_claimDate = 0, mc_lastModifiedDate = None, mc_cargoProviderName = None,
     mc_cargoTrackingNumber = None, mc_resolved = True,
     mc_items = [\<lparr> mi_trendyolClaimItemId = ''u'', mi_orderLineId = None, mi_reasonCode = ''OTHER'', mi_reasonName = ''other'',
       mi_status = ''Accepted'', mi_acceptedBySeller = True, mi_autoApproveDate = None, mi_resolved = True \<rparr>] \<rparr>"
  by (simp add: mapTrendyolClaim_def map_claim_items_def or_empty_def map_claim_item_def claim_reason_of_def hasReasonCode_def
      isTerminalClaimItemStatus_def Let_def example_wire_def example_unit_wire_def)

lemma return_db_tables:
  "db_orders return_db = [example_order 9]" "db_claims return_db = [example_claim]"
  "db_claimItems return_db = [example_claim_item 51, example_claim_item 52]" "db_items return_db = [return_item_row]"
  "db_nextId return_db = 100" "db_fees return_db = []"
  by (simp_all add: return_db_def cover_db_def estimate_db_def empty_db_def)

lemma return_db_ok: "claims_ok return_db" "distinct (map o_id (db_orders return_db))"
  by (simp_all add: claims_ok_def claim_keys_def claim_tenancy_def unit_link_def return_db_tables example_claim_def
      example_claim_item_def example_order_def example_item_def)

lemma claim_replay_witness:
  "\<exists>d'. upsertClaim dec20 (\<lambda>_. 0) 1 (mapTrendyolClaim example_wire) return_db = Inr (Written, d')
     \<and> upsertClaim dec20 (\<lambda>_. 0) 1 (mapTrendyolClaim example_wire) d' = Inr (Written, d')"
proof -
  have order: "claim_order 1 (mapTrendyolClaim example_wire) return_db = Some (example_order 9)"
    by (simp add: claim_order_def mapped_example return_db_tables) (simp add: example_order_def)
  have re: "reanchor 1 ''c'' (example_order 9) return_db = Inr return_db"
    by (simp add: reanchor_def elsewhere_def return_db_tables example_claim_def example_order_def)
  have row: "upsert_claim_row 1 (mapTrendyolClaim example_wire) (example_order 9) return_db = (50, return_db)"
    by (rule row_again [of _ 9]) (simp_all add: row_written_def mapped_example return_db_tables claim_key_def refresh_claim_def
        orElse_def example_claim_def example_order_def)
  have units: "foldl (upsert_claim_item 9 50) return_db (mc_items (mapTrendyolClaim example_wire)) = return_db"
    by (rule units_again) (simp add: unit_written_def mapped_example return_db_tables item_key_def refresh_claim_item_def
        line_item_def orElse_def UNKNOWN_REASON_CODE_def example_claim_item_def)
  obtain d' where "estimateReturnOnClaim dec20 (\<lambda>_. 0) 9 return_db = Inr d'" using domestic_return_run by blast
  then have run: "upsertClaim dec20 (\<lambda>_. 0) 1 (mapTrendyolClaim example_wire) return_db = Inr (Written, d')"
    using order re row units by (simp add: upsertClaim_def mapped_example example_order_def del: foldl_Cons)
  have "distinct (map mi_trendyolClaimItemId (mc_items (mapTrendyolClaim example_wire)))" by (simp add: mapped_example)
  from claim_replay [OF run return_db_ok(1) return_db_rows(5,6) this] run show ?thesis by blast
qed

lemma claims_chunk_safe_witness:
  "claims_ok (claims_db (snd (processClaimsChunk example_claims_env (claims_log 1) (DRaw None) ''w''
     (\<lparr> sw_db = return_db, sw_now = 100 * day_ms \<rparr>, no_logs))))"
  by (rule claims_chunk_safe) (simp add: claims_db_def return_db_ok)

lemma claims_never_blanked_witness:
  "claims_kept return_db (claims_db (snd (processClaimsChunk example_claims_env (claims_log 1) (DRaw None) ''w''
     (\<lparr> sw_db = return_db, sw_now = 100 * day_ms \<rparr>, no_logs))))"
  using claims_never_blanked [of "(\<lparr> sw_db = return_db, sw_now = 100 * day_ms \<rparr>, no_logs)"]
  by (simp add: claims_db_def return_db_ok)

lemma claims_store_isolated_witness:
  "order_fees 9 (claims_db (snd (processClaimsChunk example_claims_env (claims_log 2) (DRaw None) ''w''
     (\<lparr> sw_db = return_db, sw_now = 100 * day_ms \<rparr>, no_logs)))) = []"
proof -
  let ?s = "(\<lparr> sw_db = return_db, sw_now = 100 * day_ms \<rparr>, no_logs)"
  have "example_order 9 \<in> set (db_orders return_db)" "o_storeId (example_order 9) \<noteq> l_storeId (claims_log 2)"
    "o_id (example_order 9) = 9"
    by (simp_all add: return_db_tables example_order_def new_log_def)
  then show ?thesis
    using claims_store_isolated [of ?s "example_order 9" "claims_log 2" example_claims_env "DRaw None" "''w''"]
      return_db_ok return_db_rows(5) by (simp add: claims_db_def order_fees_def return_db_tables)
qed

lemma claims_scan_outcome_witness:
  "\<exists>s. scan_claims example_claims_env 0 example_store 70 ''w'' empty_db no_logs = (None, s)
     \<and> cs_written s + cs_unmatched s + cs_failed s = 1 \<and> cs_failed s < 1"
proof -
  have rows: "fetch_rows (cx_claims example_claims_env (claims_start example_claims_env 0 example_store) 0) 0 0 None = ([example_wire], None)"
    by (subst fetch_rows.simps) (simp add: example_claims_env_def)
  have "claim_order (s_id example_store) (mapTrendyolClaim example_wire) empty_db = None"
    by (simp add: claim_order_def mapped_example empty_db_def)
  then have "\<exists>s. scan_claims example_claims_env 0 example_store 70 ''w'' empty_db no_logs = (None, s)"
    by (simp add: scan_claims_def rows claim_action_def claim_tick_def no_claims_def HEARTBEAT_EVERY_N_CLAIMS_def count_claim_def
        upsertClaim_def)
  then show ?thesis using claims_scan_outcome [OF _ rows] by fastforce
qed

text \<open>The example claim on another order of the store, before its package is known.\<close>

definition moved_db :: db where
  "moved_db = return_db \<lparr> db_orders := [example_order 9, (example_order 10) \<lparr> o_platformOrderId := ''x'' \<rparr>],
     db_claims := [example_claim \<lparr> oc_orderId := 10 \<rparr>], db_claimItems := [] \<rparr>"

definition moved_claim :: mapped_claim where
  "moved_claim = (mapTrendyolClaim example_wire) \<lparr> mc_orderOutboundPackageId := Some ''p'', mc_items := [] \<rparr>"

lemma moved_claim_leaves_legs_witness:
  "\<exists>d'. upsertClaim dec20 (\<lambda>_. 0) 1 moved_claim moved_db = Inr (Written, d') \<and> accepted_items 10 d' = []
     \<and> order_fees 10 d' = []"
proof -
  have claims: "db_claims moved_db = [example_claim \<lparr> oc_orderId := 10 \<rparr>]" "db_claimItems moved_db = []" "db_fees moved_db = []"
    "db_orders moved_db = [example_order 9, (example_order 10) \<lparr> o_platformOrderId := ''x'' \<rparr>]" "db_nextId moved_db = 100"
    by (simp_all add: moved_db_def return_db_tables)
  have ok: "claims_ok moved_db" "wf_fees moved_db" "distinct (map o_id (db_orders moved_db))"
    by (simp_all add: claims_ok_def claim_keys_def claim_tenancy_def wf_fees_def claims example_claim_def example_order_def)
  have order: "claim_order 1 moved_claim moved_db = Some (example_order 9)"
    by (simp add: claim_order_def moved_claim_def order_by_key_def is_order_def claims) (simp add: example_order_def)
  have e: "find (elsewhere 1 (mc_trendyolClaimId moved_claim) (o_id (example_order 9))) (db_claims moved_db) = Some (example_claim \<lparr> oc_orderId := 10 \<rparr>)"
    by (simp add: elsewhere_def claims moved_claim_def mapped_example example_claim_def example_order_def)
  have "\<exists>d1. reanchor 1 (mc_trendyolClaimId moved_claim) (example_order 9) moved_db = Inr d1"
    by (simp add: reanchor_def e claim_key_def claims) (simp add: example_order_def)
  moreover have "mc_items moved_claim = []" by (simp add: moved_claim_def)
  ultimately have "\<exists>d'. upsertClaim dec20 (\<lambda>_. 0) 1 moved_claim moved_db = Inr (Written, d')"
    by (auto simp: upsertClaim_def order Let_def simp del: One_nat_def split: prod.split)
  then obtain d' where run: "upsertClaim dec20 (\<lambda>_. 0) 1 moved_claim moved_db = Inr (Written, d')" by blast
  have "order_fees (oc_orderId (example_claim \<lparr> oc_orderId := 10 \<rparr>)) d' = order_fees (oc_orderId (example_claim \<lparr> oc_orderId := 10 \<rparr>)) moved_db
    \<and> accepted_items (oc_orderId (example_claim \<lparr> oc_orderId := 10 \<rparr>)) d' = []"
    using moved_claim_leaves_legs [OF run ok order e] by (simp add: claims)
  then show ?thesis using run by (auto simp: order_fees_def claims)
qed

end
