(* ===== verification/Catalog.thy ===== *)
theory Catalog
  imports Claim_Claims "HOL-Library.Sublist"
begin

text \<open>
  The catalogue: the products of the marketplace as they arrive
  (\<open>src/packages/marketplace/src/trendyol/products.ts\<close>, mapped by \<open>mapper.ts\<close>), their write
  (\<open>src/packages/catalog-sync/src/upsert-catalog-batch.ts\<close>) and the repair of the catalogue by barcode
  (\<open>ensure-barcodes.ts\<close>). A wire number is the rational its double denotes; ids are integers. The
  rows of \<open>product_images\<close> are a field of their product; every call of \<open>new Date()\<close> in one operation reads
  the same \<open>now\<close>; log lines are left out.
\<close>

section \<open>The wire shape and its mapping\<close>

record variant_wire =
  vw_variantId :: int
  vw_barcode :: string
  vw_commission :: "rat option"
  vw_attributes :: "(string \<times> string) list option"
  vw_productUrl :: "string option"
  vw_onSale :: "bool option"
  vw_deliveryOptions :: "(int option \<times> bool \<times> (string \<times> string) list) option"
  vw_quantity :: "int option"
  vw_price :: "(rat option \<times> rat option) option"     \<comment> \<open>\<open>salePrice\<close>, \<open>listPrice\<close>\<close>
  vw_stockCode :: "string option"
  vw_vatRate :: "int option"
  vw_locked :: "bool option"
  vw_archived :: "bool option"
  vw_blacklisted :: "bool option"
  vw_locationBasedDelivery :: "string option"
  vw_dimensionalWeight :: "rat option"

record content_wire =
  cw_contentId :: int
  cw_productMainId :: string
  cw_brand :: "(int \<times> string) option"
  cw_category :: "(int \<times> string) option"
  cw_creationDate :: "int option"
  cw_lastModifiedDate :: "int option"
  cw_title :: string
  cw_description :: "string option"
  cw_images :: "string list option"
  cw_attributes :: "(string \<times> string) list option"
  cw_variants :: "variant_wire list option"

record page_meta =
  pm_totalElements :: nat
  pm_totalPages :: nat
  pm_nextPageToken :: "string option"

record approved_response =
  ar_content :: "content_wire list"
  ar_meta :: page_meta

record mapped_variant =
  mv_platformVariantId :: int
  mv_barcode :: string
  mv_salePrice :: rat
  mv_listPrice :: rat
  mv_quantity :: int
  mv_listing :: variant_listing
  mv_syncedDimensionalWeight :: rat
  mv_syncedCommissionRate :: "rat option"

record mapped_product =
  mp_platformContentId :: int
  mp_listing :: product_listing
  mp_images :: "(string \<times> nat) list"
  mp_variants :: "mapped_variant list"

definition or_else :: "'a option \<Rightarrow> 'a \<Rightarrow> 'a" where
  "or_else x d = (case x of None \<Rightarrow> d | Some y \<Rightarrow> y)"

definition epochMsToDate :: "int option \<Rightarrow> time option" where
  "epochMsToDate ms = (case ms of None \<Rightarrow> None | Some t \<Rightarrow> if t = 0 then None else Some t)"

text \<open>\<open>toFixed(2)\<close> of a finite number: the nearest hundredth, halves away from zero.\<close>

definition number_fixed2 :: "rat \<Rightarrow> rat" where
  "number_fixed2 x = round_to 100 x"

definition priceToDecimalString :: "rat option \<Rightarrow> rat" where
  "priceToDecimalString x = (case x of None \<Rightarrow> 0 | Some v \<Rightarrow> number_fixed2 v)"

definition nullableDecimalString :: "rat option \<Rightarrow> rat option" where
  "nullableDecimalString x =
     (case x of None \<Rightarrow> None | Some v \<Rightarrow> if v = 0 then None else Some (number_fixed2 v))"

fun join_space :: "string list \<Rightarrow> string" where
  "join_space [] = []"
| "join_space [s] = s"
| "join_space (s # ss) = s @ '' '' @ join_space ss"

definition extractColor :: "(string \<times> string) list \<Rightarrow> string option" where
  "extractColor attrs =
     (let hits = filter (\<lambda>a. suffix ''Renk'' (fst a)) attrs
      in if hits = [] then None else Some (join_space (map snd hits)))"

definition extractVariantLabel :: "(string \<times> string) list \<Rightarrow> string option" where
  "extractVariantLabel attrs =
     (if attrs = [] then None else Some (join_space (map (\<lambda>a. snd a @ '' '' @ fst a) attrs)))"

definition mapImages :: "string list \<Rightarrow> (string \<times> nat) list" where
  "mapImages urls = map (\<lambda>(i, u). (u, i)) (List.enumerate 0 urls)"

definition mapVariant :: "variant_wire \<Rightarrow> mapped_variant" where
  "mapVariant v =
     (let attrs = or_else (vw_attributes v) [] in
      \<lparr> mv_platformVariantId = vw_variantId v, mv_barcode = vw_barcode v,
        mv_salePrice = priceToDecimalString (Option.bind (vw_price v) fst),
        mv_listPrice = priceToDecimalString (Option.bind (vw_price v) snd),
        mv_quantity = or_else (vw_quantity v) 0,
        mv_listing =
          \<lparr> vl_stockCode = or_else (vw_stockCode v) [], vl_vatRate = vw_vatRate v,
            vl_deliveryDuration = Option.bind (vw_deliveryOptions v) fst,
            vl_isRushDelivery = (case vw_deliveryOptions v of None \<Rightarrow> False | Some (_, r, _) \<Rightarrow> r),
            vl_fastDeliveryOptions = (case vw_deliveryOptions v of None \<Rightarrow> [] | Some (_, _, os) \<Rightarrow> os),
            vl_productUrl = vw_productUrl v, vl_locationBasedDelivery = vw_locationBasedDelivery v,
            vl_onSale = or_else (vw_onSale v) False, vl_archived = or_else (vw_archived v) False,
            vl_blacklisted = or_else (vw_blacklisted v) False, vl_locked = or_else (vw_locked v) False,
            vl_size = extractVariantLabel attrs, vl_attributes = attrs \<rparr>,
        mv_syncedDimensionalWeight = or_else (nullableDecimalString (vw_dimensionalWeight v)) 0,
        mv_syncedCommissionRate = nullableDecimalString (vw_commission v) \<rparr>)"

definition mapTrendyolContent :: "content_wire \<Rightarrow> mapped_product" where
  "mapTrendyolContent c =
     (let attrs = or_else (cw_attributes c) [] in
      \<lparr> mp_platformContentId = cw_contentId c,
        mp_listing =
          \<lparr> pl_productMainId = cw_productMainId c, pl_title = cw_title c, pl_description = cw_description c,
            pl_brandId = map_option fst (cw_brand c), pl_brandName = map_option snd (cw_brand c),
            pl_categoryId = map_option fst (cw_category c), pl_categoryName = map_option snd (cw_category c),
            pl_color = extractColor attrs, pl_attributes = attrs,
            pl_platformCreatedAt = epochMsToDate (cw_creationDate c),
            pl_platformModifiedAt = epochMsToDate (cw_lastModifiedDate c) \<rparr>,
        mp_images = mapImages (or_else (cw_images c) []),
        mp_variants = map mapVariant (or_else (cw_variants c) []) \<rparr>)"

record products_page =
  pp_batch :: "mapped_product list"
  pp_meta :: page_meta

definition mapTrendyolApprovedResponse :: "approved_response \<Rightarrow> products_page" where
  "mapTrendyolApprovedResponse r =
     \<lparr> pp_batch = map mapTrendyolContent (ar_content r), pp_meta = ar_meta r \<rparr>"

section \<open>The write of a page\<close>

definition computeProductAggregates :: "(int \<times> rat) list \<Rightarrow> int \<times> rat option \<times> rat option" where
  "computeProductAggregates vs =
     (sum_list (map fst vs),
      foldl (\<lambda>m v. case m of None \<Rightarrow> Some (snd v) | Some x \<Rightarrow> if snd v < x then Some (snd v) else m) None vs,
      foldl (\<lambda>m v. case m of None \<Rightarrow> Some (snd v) | Some x \<Rightarrow> if x < snd v then Some (snd v) else m) None vs)"

text \<open>
  What the columns hold: \<open>numeric(12, 2)\<close> prices, a \<open>numeric(5, 2)\<close> rate, a desi in \<open>numeric(6, 2)\<close> that a
  check keeps from being negative, 32-bit integers. A value out of range fails the statement.
\<close>

definition int4 :: "int \<Rightarrow> bool" where
  "int4 n \<longleftrightarrow> - (2 ^ 31) \<le> n \<and> n < 2 ^ 31"

definition variant_fits :: "mapped_variant \<Rightarrow> bool" where
  "variant_fits v \<longleftrightarrow>
     \<bar>mv_salePrice v\<bar> < 10 ^ 10 \<and> \<bar>mv_listPrice v\<bar> < 10 ^ 10 \<and> int4 (mv_quantity v)
   \<and> 0 \<le> mv_syncedDimensionalWeight v \<and> mv_syncedDimensionalWeight v < 10 ^ 4
   \<and> (case mv_syncedCommissionRate v of None \<Rightarrow> True | Some r \<Rightarrow> \<bar>r\<bar> < 10 ^ 3)"

definition product_key :: "id \<Rightarrow> int \<Rightarrow> product_row \<Rightarrow> bool" where
  "product_key sid cid p \<longleftrightarrow> p_storeId p = sid \<and> p_platformContentId p = cid"

definition variant_key :: "id \<Rightarrow> int \<Rightarrow> variant_row \<Rightarrow> bool" where
  "variant_key sid vid v \<longleftrightarrow> v_storeId v = sid \<and> v_platformVariantId v = vid"

definition new_product :: "time \<Rightarrow> store_row \<Rightarrow> mapped_product \<Rightarrow> id \<Rightarrow> product_row" where
  "new_product now st m pid =
     \<lparr> p_id = pid, p_organizationId = s_organizationId st, p_storeId = s_id st,
       p_platformContentId = mp_platformContentId m, p_listing = mp_listing m, p_images = [],
       p_lastSyncedAt = now, p_totalStock = 0, p_minSalePrice = None, p_maxSalePrice = None \<rparr>"

definition refresh_product :: "time \<Rightarrow> mapped_product \<Rightarrow> product_row \<Rightarrow> product_row" where
  "refresh_product now m p = p \<lparr> p_listing := mp_listing m, p_lastSyncedAt := now \<rparr>"

definition upsert_product :: "time \<Rightarrow> store_row \<Rightarrow> mapped_product \<Rightarrow> db \<Rightarrow> id \<times> db" where
  "upsert_product now st m d =
     (let key = product_key (s_id st) (mp_platformContentId m) in
      case find key (db_products d) of
        Some p \<Rightarrow> (p_id p, d \<lparr> db_products := update_where key (refresh_product now m) (db_products d) \<rparr>)
      | None \<Rightarrow> (db_nextId d, d \<lparr> db_products := db_products d @ [new_product now st m (db_nextId d)],
                               db_nextId := Suc (db_nextId d) \<rparr>))"

definition new_variant :: "time \<Rightarrow> store_row \<Rightarrow> id \<Rightarrow> mapped_variant \<Rightarrow> id \<Rightarrow> variant_row" where
  "new_variant now st pid m vid =
     \<lparr> v_id = vid, v_organizationId = s_organizationId st, v_storeId = s_id st, v_productId = pid,
       v_platformVariantId = mv_platformVariantId m, v_barcode = mv_barcode m,
       v_salePrice = mv_salePrice m, v_listPrice = mv_listPrice m, v_isDigital = False,
       v_dimensionalWeight = None, v_syncedDimensionalWeight = mv_syncedDimensionalWeight m,
       v_quantity = mv_quantity m, v_syncedCommissionRate = mv_syncedCommissionRate m,
       v_listing = mv_listing m, v_lastSyncedAt = now, v_delistedAt = None \<rparr>"

definition refresh_variant :: "time \<Rightarrow> mapped_variant \<Rightarrow> variant_row \<Rightarrow> variant_row" where
  "refresh_variant now m v =
     v \<lparr> v_delistedAt := None, v_barcode := mv_barcode m, v_salePrice := mv_salePrice m,
         v_listPrice := mv_listPrice m, v_quantity := mv_quantity m, v_listing := mv_listing m,
         v_syncedCommissionRate := mv_syncedCommissionRate m,
         v_syncedDimensionalWeight := mv_syncedDimensionalWeight m, v_lastSyncedAt := now \<rparr>"

definition upsert_variant :: "time \<Rightarrow> store_row \<Rightarrow> id \<Rightarrow> db \<Rightarrow> mapped_variant \<Rightarrow> db" where
  "upsert_variant now st pid d m =
     (let key = variant_key (s_id st) (mv_platformVariantId m) in
      if list_ex key (db_variants d)
      then d \<lparr> db_variants := update_where key (refresh_variant now m) (db_variants d) \<rparr>
      else d \<lparr> db_variants := db_variants d @ [new_variant now st pid m (db_nextId d)],
               db_nextId := Suc (db_nextId d) \<rparr>)"

definition finish_product :: "id \<Rightarrow> mapped_product \<Rightarrow> db \<Rightarrow> db" where
  "finish_product pid m d =
     (let (stock, lo, hi) = computeProductAggregates (map (\<lambda>v. (mv_quantity v, mv_salePrice v)) (mp_variants m))
      in d \<lparr> db_products := update_where (\<lambda>p. p_id p = pid)
               (\<lambda>p. p \<lparr> p_totalStock := stock, p_minSalePrice := lo, p_maxSalePrice := hi,
                        p_images := mp_images m \<rparr>) (db_products d) \<rparr>)"

text \<open>One content in its own transaction; \<open>None\<close> is a statement that failed.\<close>

definition upsert_content :: "time \<Rightarrow> store_row \<Rightarrow> mapped_product \<Rightarrow> db \<Rightarrow> db option" where
  "upsert_content now st m d =
     (if list_all variant_fits (mp_variants m) \<and> int4 (sum_list (map mv_quantity (mp_variants m)))
      then Some (let (pid, d1) = upsert_product now st m d
                 in finish_product pid m (foldl (upsert_variant now st pid) d1 (mp_variants m)))
      else None)"

definition write_content :: "time \<Rightarrow> store_row \<Rightarrow> db \<Rightarrow> mapped_product \<Rightarrow> db" where
  "write_content now st d m = (case upsert_content now st m d of None \<Rightarrow> d | Some d' \<Rightarrow> d')"

definition upsertCatalogBatch :: "time \<Rightarrow> store_row \<Rightarrow> mapped_product list \<Rightarrow> db \<Rightarrow> db" where
  "upsertCatalogBatch now st batch d = foldl (write_content now st) d batch"

section \<open>Repair by barcode\<close>

record catalog_env =
  kx_credentials :: "store_row \<Rightarrow> thrown + unit"
  kx_byBarcode :: "store_row \<Rightarrow> string \<Rightarrow> thrown + approved_response"

definition no_products :: products_page where
  "no_products = \<lparr> pp_batch = [], pp_meta = \<lparr> pm_totalElements = 0, pm_totalPages = 0, pm_nextPageToken = None \<rparr> \<rparr>"

definition fetchProductsByBarcode :: "catalog_env \<Rightarrow> store_row \<Rightarrow> string \<Rightarrow> thrown + products_page" where
  "fetchProductsByBarcode K st b =
     (case kx_byBarcode K st b of
        Inr r \<Rightarrow> Inr (mapTrendyolApprovedResponse r)
      | Inl e \<Rightarrow> if errorCodeOf e = MARKETPLACE_UNREACHABLE \<and> extractHttpStatus e = 404
                 then Inr no_products else Inl e)"

record ensure_result =
  er_resolved :: "string list"
  er_vendorMissing :: "string list"
  er_retriable :: "string list"

definition DEFAULT_MAX_VENDOR_CALLS :: nat where "DEFAULT_MAX_VENDOR_CALLS = 5"

text \<open>\<open>[...new Set(xs)]\<close>: the first occurrence of each element, in order.\<close>

definition unique_list :: "'a list \<Rightarrow> 'a list" where
  "unique_list xs = rev (remdups (rev xs))"

definition known_barcode :: "id \<Rightarrow> db \<Rightarrow> string \<Rightarrow> bool" where
  "known_barcode sid d b \<longleftrightarrow> list_ex (\<lambda>v. v_storeId v = sid \<and> v_barcode v = b) (db_variants d)"

definition fetch_barcode :: "catalog_env \<Rightarrow> time \<Rightarrow> store_row \<Rightarrow> db \<times> string list \<Rightarrow> string \<Rightarrow> db \<times> string list" where
  "fetch_barcode K now st s b =
     (case fetchProductsByBarcode K st b of
        Inl e \<Rightarrow> s
      | Inr page \<Rightarrow>
          if pp_batch page \<noteq> [] then (upsertCatalogBatch now st (pp_batch page) (fst s), snd s)
          else (fst s, snd s @ [b]))"

definition ensureBarcodesInCatalog ::
  "catalog_env \<Rightarrow> time \<Rightarrow> store_row \<Rightarrow> string list \<Rightarrow> nat option \<Rightarrow> db \<Rightarrow> ensure_result \<times> db" where
  "ensureBarcodesInCatalog K now st barcodes maxCalls d =
     (let distinct = unique_list (filter (\<lambda>b. b \<noteq> []) barcodes);
          unknown = filter (\<lambda>b. \<not> known_barcode (s_id st) d b) distinct
      in if distinct = [] then (\<lparr> er_resolved = [], er_vendorMissing = [], er_retriable = [] \<rparr>, d)
         else if unknown = [] then (\<lparr> er_resolved = distinct, er_vendorMissing = [], er_retriable = [] \<rparr>, d)
         else
           (case kx_credentials K st of
              Inl e \<Rightarrow> (\<lparr> er_resolved = filter (known_barcode (s_id st) d) distinct, er_vendorMissing = [],
                         er_retriable = unknown \<rparr>, d)
            | Inr _ \<Rightarrow>
                (let toFetch = take (or_else maxCalls DEFAULT_MAX_VENDOR_CALLS) unknown;
                     (d', missed) = foldl (fetch_barcode K now st) (d, []) toFetch;
                     open' = filter (\<lambda>b. \<not> known_barcode (s_id st) d' b) distinct
                 in (\<lparr> er_resolved = filter (known_barcode (s_id st) d') distinct,
                       er_vendorMissing = filter (\<lambda>b. b \<in> set missed) open',
                       er_retriable = filter (\<lambda>b. b \<notin> set missed) open' \<rparr>, d'))))"

end
