(* ===== verification/Products_Job.thy ===== *)
theory Products_Job
  imports Catalog
begin

text \<open>
  The catalogue jobs of the worker, one page per chunk: the full scan with its pass over absent
  variants (\<open>src/apps/sync-worker/src/handlers/products.ts\<close>) and the hourly refresh of stock and prices
  (\<open>products-delta.ts\<close>, \<open>products-delta-diff.ts\<close>, fetched by
  \<open>src/packages/marketplace/src/trendyol/inventory-price.ts\<close>). The marketplace is a parameter, a function of the
  cursor; the generators of the marketplace package are asked for one page only, so their first step is all
  that is modelled of them.
\<close>

section \<open>The full scan\<close>

record products_env =
  px_credentials :: "store_row \<Rightarrow> thrown + unit"
  px_page :: "store_row \<Rightarrow> products_cursor \<Rightarrow> thrown + approved_response"
  px_libMsg :: "sync_error \<Rightarrow> string"

definition PRODUCTS_PAGE_SIZE :: nat where "PRODUCTS_PAGE_SIZE = 100"
definition APPROVED_PAGE_CAP_ITEMS :: nat where "APPROVED_PAGE_CAP_ITEMS = 10000"

definition first_request :: "products_cursor option \<Rightarrow> products_cursor" where
  "first_request c = (case c of None \<Rightarrow> PageCursor 0 | Some c \<Rightarrow> c)"

text \<open>The first step of the generator: \<open>None\<close> is a generator that is done.\<close>

definition fetchApprovedProducts ::
  "products_env \<Rightarrow> store_row \<Rightarrow> products_cursor option \<Rightarrow> thrown + products_page option" where
  "fetchApprovedProducts P st c =
     bindR (px_page P st (first_request c)) (\<lambda>raw.
       let mapped = mapTrendyolApprovedResponse raw
       in Inr (if pp_batch mapped = [] then None else Some mapped))"

datatype delist_done_reason = EmptyPage | EmptyBatch | ReachedEnd | TruncatedPastCap
datatype delist_skip_reason = SkippedPages | PastCap | UntrustedEmptyScan
datatype delist_decision = RunPass | SkipPass delist_skip_reason

definition shouldRunDelistPass ::
  "skipped_page list \<Rightarrow> delist_done_reason \<Rightarrow> int \<Rightarrow> nat option \<Rightarrow> delist_decision" where
  "shouldRunDelistPass skips reason progressCurrent observed =
     (if skips \<noteq> [] then SkipPass SkippedPages
      else case reason of
        ReachedEnd \<Rightarrow> RunPass
      | TruncatedPastCap \<Rightarrow> SkipPass PastCap
      | _ \<Rightarrow> if 0 < progressCurrent \<or> observed = Some 0 then RunPass else SkipPass UntrustedEmptyScan)"

definition delist_absent :: "time \<Rightarrow> id \<Rightarrow> time \<Rightarrow> db \<Rightarrow> db" where
  "delist_absent now sid startedAt d =
     d \<lparr> db_variants := update_where
           (\<lambda>v. v_storeId v = sid \<and> v_lastSyncedAt v < startedAt \<and> v_delistedAt v = None)
           (\<lambda>v. v \<lparr> v_delistedAt := Some now \<rparr>) (db_variants d) \<rparr>"

definition runDelistPassIfComplete ::
  "time \<Rightarrow> sync_log \<Rightarrow> delist_done_reason \<Rightarrow> nat option \<Rightarrow> db \<Rightarrow> sync_error + db" where
  "runDelistPassIfComplete now l reason observed d =
     bindR (parseSkippedPages (l_skippedPages l)) (\<lambda>skips.
       Inr (case shouldRunDelistPass skips reason (l_progressCurrent l) observed of
              RunPass \<Rightarrow> delist_absent now (l_storeId l) (l_startedAt l) d
            | SkipPass _ \<Rightarrow> d))"

text \<open>A saved token below the cap is replaced by the page the progress corresponds to.\<close>

definition scan_cursor :: "sync_log \<Rightarrow> products_cursor option \<Rightarrow> products_cursor option" where
  "scan_cursor l c =
     (case c of
        Some (TokenCursor t) \<Rightarrow>
          if l_progressCurrent l < int APPROVED_PAGE_CAP_ITEMS
          then Some (PageCursor (nat (l_progressCurrent l div int PRODUCTS_PAGE_SIZE))) else c
      | _ \<Rightarrow> c)"

definition last_documented_page :: "products_cursor option \<Rightarrow> page_meta \<Rightarrow> bool" where
  "last_documented_page c m \<longleftrightarrow>
     (case first_request c of
        PageCursor n \<Rightarrow> 0 < pm_totalPages m \<and> pm_totalPages m - 1 \<le> n
      | TokenCursor t \<Rightarrow> False)"

text \<open>The next cursor, or \<open>None\<close> for a walk past the cap without a token to go on with.\<close>

definition next_cursor :: "int \<Rightarrow> products_cursor option \<Rightarrow> page_meta \<Rightarrow> products_cursor option" where
  "next_cursor progressCurrent c m =
     (case first_request c of
        TokenCursor t \<Rightarrow> map_option TokenCursor (pm_nextPageToken m)
      | PageCursor n \<Rightarrow>
          if int APPROVED_PAGE_CAP_ITEMS
             \<le> (progressCurrent div int PRODUCTS_PAGE_SIZE + 1) * int PRODUCTS_PAGE_SIZE
          then map_option TokenCursor (pm_nextPageToken m)
          else Some (PageCursor (n + 1)))"

text \<open>What a chunk does with a page of the marketplace, once it has one.\<close>

definition scan_page ::
  "time \<Rightarrow> sync_log \<Rightarrow> store_row \<Rightarrow> products_cursor option \<Rightarrow> products_page option \<Rightarrow> db \<Rightarrow>
   (sync_error + chunk_result) \<times> db" where
  "scan_page now l st c page d =
     (case page of
        None \<Rightarrow>
          (case runDelistPassIfComplete now l EmptyPage None d of
             Inl e \<Rightarrow> (Inl e, d) | Inr d' \<Rightarrow> (Inr (Done (l_progressCurrent l)), d'))
      | Some p \<Rightarrow>
          (let d1 = upsertCatalogBatch now st (pp_batch p) d;
               newProgress = l_progressCurrent l + int (length (pp_batch p));
               total = pm_totalElements (pp_meta p);
               finish = (\<lambda>reason. case runDelistPassIfComplete now l reason (Some total) d1 of
                           Inl e \<Rightarrow> (Inl e, d1) | Inr d2 \<Rightarrow> (Inr (Done newProgress), d2))
           in if pp_batch p = [] then
                (case runDelistPassIfComplete now l EmptyBatch (Some total) d of
                   Inl e \<Rightarrow> (Inl e, d) | Inr d' \<Rightarrow> (Inr (Done (l_progressCurrent l)), d'))
              else if int total \<le> newProgress \<or> last_documented_page c (pp_meta p) then finish ReachedEnd
              else case next_cursor (l_progressCurrent l) c (pp_meta p) of
                     None \<Rightarrow> finish TruncatedPastCap
                   | Some c' \<Rightarrow>
                       (Inr (Continue \<lparr> ti_cursor = Some (products_cursor_json c'), ti_progress = newProgress,
                               ti_total = Some (int total), ti_stage = ''upserting'' \<rparr>), d1)))"

text \<open>The dispatcher hands the cursor over decoded; a raw one is parsed by the handler.\<close>

fun handed_cursor :: "decoded_cursor \<Rightarrow> sync_error + products_cursor option" where
  "handed_cursor (DProducts c) = Inr c"
| "handed_cursor (DRaw raw) = parseProductsCursor raw"

definition processProductsChunk :: "products_env \<Rightarrow> settlement_world handler" where
  "processProductsChunk P l cursor w s =
     (let (W, q) = s; now = sw_now W in
      case handed_cursor cursor of
        Inl e \<Rightarrow> (Inl (thrown_of (px_libMsg P) e), s)
      | Inr raw \<Rightarrow>
          (let c = scan_cursor l raw in
           case find_store (l_storeId l) (sw_db W) of
             None \<Rightarrow> (Inl store_missing, s)
           | Some st \<Rightarrow>
               (case px_credentials P st of
                  Inl e \<Rightarrow> (Inl e, s)
                | Inr _ \<Rightarrow>
                    (case fetchApprovedProducts P st c of
                       Inl e \<Rightarrow> (Inl e, s)
                     | Inr page \<Rightarrow>
                         (let (r, d) = scan_page now l st c page (sw_db W)
                          in (case r of Inl e \<Rightarrow> Inl (thrown_of (px_libMsg P) e) | Inr x \<Rightarrow> Inr x,
                              W \<lparr> sw_db := d \<rparr>, q))))))"

section \<open>The hourly refresh\<close>

record inventory_variant_wire =
  iw_variantId :: int
  iw_barcode :: string
  iw_salePrice :: "rat option"
  iw_listPrice :: "rat option"
  iw_quantity :: "int option"

record inventory_content_wire =
  ic_contentId :: int
  ic_productMainId :: string
  ic_variants :: "inventory_variant_wire list option"

record inventory_response =
  ir_content :: "inventory_content_wire list"
  ir_meta :: page_meta

record inventory_variant =
  iv_platformVariantId :: int
  iv_barcode :: string
  iv_quantity :: int
  iv_salePrice :: rat
  iv_listPrice :: rat

record inventory_page =
  ip_batch :: "inventory_variant list"
  ip_contentCount :: nat
  ip_meta :: page_meta

definition mapInventoryVariant :: "inventory_variant_wire \<Rightarrow> inventory_variant" where
  "mapInventoryVariant v =
     \<lparr> iv_platformVariantId = iw_variantId v, iv_barcode = iw_barcode v, iv_quantity = or_else (iw_quantity v) 0,
       iv_salePrice = priceToDecimalString (iw_salePrice v), iv_listPrice = priceToDecimalString (iw_listPrice v) \<rparr>"

definition mapInventoryResponse :: "inventory_response \<Rightarrow> inventory_page" where
  "mapInventoryResponse r =
     \<lparr> ip_batch = concat (map (\<lambda>c. map mapInventoryVariant (or_else (ic_variants c) [])) (ir_content r)),
       ip_contentCount = length (ir_content r), ip_meta = ir_meta r \<rparr>"

record delta_env =
  qx_credentials :: "store_row \<Rightarrow> thrown + unit"
  qx_page :: "store_row \<Rightarrow> products_cursor \<Rightarrow> thrown + inventory_response"
  qx_libMsg :: "sync_error \<Rightarrow> string"
  qx_rangeError :: thrown              \<comment> \<open>a value out of a column's range\<close>

definition fetchInventoryAndPrice ::
  "delta_env \<Rightarrow> store_row \<Rightarrow> products_cursor option \<Rightarrow> thrown + inventory_page option" where
  "fetchInventoryAndPrice Q st c =
     bindR (qx_page Q st (first_request c)) (\<lambda>raw.
       let mapped = mapInventoryResponse raw
       in Inr (if ip_contentCount mapped = 0 then None else Some mapped))"

record variant_update =
  vu_id :: id
  vu_productId :: id
  vu_quantity :: int
  vu_salePrice :: rat
  vu_listPrice :: rat
  vu_clearDelistedAt :: bool

definition existing_variant :: "id \<Rightarrow> db \<Rightarrow> int \<Rightarrow> variant_row option" where
  "existing_variant sid d pv = find (variant_key sid pv) (db_variants d)"

definition variant_change :: "inventory_variant \<Rightarrow> variant_row \<Rightarrow> variant_update option" where
  "variant_change f v =
     (if v_quantity v = iv_quantity f \<and> v_salePrice v = iv_salePrice f \<and> v_listPrice v = iv_listPrice f
         \<and> v_delistedAt v = None
      then None
      else Some \<lparr> vu_id = v_id v, vu_productId = v_productId v, vu_quantity = iv_quantity f,
                  vu_salePrice = iv_salePrice f, vu_listPrice = iv_listPrice f,
                  vu_clearDelistedAt = (v_delistedAt v \<noteq> None) \<rparr>)"

record variant_changes =
  vc_updates :: "variant_update list"
  vc_affectedProductIds :: "id list"
  vc_unknownCount :: nat

definition computeVariantChanges :: "inventory_variant list \<Rightarrow> (int \<Rightarrow> variant_row option) \<Rightarrow> variant_changes" where
  "computeVariantChanges fetched existing =
     (let updates = List.map_filter (\<lambda>f. Option.bind (existing (iv_platformVariantId f)) (variant_change f)) fetched
      in \<lparr> vc_updates = updates, vc_affectedProductIds = unique_list (map vu_productId updates),
           vc_unknownCount = length (filter (\<lambda>f. existing (iv_platformVariantId f) = None) fetched) \<rparr>)"

definition update_fits :: "variant_update \<Rightarrow> bool" where
  "update_fits u \<longleftrightarrow> int4 (vu_quantity u) \<and> \<bar>vu_salePrice u\<bar> < 10 ^ 10 \<and> \<bar>vu_listPrice u\<bar> < 10 ^ 10"

definition write_update :: "db \<Rightarrow> variant_update \<Rightarrow> db" where
  "write_update d u =
     d \<lparr> db_variants := update_where (\<lambda>v. v_id v = vu_id u)
           (\<lambda>v. v \<lparr> v_quantity := vu_quantity u, v_salePrice := vu_salePrice u, v_listPrice := vu_listPrice u,
                    v_delistedAt := (if vu_clearDelistedAt u then None else v_delistedAt v) \<rparr>) (db_variants d) \<rparr>"

definition reaggregate :: "db \<Rightarrow> id \<Rightarrow> db" where
  "reaggregate d pid =
     (let (stock, lo, hi) = computeProductAggregates (map (\<lambda>v. (v_quantity v, v_salePrice v)) (variants_of pid d))
      in d \<lparr> db_products := update_where (\<lambda>p. p_id p = pid)
               (\<lambda>p. p \<lparr> p_totalStock := stock, p_minSalePrice := lo, p_maxSalePrice := hi \<rparr>) (db_products d) \<rparr>)"

definition aggregates_fit :: "db \<Rightarrow> id \<Rightarrow> bool" where
  "aggregates_fit d pid \<longleftrightarrow> int4 (sum_list (map v_quantity (variants_of pid d)))"

text \<open>The transaction of a page: \<open>None\<close> is a value out of range.\<close>

definition write_changes :: "variant_changes \<Rightarrow> db \<Rightarrow> db option" where
  "write_changes ch d =
     (let d1 = foldl write_update d (vc_updates ch)
      in if list_all update_fits (vc_updates ch) \<and> list_all (aggregates_fit d1) (vc_affectedProductIds ch)
         then Some (foldl reaggregate d1 (vc_affectedProductIds ch)) else None)"

definition delta_page ::
  "delta_env \<Rightarrow> sync_log \<Rightarrow> store_row \<Rightarrow> products_cursor option \<Rightarrow> inventory_page option \<Rightarrow> db \<Rightarrow>
   (thrown + chunk_result) \<times> db" where
  "delta_page Q l st c page d =
     (case page of
        None \<Rightarrow> (Inr (Done (l_progressCurrent l)), d)
      | Some p \<Rightarrow>
          if ip_contentCount p = 0 then (Inr (Done (l_progressCurrent l)), d)
          else
            (case write_changes (computeVariantChanges (ip_batch p) (existing_variant (s_id st) d)) d of
               None \<Rightarrow> (Inl (qx_rangeError Q), d)
             | Some d1 \<Rightarrow>
                 (let newProgress = l_progressCurrent l + int (ip_contentCount p);
                      total = pm_totalElements (ip_meta p)
                  in if int total \<le> newProgress \<or> last_documented_page c (ip_meta p)
                     then (Inr (Done newProgress), d1)
                     else case next_cursor (l_progressCurrent l) c (ip_meta p) of
                            None \<Rightarrow> (Inr (Done newProgress), d1)
                          | Some c' \<Rightarrow>
                              (Inr (Continue \<lparr> ti_cursor = Some (products_cursor_json c'),
                                      ti_progress = newProgress, ti_total = Some (int total),
                                      ti_stage = ''diffing'' \<rparr>), d1))))"

definition processProductsDeltaChunk :: "delta_env \<Rightarrow> settlement_world handler" where
  "processProductsDeltaChunk Q l cursor w s =
     (let (W, q) = s in
      case handed_cursor cursor of
        Inl e \<Rightarrow> (Inl (thrown_of (qx_libMsg Q) e), s)
      | Inr c \<Rightarrow>
          (case find_store (l_storeId l) (sw_db W) of
             None \<Rightarrow> (Inl store_missing, s)
           | Some st \<Rightarrow>
               (case qx_credentials Q st of
                  Inl e \<Rightarrow> (Inl e, s)
                | Inr _ \<Rightarrow>
                    (case fetchInventoryAndPrice Q st c of
                       Inl e \<Rightarrow> (Inl e, s)
                     | Inr page \<Rightarrow>
                         (let (r, d) = delta_page Q l st c page (sw_db W) in (r, W \<lparr> sw_db := d \<rparr>, q))))))"

end
