(* ===== verification/Catalog_Props.thy ===== *)
theory Catalog_Props
  imports Products_Job
begin

text \<open>
  What the catalogue jobs guarantee: the unique keys of the products and variants and what a seller set on
  a variant survive every write, other stores are untouched, and a full scan delists exactly the variants
  it did not write.
\<close>

section \<open>The tables of the catalogue\<close>

definition catalog_ok :: "db \<Rightarrow> bool" where
  "catalog_ok d \<longleftrightarrow>
     ids_ok v_id (db_variants d) (db_nextId d) \<and> ids_ok p_id (db_products d) (db_nextId d)
   \<and> distinct (map (\<lambda>v. (v_storeId v, v_platformVariantId v)) (db_variants d))
   \<and> distinct (map (\<lambda>p. (p_storeId p, p_platformContentId p)) (db_products d))
   \<and> (\<forall>v \<in> set (db_variants d). \<exists>p \<in> set (db_products d). p_id p = v_productId v \<and> p_storeId p = v_storeId v)"

lemma bex_update_where:
  assumes "\<exists>x \<in> set xs. R x" and "\<And>x. P x \<Longrightarrow> R (f x) = R x"
  shows "\<exists>x \<in> set (update_where P f xs). R x"
proof -
  obtain x where "x \<in> set xs" "R x" using assms(1) by blast
  then show ?thesis using assms(2) by (intro bexI [of _ "if P x then f x else x"]) (auto simp: set_update_where)
qed

text \<open>What a write of the catalogue may not change of a variant, the seller's own desi among it.\<close>

definition own_columns :: "variant_row \<Rightarrow> (id \<times> id \<times> id \<times> id \<times> int) \<times> bool \<times> rat option" where
  "own_columns v = ((v_id v, v_organizationId v, v_storeId v, v_productId v, v_platformVariantId v),
                    v_isDigital v, v_dimensionalWeight v)"

definition product_ids :: "product_row \<Rightarrow> id \<times> id \<times> id \<times> int" where
  "product_ids p = (p_id p, p_organizationId p, p_storeId p, p_platformContentId p)"

text \<open>Both tables grow at the end, the rows of other stores and all other tables stay as they are.\<close>

definition catalog_written :: "id \<Rightarrow> db \<Rightarrow> db \<Rightarrow> bool" where
  "catalog_written sid d d' \<longleftrightarrow>
     (\<exists>vs. map own_columns (db_variants d') = map own_columns (db_variants d) @ vs)
   \<and> (\<exists>ps. map product_ids (db_products d') = map product_ids (db_products d) @ ps)
   \<and> filter (\<lambda>v. v_storeId v \<noteq> sid) (db_variants d') = filter (\<lambda>v. v_storeId v \<noteq> sid) (db_variants d)
   \<and> filter (\<lambda>p. p_storeId p \<noteq> sid) (db_products d') = filter (\<lambda>p. p_storeId p \<noteq> sid) (db_products d)
   \<and> d' \<lparr> db_variants := [], db_products := [], db_nextId := 0 \<rparr>
     = d \<lparr> db_variants := [], db_products := [], db_nextId := 0 \<rparr>"

lemma written_refl: "catalog_written sid d d"
  by (simp add: catalog_written_def)

lemma written_trans:
  assumes "catalog_written sid a b" and "catalog_written sid b c"
  shows "catalog_written sid a c"
proof -
  obtain v1 v2 p1 p2 where
    "map own_columns (db_variants b) = map own_columns (db_variants a) @ v1"
    "map own_columns (db_variants c) = map own_columns (db_variants b) @ v2"
    "map product_ids (db_products b) = map product_ids (db_products a) @ p1"
    "map product_ids (db_products c) = map product_ids (db_products b) @ p2"
    using assms unfolding catalog_written_def by blast
  then have "map own_columns (db_variants c) = map own_columns (db_variants a) @ (v1 @ v2)"
    "map product_ids (db_products c) = map product_ids (db_products a) @ (p1 @ p2)" by simp_all
  moreover have "filter (\<lambda>v. v_storeId v \<noteq> sid) (db_variants c) = filter (\<lambda>v. v_storeId v \<noteq> sid) (db_variants a)"
    "filter (\<lambda>p. p_storeId p \<noteq> sid) (db_products c) = filter (\<lambda>p. p_storeId p \<noteq> sid) (db_products a)"
    "c \<lparr> db_variants := [], db_products := [], db_nextId := 0 \<rparr> = a \<lparr> db_variants := [], db_products := [], db_nextId := 0 \<rparr>"
    using assms by (simp_all add: catalog_written_def)
  ultimately show ?thesis unfolding catalog_written_def by blast
qed

section \<open>One content\<close>

lemma upsert_variant_sel [simp]:
  "db_products (upsert_variant now st pid d m) = db_products d"
  by (simp add: upsert_variant_def Let_def)

lemma own_refresh [simp]: "own_columns (refresh_variant now m v) = own_columns v"
  by (simp add: own_columns_def refresh_variant_def)

lemma refresh_variant_sel [simp]:
  "v_id (refresh_variant now m v) = v_id v" "v_storeId (refresh_variant now m v) = v_storeId v"
  "v_productId (refresh_variant now m v) = v_productId v"
  "v_platformVariantId (refresh_variant now m v) = v_platformVariantId v"
  "v_lastSyncedAt (refresh_variant now m v) = now" "v_delistedAt (refresh_variant now m v) = None"
  by (simp_all add: refresh_variant_def)

lemma refresh_product_sel [simp]:
  "p_id (refresh_product now m p) = p_id p" "p_storeId (refresh_product now m p) = p_storeId p"
  "p_platformContentId (refresh_product now m p) = p_platformContentId p"
  "p_organizationId (refresh_product now m p) = p_organizationId p"
  by (simp_all add: refresh_product_def)

lemma variant_written:
  "catalog_written (s_id st) d (upsert_variant now st pid d m)"
proof (cases "list_ex (variant_key (s_id st) (mv_platformVariantId m)) (db_variants d)")
  case True
  have "filter (\<lambda>v. v_storeId v \<noteq> s_id st)
      (update_where (variant_key (s_id st) (mv_platformVariantId m)) (refresh_variant now m) (db_variants d))
    = filter (\<lambda>v. v_storeId v \<noteq> s_id st) (db_variants d)"
    by (rule filter_update_where_disjoint) (simp add: variant_key_def)
  then show ?thesis
    using True by (simp add: catalog_written_def upsert_variant_def Let_def map_update_where)
next
  case False
  then show ?thesis by (simp add: catalog_written_def upsert_variant_def Let_def new_variant_def)
qed

lemma variants_written:
  "catalog_written (s_id st) d (foldl (upsert_variant now st pid) d ms)"
proof (induction ms arbitrary: d)
  case (Cons m ms)
  show ?case using written_trans [OF variant_written Cons.IH] by simp
qed (simp add: written_refl)

lemma product_written:
  assumes "upsert_product now st m d = (pid, d1)"
  shows "catalog_written (s_id st) d d1" and "db_variants d1 = db_variants d"
    and "\<exists>p \<in> set (db_products d1). p_id p = pid \<and> p_storeId p = s_id st"
proof -
  let ?key = "product_key (s_id st) (mp_platformContentId m)"
  have *: "catalog_written (s_id st) d d1 \<and> db_variants d1 = db_variants d
    \<and> (\<exists>p \<in> set (db_products d1). p_id p = pid \<and> p_storeId p = s_id st)"
  proof (cases "find ?key (db_products d)")
    case None
    then show ?thesis
      using assms by (auto simp: upsert_product_def Let_def catalog_written_def new_product_def)
  next
    case (Some p)
    then have p: "p \<in> set (db_products d)" "?key p" by (auto dest: find_Some_in)
    have d1: "pid = p_id p" "d1 = d \<lparr> db_products := update_where ?key (refresh_product now m) (db_products d) \<rparr>"
      using assms Some by (auto simp: upsert_product_def Let_def)
    have "filter (\<lambda>p. p_storeId p \<noteq> s_id st) (update_where ?key (refresh_product now m) (db_products d))
        = filter (\<lambda>p. p_storeId p \<noteq> s_id st) (db_products d)"
      by (rule filter_update_where_disjoint) (simp add: product_key_def)
    moreover have "refresh_product now m p \<in> set (db_products d1)"
      using p by (auto simp: d1(2) set_update_where)
    ultimately show ?thesis
      using p(2) by (auto simp: d1 catalog_written_def map_update_where product_ids_def product_key_def
          intro!: bexI [of _ "refresh_product now m p"])
  qed
  then show "catalog_written (s_id st) d d1" "db_variants d1 = db_variants d"
    "\<exists>p \<in> set (db_products d1). p_id p = pid \<and> p_storeId p = s_id st" by blast+
qed

lemma finish_written:
  assumes "\<exists>p \<in> set (db_products d). p_id p = pid \<and> p_storeId p = sid" and "ids_ok p_id (db_products d) n"
  shows "catalog_written sid d (finish_product pid m d)" and "db_variants (finish_product pid m d) = db_variants d"
proof -
  obtain stock lo hi where agg: "computeProductAggregates (map (\<lambda>v. (mv_quantity v, mv_salePrice v)) (mp_variants m)) = (stock, lo, hi)"
    by (metis surj_pair)
  obtain p where p: "p \<in> set (db_products d)" "p_id p = pid" "p_storeId p = sid" using assms(1) by blast
  have own: "p_storeId q = sid" if "q \<in> set (db_products d)" "p_id q = pid" for q
    using ids_ok_same [OF assms(2) that(1) p(1)] that(2) p(2,3) by simp
  have "filter (\<lambda>p. p_storeId p \<noteq> sid) (update_where (\<lambda>p. p_id p = pid)
      (\<lambda>p. p \<lparr> p_totalStock := stock, p_minSalePrice := lo, p_maxSalePrice := hi, p_images := mp_images m \<rparr>) (db_products d))
    = filter (\<lambda>p. p_storeId p \<noteq> sid) (db_products d)"
    by (rule filter_update_where_disjoint) (simp add: own)
  then show "catalog_written sid d (finish_product pid m d)"
    by (simp add: catalog_written_def finish_product_def agg map_update_where product_ids_def)
  show "db_variants (finish_product pid m d) = db_variants d" by (simp add: finish_product_def agg)
qed

section \<open>The keys\<close>

lemma product_ids_map: "map p_id ps = map fst (map product_ids ps)"
  by (simp add: product_ids_def comp_def)

lemma catalog_ok_variant:
  assumes ok: "catalog_ok d" and p: "\<exists>p \<in> set (db_products d). p_id p = pid \<and> p_storeId p = s_id st"
  shows "catalog_ok (upsert_variant now st pid d m)"
proof (cases "list_ex (variant_key (s_id st) (mv_platformVariantId m)) (db_variants d)")
  case True
  then show ?thesis
    using ok by (auto simp: catalog_ok_def upsert_variant_def Let_def ids_ok_def map_update_where set_update_where)
next
  case False
  let ?n = "new_variant now st pid m (db_nextId d)"
  have "(v_storeId ?n, v_platformVariantId ?n) \<notin> (\<lambda>v. (v_storeId v, v_platformVariantId v)) ` set (db_variants d)"
    using False by (auto simp: new_variant_def list_ex_iff variant_key_def)
  moreover have "ids_ok v_id (db_variants d @ [?n]) (Suc (db_nextId d))"
    using ok by (intro ids_ok_snoc) (simp_all add: catalog_ok_def new_variant_def)
  moreover have "ids_ok p_id (db_products d) (Suc (db_nextId d))"
    using ok by (auto simp: catalog_ok_def intro: ids_ok_mono)
  moreover have "v_productId ?n = pid" "v_storeId ?n = s_id st" by (simp_all add: new_variant_def)
  ultimately show ?thesis
    using ok p False by (auto simp: catalog_ok_def upsert_variant_def Let_def)
qed

lemma catalog_ok_variants:
  "catalog_ok d \<Longrightarrow> \<exists>p \<in> set (db_products d). p_id p = pid \<and> p_storeId p = s_id st \<Longrightarrow>
   catalog_ok (foldl (upsert_variant now st pid) d ms) \<and> db_products (foldl (upsert_variant now st pid) d ms) = db_products d"
  by (induction ms arbitrary: d) (simp_all add: catalog_ok_variant)

lemma catalog_ok_product:
  assumes ok: "catalog_ok d" and d1: "upsert_product now st m d = (pid, d1)"
  shows "catalog_ok d1"
proof (cases "find (product_key (s_id st) (mp_platformContentId m)) (db_products d)")
  case None
  let ?n = "new_product now st m (db_nextId d)"
  have d1': "d1 = d \<lparr> db_products := db_products d @ [?n], db_nextId := Suc (db_nextId d) \<rparr>"
    using d1 None by (auto simp: upsert_product_def Let_def)
  have "(p_storeId ?n, p_platformContentId ?n) \<notin> (\<lambda>p. (p_storeId p, p_platformContentId p)) ` set (db_products d)"
    using None by (auto simp: new_product_def find_None_iff product_key_def)
  moreover have "ids_ok p_id (db_products d @ [?n]) (Suc (db_nextId d))"
    using ok by (intro ids_ok_snoc) (simp_all add: catalog_ok_def new_product_def)
  moreover have "ids_ok v_id (db_variants d) (Suc (db_nextId d))"
    using ok by (auto simp: catalog_ok_def intro: ids_ok_mono)
  ultimately show ?thesis using ok unfolding d1' by (auto simp: catalog_ok_def)
next
  case (Some p)
  then have d1': "d1 = d \<lparr> db_products := update_where (product_key (s_id st) (mp_platformContentId m)) (refresh_product now m) (db_products d) \<rparr>"
    using d1 by (auto simp: upsert_product_def Let_def)
  have e: "db_products d1 = update_where (product_key (s_id st) (mp_platformContentId m)) (refresh_product now m) (db_products d)"
    by (simp add: d1')
  have "\<exists>p \<in> set (db_products d1). p_id p = v_productId v \<and> p_storeId p = v_storeId v"
    if "v \<in> set (db_variants d)" for v
    unfolding e by (rule bex_update_where) (use ok that in \<open>auto simp: catalog_ok_def\<close>)
  then show ?thesis
    using ok unfolding d1' by (simp add: catalog_ok_def ids_ok_alt map_update_where)
qed

lemma catalog_ok_finish:
  assumes ok: "catalog_ok d"
  shows "catalog_ok (finish_product pid m d)"
proof -
  obtain stock lo hi where agg: "computeProductAggregates (map (\<lambda>v. (mv_quantity v, mv_salePrice v)) (mp_variants m)) = (stock, lo, hi)"
    by (metis surj_pair)
  have e: "db_products (finish_product pid m d) = update_where (\<lambda>p. p_id p = pid)
      (\<lambda>p. p \<lparr> p_totalStock := stock, p_minSalePrice := lo, p_maxSalePrice := hi, p_images := mp_images m \<rparr>) (db_products d)"
    by (simp add: finish_product_def agg)
  have "\<exists>p \<in> set (db_products (finish_product pid m d)). p_id p = v_productId v \<and> p_storeId p = v_storeId v"
    if "v \<in> set (db_variants d)" for v
    unfolding e
    by (rule bex_update_where) (use ok that in \<open>auto simp: catalog_ok_def\<close>)
  then show ?thesis using ok by (simp add: catalog_ok_def finish_product_def agg ids_ok_alt map_update_where)
qed

definition content_fits :: "mapped_product \<Rightarrow> bool" where
  "content_fits m \<longleftrightarrow> list_all variant_fits (mp_variants m) \<and> int4 (sum_list (map mv_quantity (mp_variants m)))"

lemma write_content_eq:
  "write_content now st d m =
     (if content_fits m then (let (pid, d1) = upsert_product now st m d
                 in finish_product pid m (foldl (upsert_variant now st pid) d1 (mp_variants m))) else d)"
  by (simp add: write_content_def upsert_content_def content_fits_def)

lemma content_written:
  assumes ok: "catalog_ok d"
  shows "catalog_ok (write_content now st d m)" and "catalog_written (s_id st) d (write_content now st d m)"
proof -
  obtain pid d1 where d1: "upsert_product now st m d = (pid, d1)" by (metis surj_pair)
  let ?d2 = "foldl (upsert_variant now st pid) d1 (mp_variants m)"
  have 2: "catalog_ok ?d2" "db_products ?d2 = db_products d1"
    using catalog_ok_variants [OF catalog_ok_product [OF ok d1] product_written(3) [OF d1]] by auto
  have ids: "ids_ok p_id (db_products ?d2) (db_nextId ?d2)" using 2(1) by (simp add: catalog_ok_def)
  have p: "\<exists>p \<in> set (db_products ?d2). p_id p = pid \<and> p_storeId p = s_id st"
    using product_written(3) [OF d1] unfolding 2(2) .
  have "catalog_written (s_id st) d (finish_product pid m ?d2)"
    by (rule written_trans [OF product_written(1) [OF d1] written_trans [OF variants_written finish_written(1) [OF p ids]]])
  then show "catalog_ok (write_content now st d m)" "catalog_written (s_id st) d (write_content now st d m)"
    using ok catalog_ok_finish [OF 2(1)] by (simp_all add: write_content_eq d1 written_refl)
qed

lemma batch_written:
  "catalog_ok d \<Longrightarrow> catalog_ok (upsertCatalogBatch now st batch d)
     \<and> catalog_written (s_id st) d (upsertCatalogBatch now st batch d)"
proof (induction batch arbitrary: d)
  case (Cons m batch)
  show ?case
    using Cons.IH [OF content_written(1) [OF Cons.prems, of now st m]] content_written(2) [OF Cons.prems, of st now m]
    by (auto simp: upsertCatalogBatch_def intro: written_trans)
qed (simp add: upsertCatalogBatch_def written_refl)

section \<open>What a scan has seen\<close>

definition content_ids :: "mapped_product \<Rightarrow> int set" where
  "content_ids m = (if content_fits m then mv_platformVariantId ` set (mp_variants m) else {})"

definition scan_ids :: "mapped_product list \<Rightarrow> int set" where
  "scan_ids batch = \<Union> (content_ids ` set batch)"

text \<open>The variants in \<open>S\<close> have a row stamped since the scan started, the other ones are older.\<close>

definition scanned_row :: "id \<Rightarrow> time \<Rightarrow> int set \<Rightarrow> variant_row \<Rightarrow> bool" where
  "scanned_row sid t0 S v \<longleftrightarrow>
     (v_storeId v = sid \<longrightarrow>
        (if v_platformVariantId v \<in> S then v_delistedAt v = None \<and> t0 \<le> v_lastSyncedAt v
         else v_lastSyncedAt v < t0))"

definition scanned :: "id \<Rightarrow> time \<Rightarrow> int set \<Rightarrow> db \<Rightarrow> bool" where
  "scanned sid t0 S d \<longleftrightarrow>
     (\<forall>v \<in> set (db_variants d). scanned_row sid t0 S v) \<and> (\<forall>x \<in> S. \<exists>v \<in> set (db_variants d). variant_key sid x v)"

lemma scanned_row_fresh:
  "v_platformVariantId v = x \<Longrightarrow> v_delistedAt v = None \<Longrightarrow> t0 \<le> v_lastSyncedAt v \<Longrightarrow> scanned_row sid t0 (insert x S) v"
  by (simp add: scanned_row_def)

lemma scanned_row_other:
  "\<not> variant_key sid x v \<Longrightarrow> scanned_row sid t0 S v \<Longrightarrow> scanned_row sid t0 (insert x S) v"
  by (simp add: scanned_row_def variant_key_def)

lemma scanned_variant:
  assumes s: "scanned (s_id st) t0 S d" and t: "t0 \<le> now"
  shows "scanned (s_id st) t0 (insert (mv_platformVariantId m) S) (upsert_variant now st pid d m)"
proof (cases "list_ex (variant_key (s_id st) (mv_platformVariantId m)) (db_variants d)")
  case True
  let ?x = "mv_platformVariantId m"
  have v: "db_variants (upsert_variant now st pid d m)
    = update_where (variant_key (s_id st) ?x) (refresh_variant now m) (db_variants d)"
    using True by (simp add: upsert_variant_def Let_def)
  have rows: "scanned_row (s_id st) t0 (insert ?x S) v"
    if mem: "v \<in> set (db_variants (upsert_variant now st pid d m))" for v
  proof -
    obtain u where u: "u \<in> set (db_variants d)"
      and w: "v = (if variant_key (s_id st) ?x u then refresh_variant now m u else u)"
      by (rule in_update_whereE [OF mem [unfolded v]])
    show ?thesis
    proof (cases "variant_key (s_id st) ?x u")
      case True
      then show ?thesis using t unfolding w by (intro scanned_row_fresh) (simp_all add: variant_key_def)
    next
      case False
      then show ?thesis using s u unfolding w by (simp add: scanned_def scanned_row_other)
    qed
  qed
  have "\<exists>v \<in> set (db_variants (upsert_variant now st pid d m)). variant_key (s_id st) x v"
    if "x \<in> insert ?x S" for x
    unfolding v using that True s
    by (intro bex_update_where) (auto simp: list_ex_iff scanned_def variant_key_def)
  with rows show ?thesis unfolding scanned_def by blast
next
  case False
  let ?x = "mv_platformVariantId m"
  let ?n = "new_variant now st pid m (db_nextId d)"
  have v: "set (db_variants (upsert_variant now st pid d m)) = insert ?n (set (db_variants d))"
    using False by (simp add: upsert_variant_def Let_def)
  have n: "scanned_row (s_id st) t0 (insert ?x S) ?n" "variant_key (s_id st) ?x ?n"
    using t by (simp_all add: new_variant_def scanned_row_def variant_key_def)
  have old: "scanned_row (s_id st) t0 (insert ?x S) u" if "u \<in> set (db_variants d)" for u
    using that False s by (simp add: list_ex_iff scanned_def scanned_row_other)
  show ?thesis
    using n old s unfolding scanned_def v by blast
qed

lemma scanned_variants:
  "scanned (s_id st) t0 S d \<Longrightarrow> t0 \<le> now \<Longrightarrow>
   scanned (s_id st) t0 (S \<union> mv_platformVariantId ` set ms) (foldl (upsert_variant now st pid) d ms)"
proof (induction ms arbitrary: d S)
  case (Cons m ms)
  show ?case using Cons.IH [OF scanned_variant [OF Cons.prems] Cons.prems(2), of m] by simp
qed simp

lemma scanned_finish: "scanned sid t0 S (finish_product pid m d) = scanned sid t0 S d"
  by (simp add: scanned_def finish_product_def split: prod.splits)

lemma scanned_cong: "db_variants d' = db_variants d \<Longrightarrow> scanned sid t0 S d' = scanned sid t0 S d"
  by (simp add: scanned_def)

lemma scanned_content:
  assumes "scanned (s_id st) t0 S d" and "t0 \<le> now"
  shows "scanned (s_id st) t0 (S \<union> content_ids m) (write_content now st d m)"
proof (cases "content_fits m")
  case True
  obtain pid d1 where d1: "upsert_product now st m d = (pid, d1)" by (metis surj_pair)
  have "scanned (s_id st) t0 S d1" using assms(1) scanned_cong [OF product_written(2) [OF d1]] by simp
  from scanned_variants [OF this assms(2), of "mp_variants m" pid]
  show ?thesis
    using True by (simp add: write_content_eq d1 content_ids_def scanned_finish)
next
  case False
  then show ?thesis using assms by (simp add: write_content_eq content_ids_def)
qed

lemma scanned_batch:
  "scanned (s_id st) t0 S d \<Longrightarrow> t0 \<le> now \<Longrightarrow>
   scanned (s_id st) t0 (S \<union> scan_ids batch) (upsertCatalogBatch now st batch d)"
proof (induction batch arbitrary: d S)
  case (Cons m batch)
  have "S \<union> scan_ids (m # batch) = (S \<union> content_ids m) \<union> scan_ids batch" by (auto simp: scan_ids_def)
  then show ?case
    using Cons.IH [OF scanned_content [OF Cons.prems] Cons.prems(2), of m] by (simp add: upsertCatalogBatch_def)
qed (simp add: upsertCatalogBatch_def scan_ids_def)

lemma delist_scanned:
  assumes "scanned sid t0 S d"
  shows "\<forall>v \<in> set (db_variants (delist_absent now sid t0 d)). v_storeId v = sid \<longrightarrow>
    (v_delistedAt v = None \<longleftrightarrow> v_platformVariantId v \<in> S)"
proof (intro ballI impI)
  fix v assume "v \<in> set (db_variants (delist_absent now sid t0 d))" and sid: "v_storeId v = sid"
  then obtain u where u: "u \<in> set (db_variants d)"
    and v: "v = (if v_storeId u = sid \<and> v_lastSyncedAt u < t0 \<and> v_delistedAt u = None
                 then u \<lparr> v_delistedAt := Some now \<rparr> else u)"
    by (auto simp: delist_absent_def elim: in_update_whereE)
  have row: "scanned_row sid t0 S u" using assms u by (simp add: scanned_def)
  have us: "v_storeId u = sid" "v_platformVariantId v = v_platformVariantId u" using sid v by (auto split: if_splits)
  show "v_delistedAt v = None \<longleftrightarrow> v_platformVariantId v \<in> S"
  proof (cases "v_platformVariantId u \<in> S")
    case True
    then show ?thesis using row us by (simp add: v scanned_row_def)
  next
    case False
    then have "v_lastSyncedAt u < t0" using row us(1) by (simp add: scanned_row_def)
    then show ?thesis using False us unfolding v by (cases "v_delistedAt u") simp_all
  qed
qed

end
