(* ===== verification/Catalog_Claims.thy ===== *)
theory Catalog_Claims
  imports Catalog_Props Order_Claims Sync_Worker_Props
begin

text \<open>
  The properties of the catalogue jobs over a whole run: what a full scan writes and delists, that it and
  the hourly refresh end, and what the refresh of a page does to the variants and the totals.
\<close>

section \<open>The full scan as a walk and a write\<close>

text \<open>
  The walk over the pages of the marketplace, without a database: the products read, why it ended, the
  progress before its last page and the catalogue size that page gave.
\<close>

fun walk ::
  "nat \<Rightarrow> products_env \<Rightarrow> store_row \<Rightarrow> sync_log \<Rightarrow> products_cursor option \<Rightarrow>
   (mapped_product list \<times> delist_done_reason \<times> int \<times> nat option) option" where
  "walk 0 P st l c = None"
| "walk (Suc n) P st l c =
     (let c1 = scan_cursor l c in
      case fetchApprovedProducts P st c1 of
        Inl e \<Rightarrow> None
      | Inr None \<Rightarrow> Some ([], EmptyPage, l_progressCurrent l, None)
      | Inr (Some p) \<Rightarrow>
          (let new = l_progressCurrent l + int (length (pp_batch p)); total = pm_totalElements (pp_meta p)
           in if int total \<le> new \<or> last_documented_page c1 (pp_meta p)
              then Some (pp_batch p, ReachedEnd, l_progressCurrent l, Some total)
              else case next_cursor (l_progressCurrent l) c1 (pp_meta p) of
                     None \<Rightarrow> Some (pp_batch p, TruncatedPastCap, l_progressCurrent l, Some total)
                   | Some c2 \<Rightarrow>
                       map_option (\<lambda>(b, rest). (pp_batch p @ b, rest))
                         (walk n P st (l \<lparr> l_progressCurrent := new, l_progressTotal := Some (int total),
                                           l_pageCursor := Some (products_cursor_json c2) \<rparr>) (Some c2))))"

definition scan_result :: "time \<Rightarrow> sync_log \<Rightarrow> skipped_page list \<Rightarrow> delist_done_reason \<times> int \<times> nat option \<Rightarrow> db \<Rightarrow> db" where
  "scan_result now l skips fin d =
     (let (reason, progress, observed) = fin in
      case shouldRunDelistPass skips reason progress observed of
        RunPass \<Rightarrow> delist_absent now (l_storeId l) (l_startedAt l) d | SkipPass _ \<Rightarrow> d)"

lemma scan_result_log:
  "l_storeId l' = l_storeId l \<Longrightarrow> l_startedAt l' = l_startedAt l \<Longrightarrow> scan_result now l' = scan_result now l"
  by (simp add: scan_result_def fun_eq_iff split: delist_decision.splits)

lemma fetch_nonempty: "fetchApprovedProducts P st c = Inr (Some p) \<Longrightarrow> pp_batch p \<noteq> []"
  by (auto simp: fetchApprovedProducts_def Let_def split: if_splits elim!: bindR_InrE)

lemma batch_stores [simp]: "db_stores (upsertCatalogBatch now st b d) = db_stores d"
proof -
  have v: "db_stores (foldl (upsert_variant now st pid) d ms) = db_stores d" for pid d and ms :: "mapped_variant list"
    by (induction ms arbitrary: d) (simp_all add: upsert_variant_def Let_def)
  have "db_stores (write_content now st d m) = db_stores d" for d m
    by (simp add: write_content_eq finish_product_def upsert_product_def v Let_def split: prod.splits option.splits)
      (metis db.select_convs(1) db.surjective v)?
  then show ?thesis unfolding upsertCatalogBatch_def by (induction b arbitrary: d) simp_all
qed

lemma parse_written_cursor:
  assumes "parseProductsCursor (Some (products_cursor_json c)) = Inr x"
  shows "x = Some c"
proof (cases c)
  case (PageCursor n)
  then show ?thesis using assms
    by (auto simp: parseProductsCursor_def zod_string_def zod_nat_def split: option.splits if_splits)
next
  case (TokenCursor t)
  then show ?thesis using assms
    by (auto simp: parseProductsCursor_def zod_string_def split: if_splits)
qed

text \<open>A worker whose products handler is the full scan, and that is not shutting down.\<close>

definition scans :: "settlement_world worker_env \<Rightarrow> products_env \<Rightarrow> bool" where
  "scans E P \<longleftrightarrow> we_registry E PRODUCTS = Some (processProductsChunk P) \<and> (\<forall>W. \<not> we_shuttingDown E W)"

lemma scan_dispatch:
  assumes "scans E P" and "l_syncType l = PRODUCTS" and "parseProductsCursor (l_pageCursor l) = Inr c"
  shows "dispatch E l w s = processProductsChunk P l (DProducts c) w s"
  using assms by (simp add: scans_def dispatch_def decodeCursor_def)

lemma scan_loop:
  assumes E: "scans E P"
  shows "runSyncToCompletion n E l w (W, q) = Some (Inr (), W', q') \<Longrightarrow> l_syncType l = PRODUCTS \<Longrightarrow>
    parseProductsCursor (l_pageCursor l) = Inr c \<Longrightarrow> parseSkippedPages (l_skippedPages l) = Inr skips \<Longrightarrow>
    find_store (l_storeId l) (sw_db W) = Some st \<Longrightarrow>
    \<exists>batch fin. walk n P st l c = Some (batch, fin)
      \<and> W' = W \<lparr> sw_db := scan_result (sw_now W) l skips fin (upsertCatalogBatch (sw_now W) st batch (sw_db W)) \<rparr>"
proof (induction n arbitrary: l W q c)
  case 0
  then show ?case using E by (simp add: runSyncToCompletion.simps scans_def)
next
  case (Suc n)
  note run = Suc.prems(1)
  let ?c = "scan_cursor l c"
  have up: "\<not> we_shuttingDown E V" for V using E by (simp add: scans_def)
  obtain r W1 q1 where chunk: "processProductsChunk P l (DProducts c) w (W, q) = (r, W1, q1)" by (metis surj_pair)
  have d: "dispatch E l w (W, q) = (r, W1, q1)" using scan_dispatch [OF E Suc.prems(2,3)] chunk by simp
  obtain res where r: "r = Inr res"
    using run d up by (cases r) (simp_all add: runSyncToCompletion.simps [of "Suc n"])
  obtain page where page: "fetchApprovedProducts P st ?c = Inr page"
    and out: "r = (case fst (scan_page (sw_now W) l st ?c page (sw_db W)) of
                     Inl e \<Rightarrow> Inl (thrown_of (px_libMsg P) e) | Inr x \<Rightarrow> Inr x)"
      "W1 = W \<lparr> sw_db := snd (scan_page (sw_now W) l st ?c page (sw_db W)) \<rparr>" "q1 = q"
    using chunk Suc.prems(5) r
    by (auto simp: processProductsChunk_def Let_def split: sum.splits prod.splits)
  have pass: "runDelistPassIfComplete (sw_now W) l reason obs e = Inr (scan_result (sw_now W) l skips (reason, l_progressCurrent l, obs) e)"
    for reason obs e
    using Suc.prems(4) by (simp add: runDelistPassIfComplete_def scan_result_def)
  have finished: "W' = W1" if "res = Done k" for k
    using run d up r that by (auto simp: runSyncToCompletion.simps [of "Suc n"] write_back_def split: sum.splits)
  show ?case
  proof (cases page)
    case None
    then have "res = Done (l_progressCurrent l)"
      "W1 = W \<lparr> sw_db := scan_result (sw_now W) l skips (EmptyPage, l_progressCurrent l, None) (sw_db W) \<rparr>"
      using out r by (simp_all add: scan_page_def pass)
    then show ?thesis using finished page None by (simp add: upsertCatalogBatch_def)
  next
    case (Some p)
    note pg = this
    have ne: "pp_batch p \<noteq> []" using fetch_nonempty page pg by simp
    let ?new = "l_progressCurrent l + int (length (pp_batch p))"
    let ?total = "pm_totalElements (pp_meta p)"
    let ?d1 = "upsertCatalogBatch (sw_now W) st (pp_batch p) (sw_db W)"
    show ?thesis
    proof (cases "int ?total \<le> ?new \<or> last_documented_page ?c (pp_meta p)")
      case True
      then have "res = Done ?new"
        "W1 = W \<lparr> sw_db := scan_result (sw_now W) l skips (ReachedEnd, l_progressCurrent l, Some ?total) ?d1 \<rparr>"
        using out r pg ne by (simp_all add: scan_page_def pass Let_def)
      then show ?thesis using finished True page pg by (simp add: Let_def)
    next
      case more: False
      show ?thesis
      proof (cases "next_cursor (l_progressCurrent l) ?c (pp_meta p)")
        case None
        then have "res = Done ?new"
          "W1 = W \<lparr> sw_db := scan_result (sw_now W) l skips (TruncatedPastCap, l_progressCurrent l, Some ?total) ?d1 \<rparr>"
          using more out r pg ne by (simp_all add: scan_page_def pass Let_def)
        then show ?thesis using finished more None page pg by (simp add: Let_def)
      next
        case (Some c2)
        let ?l2 = "l \<lparr> l_progressCurrent := ?new, l_progressTotal := Some (int ?total),
                      l_pageCursor := Some (products_cursor_json c2) \<rparr>"
        have W1: "W1 = W \<lparr> sw_db := ?d1 \<rparr>" and res: "res = Continue \<lparr> ti_cursor = Some (products_cursor_json c2),
            ti_progress = ?new, ti_total = Some (int ?total), ti_stage = ''upserting'' \<rparr>"
          using more Some out r pg ne by (simp_all add: scan_page_def Let_def)
        obtain q2 where rest: "runSyncToCompletion n E ?l2 w (W1, q2) = Some (Inr (), W', q')"
          using run d up r res
          by (auto simp: runSyncToCompletion.simps [of "Suc n"] write_back_def split: sum.splits)
        have parsed: "parseProductsCursor (Some (products_cursor_json c2)) = Inr (Some c2)"
        proof (cases "parseProductsCursor (Some (products_cursor_json c2))")
          case (Inl e)
          then have "runSyncToCompletion n E ?l2 w (W1, q2) \<noteq> Some (Inr (), W', q')"
            using up E Suc.prems(2)
            by (cases n) (simp_all add: runSyncToCompletion.simps dispatch_def decodeCursor_def scans_def)
          with rest show ?thesis by simp
        next
          case (Inr x)
          then show ?thesis using parse_written_cursor by simp
        qed
        have st2: "find_store (l_storeId ?l2) (sw_db W1) = Some st"
          using Suc.prems(5) by (simp add: W1 find_store_def)
        from Suc.IH [OF rest _ _ _ st2, of "Some c2"] Suc.prems(2,4) parsed
        obtain batch fin where IH: "walk n P st ?l2 (Some c2) = Some (batch, fin)"
          "W' = W1 \<lparr> sw_db := scan_result (sw_now W1) ?l2 skips fin (upsertCatalogBatch (sw_now W1) st batch (sw_db W1)) \<rparr>"
          by auto
        have "walk (Suc n) P st l c = Some (pp_batch p @ batch, fin)"
          using page pg more Some IH(1) by (simp add: Let_def)
        moreover have "W' = W \<lparr> sw_db := scan_result (sw_now W) l skips fin
            (upsertCatalogBatch (sw_now W) st (pp_batch p @ batch) (sw_db W)) \<rparr>"
          using IH(2) scan_result_log [of ?l2 l] by (simp add: W1 upsertCatalogBatch_def)
        ultimately show ?thesis by blast
      qed
    qed
  qed
qed

text \<open>Rows a scan did not write are the rows that were there.\<close>

lemma unwritten_variants:
  "v \<in> set (db_variants (foldl (upsert_variant now st pid) d ms)) \<Longrightarrow>
   v_platformVariantId v \<notin> mv_platformVariantId ` set ms \<Longrightarrow> v \<in> set (db_variants d)"
proof (induction ms arbitrary: d)
  case (Cons m ms)
  then have "v \<in> set (db_variants (upsert_variant now st pid d m))" by simp
  moreover have "v_platformVariantId v \<noteq> mv_platformVariantId m" using Cons.prems(2) by auto
  ultimately show ?case
    by (auto simp: upsert_variant_def Let_def new_variant_def variant_key_def split: if_splits elim!: in_update_whereE)
qed simp

lemma unwritten_rows:
  "v \<in> set (db_variants (upsertCatalogBatch now st batch d)) \<Longrightarrow> v_platformVariantId v \<notin> scan_ids batch \<Longrightarrow>
   v \<in> set (db_variants d)"
proof (induction batch arbitrary: d)
  case (Cons m batch)
  obtain pid d1 where d1: "upsert_product now st m d = (pid, d1)" by (metis surj_pair)
  have "v \<in> set (db_variants (write_content now st d m))" "v_platformVariantId v \<notin> content_ids m"
    using Cons by (auto simp: upsertCatalogBatch_def scan_ids_def)
  then show ?case
    using unwritten_variants [of v now st pid d1 "mp_variants m"] product_written(2) [OF d1]
    by (auto simp: write_content_eq d1 content_ids_def finish_product_def split: if_splits prod.splits)
qed (simp add: upsertCatalogBatch_def)

lemma delist_ok: "catalog_ok d \<Longrightarrow> catalog_ok (delist_absent now sid t0 d)"
  by (auto simp: catalog_ok_def delist_absent_def ids_ok_def map_update_where set_update_where)

lemma delist_written: "catalog_written sid d (delist_absent now sid t0 d)"
proof -
  have "filter (\<lambda>v. v_storeId v \<noteq> sid) (db_variants (delist_absent now sid t0 d)) = filter (\<lambda>v. v_storeId v \<noteq> sid) (db_variants d)"
    unfolding delist_absent_def by (simp, rule filter_update_where_disjoint) simp
  then show ?thesis by (simp add: catalog_written_def delist_absent_def map_update_where own_columns_def)
qed


section \<open>The jobs end\<close>

lemma scan_page_progress:
  assumes "fst (scan_page now l st c page d) = Inr (Continue inp)"
  shows "\<exists>p. page = Some p \<and> pp_batch p \<noteq> [] \<and> ti_progress inp = l_progressCurrent l + int (length (pp_batch p))
    \<and> ti_progress inp < int (pm_totalElements (pp_meta p))"
  using assms
  by (auto simp: scan_page_def Let_def not_le split: option.splits sum.splits if_splits)

lemma delta_page_progress:
  assumes "fst (delta_page Q l st c page d) = Inr (Continue inp)"
  shows "\<exists>p. page = Some p \<and> 0 < ip_contentCount p \<and> ti_progress inp = l_progressCurrent l + int (ip_contentCount p)
    \<and> ti_progress inp < int (pm_totalElements (ip_meta p))"
  using assms
  by (auto simp: delta_page_def Let_def not_le split: option.splits if_splits)

lemma scan_chunk_progress:
  assumes "processProductsChunk P l c w s = (Inr (Continue inp), s1)"
  shows "\<exists>st c r. px_page P st c = Inr r \<and> l_progressCurrent l < ti_progress inp
    \<and> ti_progress inp < int (pm_totalElements (ar_meta r))"
proof -
  obtain st c' page where page: "fetchApprovedProducts P st c' = Inr page"
    and cont: "fst (scan_page (sw_now (fst s)) l st c' page (sw_db (fst s))) = Inr (Continue inp)"
    using assms by (auto simp: processProductsChunk_def Let_def split: sum.splits option.splits prod.splits)
  from scan_page_progress [OF cont] obtain p where p: "page = Some p" "pp_batch p \<noteq> []"
    "ti_progress inp = l_progressCurrent l + int (length (pp_batch p))" "ti_progress inp < int (pm_totalElements (pp_meta p))" by blast
  obtain r where "px_page P st (first_request c') = Inr r" "pp_meta p = ar_meta r"
    using page p(1) by (auto simp: fetchApprovedProducts_def Let_def mapTrendyolApprovedResponse_def split: if_splits elim!: bindR_InrE)
  then show ?thesis using p by (metis length_greater_0_conv less_add_same_cancel1 of_nat_0_less_iff)
qed

lemma delta_chunk_progress:
  assumes "processProductsDeltaChunk Q l c w s = (Inr (Continue inp), s1)"
  shows "\<exists>st c r. qx_page Q st c = Inr r \<and> l_progressCurrent l < ti_progress inp
    \<and> ti_progress inp < int (pm_totalElements (ir_meta r))"
proof -
  obtain st c' page where page: "fetchInventoryAndPrice Q st c' = Inr page"
    and cont: "fst (delta_page Q l st c' page (sw_db (fst s))) = Inr (Continue inp)"
    using assms by (auto simp: processProductsDeltaChunk_def Let_def split: sum.splits option.splits prod.splits)
  from delta_page_progress [OF cont] obtain p where p: "page = Some p" "0 < ip_contentCount p"
    "ti_progress inp = l_progressCurrent l + int (ip_contentCount p)" "ti_progress inp < int (pm_totalElements (ip_meta p))" by blast
  obtain r where "qx_page Q st (first_request c') = Inr r" "ip_meta p = ir_meta r"
    using page p(1) by (auto simp: fetchInventoryAndPrice_def Let_def mapInventoryResponse_def split: if_splits elim!: bindR_InrE)
  then show ?thesis using p by (metis less_add_same_cancel1 of_nat_0_less_iff)
qed

text \<open>C28: The catalogue jobs end. If the marketplace never reports more than \<open>T\<close> elements, a run of the full
  scan or of the hourly refresh returns after at most one chunk for each element it has left, whatever
  pages, tokens and errors it meets: a chunk that asks to go on has read at least one element, and none
  asks to go on once it has counted all of them.\<close>
theorem catalog_jobs_return:
  assumes "we_registry E PRODUCTS = Some (processProductsChunk P)"
    and "we_registry E PRODUCTS_DELTA = Some (processProductsDeltaChunk Q)"
    and P: "\<And>st c r. px_page P st c = Inr r \<Longrightarrow> pm_totalElements (ar_meta r) \<le> T"
    and Q: "\<And>st c r. qx_page Q st c = Inr r \<Longrightarrow> pm_totalElements (ir_meta r) \<le> T"
    and l: "l_syncType l = PRODUCTS \<or> l_syncType l = PRODUCTS_DELTA"
  shows "runClaimedJob (Suc (nat (int T - l_progressCurrent l))) E l w s \<noteq> None"
proof -
  let ?\<mu> = "\<lambda>l. nat (int T - l_progressCurrent l)"
  have "?\<mu> (l \<lparr> l_progressCurrent := ti_progress inp, l_progressTotal := ti_total inp, l_pageCursor := ti_cursor inp \<rparr>) < ?\<mu> l"
    if run: "l_syncType l = PRODUCTS \<or> l_syncType l = PRODUCTS_DELTA" "dispatch E l w s = (Inr (Continue inp), s1)" for l s inp s1
  proof -
    obtain c where "processProductsChunk P l c w s = (Inr (Continue inp), s1) \<or> processProductsDeltaChunk Q l c w s = (Inr (Continue inp), s1)"
      using run assms(1,2) by (fastforce simp: dispatch_def split: sum.splits)
    then have "l_progressCurrent l < ti_progress inp \<and> ti_progress inp < int T"
      using scan_chunk_progress [of P l c w s inp s1] delta_chunk_progress [of Q l c w s inp s1] P Q by fastforce
    then show ?thesis by simp
  qed
  then show ?thesis
    by (intro job_ends loop_ends [where I = "\<lambda>l s. l_syncType l = PRODUCTS \<or> l_syncType l = PRODUCTS_DELTA" and \<mu> = ?\<mu>])
      (simp_all add: l Let_def)
qed

section \<open>The refresh of a page\<close>

definition refreshed :: "inventory_variant \<Rightarrow> variant_row \<Rightarrow> variant_row" where
  "refreshed f v = v \<lparr> v_quantity := iv_quantity f, v_salePrice := iv_salePrice f, v_listPrice := iv_listPrice f,
                     v_delistedAt := None \<rparr>"

text \<open>What a page of the feed says of a row.\<close>

definition delta_row :: "id \<Rightarrow> inventory_variant list \<Rightarrow> variant_row \<Rightarrow> variant_row" where
  "delta_row sid batch v =
     (case find (\<lambda>f. variant_key sid (iv_platformVariantId f) v) batch of None \<Rightarrow> v | Some f \<Rightarrow> refreshed f v)"

definition totals_ok :: "db \<Rightarrow> bool" where
  "totals_ok d \<longleftrightarrow> (\<forall>p \<in> set (db_products d). variants_of (p_id p) d = []
     \<or> (p_totalStock p, p_minSalePrice p, p_maxSalePrice p)
       = computeProductAggregates (map (\<lambda>v. (v_quantity v, v_salePrice v)) (variants_of (p_id p) d)))"

lemma refreshed_sel [simp]:
  "v_id (refreshed f v) = v_id v" "v_storeId (refreshed f v) = v_storeId v" "v_productId (refreshed f v) = v_productId v"
  "v_platformVariantId (refreshed f v) = v_platformVariantId v" "variant_key sid x (refreshed f v) = variant_key sid x v"
  by (simp_all add: refreshed_def variant_key_def)

lemma delta_row_sel [simp]:
  "v_id (delta_row sid batch v) = v_id v" "v_storeId (delta_row sid batch v) = v_storeId v"
  "v_productId (delta_row sid batch v) = v_productId v" "v_platformVariantId (delta_row sid batch v) = v_platformVariantId v"
  by (simp_all add: delta_row_def split: option.splits)

abbreviation page_updates :: "(int \<Rightarrow> variant_row option) \<Rightarrow> inventory_variant list \<Rightarrow> variant_update list" where
  "page_updates ex batch \<equiv> List.map_filter (\<lambda>f. Option.bind (ex (iv_platformVariantId f)) (variant_change f)) batch"

lemma key_unique:
  "distinct (map (\<lambda>v. (v_storeId v, v_platformVariantId v)) vs) \<Longrightarrow> u \<in> set vs \<Longrightarrow> v \<in> set vs \<Longrightarrow>
   variant_key sid x u \<Longrightarrow> variant_key sid x v \<Longrightarrow> u = v"
  by (auto simp: variant_key_def distinct_map inj_on_def)

lemma change_refreshed:
  assumes "variant_change f v = None"
  shows "refreshed f v = v"
  using assms by (cases v) (auto simp: variant_change_def refreshed_def split: if_splits)

lemma write_refreshed:
  assumes "variant_change f v = Some u" and "v_id x = v_id v \<longleftrightarrow> x = v"
  shows "(if v_id x = vu_id u
          then x \<lparr> v_quantity := vu_quantity u, v_salePrice := vu_salePrice u, v_listPrice := vu_listPrice u,
                    v_delistedAt := (if vu_clearDelistedAt u then None else v_delistedAt x) \<rparr> else x)
       = (if x = v then refreshed f x else x)"
proof -
  have u: "vu_id u = v_id v" "vu_quantity u = iv_quantity f" "vu_salePrice u = iv_salePrice f"
    "vu_listPrice u = iv_listPrice f" "vu_clearDelistedAt u = (v_delistedAt v \<noteq> None)"
    using assms(1) by (auto simp: variant_change_def split: if_splits)
  have "(if v_delistedAt v \<noteq> None then None else v_delistedAt v) = None" by simp
  then show ?thesis using assms(2) by (simp add: u refreshed_def)
qed

text \<open>One element of the feed: the row it is about, if there is one, takes its values.\<close>

lemma one_update:
  assumes ids: "distinct (map v_id (db_variants e))"
    and keys: "distinct (map (\<lambda>v. (v_storeId v, v_platformVariantId v)) (db_variants e))"
    and ex: "ex = find (variant_key sid (iv_platformVariantId f)) (db_variants e)"
  shows "db_variants (foldl write_update e (case Option.bind ex (variant_change f) of None \<Rightarrow> [] | Some u \<Rightarrow> [u]))
    = map (\<lambda>v. if variant_key sid (iv_platformVariantId f) v then refreshed f v else v) (db_variants e)"
proof (cases ex)
  case None
  then have "\<not> variant_key sid (iv_platformVariantId f) v" if "v \<in> set (db_variants e)" for v
    using ex that by (simp add: find_None_all)
  then show ?thesis using None by (simp add: map_idI)
next
  case (Some v)
  then have v: "v \<in> set (db_variants e)" "variant_key sid (iv_platformVariantId f) v" using ex by (auto dest: find_Some_in)
  have one: "variant_key sid (iv_platformVariantId f) x \<longleftrightarrow> x = v" if "x \<in> set (db_variants e)" for x
    using key_unique [OF keys that v(1) _ v(2)] v(2) by blast
  have idv: "v_id x = v_id v \<longleftrightarrow> x = v" if "x \<in> set (db_variants e)" for x
    using ids that v(1) by (auto simp: distinct_map inj_on_def)
  show ?thesis
  proof (cases "variant_change f v")
    case None
    then show ?thesis using Some one change_refreshed [OF None] by (auto simp: map_idI)
  next
    case (Some u)
    then show ?thesis
      using \<open>ex = Some v\<close> one write_refreshed [OF Some idv]
      by (auto simp: write_update_def update_where_def intro!: map_cong)
  qed
qed

lemma delta_row_Cons:
  assumes "iv_platformVariantId f \<notin> iv_platformVariantId ` set batch"
  shows "delta_row sid batch (if variant_key sid (iv_platformVariantId f) v then refreshed f v else v) = delta_row sid (f # batch) v"
proof (cases "variant_key sid (iv_platformVariantId f) v")
  case True
  then have "find (\<lambda>g. variant_key sid (iv_platformVariantId g) (refreshed f v)) batch = None"
    using assms by (auto simp: find_None_iff variant_key_def)
  then show ?thesis using True by (simp add: delta_row_def)
qed (simp add: delta_row_def)

lemma page_rows:
  "distinct (map v_id (db_variants e)) \<Longrightarrow> distinct (map (\<lambda>v. (v_storeId v, v_platformVariantId v)) (db_variants e)) \<Longrightarrow>
   distinct (map iv_platformVariantId batch) \<Longrightarrow>
   (\<forall>f \<in> set batch. ex (iv_platformVariantId f) = find (variant_key sid (iv_platformVariantId f)) (db_variants e)) \<Longrightarrow>
   db_variants (foldl write_update e (page_updates ex batch)) = map (delta_row sid batch) (db_variants e)"
proof (induction batch arbitrary: e)
  case Nil
  then show ?case by (simp add: delta_row_def List.map_filter_def map_idI)
next
  case (Cons f batch)
  let ?us = "case Option.bind (ex (iv_platformVariantId f)) (variant_change f) of None \<Rightarrow> [] | Some u \<Rightarrow> [u]"
  let ?e = "foldl write_update e ?us"
  let ?g = "\<lambda>v. if variant_key sid (iv_platformVariantId f) v then refreshed f v else v"
  have e: "db_variants ?e = map ?g (db_variants e)"
    using Cons.prems by (intro one_update) auto
  have split: "page_updates ex (f # batch) = ?us @ page_updates ex batch"
    by (simp add: List.map_filter_def split: option.splits)
  have keep: "v_id (?g v) = v_id v" "(v_storeId (?g v), v_platformVariantId (?g v)) = (v_storeId v, v_platformVariantId v)" for v
    by simp_all
  have find_e: "find (variant_key sid (iv_platformVariantId h)) (db_variants ?e) = find (variant_key sid (iv_platformVariantId h)) (db_variants e)"
    if h: "h \<in> set batch" for h
  proof -
    have ne: "iv_platformVariantId h \<noteq> iv_platformVariantId f" using Cons.prems(3) h by (auto simp: image_iff)
    have "find (variant_key sid (iv_platformVariantId h)) (map ?g vs) = find (variant_key sid (iv_platformVariantId h)) vs" for vs
      using ne by (induction vs) (auto simp: variant_key_def)
    then show ?thesis unfolding e .
  qed
  have "db_variants (foldl write_update ?e (page_updates ex batch)) = map (delta_row sid batch) (db_variants ?e)"
  proof (rule Cons.IH)
    show "distinct (map v_id (db_variants ?e))"
      using Cons.prems(1) unfolding e map_map comp_def keep .
    show "distinct (map (\<lambda>v. (v_storeId v, v_platformVariantId v)) (db_variants ?e))"
      using Cons.prems(2) unfolding e map_map comp_def keep .
    show "\<forall>h \<in> set batch. ex (iv_platformVariantId h) = find (variant_key sid (iv_platformVariantId h)) (db_variants ?e)"
      using Cons.prems(4) find_e by simp
  qed (use Cons.prems(3) in simp)
  moreover have "iv_platformVariantId f \<notin> iv_platformVariantId ` set batch" using Cons.prems(3) by simp
  ultimately have "db_variants (foldl write_update ?e (page_updates ex batch)) = map (delta_row sid (f # batch)) (db_variants e)"
    by (simp add: e comp_def delta_row_Cons)
  then show ?case unfolding split foldl_append .
qed

lemma updates_frame:
  "db_products (foldl write_update d us) = db_products d"
  "(foldl write_update d us) \<lparr> db_variants := [], db_products := [], db_nextId := 0 \<rparr>
   = d \<lparr> db_variants := [], db_products := [], db_nextId := 0 \<rparr>"
  "db_nextId (foldl write_update d us) = db_nextId d"
  by (induction us arbitrary: d) (simp_all add: write_update_def)

lemma reaggregate_sel [simp]:
  "db_variants (reaggregate d pid) = db_variants d" "variants_of p (reaggregate d pid) = variants_of p d"
  "db_nextId (reaggregate d pid) = db_nextId d"
  "(reaggregate d pid) \<lparr> db_variants := [], db_products := [], db_nextId := 0 \<rparr>
   = d \<lparr> db_variants := [], db_products := [], db_nextId := 0 \<rparr>"
  by (simp_all add: reaggregate_def variants_of_def Let_def split: prod.splits)

lemma reaggregates_sel:
  "db_variants (foldl reaggregate d pids) = db_variants d" "db_nextId (foldl reaggregate d pids) = db_nextId d"
  "(foldl reaggregate d pids) \<lparr> db_variants := [], db_products := [], db_nextId := 0 \<rparr>
   = d \<lparr> db_variants := [], db_products := [], db_nextId := 0 \<rparr>"
  by (induction pids arbitrary: d) simp_all

definition aggregated :: "db \<Rightarrow> product_row \<Rightarrow> product_row" where
  "aggregated d p =
     (let (stock, lo, hi) = computeProductAggregates (map (\<lambda>v. (v_quantity v, v_salePrice v)) (variants_of (p_id p) d))
      in p \<lparr> p_totalStock := stock, p_minSalePrice := lo, p_maxSalePrice := hi \<rparr>)"

lemma aggregated_sel [simp]:
  "p_id (aggregated d p) = p_id p" "product_ids (aggregated d p) = product_ids p"
  "p_storeId (aggregated d p) = p_storeId p" "aggregated d (aggregated d p) = aggregated d p"
  by (simp_all add: aggregated_def product_ids_def split: prod.splits)

lemma aggregated_reaggregate [simp]: "aggregated (reaggregate d x) = aggregated d"
  by (simp add: aggregated_def fun_eq_iff)

lemma reaggregate_products:
  "db_products (reaggregate d x) = map (\<lambda>p. if p_id p = x then aggregated d p else p) (db_products d)"
  by (auto simp: reaggregate_def aggregated_def update_where_def Let_def split: prod.splits intro!: map_cong)

lemma reaggregates_products:
  "db_products (foldl reaggregate d pids) = map (\<lambda>p. if p_id p \<in> set pids then aggregated d p else p) (db_products d)"
  by (induction pids arbitrary: d) (auto simp: reaggregate_products)

lemma set_unique_list [simp]: "set (unique_list xs) = set xs"
  by (simp add: unique_list_def)

abbreviation updates_of :: "id \<Rightarrow> db \<Rightarrow> inventory_variant list \<Rightarrow> variant_update list" where
  "updates_of sid d batch \<equiv> page_updates (existing_variant sid d) batch"

text \<open>A page that was written: the tables afterwards.\<close>

lemma page_written:
  assumes ok: "catalog_ok d" and one: "distinct (map iv_platformVariantId batch)"
    and w: "write_changes (computeVariantChanges batch (existing_variant sid d)) d = Some d'"
  shows "db_variants d' = map (delta_row sid batch) (db_variants d)"
    and "db_products d' = map (\<lambda>p. if p_id p \<in> vu_productId ` set (updates_of sid d batch)
                                  then aggregated d' p else p) (db_products d)"
    and "d' \<lparr> db_variants := [], db_products := [], db_nextId := 0 \<rparr>
         = d \<lparr> db_variants := [], db_products := [], db_nextId := 0 \<rparr>"
    and "db_nextId d' = db_nextId d"
proof -
  let ?us = "updates_of sid d batch"
  let ?e = "foldl write_update d ?us"
  obtain pids where d': "d' = foldl reaggregate ?e pids" and pids: "set pids = vu_productId ` set ?us"
    using w by (auto simp: write_changes_def computeVariantChanges_def Let_def split: if_splits)
  have keys: "distinct (map v_id (db_variants d))" "distinct (map (\<lambda>v. (v_storeId v, v_platformVariantId v)) (db_variants d))"
    using ok by (simp_all add: catalog_ok_def ids_ok_def)
  have vs: "db_variants ?e = map (delta_row sid batch) (db_variants d)"
    by (rule page_rows [OF keys one]) (simp add: existing_variant_def)
  show "db_variants d' = map (delta_row sid batch) (db_variants d)" by (simp add: d' reaggregates_sel vs)
  have "aggregated d' = aggregated ?e"
    by (simp add: aggregated_def variants_of_def d' reaggregates_sel fun_eq_iff)
  then show "db_products d' = map (\<lambda>p. if p_id p \<in> vu_productId ` set ?us then aggregated d' p else p) (db_products d)"
    by (simp add: d' reaggregates_products updates_frame pids)
  show "d' \<lparr> db_variants := [], db_products := [], db_nextId := 0 \<rparr> = d \<lparr> db_variants := [], db_products := [], db_nextId := 0 \<rparr>"
    "db_nextId d' = db_nextId d"
    by (simp_all add: d' reaggregates_sel updates_frame)
qed

lemma update_source:
  assumes "u \<in> set (updates_of sid d batch)"
  shows "\<exists>v \<in> set (db_variants d). v_storeId v = sid \<and> v_productId v = vu_productId u"
proof -
  obtain f v where "existing_variant sid d (iv_platformVariantId f) = Some v" "variant_change f v = Some u"
    using assms by (auto simp: List.map_filter_def bind_eq_Some_conv)
  then show ?thesis
    by (auto simp: existing_variant_def variant_change_def variant_key_def split: if_splits dest!: find_Some_in)
qed

lemma unmentioned_same:
  assumes keys: "distinct (map (\<lambda>v. (v_storeId v, v_platformVariantId v)) (db_variants d))"
    and v: "v \<in> set (db_variants d)" "v_productId v \<notin> vu_productId ` set (updates_of sid d batch)"
  shows "delta_row sid batch v = v"
proof (cases "find (\<lambda>f. variant_key sid (iv_platformVariantId f) v) batch")
  case None
  then show ?thesis by (simp add: delta_row_def)
next
  case (Some f)
  then have f: "f \<in> set batch" "variant_key sid (iv_platformVariantId f) v" by (auto dest: find_Some_in)
  have ex: "existing_variant sid d (iv_platformVariantId f) = Some v"
    unfolding existing_variant_def using key_unique [OF keys _ v(1) _ f(2)] f(2) v(1) find_Some_in
    by (metis find_None_all not_None_eq)
  have "variant_change f v = None"
  proof (rule ccontr)
    assume "variant_change f v \<noteq> None"
    then obtain u where u: "variant_change f v = Some u" by blast
    then have "u \<in> set (updates_of sid d batch)"
      using f(1) ex by (auto simp: List.map_filter_def image_iff intro!: bexI [of _ f])
    moreover have "vu_productId u = v_productId v" using u by (auto simp: variant_change_def split: if_splits)
    ultimately show False using v(2) by force
  qed
  then show ?thesis using Some change_refreshed [of f v] by (simp add: delta_row_def)
qed

lemma foreign_row: "v_storeId v \<noteq> sid \<Longrightarrow> delta_row sid batch v = v"
  by (auto simp: delta_row_def variant_key_def split: option.splits dest!: find_Some_in)

lemma own_delta [simp]: "own_columns (delta_row sid batch v) = own_columns v"
  by (simp add: own_columns_def) (simp add: delta_row_def refreshed_def split: option.splits)

lemma filter_map_fixed: "(\<And>x. P x \<Longrightarrow> g x = x) \<Longrightarrow> (\<And>x. P (g x) = P x) \<Longrightarrow> filter P (map g xs) = filter P xs"
  by (induction xs) auto

lemma page_frame:
  assumes ok: "catalog_ok d" and one: "distinct (map iv_platformVariantId batch)"
    and w: "write_changes (computeVariantChanges batch (existing_variant sid d)) d = Some d'"
  shows "catalog_written sid d d'" and "catalog_ok d'"
proof -
  note d' = page_written [OF ok one w]
  let ?P = "\<lambda>p. p_id p \<in> vu_productId ` set (updates_of sid d batch)"
  let ?g = "\<lambda>p. if ?P p then aggregated d' p else p"
  have own: "?g p = p" if p: "p \<in> set (db_products d)" "p_storeId p \<noteq> sid" for p
  proof -
    have "\<not> ?P p"
    proof
      assume "?P p"
      then obtain v where v: "v \<in> set (db_variants d)" "v_storeId v = sid" "v_productId v = p_id p"
        using update_source by fastforce
      then obtain x where "x \<in> set (db_products d)" "p_id x = p_id p" "p_storeId x = sid"
        using ok by (auto simp: catalog_ok_def)
      then show False using ok p ids_ok_same [of p_id "db_products d" "db_nextId d" x p] by (auto simp: catalog_ok_def)
    qed
    then show ?thesis by simp
  qed
  have "filter (\<lambda>p. p_storeId p \<noteq> sid) (map ?g ps) = filter (\<lambda>p. p_storeId p \<noteq> sid) ps" if "set ps \<subseteq> set (db_products d)" for ps
    using that own by (induction ps) auto
  then have foreign: "filter (\<lambda>p. p_storeId p \<noteq> sid) (db_products d') = filter (\<lambda>p. p_storeId p \<noteq> sid) (db_products d)"
    by (simp add: d'(2))
  have ids: "map product_ids (db_products d') = map product_ids (db_products d)"
    by (simp add: d'(2) if_distrib [where f = product_ids])
  show "catalog_written sid d d'"
    using foreign ids d'(3) by (simp add: catalog_written_def d'(1) comp_def foreign_row filter_map_fixed)
  have "map p_id (db_products d') = map p_id (db_products d)"
    "map (\<lambda>p. (p_storeId p, p_platformContentId p)) (db_products d') = map (\<lambda>p. (p_storeId p, p_platformContentId p)) (db_products d)"
    "map (\<lambda>p. (p_id p, p_storeId p)) (db_products d') = map (\<lambda>p. (p_id p, p_storeId p)) (db_products d)"
    using arg_cong [OF ids, of "map fst"] arg_cong [OF ids, of "map (\<lambda>(a, b, c, e). (c, e))"]
      arg_cong [OF ids, of "map (\<lambda>(a, b, c, e). (a, c))"] by (simp_all add: comp_def product_ids_def)
  moreover have "\<exists>p \<in> set (db_products d'). p_id p = i \<and> p_storeId p = s"
    if mem: "\<exists>p \<in> set (db_products d). p_id p = i \<and> p_storeId p = s" for i s
  proof -
    obtain p where p: "p \<in> set (db_products d)" "p_id p = i" "p_storeId p = s" using mem by blast
    have "?g p \<in> set (db_products d')" unfolding d'(2) set_map using p(1) by (rule imageI)
    then show ?thesis using p by (intro bexI [of _ "?g p"]) simp_all
  qed
  ultimately show "catalog_ok d'"
    using ok by (simp add: catalog_ok_def ids_ok_alt d'(1,4) comp_def)
qed

lemma page_totals:
  assumes ok: "catalog_ok d" and one: "distinct (map iv_platformVariantId batch)"
    and w: "write_changes (computeVariantChanges batch (existing_variant sid d)) d = Some d'"
    and t: "totals_ok d"
  shows "totals_ok d'"
  unfolding totals_ok_def
proof (intro ballI)
  note d' = page_written [OF ok one w]
  let ?P = "\<lambda>p. p_id p \<in> vu_productId ` set (updates_of sid d batch)"
  fix x assume "x \<in> set (db_products d')"
  then obtain y where y: "y \<in> set (db_products d)" "x = (if ?P y then aggregated d' y else y)"
    unfolding d'(2) by auto
  have keys: "distinct (map (\<lambda>v. (v_storeId v, v_platformVariantId v)) (db_variants d))"
    using ok by (simp add: catalog_ok_def)
  show "variants_of (p_id x) d' = [] \<or> (p_totalStock x, p_minSalePrice x, p_maxSalePrice x)
      = computeProductAggregates (map (\<lambda>v. (v_quantity v, v_salePrice v)) (variants_of (p_id x) d'))"
  proof (cases "?P y")
    case True
    then show ?thesis using y(2) by (simp add: aggregated_def split: prod.splits)
  next
    case False
    have "variants_of (p_id y) d' = map (delta_row sid batch) (variants_of (p_id y) d)"
      by (simp add: variants_of_def d'(1) filter_map comp_def)
    also have "\<dots> = variants_of (p_id y) d"
      by (rule map_idI) (use unmentioned_same [OF keys] False in \<open>auto simp: variants_of_def\<close>)
    finally show ?thesis using t y False by (simp add: totals_ok_def)
  qed
qed

text \<open>C29: The hourly refresh of a page gives every row of the store that the page mentions the quantity and the
  prices of the page and lists it again, and leaves every other row as it was; it never delists and
  never touches the stamp of the full scan. The totals of the products stay consistent with their
  variants, the keys of the tables and all other tables are kept.\<close>
theorem delta_refresh_exact:
  assumes run: "processProductsDeltaChunk Q l c w (W, q) = (Inr r, W', q')"
    and c: "handed_cursor c = Inr cur" and st: "find_store (l_storeId l) (sw_db W) = Some st"
    and page: "fetchInventoryAndPrice Q st cur = Inr (Some p)"
    and ok: "catalog_ok (sw_db W)" and one: "distinct (map iv_platformVariantId (ip_batch p))"
  shows "db_variants (sw_db W') = map (delta_row (s_id st) (ip_batch p)) (db_variants (sw_db W))
    \<and> (totals_ok (sw_db W) \<longrightarrow> totals_ok (sw_db W'))
    \<and> catalog_written (s_id st) (sw_db W) (sw_db W') \<and> catalog_ok (sw_db W')"
proof -
  have count: "ip_contentCount p \<noteq> 0"
    using page by (auto simp: fetchInventoryAndPrice_def Let_def split: if_splits elim!: bindR_InrE)
  have "write_changes (computeVariantChanges (ip_batch p) (existing_variant (s_id st) (sw_db W))) (sw_db W) = Some (sw_db W')"
    using run c st page count
    by (auto simp: processProductsDeltaChunk_def delta_page_def Let_def split: sum.splits option.splits if_splits)
  then show ?thesis using page_written(1) [OF ok one] page_totals [OF ok one] page_frame [OF ok one] by blast
qed

section \<open>Witnesses\<close>

text \<open>A page of two contents: one is new, the other one holds the shop's variant at a price the column cannot hold.\<close>

definition example_variant_wire :: "int \<Rightarrow> rat \<Rightarrow> variant_wire" where
  "example_variant_wire x price =
     \<lparr> vw_variantId = x, vw_barcode = ''870'', vw_commission = None, vw_attributes = None, vw_productUrl = None,
       vw_onSale = Some True, vw_deliveryOptions = None, vw_quantity = Some 4, vw_price = Some (Some price, Some price),
       vw_stockCode = None, vw_vatRate = Some 20, vw_locked = None, vw_archived = None, vw_blacklisted = None,
       vw_locationBasedDelivery = None, vw_dimensionalWeight = None \<rparr>"

definition example_content :: "int \<Rightarrow> variant_wire \<Rightarrow> content_wire" where
  "example_content x v =
     \<lparr> cw_contentId = x, cw_productMainId = ''m'', cw_brand = None, cw_category = None, cw_creationDate = None,
       cw_lastModifiedDate = None, cw_title = ''t'', cw_description = None, cw_images = Some [''u''],
       cw_attributes = None, cw_variants = Some [v] \<rparr>"

definition example_response :: approved_response where
  "example_response =
     \<lparr> ar_content = [example_content 31 (example_variant_wire 71 50), example_content 30 (example_variant_wire 70 (10 ^ 10))],
       ar_meta = \<lparr> pm_totalElements = 2, pm_totalPages = 1, pm_nextPageToken = None \<rparr> \<rparr>"

definition example_inventory :: inventory_response where
  "example_inventory =
     \<lparr> ir_content = [\<lparr> ic_contentId = 30, ic_productMainId = ''m'',
          ic_variants = Some [\<lparr> iw_variantId = 70, iw_barcode = ''869'', iw_salePrice = Some 90, iw_listPrice = Some 120,
                                iw_quantity = Some 3 \<rparr>] \<rparr>],
       ir_meta = \<lparr> pm_totalElements = 1, pm_totalPages = 1, pm_nextPageToken = None \<rparr> \<rparr>"

definition scan_env :: products_env where
  "scan_env = \<lparr> px_credentials = (\<lambda>st. Inr ()), px_page = (\<lambda>st c. Inr example_response), px_libMsg = (\<lambda>e. ''library'') \<rparr>"

definition refresh_env :: delta_env where
  "refresh_env = \<lparr> qx_credentials = (\<lambda>st. Inr ()), qx_page = (\<lambda>st c. Inr example_inventory), qx_libMsg = (\<lambda>e. ''library''),
     qx_rangeError = Thrown None (Some ''range'') None \<rparr>"

definition catalog_worker :: "settlement_world worker_env" where
  "catalog_worker = \<lparr> we_registry = (\<lambda>ty. if ty = PRODUCTS then Some (processProductsChunk scan_env)
        else if ty = PRODUCTS_DELTA then Some (processProductsDeltaChunk refresh_env) else None),
     we_shuttingDown = (\<lambda>W. False), we_clock = (\<lambda>W. 60), we_iso = (\<lambda>W. ''1970''), we_libMsg = (\<lambda>e. ''library'') \<rparr>"

definition scan_log :: "sync_type \<Rightarrow> sync_log" where
  "scan_log ty = run_claimed \<lparr> l_syncType := ty, l_startedAt := 5 \<rparr>"

definition catalog_world :: settlement_world where
  "catalog_world = \<lparr> sw_db = shop_db, sw_now = 60 \<rparr>"

lemma shop_catalog_ok: "catalog_ok shop_db"
  by (simp add: catalog_ok_def shop_db_def empty_db_def ids_ok_def)

lemma mapped_response:
  "mapTrendyolApprovedResponse example_response =
     \<lparr> pp_batch = [mapTrendyolContent (example_content 31 (example_variant_wire 71 50)),
                   mapTrendyolContent (example_content 30 (example_variant_wire 70 (10 ^ 10)))],
       pp_meta = \<lparr> pm_totalElements = 2, pm_totalPages = 1, pm_nextPageToken = None \<rparr> \<rparr>"
  by (simp add: mapTrendyolApprovedResponse_def example_response_def)

lemma mapped_content:
  "mp_platformContentId (mapTrendyolContent (example_content x (example_variant_wire y p))) = x"
  "map mv_platformVariantId (mp_variants (mapTrendyolContent (example_content x (example_variant_wire y p)))) = [y]"
  "content_fits (mapTrendyolContent (example_content x (example_variant_wire y p))) \<longleftrightarrow> \<bar>number_fixed2 p\<bar> < 10 ^ 10"
  by (simp_all add: mapTrendyolContent_def example_content_def example_variant_wire_def mapVariant_def Let_def or_else_def
      content_fits_def variant_fits_def int4_def priceToDecimalString_def nullableDecimalString_def)

lemma mapped_variants:
  "mp_variants (mapTrendyolContent (example_content x w)) = [mapVariant w]"
  "mv_platformVariantId (mapVariant (example_variant_wire y p)) = y"
  "mp_platformContentId (mapTrendyolContent (example_content x w)) = x"
  by (simp_all add: mapTrendyolContent_def example_content_def or_else_def Let_def mapVariant_def example_variant_wire_def)

lemma fixed_example: "number_fixed2 50 = 50" "number_fixed2 10000000000 = 10000000000"
proof -
  have "round_to 100 (of_int k) = of_int k" for k
    using half_up_of_int [of "k * 100"] by (simp add: round_to_def)
  from this [of 50] this [of 10000000000] show "number_fixed2 50 = 50" "number_fixed2 10000000000 = 10000000000"
    by (simp_all add: number_fixed2_def)
qed



lemma catalog_jobs_return_witness:
  "runClaimedJob 3 catalog_worker (scan_log PRODUCTS) ''w1'' (catalog_world, run_queue (scan_log PRODUCTS)) \<noteq> None"
proof -
  have "runClaimedJob (Suc (nat (int 2 - l_progressCurrent (scan_log PRODUCTS)))) catalog_worker (scan_log PRODUCTS) ''w1''
      (catalog_world, run_queue (scan_log PRODUCTS)) \<noteq> None"
    by (rule catalog_jobs_return [of catalog_worker scan_env refresh_env 2])
      (simp_all add: catalog_worker_def scan_env_def refresh_env_def example_response_def example_inventory_def scan_log_def)
  moreover have "l_progressCurrent (scan_log PRODUCTS) = 0" by (simp add: scan_log_def run_defs)
  ultimately show ?thesis by (simp add: eval_nat_numeral)
qed

lemma delta_refresh_exact_witness:
  "\<exists>W' q'. processProductsDeltaChunk refresh_env (scan_log PRODUCTS_DELTA) (DProducts None) ''w1''
        (catalog_world, run_queue (scan_log PRODUCTS_DELTA)) = (Inr (Done 1), W', q')
     \<and> map (\<lambda>v. (v_quantity v, v_salePrice v)) (db_variants (sw_db W')) = [(3, 90)] \<and> totals_ok (sw_db W')"
proof -
  let ?st = "example_store \<lparr> s_defaultCarrierId := None \<rparr>"
  have st: "find_store 1 shop_db = Some ?st"
    by (simp add: find_store_def shop_db_def example_store_def empty_db_def)
  have cred: "qx_credentials refresh_env s = Inr ()" and sid: "s_id ?st = 1" for s
    by (simp_all add: refresh_env_def example_store_def)
  have log: "l_storeId (scan_log PRODUCTS_DELTA) = 1" "l_progressCurrent (scan_log PRODUCTS_DELTA) = 0"
    by (simp_all add: scan_log_def run_defs)
  have fixed: "round_to 100 (of_int k) = of_int k" for k
    using half_up_of_int [of "k * 100"] by (simp add: round_to_def)
  let ?f = "\<lparr> iv_platformVariantId = 70, iv_barcode = ''869'', iv_quantity = 3, iv_salePrice = 90, iv_listPrice = 120 \<rparr>"
  let ?p = "\<lparr> ip_batch = [?f], ip_contentCount = 1, ip_meta = \<lparr> pm_totalElements = 1, pm_totalPages = 1, pm_nextPageToken = None \<rparr> \<rparr>"
  have page: "fetchInventoryAndPrice refresh_env st c = Inr (Some ?p)" for st c
    using fixed [of 90] fixed [of 120]
    by (simp add: fetchInventoryAndPrice_def refresh_env_def example_inventory_def mapInventoryResponse_def mapInventoryVariant_def
        or_else_def priceToDecimalString_def number_fixed2_def)
  obtain d where w: "write_changes (computeVariantChanges [?f] (existing_variant 1 shop_db)) shop_db = Some d"
    by (simp add: write_changes_def computeVariantChanges_def existing_variant_def variant_key_def shop_db_def empty_db_def
        variant_change_def List.map_filter_def update_fits_def int4_def aggregates_fit_def variants_of_def write_update_def
        unique_list_def)
  have run: "processProductsDeltaChunk refresh_env (scan_log PRODUCTS_DELTA) (DProducts None) ''w1''
        (catalog_world, run_queue (scan_log PRODUCTS_DELTA))
      = (Inr (Done 1), catalog_world \<lparr> sw_db := d \<rparr>, run_queue (scan_log PRODUCTS_DELTA))"
    using w cred sid
    by (simp add: processProductsDeltaChunk_def catalog_world_def log st page delta_page_def Let_def del: One_nat_def)
  have "totals_ok shop_db" by (simp add: totals_ok_def shop_db_def empty_db_def variants_of_def computeProductAggregates_def)
  with delta_refresh_exact [OF run, of None ?st ?p] st shop_catalog_ok page
  have "db_variants d = map (delta_row 1 [?f]) (db_variants shop_db)" "totals_ok d"
    by (simp_all add: catalog_world_def log example_store_def del: One_nat_def)
  then show ?thesis
    using run by (auto simp: shop_db_def empty_db_def delta_row_def refreshed_def variant_key_def)
qed

end
