(* ===== verification/Spec2Isabelle.thy ===== *)
theory Spec2Isabelle
  imports Unit_Pricing Permissions Settled Claim_Return Sync_Worker_Props Order_Claims Breakdown Settlement_Claims Catalog_Claims
begin

text \<open>
  Skeleton of the header.
\<close>

end
